(* ===== verification/Prelude.thy ===== *)
theory Prelude
  imports Complex_Main "HOL-Library.AList" "HOL-Library.Char_ord" "HOL-Library.List_Lexorder"
    "HOL-Library.Product_Lexorder"
begin

text \<open>
  Shared vocabulary of the development: results of fallible TypeScript code (a thrown error is
  the left summand), loops that may throw, and the two JavaScript collections the sources use
  everywhere, \<open>Map\<close> and \<open>Set\<close>, both in insertion order. The generic lemmas about them
  are collected in \<open>res_simps\<close>, \<open>js_simps\<close> and \<open>loop_simps\<close>.
\<close>

named_theorems res_simps \<open>equations of the error monad\<close>
named_theorems js_simps \<open>equations of JavaScript maps, sets and strings\<close>
named_theorems loop_simps \<open>characterisations of loops that may throw\<close>

section \<open>Fallible computations\<close>

type_synonym ('e, 'a) result = "'e + 'a"

abbreviation Throw :: "'e \<Rightarrow> ('e, 'a) result" where
  "Throw \<equiv> Inl"

abbreviation Return :: "'a \<Rightarrow> ('e, 'a) result" where
  "Return \<equiv> Inr"

definition bind_res :: "('e, 'a) result \<Rightarrow> ('a \<Rightarrow> ('e, 'b) result) \<Rightarrow> ('e, 'b) result" where
  "bind_res m k = (case m of Inl e \<Rightarrow> Inl e | Inr x \<Rightarrow> k x)"

text \<open>\<open>if (b) throw e\<close>: the statement continues with the unit value when the guard fails.\<close>

definition throw_if :: "bool \<Rightarrow> 'e \<Rightarrow> ('e, unit) result" where
  "throw_if b e = (if b then Throw e else Return ())"

text \<open>\<open>try { m } catch (error) { h error }\<close>.\<close>

definition catch_res :: "('e, 'a) result \<Rightarrow> ('e \<Rightarrow> ('f, 'a) result) \<Rightarrow> ('f, 'a) result" where
  "catch_res m h = (case m of Inl e \<Rightarrow> h e | Inr x \<Rightarrow> Return x)"

text \<open>An error of one layer as an error of the layer above.\<close>

definition map_err :: "('e \<Rightarrow> 'f) \<Rightarrow> ('e, 'a) result \<Rightarrow> ('f, 'a) result" where
  "map_err f m = (case m of Inl e \<Rightarrow> Inl (f e) | Inr x \<Rightarrow> Inr x)"

text \<open>\<open>for (const x of xs) state = body(x, state)\<close>, leaving at the first throw.\<close>

fun for_each :: "('a \<Rightarrow> 's \<Rightarrow> ('e, 's) result) \<Rightarrow> 'a list \<Rightarrow> 's \<Rightarrow> ('e, 's) result" where
  "for_each body [] s = Return s"
| "for_each body (x # xs) s = bind_res (body x s) (for_each body xs)"

text \<open>\<open>Array.prototype.map\<close> with a callback that may throw.\<close>

fun map_res :: "('a \<Rightarrow> ('e, 'b) result) \<Rightarrow> 'a list \<Rightarrow> ('e, 'b list) result" where
  "map_res f [] = Return []"
| "map_res f (x # xs) = bind_res (f x) (\<lambda>y. bind_res (map_res f xs) (\<lambda>ys. Return (y # ys)))"

section \<open>JavaScript collections\<close>

text \<open>
  A JavaScript \<open>Map\<close> iterates its entries in insertion order and \<open>set\<close> on a present key
  keeps the position: the association lists of \<open>HOL-Library.AList\<close> behave exactly so.
\<close>

type_synonym ('k, 'v) js_map = "('k \<times> 'v) list"

definition map_put :: "'k \<Rightarrow> 'v \<Rightarrow> ('k, 'v) js_map \<Rightarrow> ('k, 'v) js_map" where
  "map_put = AList.update"

definition map_get :: "('k, 'v) js_map \<Rightarrow> 'k \<Rightarrow> 'v option" where
  "map_get = map_of"

definition map_has :: "('k, 'v) js_map \<Rightarrow> 'k \<Rightarrow> bool" where
  "map_has m k = (map_get m k \<noteq> None)"

definition map_keys :: "('k, 'v) js_map \<Rightarrow> 'k list" where
  "map_keys = map fst"

text \<open>A JavaScript \<open>Set\<close> as the list of its members in insertion order.\<close>

definition set_add :: "'a \<Rightarrow> 'a list \<Rightarrow> 'a list" where
  "set_add x xs = (if x \<in> set xs then xs else xs @ [x])"

definition set_delete :: "'a \<Rightarrow> 'a list \<Rightarrow> 'a list" where
  "set_delete x xs = filter (\<lambda>y. y \<noteq> x) xs"

definition set_of_list :: "'a list \<Rightarrow> 'a list" where
  "set_of_list xs = fold set_add xs []"

text \<open>\<open>new Map(xs.map((x) => [k(x), v(x)]))\<close>.\<close>

definition map_of_entries :: "('a \<Rightarrow> 'k) \<Rightarrow> ('a \<Rightarrow> 'v) \<Rightarrow> 'a list \<Rightarrow> ('k, 'v) js_map" where
  "map_of_entries k v xs = fold (\<lambda>x. map_put (k x) (v x)) xs []"

section \<open>JavaScript strings and numbers\<close>

text \<open>
  Strings are lists of Latin-1 code units. \<open>js_trim\<close>, \<open>js_toLowerCase\<close>,
  \<open>js_startsWith\<close>, \<open>js_endsWith\<close>, \<open>js_includes\<close> and \<open>js_join\<close> are the
  methods of \<open>String.prototype\<close> and \<open>Array.prototype\<close> that the sources call, and
  \<open>js_decimal\<close> is the conversion of a non-negative integer to a string.
\<close>

definition code :: "char \<Rightarrow> nat" where
  "code c = of_char c"

definition is_lower :: "char \<Rightarrow> bool" where
  "is_lower c \<longleftrightarrow> 97 \<le> code c \<and> code c \<le> 122"

definition is_upper :: "char \<Rightarrow> bool" where
  "is_upper c \<longleftrightarrow> 65 \<le> code c \<and> code c \<le> 90"

definition is_digit :: "char \<Rightarrow> bool" where
  "is_digit c \<longleftrightarrow> 48 \<le> code c \<and> code c \<le> 57"

definition js_space :: "char \<Rightarrow> bool" where
  "js_space c \<longleftrightarrow> (9 \<le> code c \<and> code c \<le> 13) \<or> code c = 32 \<or> code c = 160"

definition js_trim :: "string \<Rightarrow> string" where
  "js_trim s = rev (dropWhile js_space (rev (dropWhile js_space s)))"

definition js_lower_char :: "char \<Rightarrow> char" where
  "js_lower_char c =
     (if is_upper c \<or> (192 \<le> code c \<and> code c \<le> 222 \<and> code c \<noteq> 215)
      then char_of (code c + 32) else c)"

definition js_toLowerCase :: "string \<Rightarrow> string" where
  "js_toLowerCase = map js_lower_char"

definition js_startsWith :: "string \<Rightarrow> string \<Rightarrow> bool" where
  "js_startsWith s p \<longleftrightarrow> take (length p) s = p"

definition js_endsWith :: "string \<Rightarrow> string \<Rightarrow> bool" where
  "js_endsWith s p \<longleftrightarrow> js_startsWith (rev s) (rev p)"

fun js_includes :: "string \<Rightarrow> string \<Rightarrow> bool" where
  "js_includes [] p = (p = [])"
| "js_includes (c # s) p = (js_startsWith (c # s) p \<or> js_includes s p)"

fun js_join :: "string \<Rightarrow> string list \<Rightarrow> string" where
  "js_join sep [] = []"
| "js_join sep [x] = x"
| "js_join sep (x # y # xs) = x @ sep @ js_join sep (y # xs)"

fun js_decimal :: "nat \<Rightarrow> string" where
  "js_decimal n =
     (if n < 10 then [char_of (48 + n)] else js_decimal (n div 10) @ [char_of (48 + n mod 10)])"

declare js_decimal.simps [simp del]

text \<open>\<open>s.split(sep)\<close> for a separator of one character, and \<open>Number\<close> of a string of digits.\<close>

fun js_split :: "char \<Rightarrow> string \<Rightarrow> string list" where
  "js_split sep [] = [[]]"
| "js_split sep (c # s) =
     (if c = sep then [] # js_split sep s
      else (case js_split sep s of [] \<Rightarrow> [[c]] | w # ws \<Rightarrow> (c # w) # ws))"

definition js_digits_value :: "string \<Rightarrow> nat" where
  "js_digits_value s = foldl (\<lambda>n c. 10 * n + (code c - 48)) 0 s"

section \<open>Lemmas on strings\<close>

lemma split_no_sep: "sep \<notin> set s \<Longrightarrow> js_split sep s = [s]"
  by (induction s) auto

lemma split_append: "sep \<notin> set s \<Longrightarrow> js_split sep (s @ sep # t) = s # js_split sep t"
  by (induction s) auto

lemma split_join:
  "ss \<noteq> [] \<Longrightarrow> \<forall>s\<in>set ss. sep \<notin> set s \<Longrightarrow> js_split sep (js_join [sep] ss) = ss"
  by (induction "[sep]" ss rule: js_join.induct) (auto simp: split_no_sep split_append)

lemma split_not_Nil: "js_split sep s \<noteq> []"
  by (cases s) (auto split: list.splits)

lemma join_split: "js_join [sep] (js_split sep s) = s"
proof (induction s)
  case (Cons c s)
  obtain w ws where "js_split sep s = w # ws" using split_not_Nil by (metis list.exhaust)
  with Cons show ?case by (cases ws) auto
qed simp

lemma split_eq_join: "js_split sep s = ss \<Longrightarrow> s = js_join [sep] ss"
  using join_split by metis

lemma code_char_of [simp]: "n < 256 \<Longrightarrow> code (char_of n) = n"
  by (simp add: code_def)

text \<open>The decimal form of a number has only digits and reads back as the number.\<close>

lemma decimal_digits: "list_all is_digit (js_decimal n)"
proof (induction n rule: js_decimal.induct)
  case (1 n)
  moreover have "is_digit (char_of (48 + k))" if "k < 10" for k :: nat using that by (simp add: is_digit_def)
  ultimately show ?case by (subst js_decimal.simps) simp
qed

lemma decimal_value: "js_digits_value (js_decimal n) = n"
proof (induction n rule: js_decimal.induct)
  case (1 n)
  then show ?case by (subst js_decimal.simps) (auto simp: js_digits_value_def)
qed

lemma decimal_length: "n < 10 \<Longrightarrow> length (js_decimal n) = 1" "n < 100 \<Longrightarrow> length (js_decimal n) \<in> {1, 2}"
proof -
  show "n < 10 \<Longrightarrow> length (js_decimal n) = 1" by (subst js_decimal.simps) simp
  assume "n < 100"
  then have "n div 10 < 10" by simp
  then show "length (js_decimal n) \<in> {1, 2}" by (subst js_decimal.simps) (simp add: js_decimal.simps [of "n div 10"])
qed

section \<open>Lemmas on fallible computations\<close>

lemma find_append [js_simps]:
  "find P (xs @ ys) = (case find P xs of None \<Rightarrow> find P ys | Some x \<Rightarrow> Some x)"
  by (induction xs) auto

lemma find_mem: "find P xs = Some x \<Longrightarrow> x \<in> set xs \<and> P x"
  by (auto simp: find_Some_iff)

lemma pred_option_code [code]:
  "pred_option P None \<longleftrightarrow> True"
  "pred_option P (Some x) \<longleftrightarrow> P x"
  by simp_all

lemma filter_Cons_mem: "filter P xs = x # ys \<Longrightarrow> x \<in> set xs \<and> P x"
  by (drule filter_eq_ConsD) auto

lemma bind_res_simps [simp, res_simps]:
  "bind_res (Throw e) k = Throw e"
  "bind_res (Return x) k = k x"
  by (simp_all add: bind_res_def)

lemma bind_res_Return_iff [res_simps]:
  "bind_res m k = Return y \<longleftrightarrow> (\<exists>x. m = Return x \<and> k x = Return y)"
  by (cases m) auto

lemma bind_res_pair_Return_iff [res_simps]:
  "bind_res m (\<lambda>(a, b). k a b) = Return y \<longleftrightarrow> (\<exists>a b. m = Return (a, b) \<and> k a b = Return y)"
  by (cases m) (auto split: prod.splits)

lemma bind_res_Throw_iff [res_simps]:
  "bind_res m k = Throw e \<longleftrightarrow> m = Throw e \<or> (\<exists>x. m = Return x \<and> k x = Throw e)"
  by (cases m) auto

lemma throw_if_simps [simp, res_simps]:
  "throw_if True e = Throw e"
  "throw_if False e = Return ()"
  by (simp_all add: throw_if_def)

lemma throw_if_iff [res_simps]:
  "throw_if b e = Return u \<longleftrightarrow> \<not> b"
  "throw_if b e = Throw e' \<longleftrightarrow> b \<and> e' = e"
  by (auto simp: throw_if_def)

lemma catch_res_simps [simp, res_simps]:
  "catch_res (Throw e) h = h e"
  "catch_res (Return x) h = Return x"
  by (simp_all add: catch_res_def)

lemma map_err_simps [simp, res_simps]:
  "map_err f (Throw e) = Throw (f e)"
  "map_err f (Return x) = Return x"
  by (simp_all add: map_err_def)

lemma map_err_Return_iff [simp, res_simps]: "map_err f m = Return x \<longleftrightarrow> m = Return x"
  by (cases m) simp_all

lemma map_err_Throw_iff [res_simps]: "map_err f m = Throw e \<longleftrightarrow> (\<exists>d. m = Throw d \<and> e = f d)"
  by (cases m) auto

text \<open>Recursive calls behind a bind are made on the value the first computation returned.\<close>

lemma bind_res_cong [fundef_cong]:
  "m = m' \<Longrightarrow> (\<And>x. m' = Return x \<Longrightarrow> k x = k' x) \<Longrightarrow> bind_res m k = bind_res m' k'"
  by (cases m') auto

text \<open>A loop whose body only checks a guard throws at the first element that fails it.\<close>

lemma for_each_guard_iff [loop_simps]:
  "for_each (\<lambda>x s. bind_res (throw_if (bad x) e) (\<lambda>_. Return s)) xs s = Return t \<longleftrightarrow>
     t = s \<and> (\<forall>x\<in>set xs. \<not> bad x)"
  by (induction xs) (auto simp: throw_if_def)

lemma for_each_append [res_simps]:
  "for_each body (xs @ ys) s = bind_res (for_each body xs s) (for_each body ys)"
  by (induction xs arbitrary: s) (auto simp: bind_res_def split: sum.splits)

lemma map_res_Return_iff [res_simps]:
  "map_res f xs = Return ys \<longleftrightarrow> list_all2 (\<lambda>x y. f x = Return y) xs ys"
  by (induction xs arbitrary: ys) (auto simp: bind_res_Return_iff list_all2_Cons1)

section \<open>The contract of an index and its implementation\<close>

text \<open>
  The code builds its indexes by repeated \<open>set\<close> and reads them with \<open>get\<close>. The two laws
  below are all that the clients (step, component and identifier indexes) rely on.
\<close>

locale keyed_index =
  fixes emptyIx :: "'m"
    and putIx :: "'k \<Rightarrow> 'v \<Rightarrow> 'm \<Rightarrow> 'm"
    and getIx :: "'m \<Rightarrow> 'k \<Rightarrow> 'v option"
  assumes get_empty: "getIx emptyIx k = None"
    and get_put: "getIx (putIx k v m) k' = (if k' = k then Some v else getIx m k')"
begin

lemma get_fold_put:
  "getIx (fold (\<lambda>x. putIx (key x) (val x)) xs m) k =
     (case find (\<lambda>x. key x = k) (rev xs) of None \<Rightarrow> getIx m k | Some x \<Rightarrow> Some (val x))"
proof (induction xs arbitrary: m)
  case Nil
  then show ?case by simp
next
  case (Cons x xs)
  then show ?case
    by (cases "find (\<lambda>x. key x = k) (rev xs)")
      (auto simp: get_put find_append split: option.splits)
qed

lemma get_fold_put_empty:
  "getIx (fold (\<lambda>x. putIx (key x) (val x)) xs emptyIx) k =
     map_option val (find (\<lambda>x. key x = k) (rev xs))"
  by (simp add: get_fold_put get_empty split: option.splits)

text \<open>With distinct keys the order of insertion is irrelevant.\<close>

lemma get_fold_put_distinct:
  assumes "distinct (map key xs)" and "x \<in> set xs"
  shows "getIx (fold (\<lambda>x. putIx (key x) (val x)) xs emptyIx) (key x) = Some (val x)"
proof -
  have "find (\<lambda>y. key y = key x) (rev xs) = Some x"
  proof (cases "find (\<lambda>y. key y = key x) (rev xs)")
    case None
    with assms(2) show ?thesis by (auto simp: find_None_iff)
  next
    case (Some y)
    then have "y \<in> set xs" "key y = key x"
      by (auto simp: find_Some_iff rev_nth)
    with assms have "y = x" by (auto simp: distinct_map inj_on_def)
    with Some show ?thesis by simp
  qed
  then show ?thesis by (simp add: get_fold_put_empty)
qed

end

lemma map_get_put [js_simps]:
  "map_get (map_put k v m) k' = (if k' = k then Some v else map_get m k')"
  by (simp add: map_get_def map_put_def update_conv')

lemma map_get_Nil [simp, js_simps]: "map_get [] k = None"
  by (simp add: map_get_def)

interpretation js_index: keyed_index "[] :: ('k \<times> 'v) list" map_put map_get
  by unfold_locales (simp_all add: map_get_put)

lemma map_has_iff [js_simps]: "map_has m k \<longleftrightarrow> k \<in> set (map_keys m)"
  by (auto simp: map_has_def map_get_def map_keys_def map_of_eq_None_iff)

lemma map_keys_put [js_simps]: "map_keys (map_put k v m) = set_add k (map_keys m)"
  unfolding map_keys_def map_put_def set_add_def
  by (induction m) (auto split: if_splits)

lemma set_set_add [simp, js_simps]: "set (set_add x xs) = insert x (set xs)"
  by (auto simp: set_add_def)

lemma distinct_set_add [simp, js_simps]: "distinct (set_add x xs) = distinct xs"
  by (auto simp: set_add_def)

lemma set_set_delete [simp, js_simps]: "set (set_delete x xs) = set xs - {x}"
  by (auto simp: set_delete_def)

lemma distinct_set_delete [simp]: "distinct xs \<Longrightarrow> distinct (set_delete x xs)"
  by (simp add: set_delete_def)

lemma set_fold_set_add [js_simps]: "set (fold set_add xs ys) = set xs \<union> set ys"
  by (induction xs arbitrary: ys) auto

lemma distinct_fold_set_add [js_simps]: "distinct (fold set_add xs ys) = distinct ys"
  by (induction xs arbitrary: ys) auto

lemma set_set_of_list [simp, js_simps]: "set (set_of_list xs) = set xs"
  by (simp add: set_of_list_def set_fold_set_add)

lemma distinct_set_of_list [simp, js_simps]: "distinct (set_of_list xs)"
  by (simp add: set_of_list_def distinct_fold_set_add)

text \<open>A loop that rejects a key seen before succeeds exactly on distinct keys.\<close>

lemma for_each_unique_iff [loop_simps]:
  "for_each (\<lambda>x seen. bind_res (throw_if (k x \<in> set seen) e)
       (\<lambda>_. Return (set_add (k x) seen))) xs seen = Return t \<longleftrightarrow>
     distinct (map k xs) \<and> k ` set xs \<inter> set seen = {} \<and> t = fold set_add (map k xs) seen"
  by (induction xs arbitrary: seen) (auto simp: throw_if_def)

lemma map_get_entries [js_simps]:
  "map_get (map_of_entries k v xs) key = map_option v (find (\<lambda>x. k x = key) (rev xs))"
  unfolding map_of_entries_def by (rule js_index.get_fold_put_empty)

lemma map_keys_entries_set [js_simps]: "set (map_keys (map_of_entries k v xs)) = k ` set xs"
proof -
  have "set (map_keys (fold (\<lambda>x. map_put (k x) (v x)) xs m)) = k ` set xs \<union> set (map_keys m)" for m
    by (induction xs arbitrary: m) (auto simp: map_keys_put)
  from this [of "[]"] show ?thesis by (simp add: map_of_entries_def map_keys_def)
qed

lemma find_rev_mem [js_simps]:
  "find P (rev xs) = Some x \<Longrightarrow> x \<in> set xs \<and> P x"
  by (auto simp: find_Some_iff rev_nth)

section \<open>Machines driven by events\<close>

text \<open>
  A component whose operations either return a new state or throw is driven by a list of events;
  an operation that throws leaves the state as it was. \<open>run_log\<close> collects what the accepted
  events contribute to an observation.
\<close>

fun run_steps :: "('s \<Rightarrow> 'ev \<Rightarrow> ('e, 's) result) \<Rightarrow> 's \<Rightarrow> 'ev list \<Rightarrow> 's" where
  "run_steps step s [] = s"
| "run_steps step s (e # es) =
     run_steps step (case step s e of Inl _ \<Rightarrow> s | Inr s' \<Rightarrow> s') es"

fun run_log ::
  "('s \<Rightarrow> 'ev \<Rightarrow> ('e, 's) result) \<Rightarrow> ('s \<Rightarrow> 'ev \<Rightarrow> 'r list) \<Rightarrow> 's \<Rightarrow> 'ev list \<Rightarrow> 'r list" where
  "run_log step obs s [] = []"
| "run_log step obs s (e # es) =
     (case step s e of
        Inl _ \<Rightarrow> run_log step obs s es
      | Inr s' \<Rightarrow> obs s e @ run_log step obs s' es)"

locale invariant_machine =
  fixes step :: "'s \<Rightarrow> 'ev \<Rightarrow> ('e, 's) result"
    and inv :: "'s \<Rightarrow> bool"
  assumes step_inv: "inv s \<Longrightarrow> step s e = Return s' \<Longrightarrow> inv s'"
begin

lemma run_inv: "inv s \<Longrightarrow> inv (run_steps step s es)"
  by (induction es arbitrary: s) (auto split: sum.splits intro: step_inv)

end

text \<open>
  Operations that belong to an actor and leave alone what every other actor sees.
\<close>

locale isolated_machine = invariant_machine +
  fixes actor :: "'ev \<Rightarrow> 'o"
    and view :: "'s \<Rightarrow> 'o \<Rightarrow> 'v"
  assumes step_isolated:
    "inv s \<Longrightarrow> step s e = Return s' \<Longrightarrow> actor e \<noteq> other \<Longrightarrow> view s' other = view s other"
begin

lemma run_isolated:
  "inv s \<Longrightarrow> (\<And>e. e \<in> set es \<Longrightarrow> actor e \<noteq> other) \<Longrightarrow>
     view (run_steps step s es) other = view s other"
proof (induction es arbitrary: s)
  case Nil
  then show ?case by simp
next
  case (Cons e es)
  show ?case
  proof (cases "step s e")
    case (Inl err)
    with Cons show ?thesis by simp
  next
    case (Inr s')
    have "view (run_steps step s' es) other = view s' other"
      using Cons.IH [OF step_inv [OF Cons.prems(1) Inr]] Cons.prems(2) by simp
    also have "\<dots> = view s other" using step_isolated [OF Cons.prems(1) Inr] Cons.prems(2) by simp
    finally show ?thesis using Inr by simp
  qed
qed

end

text \<open>
  First in, first out: every accepted event appends to the pending work and every release takes
  from its front, so nothing is lost, duplicated or overtaken along a run.
\<close>

locale fifo_machine = invariant_machine +
  fixes pending :: "'s \<Rightarrow> 'r list"
    and accepted :: "'s \<Rightarrow> 'ev \<Rightarrow> 'r list"
    and released :: "'s \<Rightarrow> 'ev \<Rightarrow> 'r list"
  assumes step_conserves:
    "inv s \<Longrightarrow> step s e = Return s' \<Longrightarrow> pending s @ accepted s e = released s e @ pending s'"
begin

lemma run_conserves:
  "inv s \<Longrightarrow>
     pending s @ run_log step accepted s es =
     run_log step released s es @ pending (run_steps step s es)"
proof (induction es arbitrary: s)
  case Nil
  then show ?case by simp
next
  case (Cons e es)
  show ?case
  proof (cases "step s e")
    case (Inl err)
    with Cons show ?thesis by simp
  next
    case (Inr s')
    have "pending s' @ run_log step accepted s' es =
        run_log step released s' es @ pending (run_steps step s' es)"
      using Cons.IH step_inv [OF Cons.prems Inr] by blast
    with Inr step_conserves [OF Cons.prems Inr] show ?thesis
      by (metis append.assoc run_log.simps(2) run_steps.simps(2) sum.simps(6))
  qed
qed

end

end
