(* ===== verification/Contracts.thy ===== *)
theory Contracts
  imports Prelude
begin

text \<open>
  The cross-service contracts of \<open>packages/contracts\<close>: the types generated from the canonical
  JSON Schemas, the request types of the pipeline API, the runtime validators derived from the
  schemas, the capability filter and the schema-fragment accessors of \<open>json-schema.ts\<close>.
  The string formats \<open>uuid\<close> and \<open>date-time\<close> are checked by zod, which is not part of the
  repository: they are the two predicates of the parameter \<open>zod_formats\<close>. Everything else a
  schema states (enumerations, constants, patterns, minimum lengths and counts) is written out.
\<close>

section \<open>Data\<close>

text \<open>JSON documents; a number is the rational that the finite double denotes.\<close>

datatype json =
    JNull
  | JBool bool
  | JNum rat
  | JStr string
  | JArr "json list"
  | JObj "(string \<times> json) list"

datatype DataFamily = FamilyAny | FamilyDocument | FamilyTabular | FamilyFile

datatype ComponentKind = Source | Transform | Export

datatype ConfigFieldType =
  TextField | TextareaField | NumberField | BooleanField | SelectField | JsonField | FileField

datatype ConfigFieldWidth = ShortWidth | MediumWidth | FullWidth

record ConfigOption =
  co_value :: string
  co_labelKey :: string

record ConfigField =
  cf_key :: string
  cf_type :: ConfigFieldType
  cf_labelKey :: string
  cf_descriptionKey :: "string option"
  cf_placeholderKey :: "string option"
  cf_required :: bool
  cf_secret :: bool
  cf_width :: "ConfigFieldWidth option"
  cf_defaultValue :: "json option"
  cf_options :: "ConfigOption list option"

record ComponentMetadata =
  cm_kind :: ComponentKind
  cm_type :: string
  cm_version :: string
  cm_displayNameKey :: string
  cm_descriptionKey :: string
  cm_configFields :: "ConfigField list"
  cm_inputFamilies :: "DataFamily list"
  cm_outputFamilies :: "DataFamily list"

record SecretBinding =
  sb_key :: string
  sb_binding :: string

record ComponentConfiguration =
  cc_values :: "(string \<times> json) list"
  cc_secretBindings :: "SecretBinding list"

record PipelineStep =
  ps_id :: string
  ps_kind :: ComponentKind
  ps_componentType :: string
  ps_componentVersion :: string
  ps_configuration :: ComponentConfiguration

record PipelineEdge =
  pe_fromStepId :: string
  pe_toStepId :: string

datatype Trigger =
    ManualTrigger (tr_id: string) (tr_pipelineId: string) (tr_enabled: bool)
  | ScheduleTrigger (tr_id: string) (tr_pipelineId: string) (tr_enabled: bool)
      (tr_cron: string) (tr_timezone: string)

datatype PipelineState = Draft | Enabled | Disabled

record Pipeline =
  p_contractVersion :: string
  p_id :: string
  p_ownerUserId :: string
  p_name :: string
  p_state :: PipelineState
  p_createdAt :: string
  p_updatedAt :: string
  p_steps :: "PipelineStep list"
  p_edges :: "PipelineEdge list"
  p_triggers :: "Trigger list"

datatype RunState =
  RunQueued | RunRunning | RunSucceeded | RunCompletedWithWarnings | RunFailed | RunCancelled

datatype JobState = JobQueued | JobRunning | JobSucceeded | JobFailed | JobCancelled

datatype WritablePipelineTrigger =
    WritableManual (wt_enabled: bool)
  | WritableSchedule (wt_enabled: bool) (wt_cron: string) (wt_timezone: string)

record PipelineCreateRequest =
  cr_contractVersion :: string
  cr_edges :: "PipelineEdge list"
  cr_name :: string
  cr_steps :: "PipelineStep list"
  cr_triggers :: "WritablePipelineTrigger list"

record PipelineUpdateRequest =
  ur_edges :: "PipelineEdge list option"
  ur_name :: "string option"
  ur_state :: "PipelineState option"
  ur_steps :: "PipelineStep list option"
  ur_triggers :: "WritablePipelineTrigger list option"

section \<open>Validators\<close>

record zod_formats =
  uuid_format :: "string \<Rightarrow> bool"
  datetime_format :: "string \<Rightarrow> bool"

definition CONTRACT_VERSION :: string where
  "CONTRACT_VERSION = ''v1''"

text \<open>\<open>^v\d+$\<close>.\<close>

definition versionSchema_ok :: "string \<Rightarrow> bool" where
  "versionSchema_ok s =
     (case s of [] \<Rightarrow> False | c # ds \<Rightarrow> c = CHR ''v'' \<and> ds \<noteq> [] \<and> list_all is_digit ds)"

text \<open>\<open>^[a-z][a-z0-9]*(?:[._-][a-z0-9]+)*$\<close>: the flag says whether a group may end here.\<close>

fun componentType_rest :: "bool \<Rightarrow> string \<Rightarrow> bool" where
  "componentType_rest mayEnd [] = mayEnd"
| "componentType_rest mayEnd (c # cs) =
     (if is_lower c \<or> is_digit c then componentType_rest True cs
      else mayEnd \<and> c \<in> set ''._-'' \<and> componentType_rest False cs)"

definition componentTypeSchema_ok :: "string \<Rightarrow> bool" where
  "componentTypeSchema_ok s =
     (case s of [] \<Rightarrow> False | c # cs \<Rightarrow> is_lower c \<and> componentType_rest True cs)"

text \<open>
  The property-name pattern of configuration values: non-empty, on one line, and without a
  credential-like word in any capitalisation.
\<close>

definition secretKeyWords :: "string list" where
  "secretKeyWords =
     [''apikey'', ''api_key'', ''api-key'', ''authorization'', ''credential'', ''password'',
      ''secret'', ''token'']"

definition nonSecretKey_ok :: "string \<Rightarrow> bool" where
  "nonSecretKey_ok k \<longleftrightarrow>
     k \<noteq> [] \<and> list_all (\<lambda>c. code c \<noteq> 10 \<and> code c \<noteq> 13) k \<and>
     list_all (\<lambda>w. \<not> js_includes (map (\<lambda>c. if is_upper c then char_of (code c + 32) else c) k) w)
       secretKeyWords"

fun nonSecretJsonValue_ok :: "json \<Rightarrow> bool" where
  "nonSecretJsonValue_ok (JArr xs) = list_all nonSecretJsonValue_ok xs"
| "nonSecretJsonValue_ok (JObj kvs) =
     list_all (\<lambda>(k, v). nonSecretKey_ok k \<and> nonSecretJsonValue_ok v) kvs"
| "nonSecretJsonValue_ok _ = True"

definition secretBindingSchema_ok :: "SecretBinding \<Rightarrow> bool" where
  "secretBindingSchema_ok b \<longleftrightarrow> sb_key b \<noteq> [] \<and> sb_binding b \<noteq> []"

definition componentConfigurationSchema_ok :: "ComponentConfiguration \<Rightarrow> bool" where
  "componentConfigurationSchema_ok c \<longleftrightarrow>
     nonSecretJsonValue_ok (JObj (cc_values c)) \<and>
     list_all secretBindingSchema_ok (cc_secretBindings c)"

definition pipelineStepSchema_ok :: "zod_formats \<Rightarrow> PipelineStep \<Rightarrow> bool" where
  "pipelineStepSchema_ok zf s \<longleftrightarrow>
     uuid_format zf (ps_id s) \<and> componentTypeSchema_ok (ps_componentType s) \<and>
     versionSchema_ok (ps_componentVersion s) \<and>
     componentConfigurationSchema_ok (ps_configuration s)"

definition pipelineEdgeSchema_ok :: "zod_formats \<Rightarrow> PipelineEdge \<Rightarrow> bool" where
  "pipelineEdgeSchema_ok zf e \<longleftrightarrow>
     uuid_format zf (pe_fromStepId e) \<and> uuid_format zf (pe_toStepId e)"

fun triggerSchema_ok :: "zod_formats \<Rightarrow> Trigger \<Rightarrow> bool" where
  "triggerSchema_ok zf (ManualTrigger i p e) \<longleftrightarrow> uuid_format zf i \<and> uuid_format zf p"
| "triggerSchema_ok zf (ScheduleTrigger i p e cron tz) \<longleftrightarrow>
     uuid_format zf i \<and> uuid_format zf p \<and> cron \<noteq> [] \<and> tz \<noteq> []"

definition pipelineSchema_ok :: "zod_formats \<Rightarrow> Pipeline \<Rightarrow> bool" where
  "pipelineSchema_ok zf p \<longleftrightarrow>
     p_contractVersion p = CONTRACT_VERSION \<and> uuid_format zf (p_id p) \<and>
     uuid_format zf (p_ownerUserId p) \<and> p_name p \<noteq> [] \<and>
     datetime_format zf (p_createdAt p) \<and> datetime_format zf (p_updatedAt p) \<and>
     p_steps p \<noteq> [] \<and> list_all (pipelineStepSchema_ok zf) (p_steps p) \<and>
     list_all (pipelineEdgeSchema_ok zf) (p_edges p) \<and>
     list_all (triggerSchema_ok zf) (p_triggers p)"

fun writablePipelineTriggerSchema_ok :: "WritablePipelineTrigger \<Rightarrow> bool" where
  "writablePipelineTriggerSchema_ok (WritableManual e) = True"
| "writablePipelineTriggerSchema_ok (WritableSchedule e cron tz) \<longleftrightarrow> cron \<noteq> [] \<and> tz \<noteq> []"

definition pipelineCreateRequestSchema_ok :: "zod_formats \<Rightarrow> PipelineCreateRequest \<Rightarrow> bool" where
  "pipelineCreateRequestSchema_ok zf r \<longleftrightarrow>
     cr_contractVersion r = CONTRACT_VERSION \<and>
     list_all (pipelineEdgeSchema_ok zf) (cr_edges r) \<and> cr_name r \<noteq> [] \<and>
     cr_steps r \<noteq> [] \<and> list_all (pipelineStepSchema_ok zf) (cr_steps r) \<and>
     list_all writablePipelineTriggerSchema_ok (cr_triggers r)"

definition pipelineUpdateRequestSchema_ok :: "zod_formats \<Rightarrow> PipelineUpdateRequest \<Rightarrow> bool" where
  "pipelineUpdateRequestSchema_ok zf r \<longleftrightarrow>
     pred_option (list_all (pipelineEdgeSchema_ok zf)) (ur_edges r) \<and>
     pred_option (\<lambda>n. n \<noteq> []) (ur_name r) \<and>
     pred_option (\<lambda>ss. ss \<noteq> [] \<and> list_all (pipelineStepSchema_ok zf) ss) (ur_steps r) \<and>
     pred_option (list_all writablePipelineTriggerSchema_ok) (ur_triggers r) \<and>
     (ur_edges r \<noteq> None \<or> ur_name r \<noteq> None \<or> ur_state r \<noteq> None \<or> ur_steps r \<noteq> None \<or>
      ur_triggers r \<noteq> None)"

section \<open>Capability catalog\<close>

definition filterComponentCapabilities ::
  "ComponentMetadata list \<Rightarrow> ComponentKind option \<Rightarrow> ComponentMetadata list" where
  "filterComponentCapabilities components kind =
     (case kind of None \<Rightarrow> components | Some k \<Rightarrow> filter (\<lambda>c. cm_kind c = k) components)"

section \<open>Schema fragments\<close>

datatype schema_error = SchemaTypeError | MissingSchema string

fun js_falsy :: "json \<Rightarrow> bool" where
  "js_falsy JNull = True"
| "js_falsy (JBool b) = (\<not> b)"
| "js_falsy (JNum n) = (n = 0)"
| "js_falsy (JStr s) = (s = [])"
| "js_falsy _ = False"

text \<open>\<open>value.name\<close>: reading a property of \<open>null\<close> throws, of any other non-object is undefined.\<close>

fun js_property :: "json \<Rightarrow> string \<Rightarrow> (schema_error, json option) result" where
  "js_property JNull name = Throw SchemaTypeError"
| "js_property (JObj kvs) name = Return (map_of kvs name)"
| "js_property _ name = Return None"

text \<open>\<open>value?.name\<close> and \<open>a ?? b\<close>.\<close>

definition js_optional_property :: "json option \<Rightarrow> string \<Rightarrow> json option" where
  "js_optional_property v name =
     (case v of Some (JObj kvs) \<Rightarrow> map_of kvs name | _ \<Rightarrow> None)"

definition js_nullish :: "json option \<Rightarrow> json option \<Rightarrow> json option" where
  "js_nullish a b = (case a of None \<Rightarrow> b | Some JNull \<Rightarrow> b | Some v \<Rightarrow> Some v)"

definition schemaDefinitions :: "json \<Rightarrow> (schema_error, json option) result" where
  "schemaDefinitions schema =
     bind_res (js_property schema ''$defs'') (\<lambda>d.
     bind_res (js_property schema ''definitions'') (\<lambda>d'. Return (js_nullish d d')))"

fun spread_entries :: "json \<Rightarrow> (string \<times> json) list" where
  "spread_entries (JObj kvs) = kvs"
| "spread_entries (JArr xs) = map (\<lambda>(i, x). (js_decimal i, x)) (enumerate 0 xs)"
| "spread_entries _ = []"

definition retainDefinitions :: "json \<Rightarrow> json \<Rightarrow> (schema_error, json) result" where
  "retainDefinitions parent fragment =
     (if (case fragment of JObj _ \<Rightarrow> False | JArr _ \<Rightarrow> False | _ \<Rightarrow> True) then Return fragment
      else bind_res (schemaDefinitions parent) (\<lambda>d.
        case d of
          None \<Rightarrow> Return fragment
        | Some ds \<Rightarrow> if js_falsy ds then Return fragment
            else Return (JObj (map_put ''$defs'' ds (spread_entries fragment)))))"

definition propertySchema :: "json \<Rightarrow> string \<Rightarrow> (schema_error, json) result" where
  "propertySchema schema propertyName =
     bind_res (js_property schema ''properties'') (\<lambda>properties.
     case js_optional_property properties propertyName of
       None \<Rightarrow> Throw (MissingSchema propertyName)
     | Some property \<Rightarrow>
         if js_falsy property then Throw (MissingSchema propertyName)
         else retainDefinitions schema property)"

definition arrayItemSchema :: "json \<Rightarrow> (schema_error, json) result" where
  "arrayItemSchema schema =
     bind_res (js_property schema ''items'') (\<lambda>items.
     case items of
       None \<Rightarrow> Throw (MissingSchema ''items'')
     | Some i \<Rightarrow>
         if js_falsy i then Throw (MissingSchema ''items'') else retainDefinitions schema i)"

definition definitionSchema :: "json \<Rightarrow> string \<Rightarrow> (schema_error, json) result" where
  "definitionSchema schema definitionName =
     bind_res (schemaDefinitions schema) (\<lambda>definitions.
     case js_optional_property definitions definitionName of
       None \<Rightarrow> Throw (MissingSchema definitionName)
     | Some def \<Rightarrow>
         if js_falsy def then Throw (MissingSchema definitionName)
         else Return (JObj (case definitions of
             None \<Rightarrow> spread_entries def
           | Some ds \<Rightarrow> map_put ''$defs'' ds (spread_entries def))))"

section \<open>Sample data\<close>

text \<open>A two-step pipeline and its catalog, on which the theorems are exercised.\<close>

definition sampleField :: "string \<Rightarrow> bool \<Rightarrow> ConfigField" where
  "sampleField key secret =
     \<lparr>cf_key = key, cf_type = TextField, cf_labelKey = key, cf_descriptionKey = None,
      cf_placeholderKey = None, cf_required = True, cf_secret = secret, cf_width = None,
      cf_defaultValue = None, cf_options = None\<rparr>"

definition sampleSourceComponent :: ComponentMetadata where
  "sampleSourceComponent =
     \<lparr>cm_kind = Source, cm_type = ''csv'', cm_version = ''v1'', cm_displayNameKey = ''csv'',
      cm_descriptionKey = ''csv'', cm_configFields = [sampleField ''path'' False],
      cm_inputFamilies = [], cm_outputFamilies = [FamilyTabular]\<rparr>"

definition sampleExportComponent :: ComponentMetadata where
  "sampleExportComponent =
     \<lparr>cm_kind = Export, cm_type = ''db'', cm_version = ''v1'', cm_displayNameKey = ''db'',
      cm_descriptionKey = ''db'', cm_configFields = [sampleField ''dsn'' True],
      cm_inputFamilies = [FamilyTabular], cm_outputFamilies = []\<rparr>"

definition sampleCatalog :: "ComponentMetadata list" where
  "sampleCatalog = [sampleSourceComponent, sampleExportComponent]"

definition sampleSourceStep :: PipelineStep where
  "sampleSourceStep =
     \<lparr>ps_id = ''s1'', ps_kind = Source, ps_componentType = ''csv'', ps_componentVersion = ''v1'',
      ps_configuration = \<lparr>cc_values = [(''path'', JStr ''in.csv'')], cc_secretBindings = []\<rparr>\<rparr>"

definition sampleExportStep :: PipelineStep where
  "sampleExportStep =
     \<lparr>ps_id = ''s2'', ps_kind = Export, ps_componentType = ''db'', ps_componentVersion = ''v1'',
      ps_configuration = \<lparr>cc_values = [],
        cc_secretBindings = [\<lparr>sb_key = ''dsn'', sb_binding = ''PG_DSN''\<rparr>]\<rparr>\<rparr>"

definition sampleEdge :: PipelineEdge where
  "sampleEdge = \<lparr>pe_fromStepId = ''s1'', pe_toStepId = ''s2''\<rparr>"

definition samplePipeline :: Pipeline where
  "samplePipeline =
     \<lparr>p_contractVersion = ''v1'', p_id = ''p1'', p_ownerUserId = ''u1'', p_name = ''Load'',
      p_state = Draft, p_createdAt = ''2026-01-01'', p_updatedAt = ''2026-01-02'',
      p_steps = [sampleSourceStep, sampleExportStep], p_edges = [sampleEdge],
      p_triggers = [ManualTrigger ''t1'' ''p1'' True]\<rparr>"

lemmas sample_defs = sampleField_def sampleSourceComponent_def sampleExportComponent_def
  sampleCatalog_def sampleSourceStep_def sampleExportStep_def sampleEdge_def samplePipeline_def

section \<open>Facts about the validators\<close>

lemma componentType_rest_no_at: "componentType_rest b s \<Longrightarrow> CHR ''@'' \<notin> set s"
  by (induction b s rule: componentType_rest.induct)
    (auto simp: is_lower_def is_digit_def code_def split: if_splits)

text \<open>A contract-valid component type never contains the separator of the lookup key.\<close>

lemma componentType_no_at: "componentTypeSchema_ok s \<Longrightarrow> CHR ''@'' \<notin> set s"
  by (cases s)
    (auto simp: componentTypeSchema_ok_def is_lower_def code_def dest: componentType_rest_no_at)

lemma set_filterComponentCapabilities:
  "set (filterComponentCapabilities cs kind) = {c \<in> set cs. kind = None \<or> kind = Some (cm_kind c)}"
  by (auto simp: filterComponentCapabilities_def split: option.splits)

end
