(* ===== verification/Database.thy ===== *)
theory Database
  imports Contracts
begin

text \<open>
  The relational schema of \<open>packages/database/src/schema\<close> and the statements the repository
  executes on it. A table is the list of its rows; a \<open>record\<close> per table has its columns.
  PostgreSQL itself is not part of the repository: what the code relies on is the documented effect
  of the constraints the schema declares, so every statement checks the primary keys, unique
  indexes, foreign keys and check constraints of the rows it touches and fails with the violated
  constraint, and deletions cascade, restrict or set null as declared. \<open>gen_random_uuid\<close> is a
  parameter of the statements that use column defaults; the counter \<open>db_uuids\<close> says how many
  values were drawn. Timestamps are milliseconds since the epoch.
\<close>

section \<open>Rows\<close>

type_synonym time = int

datatype TriggerType = TriggerManual | TriggerSchedule

datatype OperationalEventKind =
    EvRunQueued | EvRunStarted | EvRunSucceeded | EvRunCompletedWithWarnings | EvRunFailed
  | EvRunCancelled | EvStepQueued | EvStepStarted | EvStepSucceeded | EvStepCompletedWithWarnings
  | EvStepFailed | EvStepCancelled | EvJobClaimed | EvJobRetried

datatype ArtifactStorageKind = LocalStorage | S3Storage

record user_row =
  us_id :: string
  us_email :: string
  us_username :: string
  us_passwordHash :: "string option"
  us_emailVerified :: bool
  us_isAdmin :: bool
  us_requiresPasswordChange :: bool
  us_createdAt :: time
  us_updatedAt :: time

record pipeline_row =
  pl_id :: string
  pl_ownerUserId :: string
  pl_contractVersion :: string
  pl_name :: string
  pl_state :: PipelineState
  pl_createdAt :: time
  pl_updatedAt :: time

record component_row =
  pc_id :: string
  pc_pipelineId :: string
  pc_kind :: ComponentKind
  pc_componentType :: string
  pc_componentVersion :: string
  pc_configurationValues :: "(string \<times> json) list"
  pc_secretBindings :: "SecretBinding list"

record edge_row =
  eg_pipelineId :: string
  eg_fromComponentId :: string
  eg_toComponentId :: string

record trigger_row =
  tg_id :: string
  tg_pipelineId :: string
  tg_type :: TriggerType
  tg_enabled :: bool
  tg_cron :: "string option"
  tg_timezone :: "string option"
  tg_nextRunAt :: "time option"
  tg_lastClaimedAt :: "time option"
  tg_createdAt :: time
  tg_updatedAt :: time

record run_row =
  rn_id :: string
  rn_pipelineId :: string
  rn_triggerId :: "string option"
  rn_contractVersion :: string
  rn_state :: RunState
  rn_isActive :: bool
  rn_scheduledFor :: "time option"
  rn_createdAt :: time
  rn_expiresAt :: time
  rn_startedAt :: "time option"
  rn_completedAt :: "time option"
  rn_cancellationRequestedAt :: "time option"
  rn_cancellationRequestedByUserId :: "string option"
  rn_warningCount :: int

record run_log_row =
  lg_id :: string
  lg_runId :: string
  lg_level :: string
  lg_event :: string
  lg_context :: json
  lg_createdAt :: time
  lg_expiresAt :: time

record run_step_row =
  rs_id :: string
  rs_runId :: string
  rs_componentId :: string
  rs_state :: RunState
  rs_startedAt :: "time option"
  rs_completedAt :: "time option"
  rs_warningCount :: int
  rs_metrics :: json
  rs_error :: "json option"

record job_row =
  jb_id :: string
  jb_pipelineId :: string
  jb_runId :: string
  jb_runStepId :: string
  jb_componentId :: string
  jb_state :: JobState
  jb_availableAt :: time
  jb_claimedAt :: "time option"
  jb_heartbeatAt :: "time option"
  jb_workerId :: "string option"
  jb_attempt :: int
  jb_retryMaxAttempts :: int
  jb_retryDelaySeconds :: int
  jb_createdAt :: time
  jb_completedAt :: "time option"

record event_row =
  ev_id :: string
  ev_pipelineId :: string
  ev_runId :: string
  ev_runStepId :: "string option"
  ev_jobId :: "string option"
  ev_workerId :: "string option"
  ev_event :: OperationalEventKind
  ev_recordsRead :: "int option"
  ev_recordsWritten :: "int option"
  ev_bytesRead :: "int option"
  ev_bytesWritten :: "int option"
  ev_durationMs :: "int option"
  ev_retryAttempt :: "int option"
  ev_occurredAt :: time

record checkpoint_row =
  ck_pipelineId :: string
  ck_sourceComponentId :: string
  ck_checkpoint :: json
  ck_updatedAt :: time

record dataset_row =
  ds_id :: string
  ds_pipelineId :: string
  ds_runId :: string
  ds_runStepId :: string
  ds_family :: string
  ds_format :: string
  ds_storageKind :: ArtifactStorageKind
  ds_storageLocation :: string
  ds_sizeBytes :: int
  ds_encrypted :: bool
  ds_createdAt :: time
  ds_expiresAt :: "time option"

record upload_row =
  up_id :: string
  up_ownerUserId :: string
  up_storageKind :: ArtifactStorageKind
  up_storageLocation :: string
  up_createdAt :: time
  up_expiresAt :: time

record artifact_row =
  af_id :: string
  af_pipelineId :: string
  af_runId :: string
  af_format :: string
  af_contentType :: "string option"
  af_fileName :: string
  af_sizeBytes :: int
  af_storageKind :: ArtifactStorageKind
  af_storageLocation :: string
  af_encrypted :: bool
  af_createdAt :: time
  af_expiresAt :: time

record setting_row =
  st_key :: string
  st_value :: json
  st_updatedAt :: time

record database =
  db_users :: "user_row list"
  db_pipelines :: "pipeline_row list"
  db_components :: "component_row list"
  db_edges :: "edge_row list"
  db_triggers :: "trigger_row list"
  db_runs :: "run_row list"
  db_runLogs :: "run_log_row list"
  db_runSteps :: "run_step_row list"
  db_jobs :: "job_row list"
  db_events :: "event_row list"
  db_checkpoints :: "checkpoint_row list"
  db_datasets :: "dataset_row list"
  db_uploads :: "upload_row list"
  db_artifacts :: "artifact_row list"
  db_settings :: "setting_row list"
  db_uuids :: nat

datatype db_error =
    UniqueViolation string
  | ForeignKeyViolation string
  | CheckViolation string

section \<open>Constraints\<close>

definition activeState :: "RunState \<Rightarrow> bool" where
  "activeState s \<longleftrightarrow> s = RunQueued \<or> s = RunRunning"

definition terminalState :: "RunState \<Rightarrow> bool" where
  "terminalState s \<longleftrightarrow>
     s = RunSucceeded \<or> s = RunCompletedWithWarnings \<or> s = RunFailed \<or> s = RunCancelled"

text \<open>The key column of the partial unique index \<open>runs_one_active_pipeline_index\<close>.\<close>

definition activeRunKeys :: "run_row list \<Rightarrow> string list" where
  "activeRunKeys rs = map rn_pipelineId (filter (\<lambda>r. rn_isActive r \<and> activeState (rn_state r)) rs)"

definition triggerFieldsCheck :: "trigger_row \<Rightarrow> bool" where
  "triggerFieldsCheck t \<longleftrightarrow>
     (tg_type t = TriggerManual \<and> tg_cron t = None \<and> tg_timezone t = None \<and> tg_nextRunAt t = None) \<or>
     (tg_type t = TriggerSchedule \<and> tg_cron t \<noteq> None \<and> tg_timezone t \<noteq> None)"

definition edgeKeyOf :: "edge_row \<Rightarrow> string \<times> string \<times> string" where
  "edgeKeyOf e = (eg_pipelineId e, eg_fromComponentId e, eg_toComponentId e)"

definition edgeFromRef :: "edge_row \<Rightarrow> string \<times> string" where
  "edgeFromRef e = (eg_pipelineId e, eg_fromComponentId e)"

definition edgeToRef :: "edge_row \<Rightarrow> string \<times> string" where
  "edgeToRef e = (eg_pipelineId e, eg_toComponentId e)"

definition componentRef :: "component_row \<Rightarrow> string \<times> string" where
  "componentRef c = (pc_pipelineId c, pc_id c)"

definition checkpointRef :: "checkpoint_row \<Rightarrow> string \<times> string" where
  "checkpointRef c = (ck_pipelineId c, ck_sourceComponentId c)"

text \<open>The range of a PostgreSQL \<open>integer\<close> column, and the integer columns of an event.\<close>

definition int4 :: "int \<Rightarrow> bool" where
  "int4 n \<longleftrightarrow> - (2 ^ 31) \<le> n \<and> n < 2 ^ 31"

definition eventIntegersCheck :: "event_row \<Rightarrow> bool" where
  "eventIntegersCheck e \<longleftrightarrow>
     list_all (pred_option int4)
       [ev_recordsRead e, ev_recordsWritten e, ev_bytesRead e, ev_bytesWritten e, ev_durationMs e,
        ev_retryAttempt e]"

text \<open>The values that a nullable foreign key column takes.\<close>

definition nullable :: "('r \<Rightarrow> 'k option) \<Rightarrow> 'r list \<Rightarrow> 'k set" where
  "nullable col rows = {k. Some k \<in> col ` set rows}"

definition keys_ok :: "database \<Rightarrow> bool" where
  "keys_ok db \<longleftrightarrow>
     distinct (map us_id (db_users db)) \<and> distinct (map us_email (db_users db)) \<and>
     distinct (map us_username (db_users db)) \<and> distinct (map pl_id (db_pipelines db)) \<and>
     distinct (map pc_id (db_components db)) \<and> distinct (map edgeKeyOf (db_edges db)) \<and>
     distinct (map tg_id (db_triggers db)) \<and> distinct (map rn_id (db_runs db)) \<and>
     distinct (map lg_id (db_runLogs db)) \<and> distinct (map rs_id (db_runSteps db)) \<and>
     distinct (map jb_id (db_jobs db)) \<and> distinct (map ev_id (db_events db)) \<and>
     distinct (map checkpointRef (db_checkpoints db)) \<and>
     distinct (map ds_id (db_datasets db)) \<and> distinct (map up_id (db_uploads db)) \<and>
     distinct (map af_id (db_artifacts db)) \<and> distinct (map st_key (db_settings db))"

definition graph_refs_ok :: "database \<Rightarrow> bool" where
  "graph_refs_ok db \<longleftrightarrow>
     pl_ownerUserId ` set (db_pipelines db) \<subseteq> us_id ` set (db_users db) \<and>
     pc_pipelineId ` set (db_components db) \<subseteq> pl_id ` set (db_pipelines db) \<and>
     edgeFromRef ` set (db_edges db) \<subseteq> componentRef ` set (db_components db) \<and>
     edgeToRef ` set (db_edges db) \<subseteq> componentRef ` set (db_components db) \<and>
     tg_pipelineId ` set (db_triggers db) \<subseteq> pl_id ` set (db_pipelines db) \<and>
     checkpointRef ` set (db_checkpoints db) \<subseteq> componentRef ` set (db_components db) \<and>
     up_ownerUserId ` set (db_uploads db) \<subseteq> us_id ` set (db_users db)"

definition run_refs_ok :: "database \<Rightarrow> bool" where
  "run_refs_ok db \<longleftrightarrow>
     rn_pipelineId ` set (db_runs db) \<subseteq> pl_id ` set (db_pipelines db) \<and>
     nullable rn_triggerId (db_runs db) \<subseteq> tg_id ` set (db_triggers db) \<and>
     nullable rn_cancellationRequestedByUserId (db_runs db) \<subseteq> us_id ` set (db_users db) \<and>
     lg_runId ` set (db_runLogs db) \<subseteq> rn_id ` set (db_runs db) \<and>
     rs_runId ` set (db_runSteps db) \<subseteq> rn_id ` set (db_runs db) \<and>
     rs_componentId ` set (db_runSteps db) \<subseteq> pc_id ` set (db_components db) \<and>
     jb_pipelineId ` set (db_jobs db) \<subseteq> pl_id ` set (db_pipelines db) \<and>
     jb_runId ` set (db_jobs db) \<subseteq> rn_id ` set (db_runs db) \<and>
     jb_runStepId ` set (db_jobs db) \<subseteq> rs_id ` set (db_runSteps db) \<and>
     jb_componentId ` set (db_jobs db) \<subseteq> pc_id ` set (db_components db)"

definition product_refs_ok :: "database \<Rightarrow> bool" where
  "product_refs_ok db \<longleftrightarrow>
     ev_pipelineId ` set (db_events db) \<subseteq> pl_id ` set (db_pipelines db) \<and>
     ev_runId ` set (db_events db) \<subseteq> rn_id ` set (db_runs db) \<and>
     nullable ev_runStepId (db_events db) \<subseteq> rs_id ` set (db_runSteps db) \<and>
     nullable ev_jobId (db_events db) \<subseteq> jb_id ` set (db_jobs db) \<and>
     ds_pipelineId ` set (db_datasets db) \<subseteq> pl_id ` set (db_pipelines db) \<and>
     ds_runId ` set (db_datasets db) \<subseteq> rn_id ` set (db_runs db) \<and>
     ds_runStepId ` set (db_datasets db) \<subseteq> rs_id ` set (db_runSteps db) \<and>
     af_pipelineId ` set (db_artifacts db) \<subseteq> pl_id ` set (db_pipelines db) \<and>
     af_runId ` set (db_artifacts db) \<subseteq> rn_id ` set (db_runs db)"

definition checks_ok :: "database \<Rightarrow> bool" where
  "checks_ok db \<longleftrightarrow>
     list_all triggerFieldsCheck (db_triggers db) \<and> distinct (activeRunKeys (db_runs db)) \<and>
     list_all eventIntegersCheck (db_events db)"

definition db_wf :: "database \<Rightarrow> bool" where
  "db_wf db \<longleftrightarrow> keys_ok db \<and> graph_refs_ok db \<and> run_refs_ok db \<and> product_refs_ok db \<and> checks_ok db"

lemmas db_wf_defs = db_wf_def keys_ok_def graph_refs_ok_def run_refs_ok_def product_refs_ok_def
  checks_ok_def

section \<open>Statements\<close>

type_synonym statement = "database \<Rightarrow> (db_error, database) result"

definition insert_unique ::
  "string \<Rightarrow> ('r \<Rightarrow> 'k) \<Rightarrow> 'r list \<Rightarrow> 'r list \<Rightarrow> (db_error, 'r list) result" where
  "insert_unique constraint key rows table =
     (if distinct (map key rows) \<and> list_all (\<lambda>r. key r \<notin> set (map key table)) rows
      then Return (table @ rows) else Throw (UniqueViolation constraint))"

definition references :: "string \<Rightarrow> ('r \<Rightarrow> 'k) \<Rightarrow> 'r list \<Rightarrow> 'k list \<Rightarrow> (db_error, unit) result" where
  "references constraint column rows keys =
     throw_if (\<not> list_all (\<lambda>r. column r \<in> set keys) rows) (ForeignKeyViolation constraint)"

definition references_opt ::
  "string \<Rightarrow> ('r \<Rightarrow> 'k option) \<Rightarrow> 'r list \<Rightarrow> 'k list \<Rightarrow> (db_error, unit) result" where
  "references_opt constraint column rows keys =
     throw_if (\<not> list_all (\<lambda>r. pred_option (\<lambda>k. k \<in> set keys) (column r)) rows)
       (ForeignKeyViolation constraint)"

text \<open>\<open>ON DELETE RESTRICT\<close>: no row of the referencing table may name a deleted key.\<close>

definition restrict :: "string \<Rightarrow> bool \<Rightarrow> (db_error, unit) result" where
  "restrict constraint referenced = throw_if referenced (ForeignKeyViolation constraint)"

definition draw_uuids :: "(nat \<Rightarrow> string) \<Rightarrow> nat \<Rightarrow> database \<Rightarrow> string list" where
  "draw_uuids gen n db = map gen [db_uuids db ..< db_uuids db + n]"

definition advance_uuids :: "nat \<Rightarrow> database \<Rightarrow> database" where
  "advance_uuids n db = db\<lparr>db_uuids := db_uuids db + n\<rparr>"

definition insertPipelines :: "pipeline_row list \<Rightarrow> statement" where
  "insertPipelines rows db =
     bind_res (insert_unique ''pipelines_pkey'' pl_id rows (db_pipelines db)) (\<lambda>table.
     bind_res (references ''pipelines_owner_user_id'' pl_ownerUserId rows (map us_id (db_users db))) (\<lambda>_.
     Return (db\<lparr>db_pipelines := table\<rparr>)))"

definition insertComponents :: "component_row list \<Rightarrow> statement" where
  "insertComponents rows db =
     bind_res (insert_unique ''pipeline_components_pkey'' pc_id rows (db_components db)) (\<lambda>table.
     bind_res (references ''pipeline_components_pipeline_id'' pc_pipelineId rows
       (map pl_id (db_pipelines db))) (\<lambda>_.
     Return (db\<lparr>db_components := table\<rparr>)))"

definition componentKeys :: "database \<Rightarrow> (string \<times> string) list" where
  "componentKeys db = map componentRef (db_components db)"

definition insertEdgeRows :: "edge_row list \<Rightarrow> statement" where
  "insertEdgeRows rows db =
     bind_res (insert_unique ''pipeline_edges_primary_key'' edgeKeyOf rows (db_edges db)) (\<lambda>table.
     bind_res (references ''pipeline_edges_from_component_foreign_key''
       edgeFromRef rows (componentKeys db)) (\<lambda>_.
     bind_res (references ''pipeline_edges_to_component_foreign_key''
       edgeToRef rows (componentKeys db)) (\<lambda>_.
     Return (db\<lparr>db_edges := table\<rparr>))))"

definition insertTriggerRows :: "trigger_row list \<Rightarrow> statement" where
  "insertTriggerRows rows db =
     bind_res (throw_if (\<not> list_all triggerFieldsCheck rows)
       (CheckViolation ''pipeline_triggers_schedule_fields_check'')) (\<lambda>_.
     bind_res (insert_unique ''pipeline_triggers_pkey'' tg_id rows (db_triggers db)) (\<lambda>table.
     bind_res (references ''pipeline_triggers_pipeline_id'' tg_pipelineId rows
       (map pl_id (db_pipelines db))) (\<lambda>_.
     Return (db\<lparr>db_triggers := table\<rparr>))))"

definition insertRuns :: "run_row list \<Rightarrow> statement" where
  "insertRuns rows db =
     bind_res (insert_unique ''runs_pkey'' rn_id rows (db_runs db)) (\<lambda>table.
     bind_res (throw_if (\<not> distinct (activeRunKeys table))
       (UniqueViolation ''runs_one_active_pipeline_index'')) (\<lambda>_.
     bind_res (references ''runs_pipeline_id'' rn_pipelineId rows (map pl_id (db_pipelines db))) (\<lambda>_.
     bind_res (references_opt ''runs_trigger_id'' rn_triggerId rows (map tg_id (db_triggers db))) (\<lambda>_.
     bind_res (references_opt ''runs_cancellation_requested_by_user_id''
       rn_cancellationRequestedByUserId rows (map us_id (db_users db))) (\<lambda>_.
     Return (db\<lparr>db_runs := table\<rparr>))))))"

definition insertRunSteps :: "run_step_row list \<Rightarrow> statement" where
  "insertRunSteps rows db =
     bind_res (insert_unique ''run_steps_pkey'' rs_id rows (db_runSteps db)) (\<lambda>table.
     bind_res (references ''run_steps_run_id'' rs_runId rows (map rn_id (db_runs db))) (\<lambda>_.
     bind_res (references ''run_steps_component_id'' rs_componentId rows
       (map pc_id (db_components db))) (\<lambda>_.
     Return (db\<lparr>db_runSteps := table\<rparr>))))"

definition insertJobs :: "job_row list \<Rightarrow> statement" where
  "insertJobs rows db =
     bind_res (insert_unique ''jobs_pkey'' jb_id rows (db_jobs db)) (\<lambda>table.
     bind_res (references ''jobs_pipeline_id'' jb_pipelineId rows (map pl_id (db_pipelines db))) (\<lambda>_.
     bind_res (references ''jobs_run_id'' jb_runId rows (map rn_id (db_runs db))) (\<lambda>_.
     bind_res (references ''jobs_run_step_id'' jb_runStepId rows (map rs_id (db_runSteps db))) (\<lambda>_.
     bind_res (references ''jobs_component_id'' jb_componentId rows
       (map pc_id (db_components db))) (\<lambda>_.
     Return (db\<lparr>db_jobs := table\<rparr>))))))"

definition insertEvents :: "event_row list \<Rightarrow> statement" where
  "insertEvents rows db =
     bind_res (throw_if (\<not> list_all eventIntegersCheck rows)
       (CheckViolation ''integer out of range'')) (\<lambda>_.
     bind_res (insert_unique ''operational_events_pkey'' ev_id rows (db_events db)) (\<lambda>table.
     bind_res (references ''operational_events_pipeline_id'' ev_pipelineId rows
       (map pl_id (db_pipelines db))) (\<lambda>_.
     bind_res (references ''operational_events_run_id'' ev_runId rows (map rn_id (db_runs db))) (\<lambda>_.
     bind_res (references_opt ''operational_events_run_step_id'' ev_runStepId rows
       (map rs_id (db_runSteps db))) (\<lambda>_.
     bind_res (references_opt ''operational_events_job_id'' ev_jobId rows
       (map jb_id (db_jobs db))) (\<lambda>_.
     Return (db\<lparr>db_events := table\<rparr>)))))))"

definition insertUploads :: "upload_row list \<Rightarrow> statement" where
  "insertUploads rows db =
     bind_res (insert_unique ''uploads_pkey'' up_id rows (db_uploads db)) (\<lambda>table.
     bind_res (references ''uploads_owner_user_id'' up_ownerUserId rows (map us_id (db_users db))) (\<lambda>_.
     Return (db\<lparr>db_uploads := table\<rparr>)))"

text \<open>\<open>UPDATE t SET f WHERE P\<close>, row by row.\<close>

definition update_where :: "('r \<Rightarrow> bool) \<Rightarrow> ('r \<Rightarrow> 'r) \<Rightarrow> 'r list \<Rightarrow> 'r list" where
  "update_where P f rows = map (\<lambda>r. if P r then f r else r) rows"

definition delete_where :: "('r \<Rightarrow> bool) \<Rightarrow> 'r list \<Rightarrow> 'r list" where
  "delete_where P rows = filter (\<lambda>r. \<not> P r) rows"

definition updateRuns :: "(run_row \<Rightarrow> bool) \<Rightarrow> (run_row \<Rightarrow> run_row) \<Rightarrow> statement" where
  "updateRuns P f db =
     (let table = update_where P f (db_runs db)
      in bind_res (throw_if (\<not> distinct (activeRunKeys table))
           (UniqueViolation ''runs_one_active_pipeline_index'')) (\<lambda>_.
         Return (db\<lparr>db_runs := table\<rparr>)))"

definition updateTriggers :: "(trigger_row \<Rightarrow> bool) \<Rightarrow> (trigger_row \<Rightarrow> trigger_row) \<Rightarrow> statement" where
  "updateTriggers P f db =
     (let table = update_where P f (db_triggers db)
      in bind_res (throw_if (\<not> list_all triggerFieldsCheck table)
           (CheckViolation ''pipeline_triggers_schedule_fields_check'')) (\<lambda>_.
         Return (db\<lparr>db_triggers := table\<rparr>)))"

definition clearRunTriggers :: "string set \<Rightarrow> run_row list \<Rightarrow> run_row list" where
  "clearRunTriggers gone =
     update_where (\<lambda>r. \<exists>t\<in>gone. rn_triggerId r = Some t) (\<lambda>r. r\<lparr>rn_triggerId := None\<rparr>)"

definition deleteTriggers :: "(trigger_row \<Rightarrow> bool) \<Rightarrow> database \<Rightarrow> database" where
  "deleteTriggers P db =
     db\<lparr>db_triggers := delete_where P (db_triggers db),
        db_runs := clearRunTriggers (tg_id ` set (filter P (db_triggers db))) (db_runs db)\<rparr>"

definition deleteEdges :: "(edge_row \<Rightarrow> bool) \<Rightarrow> database \<Rightarrow> database" where
  "deleteEdges P db = db\<lparr>db_edges := delete_where P (db_edges db)\<rparr>"

definition deleteComponents :: "(component_row \<Rightarrow> bool) \<Rightarrow> statement" where
  "deleteComponents P db =
     (let gone = filter P (db_components db);
          ids = map pc_id gone;
          refs = map componentRef gone
      in bind_res (restrict ''run_steps_component_id''
           (list_ex (\<lambda>s. rs_componentId s \<in> set ids) (db_runSteps db))) (\<lambda>_.
         bind_res (restrict ''jobs_component_id''
           (list_ex (\<lambda>j. jb_componentId j \<in> set ids) (db_jobs db))) (\<lambda>_.
         Return (db\<lparr>db_components := delete_where P (db_components db),
           db_edges := delete_where (\<lambda>e. edgeFromRef e \<in> set refs \<or> edgeToRef e \<in> set refs)
             (db_edges db),
           db_checkpoints := delete_where (\<lambda>c. checkpointRef c \<in> set refs) (db_checkpoints db)\<rparr>))))"

definition deletePipelines :: "(pipeline_row \<Rightarrow> bool) \<Rightarrow> statement" where
  "deletePipelines P db =
     (let ids = map pl_id (filter P (db_pipelines db))
      in bind_res (restrict ''runs_pipeline_id''
           (list_ex (\<lambda>r. rn_pipelineId r \<in> set ids) (db_runs db))) (\<lambda>_.
         bind_res (restrict ''jobs_pipeline_id''
           (list_ex (\<lambda>j. jb_pipelineId j \<in> set ids) (db_jobs db))) (\<lambda>_.
         bind_res (restrict ''operational_events_pipeline_id''
           (list_ex (\<lambda>e. ev_pipelineId e \<in> set ids) (db_events db))) (\<lambda>_.
         bind_res (restrict ''datasets_pipeline_id''
           (list_ex (\<lambda>d. ds_pipelineId d \<in> set ids) (db_datasets db))) (\<lambda>_.
         bind_res (restrict ''artifacts_pipeline_id''
           (list_ex (\<lambda>a. af_pipelineId a \<in> set ids) (db_artifacts db))) (\<lambda>_.
         bind_res (deleteComponents (\<lambda>c. pc_pipelineId c \<in> set ids) db) (\<lambda>db.
         Return ((deleteTriggers (\<lambda>t. tg_pipelineId t \<in> set ids) db)
           \<lparr>db_pipelines := delete_where P (db_pipelines db)\<rparr>))))))))"

definition deleteJobs :: "(job_row \<Rightarrow> bool) \<Rightarrow> statement" where
  "deleteJobs P db =
     (let ids = map jb_id (filter P (db_jobs db))
      in bind_res (restrict ''operational_events_job_id''
           (list_ex (\<lambda>e. \<exists>j\<in>set ids. ev_jobId e = Some j) (db_events db))) (\<lambda>_.
         Return (db\<lparr>db_jobs := delete_where P (db_jobs db)\<rparr>)))"

definition deleteRunSteps :: "(run_step_row \<Rightarrow> bool) \<Rightarrow> statement" where
  "deleteRunSteps P db =
     (let ids = map rs_id (filter P (db_runSteps db))
      in bind_res (restrict ''jobs_run_step_id''
           (list_ex (\<lambda>j. jb_runStepId j \<in> set ids) (db_jobs db))) (\<lambda>_.
         bind_res (restrict ''datasets_run_step_id''
           (list_ex (\<lambda>d. ds_runStepId d \<in> set ids) (db_datasets db))) (\<lambda>_.
         bind_res (restrict ''operational_events_run_step_id''
           (list_ex (\<lambda>e. \<exists>s\<in>set ids. ev_runStepId e = Some s) (db_events db))) (\<lambda>_.
         Return (db\<lparr>db_runSteps := delete_where P (db_runSteps db)\<rparr>)))))"

definition deleteRuns :: "(run_row \<Rightarrow> bool) \<Rightarrow> statement" where
  "deleteRuns P db =
     (let ids = map rn_id (filter P (db_runs db))
      in bind_res (restrict ''run_logs_run_id''
           (list_ex (\<lambda>l. lg_runId l \<in> set ids) (db_runLogs db))) (\<lambda>_.
         bind_res (restrict ''run_steps_run_id''
           (list_ex (\<lambda>s. rs_runId s \<in> set ids) (db_runSteps db))) (\<lambda>_.
         bind_res (restrict ''jobs_run_id''
           (list_ex (\<lambda>j. jb_runId j \<in> set ids) (db_jobs db))) (\<lambda>_.
         bind_res (restrict ''operational_events_run_id''
           (list_ex (\<lambda>e. ev_runId e \<in> set ids) (db_events db))) (\<lambda>_.
         bind_res (restrict ''datasets_run_id''
           (list_ex (\<lambda>d. ds_runId d \<in> set ids) (db_datasets db))) (\<lambda>_.
         bind_res (restrict ''artifacts_run_id''
           (list_ex (\<lambda>a. af_runId a \<in> set ids) (db_artifacts db))) (\<lambda>_.
         Return (db\<lparr>db_runs := delete_where P (db_runs db)\<rparr>))))))))"

section \<open>Every statement preserves the declared constraints\<close>

lemma insert_unique_Return [res_simps]:
  "insert_unique c key rows table = Return t \<longleftrightarrow>
     t = table @ rows \<and> distinct (map key rows) \<and> key ` set rows \<inter> key ` set table = {}"
  by (auto simp: insert_unique_def list_all_iff)

lemma references_Return [res_simps]:
  "references c col rows keys = Return u \<longleftrightarrow> col ` set rows \<subseteq> set keys"
  by (auto simp: references_def throw_if_def list_all_iff)

lemma references_opt_Return [res_simps]:
  "references_opt c col rows keys = Return u \<longleftrightarrow> nullable col rows \<subseteq> set keys"
proof -
  have "pred_option Q x \<longleftrightarrow> (\<forall>k. Some k = x \<longrightarrow> Q k)" for Q and x :: "'b option" by (cases x) auto
  then have "(\<forall>r\<in>set rows. pred_option (\<lambda>k. k \<in> set keys) (col r)) \<longleftrightarrow>
      (\<forall>r\<in>set rows. \<forall>k. Some k = col r \<longrightarrow> k \<in> set keys)" by simp
  also have "\<dots> \<longleftrightarrow> nullable col rows \<subseteq> set keys" unfolding nullable_def by blast
  finally show ?thesis by (simp add: references_opt_def throw_if_def list_all_iff)
qed

lemma nullable_append [simp]: "nullable col (xs @ ys) = nullable col xs \<union> nullable col ys"
  by (auto simp: nullable_def)

lemma restrict_Return [res_simps]: "restrict c b = Return u \<longleftrightarrow> \<not> b"
  by (simp add: restrict_def throw_if_def)

lemma set_delete_where [simp]: "set (delete_where P xs) = {x \<in> set xs. \<not> P x}"
  by (auto simp: delete_where_def)

lemma distinct_map_delete_where: "distinct (map f xs) \<Longrightarrow> distinct (map f (delete_where P xs))"
  by (simp add: delete_where_def distinct_map_filter)

lemma map_update_where:
  "(\<And>x. g (f x) = g x) \<Longrightarrow> map g (update_where P f xs) = map g xs"
  by (simp add: update_where_def)

lemma image_update_where:
  "(\<And>x. g (f x) = g x) \<Longrightarrow> g ` set (update_where P f xs) = g ` set xs"
  by (metis list.set_map map_update_where)

lemma db_wfI:
  "keys_ok db \<Longrightarrow> graph_refs_ok db \<Longrightarrow> run_refs_ok db \<Longrightarrow> product_refs_ok db \<Longrightarrow> checks_ok db \<Longrightarrow>
     db_wf db"
  by (simp add: db_wf_def)

lemma db_wf_parts:
  "db_wf db \<Longrightarrow> keys_ok db" "db_wf db \<Longrightarrow> graph_refs_ok db" "db_wf db \<Longrightarrow> run_refs_ok db"
  "db_wf db \<Longrightarrow> product_refs_ok db" "db_wf db \<Longrightarrow> checks_ok db"
  by (simp_all add: db_wf_def)

named_theorems db_preserves \<open>statements that keep the declared constraints\<close>

text \<open>
  The shapes that the constraints take after a statement: more rows on the referenced side, fewer
  on the referencing side, and a deletion that the referencing rows restrict or follow.
\<close>

lemma subset_more: "A \<subseteq> C \<Longrightarrow> A \<subseteq> C \<union> D"
  by blast

lemma distinct_more:
  "distinct (map f xs) \<Longrightarrow> distinct (map f ys) \<Longrightarrow> f ` set ys \<inter> f ` set xs = {} \<Longrightarrow>
     distinct (map f (xs @ ys))"
  by (auto simp: Int_commute)

lemma insertPipelines_wf [db_preserves]:
  assumes "db_wf db" and "insertPipelines rows db = Return db'"
  shows "db_wf db'"
  using assms
  by (auto simp: insertPipelines_def bind_res_Return_iff insert_unique_Return references_Return)
    (simp_all add: db_wf_defs image_Un subset_more distinct_more componentKeys_def
      del: distinct_append map_append)

lemma insertComponents_wf [db_preserves]:
  assumes "db_wf db" and "insertComponents rows db = Return db'"
  shows "db_wf db'"
  using assms
  by (auto simp: insertComponents_def bind_res_Return_iff insert_unique_Return references_Return)
    (simp_all add: db_wf_defs image_Un subset_more distinct_more componentKeys_def
      del: distinct_append map_append)

lemma insertEdgeRows_wf [db_preserves]:
  assumes "db_wf db" and "insertEdgeRows rows db = Return db'"
  shows "db_wf db'"
  using assms
  by (auto simp: insertEdgeRows_def bind_res_Return_iff insert_unique_Return references_Return)
    (simp_all add: db_wf_defs image_Un subset_more distinct_more componentKeys_def
      del: distinct_append map_append)

lemma insertTriggerRows_wf [db_preserves]:
  assumes "db_wf db" and "insertTriggerRows rows db = Return db'"
  shows "db_wf db'"
  using assms
  by (auto simp: insertTriggerRows_def bind_res_Return_iff insert_unique_Return references_Return
      throw_if_iff)
    (simp_all add: db_wf_defs image_Un subset_more distinct_more componentKeys_def
      del: distinct_append map_append)

lemma insertRuns_wf [db_preserves]:
  assumes "db_wf db" and "insertRuns rows db = Return db'"
  shows "db_wf db'"
  using assms
  by (auto simp: insertRuns_def bind_res_Return_iff insert_unique_Return references_Return
      references_opt_Return throw_if_iff)
    (simp_all add: db_wf_defs image_Un subset_more distinct_more componentKeys_def
      del: distinct_append map_append)

lemma insertRunSteps_wf [db_preserves]:
  assumes "db_wf db" and "insertRunSteps rows db = Return db'"
  shows "db_wf db'"
  using assms
  by (auto simp: insertRunSteps_def bind_res_Return_iff insert_unique_Return references_Return)
    (simp_all add: db_wf_defs image_Un subset_more distinct_more componentKeys_def
      del: distinct_append map_append)

lemma insertJobs_wf [db_preserves]:
  assumes "db_wf db" and "insertJobs rows db = Return db'"
  shows "db_wf db'"
  using assms
  by (auto simp: insertJobs_def bind_res_Return_iff insert_unique_Return references_Return)
    (simp_all add: db_wf_defs image_Un subset_more distinct_more componentKeys_def
      del: distinct_append map_append)

lemma insertEvents_wf [db_preserves]:
  assumes "db_wf db" and "insertEvents rows db = Return db'"
  shows "db_wf db'"
  using assms
  by (auto simp: insertEvents_def bind_res_Return_iff insert_unique_Return references_Return
      references_opt_Return throw_if_iff)
    (simp_all add: db_wf_defs image_Un subset_more distinct_more componentKeys_def
      del: distinct_append map_append)

lemma insertUploads_wf [db_preserves]:
  assumes "db_wf db" and "insertUploads rows db = Return db'"
  shows "db_wf db'"
  using assms
  by (auto simp: insertUploads_def bind_res_Return_iff insert_unique_Return references_Return)
    (simp_all add: db_wf_defs image_Un subset_more distinct_more componentKeys_def
      del: distinct_append map_append)

lemma advance_uuids_wf [db_preserves]: "db_wf db \<Longrightarrow> db_wf (advance_uuids n db)"
  by (simp add: db_wf_defs advance_uuids_def)

text \<open>Updates of columns that no constraint mentions, and of the flags the index covers.\<close>

lemma updateRuns_wf [db_preserves]:
  assumes "db_wf db" and "updateRuns P f db = Return db'"
    and "\<And>r. rn_id (f r) = rn_id r" and "\<And>r. rn_pipelineId (f r) = rn_pipelineId r"
    and "\<And>r. rn_triggerId (f r) = rn_triggerId r"
    and "\<And>r. rn_cancellationRequestedByUserId (f r) = rn_cancellationRequestedByUserId r"
  shows "db_wf db'"
proof -
  have "db' = db\<lparr>db_runs := update_where P f (db_runs db)\<rparr>"
    and "distinct (activeRunKeys (update_where P f (db_runs db)))"
    using assms(2) by (auto simp: updateRuns_def Let_def bind_res_Return_iff throw_if_iff)
  with assms(1) show ?thesis
    by (simp add: db_wf_defs nullable_def map_update_where image_update_where assms(3-6))
qed

lemma updateTriggers_wf [db_preserves]:
  assumes "db_wf db" and "updateTriggers P f db = Return db'"
    and "\<And>t. tg_id (f t) = tg_id t" and "\<And>t. tg_pipelineId (f t) = tg_pipelineId t"
  shows "db_wf db'"
proof -
  have "db' = db\<lparr>db_triggers := update_where P f (db_triggers db)\<rparr>"
    and "list_all triggerFieldsCheck (update_where P f (db_triggers db))"
    using assms(2) by (auto simp: updateTriggers_def Let_def bind_res_Return_iff throw_if_iff)
  with assms(1) show ?thesis
    by (simp add: db_wf_defs map_update_where image_update_where assms(3-4))
qed

lemma updatePipelines_wf:
  assumes "db_wf db" and "\<And>p. pl_id (f p) = pl_id p" and "\<And>p. pl_ownerUserId (f p) = pl_ownerUserId p"
  shows "db_wf (db\<lparr>db_pipelines := update_where P f (db_pipelines db)\<rparr>)"
  using assms(1) by (simp add: db_wf_defs map_update_where image_update_where assms(2-3))

lemma updateJobs_wf:
  assumes "db_wf db" and "\<And>j. jb_id (f j) = jb_id j" and "\<And>j. jb_pipelineId (f j) = jb_pipelineId j"
    and "\<And>j. jb_runId (f j) = jb_runId j" and "\<And>j. jb_runStepId (f j) = jb_runStepId j"
    and "\<And>j. jb_componentId (f j) = jb_componentId j"
  shows "db_wf (db\<lparr>db_jobs := update_where P f (db_jobs db)\<rparr>)"
  using assms(1) by (simp add: db_wf_defs map_update_where image_update_where assms(2-6))

lemma subset_fewer: "f ` set xs \<subseteq> C \<Longrightarrow> f ` {x \<in> set xs. Q x} \<subseteq> C"
  by blast

lemma nullable_fewer: "nullable f xs \<subseteq> C \<Longrightarrow> nullable f (delete_where P xs) \<subseteq> C"
  by (auto simp: nullable_def)

lemma restrict_keeps:
  "A \<subseteq> g ` B \<Longrightarrow> A \<inter> g ` {b \<in> B. P b} = {} \<Longrightarrow> A \<subseteq> g ` {b \<in> B. \<not> P b}"
  by blast

lemma no_reference_iff:
  "\<not> list_ex (\<lambda>x. f x \<in> set (map g (filter P ys))) xs \<longleftrightarrow> f ` set xs \<inter> g ` {y \<in> set ys. P y} = {}"
  by (auto simp: list_ex_iff)

lemma no_nullable_reference_iff:
  "\<not> list_ex (\<lambda>x. \<exists>k\<in>set (map g (filter P ys)). f x = Some k) xs \<longleftrightarrow>
     nullable f xs \<inter> g ` {y \<in> set ys. P y} = {}"
proof -
  have "(\<exists>k\<in>K. f x = Some k) \<longleftrightarrow> (\<exists>k\<in>K. Some k = f x)" for x K by (simp add: eq_commute)
  then show ?thesis unfolding list_ex_iff nullable_def set_map set_filter by blast
qed

lemma cascade_keeps:
  assumes "f ` set xs \<subseteq> g ` set ys" and "\<And>x. \<not> D x \<Longrightarrow> f x \<notin> g ` {y \<in> set ys. P y}"
  shows "f ` set (delete_where D xs) \<subseteq> g ` set (delete_where P ys)"
proof
  fix k assume "k \<in> f ` set (delete_where D xs)"
  then obtain x where x: "x \<in> set xs" "\<not> D x" "k = f x" by auto
  with assms(1) obtain y where "y \<in> set ys" "f x = g y" by blast
  with assms(2) [OF x(2)] x(3) show "k \<in> g ` set (delete_where P ys)" by auto
qed

lemma deleteJobs_Return [res_simps]:
  "deleteJobs P db = Return db' \<longleftrightarrow>
     nullable ev_jobId (db_events db) \<inter> jb_id ` {j \<in> set (db_jobs db). P j} = {} \<and>
     db' = db\<lparr>db_jobs := delete_where P (db_jobs db)\<rparr>"
  unfolding deleteJobs_def Let_def bind_res_Return_iff restrict_Return no_nullable_reference_iff
  by auto

lemma deleteJobs_wf [db_preserves]:
  assumes "db_wf db" and "deleteJobs P db = Return db'"
  shows "db_wf db'"
  using assms unfolding deleteJobs_Return
  by (simp add: db_wf_defs subset_fewer distinct_map_delete_where restrict_keeps)

lemma deleteRunSteps_Return [res_simps]:
  "deleteRunSteps P db = Return db' \<longleftrightarrow>
     jb_runStepId ` set (db_jobs db) \<inter> rs_id ` {s \<in> set (db_runSteps db). P s} = {} \<and>
     ds_runStepId ` set (db_datasets db) \<inter> rs_id ` {s \<in> set (db_runSteps db). P s} = {} \<and>
     nullable ev_runStepId (db_events db) \<inter> rs_id ` {s \<in> set (db_runSteps db). P s} = {} \<and>
     db' = db\<lparr>db_runSteps := delete_where P (db_runSteps db)\<rparr>"
  unfolding deleteRunSteps_def Let_def bind_res_Return_iff restrict_Return no_reference_iff
    no_nullable_reference_iff
  by auto

lemma deleteRunSteps_wf [db_preserves]:
  assumes "db_wf db" and "deleteRunSteps P db = Return db'"
  shows "db_wf db'"
  using assms unfolding deleteRunSteps_Return
  by (simp add: db_wf_defs subset_fewer distinct_map_delete_where restrict_keeps)

lemma activeRunKeys_delete_where:
  "distinct (activeRunKeys rs) \<Longrightarrow> distinct (activeRunKeys (delete_where P rs))"
proof (induction rs)
  case Nil
  then show ?case by (simp add: delete_where_def)
next
  case (Cons r rs)
  then show ?case by (auto simp: activeRunKeys_def delete_where_def)
qed

lemma deleteRuns_Return [res_simps]:
  "deleteRuns P db = Return db' \<longleftrightarrow>
     lg_runId ` set (db_runLogs db) \<inter> rn_id ` {r \<in> set (db_runs db). P r} = {} \<and>
     rs_runId ` set (db_runSteps db) \<inter> rn_id ` {r \<in> set (db_runs db). P r} = {} \<and>
     jb_runId ` set (db_jobs db) \<inter> rn_id ` {r \<in> set (db_runs db). P r} = {} \<and>
     ev_runId ` set (db_events db) \<inter> rn_id ` {r \<in> set (db_runs db). P r} = {} \<and>
     ds_runId ` set (db_datasets db) \<inter> rn_id ` {r \<in> set (db_runs db). P r} = {} \<and>
     af_runId ` set (db_artifacts db) \<inter> rn_id ` {r \<in> set (db_runs db). P r} = {} \<and>
     db' = db\<lparr>db_runs := delete_where P (db_runs db)\<rparr>"
  unfolding deleteRuns_def Let_def bind_res_Return_iff restrict_Return no_reference_iff
  by auto

lemma deleteRuns_wf [db_preserves]:
  assumes "db_wf db" and "deleteRuns P db = Return db'"
  shows "db_wf db'"
  using assms unfolding deleteRuns_Return
  by (simp add: db_wf_defs subset_fewer nullable_fewer distinct_map_delete_where restrict_keeps
      activeRunKeys_delete_where)

lemma deleteEdges_wf [db_preserves]: "db_wf db \<Longrightarrow> db_wf (deleteEdges P db)"
  by (simp add: deleteEdges_def db_wf_defs subset_fewer distinct_map_delete_where)

lemma clearRunTriggers_simps [simp]:
  "map rn_id (clearRunTriggers gone rs) = map rn_id rs"
  "rn_id ` set (clearRunTriggers gone rs) = rn_id ` set rs"
  "rn_pipelineId ` set (clearRunTriggers gone rs) = rn_pipelineId ` set rs"
  "nullable rn_cancellationRequestedByUserId (clearRunTriggers gone rs) =
     nullable rn_cancellationRequestedByUserId rs"
  by (simp_all add: clearRunTriggers_def nullable_def map_update_where image_update_where)

lemma activeRunKeys_clear [simp]: "activeRunKeys (clearRunTriggers gone rs) = activeRunKeys rs"
  by (induction rs) (auto simp: activeRunKeys_def clearRunTriggers_def update_where_def)

lemma nullable_clearRunTriggers:
  "nullable rn_triggerId (clearRunTriggers gone rs) = nullable rn_triggerId rs - gone"
  unfolding nullable_def clearRunTriggers_def update_where_def set_map image_image
  by (force simp: image_iff split: if_splits)

lemma deleteTriggers_wf [db_preserves]:
  assumes "db_wf db"
  shows "db_wf (deleteTriggers P db)"
proof -
  have "nullable rn_triggerId (db_runs db) \<subseteq> tg_id ` set (db_triggers db)"
    using assms by (simp add: db_wf_defs)
  then have "nullable rn_triggerId (db_runs db) - tg_id ` {t \<in> set (db_triggers db). P t} \<subseteq>
      tg_id ` {t \<in> set (db_triggers db). \<not> P t}"
    by blast
  moreover have "list_all triggerFieldsCheck (db_triggers db)" using assms by (simp add: db_wf_defs)
  then have "list_all triggerFieldsCheck (delete_where P (db_triggers db))"
    by (simp add: list_all_iff)
  ultimately show ?thesis
    using assms
    by (simp add: deleteTriggers_def db_wf_defs subset_fewer distinct_map_delete_where
        nullable_clearRunTriggers)
qed

lemma deleteComponents_Return [res_simps]:
  "deleteComponents P db = Return db' \<longleftrightarrow>
     rs_componentId ` set (db_runSteps db) \<inter> pc_id ` {c \<in> set (db_components db). P c} = {} \<and>
     jb_componentId ` set (db_jobs db) \<inter> pc_id ` {c \<in> set (db_components db). P c} = {} \<and>
     db' = db\<lparr>db_components := delete_where P (db_components db),
       db_edges := delete_where
         (\<lambda>e. edgeFromRef e \<in> componentRef ` {c \<in> set (db_components db). P c} \<or>
            edgeToRef e \<in> componentRef ` {c \<in> set (db_components db). P c}) (db_edges db),
       db_checkpoints := delete_where
         (\<lambda>c. checkpointRef c \<in> componentRef ` {c \<in> set (db_components db). P c})
         (db_checkpoints db)\<rparr>"
  unfolding deleteComponents_def Let_def bind_res_Return_iff restrict_Return no_reference_iff
  unfolding set_map set_filter by auto

lemma deleteComponents_wf [db_preserves]:
  assumes "db_wf db" and "deleteComponents P db = Return db'"
  shows "db_wf db'"
proof -
  let ?gone = "componentRef ` {c \<in> set (db_components db). P c}"
  let ?D = "\<lambda>e. edgeFromRef e \<in> ?gone \<or> edgeToRef e \<in> ?gone"
  let ?C = "\<lambda>c. checkpointRef c \<in> ?gone"
  have wf: "edgeFromRef ` set (db_edges db) \<subseteq> componentRef ` set (db_components db)"
    "edgeToRef ` set (db_edges db) \<subseteq> componentRef ` set (db_components db)"
    "checkpointRef ` set (db_checkpoints db) \<subseteq> componentRef ` set (db_components db)"
    using assms(1) by (simp_all add: db_wf_defs)
  have "edgeFromRef ` set (delete_where ?D (db_edges db)) \<subseteq>
      componentRef ` set (delete_where P (db_components db))"
    "edgeToRef ` set (delete_where ?D (db_edges db)) \<subseteq>
      componentRef ` set (delete_where P (db_components db))"
    "checkpointRef ` set (delete_where ?C (db_checkpoints db)) \<subseteq>
      componentRef ` set (delete_where P (db_components db))"
    by (rule cascade_keeps [OF wf(1)], simp) (rule cascade_keeps [OF wf(2)], simp,
      rule cascade_keeps [OF wf(3)], simp)
  moreover have "pc_pipelineId ` set (delete_where P (db_components db)) \<subseteq> pl_id ` set (db_pipelines db)"
    using assms(1) by (auto simp: db_wf_defs)
  ultimately show ?thesis
    using assms unfolding deleteComponents_Return
    by (simp add: db_wf_defs distinct_map_delete_where restrict_keeps del: set_delete_where)
      (simp add: restrict_keeps)
qed

lemma deletePipelines_Return [res_simps]:
  "deletePipelines P db = Return db' \<longleftrightarrow>
     (let gone = pl_id ` {p \<in> set (db_pipelines db). P p}
      in rn_pipelineId ` set (db_runs db) \<inter> gone = {} \<and>
         jb_pipelineId ` set (db_jobs db) \<inter> gone = {} \<and>
         ev_pipelineId ` set (db_events db) \<inter> gone = {} \<and>
         ds_pipelineId ` set (db_datasets db) \<inter> gone = {} \<and>
         af_pipelineId ` set (db_artifacts db) \<inter> gone = {} \<and>
         (\<exists>db1. deleteComponents (\<lambda>c. pc_pipelineId c \<in> gone) db = Return db1 \<and>
            db' = (deleteTriggers (\<lambda>t. tg_pipelineId t \<in> gone) db1)
              \<lparr>db_pipelines := delete_where P (db_pipelines db1)\<rparr>))"
  unfolding deletePipelines_def Let_def bind_res_Return_iff restrict_Return no_reference_iff
  unfolding set_map set_filter by auto

lemma deletePipelines_wf [db_preserves]:
  assumes "db_wf db" and "deletePipelines P db = Return db'"
  shows "db_wf db'"
proof -
  let ?gone = "pl_id ` {p \<in> set (db_pipelines db). P p}"
  from assms(2) obtain db1 where
    free: "rn_pipelineId ` set (db_runs db) \<inter> ?gone = {}" "jb_pipelineId ` set (db_jobs db) \<inter> ?gone = {}"
      "ev_pipelineId ` set (db_events db) \<inter> ?gone = {}"
      "ds_pipelineId ` set (db_datasets db) \<inter> ?gone = {}"
      "af_pipelineId ` set (db_artifacts db) \<inter> ?gone = {}" and
    del: "deleteComponents (\<lambda>c. pc_pipelineId c \<in> ?gone) db = Return db1" and
    db': "db' = (deleteTriggers (\<lambda>t. tg_pipelineId t \<in> ?gone) db1)
      \<lparr>db_pipelines := delete_where P (db_pipelines db1)\<rparr>"
    unfolding deletePipelines_Return Let_def by blast
  define db2 where "db2 = deleteTriggers (\<lambda>t. tg_pipelineId t \<in> ?gone) db1"
  have wf: "db_wf db2" unfolding db2_def by (intro deleteTriggers_wf deleteComponents_wf [OF assms(1) del])
  have tables: "db_pipelines db1 = db_pipelines db" "db_pipelines db2 = db_pipelines db"
    "rn_pipelineId ` set (db_runs db2) = rn_pipelineId ` set (db_runs db)"
    "db_jobs db2 = db_jobs db" "db_events db2 = db_events db"
    "db_datasets db2 = db_datasets db" "db_artifacts db2 = db_artifacts db"
    "db_components db2 = delete_where (\<lambda>c. pc_pipelineId c \<in> ?gone) (db_components db)"
    "db_triggers db2 = delete_where (\<lambda>t. tg_pipelineId t \<in> ?gone) (db_triggers db)"
    using del by (simp_all add: deleteComponents_Return db2_def deleteTriggers_def)
  have children: "pc_pipelineId ` set (db_components db2) \<inter> ?gone = {}"
    "tg_pipelineId ` set (db_triggers db2) \<inter> ?gone = {}"
    unfolding tables(8,9) by auto
  have "db' = db2\<lparr>db_pipelines := delete_where P (db_pipelines db)\<rparr>"
    by (simp add: db' db2_def tables(1))
  with wf free children tables(2-7) show ?thesis
    by (simp add: db_wf_defs subset_fewer distinct_map_delete_where restrict_keeps)
qed

section \<open>An empty control plane\<close>

text \<open>Two users and nothing else, for concrete examples.\<close>

definition sampleUser :: "string \<Rightarrow> user_row" where
  "sampleUser i =
     \<lparr>us_id = i, us_email = i, us_username = i, us_passwordHash = None, us_emailVerified = False,
      us_isAdmin = False, us_requiresPasswordChange = False, us_createdAt = 0, us_updatedAt = 0\<rparr>"

definition emptyDb :: database where
  "emptyDb =
     \<lparr>db_users = [sampleUser ''u1'', sampleUser ''u2''], db_pipelines = [], db_components = [],
      db_edges = [], db_triggers = [], db_runs = [], db_runLogs = [], db_runSteps = [], db_jobs = [],
      db_events = [], db_checkpoints = [], db_datasets = [], db_uploads = [], db_artifacts = [],
      db_settings = [], db_uuids = 0\<rparr>"

end
