(* ===== verification/Observability.thy ===== *)
theory Observability
  imports Database
begin

text \<open>
  \<open>packages/database/src/observability.ts\<close> and \<open>run-log-retention.ts\<close>: validation and
  insertion of operational events, and the global retention period of runs and logs. A JavaScript
  number is a rational; the database clock and the generated identifiers are arguments.
\<close>

section \<open>Numbers\<close>

definition js_isInteger :: "rat \<Rightarrow> bool" where
  "js_isInteger r \<longleftrightarrow> of_int \<lfloor>r\<rfloor> = r"

definition js_isSafeInteger :: "rat \<Rightarrow> bool" where
  "js_isSafeInteger r \<longleftrightarrow> js_isInteger r \<and> \<bar>r\<bar> \<le> 9007199254740991"

lemma js_isInteger_of_int [simp]: "js_isInteger (of_int n)"
  by (simp add: js_isInteger_def)

lemma js_isInteger_numeral [simp]: "js_isInteger (numeral n)" "js_isInteger 1" "js_isInteger 0"
  by (simp_all add: js_isInteger_def)

section \<open>Operational events\<close>

record OperationalEventInput =
  oe_event :: OperationalEventKind
  oe_jobId :: "string option"
  oe_occurredAt :: "time option"
  oe_pipelineId :: string
  oe_runId :: string
  oe_runStepId :: "string option"
  oe_workerId :: "string option"
  oe_bytesRead :: "rat option"
  oe_bytesWritten :: "rat option"
  oe_durationMs :: "rat option"
  oe_recordsRead :: "rat option"
  oe_recordsWritten :: "rat option"
  oe_retryAttempt :: "rat option"

datatype event_error = EventError string | EventDatabaseError db_error

definition eventMetrics :: "OperationalEventInput \<Rightarrow> (string \<times> rat option) list" where
  "eventMetrics input =
     [(''bytesRead'', oe_bytesRead input), (''bytesWritten'', oe_bytesWritten input),
      (''durationMs'', oe_durationMs input), (''recordsRead'', oe_recordsRead input),
      (''recordsWritten'', oe_recordsWritten input), (''retryAttempt'', oe_retryAttempt input)]"

definition unsafeMetric :: "rat option \<Rightarrow> bool" where
  "unsafeMetric v = (case v of None \<Rightarrow> False | Some x \<Rightarrow> \<not> js_isSafeInteger x \<or> x < 0)"

definition validateOperationalEvent :: "OperationalEventInput \<Rightarrow> (event_error, unit) result" where
  "validateOperationalEvent input =
     for_each (\<lambda>(name, v) u.
       bind_res (throw_if (unsafeMetric v)
         (EventError (name @ '' must be a non-negative safe integer.''))) (\<lambda>_. Return u))
       (eventMetrics input) ()"

definition eventRow :: "time \<Rightarrow> OperationalEventInput \<times> string \<Rightarrow> event_row" where
  "eventRow dbNow iu = (case iu of (input, uuid) \<Rightarrow>
     \<lparr>ev_id = uuid, ev_pipelineId = oe_pipelineId input, ev_runId = oe_runId input,
      ev_runStepId = oe_runStepId input, ev_jobId = oe_jobId input, ev_workerId = oe_workerId input,
      ev_event = oe_event input,
      ev_recordsRead = map_option floor (oe_recordsRead input),
      ev_recordsWritten = map_option floor (oe_recordsWritten input),
      ev_bytesRead = map_option floor (oe_bytesRead input),
      ev_bytesWritten = map_option floor (oe_bytesWritten input),
      ev_durationMs = map_option floor (oe_durationMs input),
      ev_retryAttempt = map_option floor (oe_retryAttempt input),
      ev_occurredAt = (case oe_occurredAt input of None \<Rightarrow> dbNow | Some t \<Rightarrow> t)\<rparr>)"

definition insertEventInputs ::
  "(nat \<Rightarrow> string) \<Rightarrow> time \<Rightarrow> OperationalEventInput list \<Rightarrow> database \<Rightarrow> (event_error, database) result" where
  "insertEventInputs gen dbNow inputs db =
     map_err EventDatabaseError
       (insertEvents (map (eventRow dbNow) (zip inputs (draw_uuids gen (length inputs) db)))
         (advance_uuids (length inputs) db))"

definition recordOperationalEvent ::
  "(nat \<Rightarrow> string) \<Rightarrow> time \<Rightarrow> OperationalEventInput \<Rightarrow> database \<Rightarrow> (event_error, database) result" where
  "recordOperationalEvent gen dbNow input db =
     bind_res (validateOperationalEvent input) (\<lambda>_. insertEventInputs gen dbNow [input] db)"

definition recordOperationalEvents ::
  "(nat \<Rightarrow> string) \<Rightarrow> time \<Rightarrow> OperationalEventInput list \<Rightarrow> database \<Rightarrow> (event_error, database) result" where
  "recordOperationalEvents gen dbNow inputs db =
     bind_res (for_each (\<lambda>input u. validateOperationalEvent input) inputs ()) (\<lambda>_.
     if length inputs > 0 then insertEventInputs gen dbNow inputs db else Return db)"

section \<open>Run and log retention\<close>

definition DEFAULT_RUN_LOG_RETENTION_DAYS :: int where
  "DEFAULT_RUN_LOG_RETENTION_DAYS = 365"

definition RUN_LOG_RETENTION_DAYS_SETTING :: string where
  "RUN_LOG_RETENTION_DAYS_SETTING = ''retention.run_log_days''"

text \<open>A value that passes is an integer; the result is that integer.\<close>

definition resolveRunLogRetentionDays :: "json option \<Rightarrow> (string, int) result" where
  "resolveRunLogRetentionDays v =
     (case v of
        None \<Rightarrow> Return DEFAULT_RUN_LOG_RETENTION_DAYS
      | Some (JNum r) \<Rightarrow>
          if \<not> js_isInteger r \<or> r < 1 then Throw ''Run and log retention days must be a positive integer.''
          else Return \<lfloor>r\<rfloor>
      | Some _ \<Rightarrow> Throw ''Run and log retention days must be a positive integer.'')"

definition getRunLogRetentionDays :: "database \<Rightarrow> (string, int) result" where
  "getRunLogRetentionDays db =
     resolveRunLogRetentionDays
       (map_option st_value (find (\<lambda>s. st_key s = RUN_LOG_RETENTION_DAYS_SETTING) (db_settings db)))"

definition setRunLogRetentionDays :: "time \<Rightarrow> rat \<Rightarrow> database \<Rightarrow> (string, database) result" where
  "setRunLogRetentionDays now days db =
     bind_res (resolveRunLogRetentionDays (Some (JNum days))) (\<lambda>retentionDays.
     let row = \<lparr>st_key = RUN_LOG_RETENTION_DAYS_SETTING, st_value = JNum (of_int retentionDays),
                st_updatedAt = now\<rparr>
     in Return (db\<lparr>db_settings :=
          (if RUN_LOG_RETENTION_DAYS_SETTING \<in> set (map st_key (db_settings db))
           then update_where (\<lambda>s. st_key s = RUN_LOG_RETENTION_DAYS_SETTING)
                  (\<lambda>s. s\<lparr>st_value := st_value row, st_updatedAt := st_updatedAt row\<rparr>) (db_settings db)
           else db_settings db @ [row])\<rparr>))"

text \<open>
  \<open>setUTCDate\<close> adds whole UTC days. Beyond the range of \<open>Date\<close> the result is an invalid
  date, here \<open>None\<close>, which cannot be written to a timestamp column.
\<close>

definition maxDate :: int where
  "maxDate = 8640000000000000"

definition calculateRunLogExpiry :: "time \<Rightarrow> int \<Rightarrow> (string, time option) result" where
  "calculateRunLogExpiry createdAt retentionDays =
     bind_res (resolveRunLogRetentionDays (Some (JNum (of_int retentionDays)))) (\<lambda>days.
     let expiresAt = createdAt + days * 86400000
     in Return (if \<bar>expiresAt\<bar> \<le> maxDate then Some expiresAt else None))"

section \<open>Lemmas\<close>

lemma validateOperationalEvent_iff:
  "validateOperationalEvent input = Return u \<longleftrightarrow> (\<forall>(n, v)\<in>set (eventMetrics input). \<not> unsafeMetric v)"
  by (simp add: validateOperationalEvent_def eventMetrics_def bind_res_Return_iff throw_if_iff)

lemma insertEventInputs_Return:
  "insertEventInputs gen dbNow inputs db = Return db' \<longleftrightarrow>
     insertEvents (map (eventRow dbNow) (zip inputs (draw_uuids gen (length inputs) db)))
       (advance_uuids (length inputs) db) = Return db'"
  by (simp add: insertEventInputs_def)

lemma recordOperationalEvent_Return:
  "recordOperationalEvent gen dbNow input db = Return db' \<Longrightarrow>
     insertEventInputs gen dbNow [input] db = Return db'"
  by (simp add: recordOperationalEvent_def bind_res_Return_iff)

lemma recordOperationalEvents_Return:
  "recordOperationalEvents gen dbNow inputs db = Return db' \<Longrightarrow>
     insertEventInputs gen dbNow inputs db = Return db' \<or> inputs = [] \<and> db' = db"
  by (auto simp: recordOperationalEvents_def bind_res_Return_iff split: if_splits)

lemma insertEventInputs_wf [db_preserves]:
  assumes "db_wf db" and "insertEventInputs gen dbNow inputs db = Return db'"
  shows "db_wf db'"
  using assms(2) unfolding insertEventInputs_Return
  by (rule insertEvents_wf [OF advance_uuids_wf [OF assms(1)]])

text \<open>Events change no table but their own and the counter of identifiers.\<close>

lemma insertEventInputs_tables:
  assumes "insertEventInputs gen dbNow inputs db = Return db'"
  shows "\<exists>es. db' = db\<lparr>db_events := db_events db @ es, db_uuids := db_uuids db + length inputs\<rparr> \<and>
    map ev_runId es = map oe_runId inputs \<and> map ev_event es = map oe_event inputs \<and>
    map ev_pipelineId es = map oe_pipelineId inputs"
proof -
  let ?es = "map (eventRow dbNow) (zip inputs (draw_uuids gen (length inputs) db))"
  have len: "length (draw_uuids gen (length inputs) db) = length inputs" by (simp add: draw_uuids_def)
  have "db' = db\<lparr>db_events := db_events db @ ?es, db_uuids := db_uuids db + length inputs\<rparr>"
    using assms unfolding insertEventInputs_Return
    by (auto simp: insertEvents_def bind_res_Return_iff insert_unique_Return advance_uuids_def)
  moreover have "map ev_runId ?es = map oe_runId inputs" "map ev_event ?es = map oe_event inputs"
    "map ev_pipelineId ?es = map oe_pipelineId inputs"
    by (rule nth_equalityI; simp add: len eventRow_def)+
  ultimately show ?thesis by blast
qed

lemma getRunLogRetentionDays_pos:
  "getRunLogRetentionDays db = Return d \<Longrightarrow> 1 \<le> d"
  by (auto simp: getRunLogRetentionDays_def resolveRunLogRetentionDays_def
      DEFAULT_RUN_LOG_RETENTION_DAYS_def le_floor_iff split: option.splits json.splits if_splits)

lemma find_update_where_value:
  "find P (update_where P f xs) = map_option f (find P xs)" if "\<And>x. P (f x) = P x"
  using that by (induction xs) (auto simp: update_where_def)

lemma find_append_new:
  "\<forall>x\<in>set xs. \<not> P x \<Longrightarrow> P y \<Longrightarrow> find P (xs @ [y]) = Some y"
  by (induction xs) auto

lemma filter_update_where_other:
  "(\<And>x. P x \<Longrightarrow> \<not> Q x \<and> \<not> Q (f x)) \<Longrightarrow> filter Q (update_where P f xs) = filter Q xs"
  by (induction xs) (auto simp: update_where_def)

lemma event_integers:
  assumes "\<forall>(n, v)\<in>set (eventMetrics input). \<not> unsafeMetric v"
  shows "eventIntegersCheck (eventRow dbNow (input, u)) \<longleftrightarrow>
    (\<forall>(n, v)\<in>set (eventMetrics input). \<forall>x. v = Some x \<longrightarrow> x < 2 ^ 31)"
proof -
  have "pred_option int4 (map_option floor v) \<longleftrightarrow> (\<forall>x. v = Some x \<longrightarrow> x < 2 ^ 31)" if "\<not> unsafeMetric v" for v :: "rat option"
  proof (cases v)
    case (Some x)
    with that have "0 \<le> x" "of_int \<lfloor>x\<rfloor> = x"
      by (auto simp: unsafeMetric_def js_isSafeInteger_def js_isInteger_def)
    then have "int4 \<lfloor>x\<rfloor> \<longleftrightarrow> x < 2 ^ 31"
      by (simp add: int4_def floor_less_iff)
    with Some show ?thesis by simp
  qed simp
  with assms show ?thesis
    by (auto simp: eventMetrics_def eventIntegersCheck_def eventRow_def)
qed

definition sampleEventInput :: "rat option \<Rightarrow> OperationalEventInput" where
  "sampleEventInput n =
     \<lparr>oe_event = EvStepSucceeded, oe_jobId = None, oe_occurredAt = None, oe_pipelineId = ''g0'', oe_runId = ''r1'',
      oe_runStepId = None, oe_workerId = None, oe_bytesRead = n, oe_bytesWritten = None, oe_durationMs = None,
      oe_recordsRead = None, oe_recordsWritten = None, oe_retryAttempt = None\<rparr>"

section \<open>Properties\<close>

text \<open>
  The retention period that is accepted, exactly a positive integer, is the one that
  is read back, and no other setting changes.
\<close>

theorem retention_days_roundtrip:
  "case setRunLogRetentionDays now days db of
     Inl _ \<Rightarrow> \<not> (js_isInteger days \<and> 1 \<le> days)
   | Inr db' \<Rightarrow> js_isInteger days \<and> 1 \<le> days \<and> getRunLogRetentionDays db' = Return \<lfloor>days\<rfloor> \<and>
       filter (\<lambda>s. st_key s \<noteq> RUN_LOG_RETENTION_DAYS_SETTING) (db_settings db') =
         filter (\<lambda>s. st_key s \<noteq> RUN_LOG_RETENTION_DAYS_SETTING) (db_settings db) \<and>
       db' = db\<lparr>db_settings := db_settings db'\<rparr>"
proof (cases "js_isInteger days \<and> 1 \<le> days")
  case True
  let ?k = RUN_LOG_RETENTION_DAYS_SETTING
  have pos: "1 \<le> \<lfloor>days\<rfloor>" using True by (simp add: le_floor_iff)
  then have res: "resolveRunLogRetentionDays (Some (JNum (of_int \<lfloor>days\<rfloor>))) = Return \<lfloor>days\<rfloor>"
    by (simp add: resolveRunLogRetentionDays_def)
  show ?thesis
  proof (cases "?k \<in> set (map st_key (db_settings db))")
    case present: True
    let ?f = "\<lambda>s. s\<lparr>st_value := JNum (of_int \<lfloor>days\<rfloor>), st_updatedAt := now\<rparr>"
    have set: "setRunLogRetentionDays now days db =
        Return (db\<lparr>db_settings := update_where (\<lambda>s. st_key s = ?k) ?f (db_settings db)\<rparr>)"
      using True present by (simp add: setRunLogRetentionDays_def resolveRunLogRetentionDays_def)
    obtain s where "find (\<lambda>s. st_key s = ?k) (db_settings db) = Some s"
      using present by (cases "find (\<lambda>s. st_key s = ?k) (db_settings db)") (auto simp: find_None_iff)
    then have "find (\<lambda>s. st_key s = ?k) (update_where (\<lambda>s. st_key s = ?k) ?f (db_settings db)) = Some (?f s)"
      by (simp add: find_update_where_value)
    with set True res show ?thesis
      by (simp add: getRunLogRetentionDays_def filter_update_where_other)
  next
    case False
    then have "find (\<lambda>s. st_key s = ?k) (db_settings db @ [\<lparr>st_key = ?k, st_value = v, st_updatedAt = now\<rparr>]) =
        Some \<lparr>st_key = ?k, st_value = v, st_updatedAt = now\<rparr>" for v
      by (intro find_append_new ballI) (auto, metis imageI)
    with False True res show ?thesis
      by (simp add: getRunLogRetentionDays_def setRunLogRetentionDays_def resolveRunLogRetentionDays_def)
  qed
next
  case False
  then show ?thesis by (auto simp: setRunLogRetentionDays_def resolveRunLogRetentionDays_def)
qed

text \<open>
  Property C40: the metrics of a recorded event fit the integer columns. An event is recorded only
  when every metric is a natural number below 2^31; one that validation accepts because it is a
  safe integer but that is larger is rejected by the database, not by validation.
\<close>

theorem event_metrics_bounds:
  "(recordOperationalEvent gen dbNow input db = Return db' \<longrightarrow>
     (\<forall>(n, v)\<in>set (eventMetrics input). \<forall>x. v = Some x \<longrightarrow> js_isInteger x \<and> 0 \<le> x \<and> x < 2 ^ 31)) \<and>
   (validateOperationalEvent input = Return () \<and> (\<exists>(n, v)\<in>set (eventMetrics input). \<exists>x. v = Some x \<and> 2 ^ 31 \<le> x) \<longrightarrow>
     recordOperationalEvent gen dbNow input db = Throw (EventDatabaseError (CheckViolation ''integer out of range'')))"
proof (intro conjI impI)
  let ?row = "eventRow dbNow (input, gen (db_uuids db))"
  assume "recordOperationalEvent gen dbNow input db = Return db'"
  then have ok: "\<forall>(n, v)\<in>set (eventMetrics input). \<not> unsafeMetric v" and "eventIntegersCheck ?row"
    by (auto simp: recordOperationalEvent_def bind_res_Return_iff validateOperationalEvent_iff insertEventInputs_def
        insertEvents_def throw_if_iff draw_uuids_def)
  with event_integers [OF ok]
  show "\<forall>(n, v)\<in>set (eventMetrics input). \<forall>x. v = Some x \<longrightarrow> js_isInteger x \<and> 0 \<le> x \<and> x < 2 ^ 31"
    by (fastforce simp: unsafeMetric_def js_isSafeInteger_def)
next
  let ?row = "eventRow dbNow (input, gen (db_uuids db))"
  assume a: "validateOperationalEvent input = Return () \<and> (\<exists>(n, v)\<in>set (eventMetrics input). \<exists>x. v = Some x \<and> 2 ^ 31 \<le> x)"
  then have ok: "\<forall>(n, v)\<in>set (eventMetrics input). \<not> unsafeMetric v" by (simp add: validateOperationalEvent_iff)
  have "\<not> eventIntegersCheck ?row" using a unfolding event_integers [OF ok] by fastforce
  with a show "recordOperationalEvent gen dbNow input db = Throw (EventDatabaseError (CheckViolation ''integer out of range''))"
    by (simp add: recordOperationalEvent_def insertEventInputs_def insertEvents_def draw_uuids_def throw_if_def)
qed

theorem event_metrics_bounds_witness:
  "recordOperationalEvent (\<lambda>_. ''e'') 0 (sampleEventInput (Some 3000000000)) emptyDb =
     Throw (EventDatabaseError (CheckViolation ''integer out of range''))"
  using event_metrics_bounds [of "\<lambda>_. ''e''" 0 "sampleEventInput (Some 3000000000)" emptyDb]
  by (auto simp: validateOperationalEvent_iff eventMetrics_def sampleEventInput_def unsafeMetric_def js_isSafeInteger_def)

end
