(* ===== verification/State_Machine.thy ===== *)
theory State_Machine
  imports Contracts
begin

text \<open>
  The execution state machine of \<open>packages/pipeline/src/state-machine.ts\<close>: one pipeline's
  availability, its single active run and the backlog behind it. The operations are the
  exported functions with their guards in source order; \<open>apply_event\<close> packages them as one
  step so that runs of arbitrary calls can be studied. The reachable states satisfy
  \<open>execution_inv\<close>, runs are served first in first out, and a backlog always drains.
\<close>

section \<open>State and operations\<close>

datatype ActiveRunPhase = PhaseQueued | PhaseRunning

record ActivePipelineRun =
  ar_id :: string
  ar_state :: ActiveRunPhase
  ar_cancellationRequested :: bool

record PipelineExecutionState =
  es_pipelineState :: PipelineState
  es_activeRun :: "ActivePipelineRun option"
  es_queuedRunIds :: "string list"

datatype transition_error = PipelineStateTransitionError string

type_synonym transition = "(transition_error, PipelineExecutionState) result"

definition createPipelineExecutionState :: "PipelineState \<Rightarrow> PipelineExecutionState" where
  "createPipelineExecutionState st =
     \<lparr>es_pipelineState = st, es_activeRun = None, es_queuedRunIds = []\<rparr>"

definition isPipelineEditable :: "PipelineExecutionState \<Rightarrow> bool" where
  "isPipelineEditable s \<longleftrightarrow> es_activeRun s = None"

definition assertPipelineEditable :: "PipelineExecutionState \<Rightarrow> (transition_error, unit) result" where
  "assertPipelineEditable s =
     throw_if (\<not> isPipelineEditable s)
       (PipelineStateTransitionError
         ''Pipeline configuration is locked while a run is queued or active.'')"

definition setPipelineState :: "PipelineExecutionState \<Rightarrow> PipelineState \<Rightarrow> transition" where
  "setPipelineState s st =
     bind_res (assertPipelineEditable s) (\<lambda>_. Return (s\<lparr>es_pipelineState := st\<rparr>))"

definition assertPipelineCanRun :: "PipelineExecutionState \<Rightarrow> (transition_error, unit) result" where
  "assertPipelineCanRun s =
     throw_if (es_pipelineState s \<noteq> Enabled)
       (PipelineStateTransitionError
         ''Only an enabled pipeline can be queued for execution. Review and enable this pipeline first.'')"

definition containsRun :: "PipelineExecutionState \<Rightarrow> string \<Rightarrow> bool" where
  "containsRun s runId \<longleftrightarrow>
     map_option ar_id (es_activeRun s) = Some runId \<or> runId \<in> set (es_queuedRunIds s)"

definition freshActiveRun :: "string \<Rightarrow> ActivePipelineRun" where
  "freshActiveRun runId =
     \<lparr>ar_id = runId, ar_state = PhaseQueued, ar_cancellationRequested = False\<rparr>"

definition enqueuePipelineRun :: "PipelineExecutionState \<Rightarrow> string \<Rightarrow> transition" where
  "enqueuePipelineRun s runId =
     bind_res (assertPipelineCanRun s) (\<lambda>_.
     if runId = [] then
       Throw (PipelineStateTransitionError ''A pipeline run requires an identifier.'')
     else if containsRun s runId then
       Throw (PipelineStateTransitionError ''A run cannot be queued more than once.'')
     else case es_activeRun s of
       None \<Rightarrow> Return (s\<lparr>es_activeRun := Some (freshActiveRun runId)\<rparr>)
     | Some _ \<Rightarrow> Return (s\<lparr>es_queuedRunIds := es_queuedRunIds s @ [runId]\<rparr>))"

definition requireActiveRun ::
  "PipelineExecutionState \<Rightarrow> (transition_error, ActivePipelineRun) result" where
  "requireActiveRun s =
     (case es_activeRun s of
        None \<Rightarrow> Throw (PipelineStateTransitionError ''The pipeline has no active run.'')
      | Some r \<Rightarrow> Return r)"

definition startActiveRun :: "PipelineExecutionState \<Rightarrow> transition" where
  "startActiveRun s =
     bind_res (requireActiveRun s) (\<lambda>r.
     if ar_state r \<noteq> PhaseQueued then
       Throw (PipelineStateTransitionError ''Only a queued run can begin execution.'')
     else if ar_cancellationRequested r then
       Throw (PipelineStateTransitionError ''A cancelled run cannot begin execution.'')
     else Return (s\<lparr>es_activeRun := Some (r\<lparr>ar_state := PhaseRunning\<rparr>)\<rparr>))"

definition requestActiveRunCancellation :: "PipelineExecutionState \<Rightarrow> transition" where
  "requestActiveRunCancellation s =
     bind_res (requireActiveRun s) (\<lambda>r.
     if ar_cancellationRequested r then
       Throw (PipelineStateTransitionError ''Cancellation has already been requested.'')
     else Return (s\<lparr>es_activeRun := Some (r\<lparr>ar_cancellationRequested := True\<rparr>)\<rparr>))"

definition isTerminalRunState :: "RunState \<Rightarrow> bool" where
  "isTerminalRunState st \<longleftrightarrow> st \<noteq> RunQueued \<and> st \<noteq> RunRunning"

text \<open>The next identifier is tested for truthiness: an empty one would also end the backlog.\<close>

definition completeActiveRun :: "PipelineExecutionState \<Rightarrow> RunState \<Rightarrow> transition" where
  "completeActiveRun s terminalState =
     bind_res (requireActiveRun s) (\<lambda>_.
     if \<not> isTerminalRunState terminalState then
       Throw (PipelineStateTransitionError ''Only a terminal run state can release a pipeline.'')
     else case es_queuedRunIds s of
       [] \<Rightarrow> Return (s\<lparr>es_activeRun := None, es_queuedRunIds := []\<rparr>)
     | nextRunId # remaining \<Rightarrow>
         if nextRunId = [] then Return (s\<lparr>es_activeRun := None, es_queuedRunIds := []\<rparr>)
         else Return (s\<lparr>es_activeRun := Some (freshActiveRun nextRunId),
                        es_queuedRunIds := remaining\<rparr>))"

section \<open>Events, reachability and observations\<close>

datatype execution_event =
    EvSetState PipelineState
  | EvEnqueue string
  | EvStart
  | EvCancel
  | EvComplete RunState

fun apply_event :: "PipelineExecutionState \<Rightarrow> execution_event \<Rightarrow> transition" where
  "apply_event s (EvSetState st) = setPipelineState s st"
| "apply_event s (EvEnqueue r) = enqueuePipelineRun s r"
| "apply_event s EvStart = startActiveRun s"
| "apply_event s EvCancel = requestActiveRunCancellation s"
| "apply_event s (EvComplete t) = completeActiveRun s t"

text \<open>The states a caller can reach by the exported operations only.\<close>

inductive reachable_execution :: "PipelineExecutionState \<Rightarrow> bool" where
  created: "reachable_execution (createPipelineExecutionState st)"
| stepped: "reachable_execution s \<Longrightarrow> apply_event s ev = Return s' \<Longrightarrow> reachable_execution s'"

text \<open>Every run that is not finished yet, in the order it will be served.\<close>

definition pendingRuns :: "PipelineExecutionState \<Rightarrow> string list" where
  "pendingRuns s =
     (case es_activeRun s of None \<Rightarrow> [] | Some r \<Rightarrow> [ar_id r]) @ es_queuedRunIds s"

fun acceptedRuns :: "PipelineExecutionState \<Rightarrow> execution_event \<Rightarrow> string list" where
  "acceptedRuns s (EvEnqueue r) = [r]"
| "acceptedRuns s _ = []"

fun releasedRuns :: "PipelineExecutionState \<Rightarrow> execution_event \<Rightarrow> string list" where
  "releasedRuns s (EvComplete t) =
     (case es_activeRun s of None \<Rightarrow> [] | Some r \<Rightarrow> [ar_id r])"
| "releasedRuns s _ = []"

text \<open>
  A backlog exists only behind an active run, work exists only while the pipeline is enabled,
  and no identifier is empty or present twice.
\<close>

definition execution_inv :: "PipelineExecutionState \<Rightarrow> bool" where
  "execution_inv s \<longleftrightarrow>
     (es_activeRun s = None \<longrightarrow> es_queuedRunIds s = []) \<and>
     (es_activeRun s \<noteq> None \<longrightarrow> es_pipelineState s = Enabled) \<and>
     distinct (pendingRuns s) \<and> [] \<notin> set (pendingRuns s)"

section \<open>Lemmas\<close>

lemmas execution_defs =
  setPipelineState_def assertPipelineEditable_def isPipelineEditable_def enqueuePipelineRun_def
  assertPipelineCanRun_def startActiveRun_def requestActiveRunCancellation_def
  completeActiveRun_def requireActiveRun_def freshActiveRun_def containsRun_def

lemma created_inv: "execution_inv (createPipelineExecutionState st)"
  by (simp add: execution_inv_def createPipelineExecutionState_def pendingRuns_def)

lemma setPipelineState_inv:
  "execution_inv s \<Longrightarrow> setPipelineState s st = Return s' \<Longrightarrow> execution_inv s'"
  by (auto simp: execution_inv_def pendingRuns_def execution_defs res_simps)

lemma enqueuePipelineRun_inv:
  "execution_inv s \<Longrightarrow> enqueuePipelineRun s r = Return s' \<Longrightarrow> execution_inv s'"
  by (auto simp: execution_inv_def pendingRuns_def execution_defs res_simps
      split: if_splits option.splits)

lemma startActiveRun_inv:
  "execution_inv s \<Longrightarrow> startActiveRun s = Return s' \<Longrightarrow> execution_inv s'"
  by (auto simp: execution_inv_def pendingRuns_def execution_defs res_simps
      split: if_splits option.splits)

lemma requestActiveRunCancellation_inv:
  "execution_inv s \<Longrightarrow> requestActiveRunCancellation s = Return s' \<Longrightarrow> execution_inv s'"
  by (auto simp: execution_inv_def pendingRuns_def execution_defs res_simps
      split: if_splits option.splits)

lemma completeActiveRun_inv:
  "execution_inv s \<Longrightarrow> completeActiveRun s t = Return s' \<Longrightarrow> execution_inv s'"
  by (auto simp: execution_inv_def pendingRuns_def execution_defs res_simps
      split: if_splits option.splits list.splits)

lemmas operations_inv =
  setPipelineState_inv enqueuePipelineRun_inv startActiveRun_inv
  requestActiveRunCancellation_inv completeActiveRun_inv

lemma apply_event_inv:
  "execution_inv s \<Longrightarrow> apply_event s ev = Return s' \<Longrightarrow> execution_inv s'"
  by (cases ev) (auto intro: operations_inv)

lemma apply_event_conserves:
  assumes "execution_inv s" and "apply_event s ev = Return s'"
  shows "pendingRuns s @ acceptedRuns s ev = releasedRuns s ev @ pendingRuns s'"
  using assms
  by (cases ev)
    (auto simp: execution_inv_def pendingRuns_def execution_defs res_simps
      split: if_splits option.splits list.splits)

interpretation exec: fifo_machine apply_event execution_inv pendingRuns acceptedRuns releasedRuns
  by unfold_locales (auto intro: apply_event_inv apply_event_conserves)

lemma completeActiveRun_accepts:
  "(\<exists>s'. completeActiveRun s t = Return s') \<longleftrightarrow> es_activeRun s \<noteq> None \<and> isTerminalRunState t"
  by (auto simp: execution_defs split: option.splits list.splits)

lemma completeActiveRun_pending:
  assumes "execution_inv s" and "pendingRuns s \<noteq> []" and "isTerminalRunState t"
  obtains s' where "completeActiveRun s t = Return s'" and "pendingRuns s' = tl (pendingRuns s)"
    and "execution_inv s'" and "es_pipelineState s' = es_pipelineState s"
proof -
  from assms have active: "es_activeRun s \<noteq> None"
    by (auto simp: execution_inv_def pendingRuns_def)
  with assms(3) obtain s' where s': "completeActiveRun s t = Return s'"
    using completeActiveRun_accepts by blast
  have "pendingRuns s = releasedRuns s (EvComplete t) @ pendingRuns s'"
    using apply_event_conserves [of s "EvComplete t"] assms(1) s' by simp
  moreover have "es_pipelineState s' = es_pipelineState s"
    using s' by (auto simp: execution_defs res_simps split: if_splits option.splits list.splits)
  ultimately show ?thesis
    using that [OF s'] active completeActiveRun_inv [OF assms(1) s'] by auto
qed

lemma pendingRuns_Nil_iff:
  "execution_inv s \<Longrightarrow> pendingRuns s = [] \<longleftrightarrow> es_activeRun s = None \<and> es_queuedRunIds s = []"
  by (auto simp: pendingRuns_def execution_inv_def split: option.splits)

section \<open>Properties\<close>

text \<open>
  Property C12: in every state reachable through the exported operations there is a backlog only
  behind an active run, queued or active work exists only on an enabled pipeline, and the run
  identifiers are non-empty and pairwise distinct.
\<close>

theorem reachable_execution_inv: "reachable_execution s \<Longrightarrow> execution_inv s"
proof (induction rule: reachable_execution.induct)
  case (created st)
  show ?case by (rule created_inv)
next
  case (stepped s ev s')
  then show ?case by (blast intro: apply_event_inv)
qed

theorem reachable_execution_inv_witness:
  "\<exists>s. reachable_execution s \<and> pendingRuns s = [''a'', ''b''] \<and> execution_inv s"
proof -
  let ?s0 = "createPipelineExecutionState Enabled"
  let ?s1 = "?s0\<lparr>es_activeRun := Some (freshActiveRun ''a'')\<rparr>"
  let ?s2 = "?s1\<lparr>es_queuedRunIds := [''b'']\<rparr>"
  have "reachable_execution ?s1"
    by (rule stepped [OF created [of Enabled], of "EvEnqueue ''a''"])
      (simp add: execution_defs createPipelineExecutionState_def)
  then have r: "reachable_execution ?s2"
    by (rule stepped [where ev = "EvEnqueue ''b''"])
      (simp add: execution_defs createPipelineExecutionState_def)
  have "pendingRuns ?s2 = [''a'', ''b'']"
    by (simp add: pendingRuns_def freshActiveRun_def)
  with r reachable_execution_inv [OF r] show ?thesis by blast
qed

text \<open>
  Property C13: whatever operations are called on a fresh pipeline, the accepted runs are exactly
  the completed ones followed by the pending ones: runs complete in the order in which they were
  enqueued and none is lost or served twice.
\<close>

theorem runs_complete_in_fifo_order:
  fixes st :: PipelineState and evs :: "execution_event list"
  defines "s0 \<equiv> createPipelineExecutionState st"
  shows "run_log apply_event acceptedRuns s0 evs =
    run_log apply_event releasedRuns s0 evs @ pendingRuns (run_steps apply_event s0 evs)"
proof -
  have "pendingRuns s0 = []" "execution_inv s0"
    using created_inv by (simp_all add: s0_def pendingRuns_def createPipelineExecutionState_def)
  then show ?thesis using exec.run_conserves [of s0 evs] by simp
qed

text \<open>
  A backlog drains. Reporting one terminal result for each pending run, whatever
  the results are, is accepted every time and leaves the pipeline idle, editable and in the same
  availability state.
\<close>

theorem backlog_drains:
  "execution_inv s \<Longrightarrow> list_all isTerminalRunState ts \<Longrightarrow> length ts = length (pendingRuns s) \<Longrightarrow>
     run_log apply_event releasedRuns s (map EvComplete ts) = pendingRuns s \<and>
     isPipelineEditable (run_steps apply_event s (map EvComplete ts)) \<and>
     es_queuedRunIds (run_steps apply_event s (map EvComplete ts)) = [] \<and>
     es_pipelineState (run_steps apply_event s (map EvComplete ts)) = es_pipelineState s"
proof (induction ts arbitrary: s)
  case Nil
  with pendingRuns_Nil_iff [of s] show ?case by (auto simp: isPipelineEditable_def)
next
  case (Cons t ts)
  then have ne: "pendingRuns s \<noteq> []" and t: "isTerminalRunState t" by auto
  from completeActiveRun_pending [OF Cons.prems(1) ne t] obtain s' where
    s': "completeActiveRun s t = Return s'" "pendingRuns s' = tl (pendingRuns s)"
      "execution_inv s'" "es_pipelineState s' = es_pipelineState s" .
  have rel: "releasedRuns s (EvComplete t) @ tl (pendingRuns s) = pendingRuns s"
    using apply_event_conserves [of s "EvComplete t"] Cons.prems(1) s'(1,2) by simp
  from Cons.IH [OF s'(3)] Cons.prems s' ne show ?case
    by (simp add: rel del: releasedRuns.simps)
qed

theorem backlog_drains_witness:
  "\<exists>s. pendingRuns s = [''a'', ''b''] \<and>
     run_log apply_event releasedRuns s (map EvComplete [RunFailed, RunSucceeded]) = [''a'', ''b''] \<and>
     isPipelineEditable (run_steps apply_event s (map EvComplete [RunFailed, RunSucceeded]))"
proof -
  let ?s = "\<lparr>es_pipelineState = Enabled, es_activeRun = Some (freshActiveRun ''a''),
      es_queuedRunIds = [''b'']\<rparr>"
  have p: "pendingRuns ?s = [''a'', ''b'']"
    by (simp add: pendingRuns_def freshActiveRun_def)
  have i: "execution_inv ?s"
    by (simp add: execution_inv_def p)
  have l: "list_all isTerminalRunState [RunFailed, RunSucceeded]"
    by (simp add: isTerminalRunState_def)
  from backlog_drains [OF i l] p show ?thesis by (intro exI [of _ ?s]) simp
qed

text \<open>
  Exactly when each operation is accepted. Availability changes only on an idle
  pipeline; a run is enqueued only on an enabled pipeline under a non-empty identifier that is
  not already queued or active; a run starts only from the queued phase and not after a
  cancellation request; cancellation is requested once; only a terminal result releases a run.
\<close>

theorem operations_accepted_iff:
  "((\<exists>s'. setPipelineState s st = Return s') \<longleftrightarrow> es_activeRun s = None) \<and>
   ((\<exists>s'. enqueuePipelineRun s runId = Return s') \<longleftrightarrow>
      es_pipelineState s = Enabled \<and> runId \<noteq> [] \<and> runId \<notin> set (pendingRuns s)) \<and>
   ((\<exists>s'. startActiveRun s = Return s') \<longleftrightarrow>
      (\<exists>r. es_activeRun s = Some r \<and> ar_state r = PhaseQueued \<and> \<not> ar_cancellationRequested r)) \<and>
   ((\<exists>s'. requestActiveRunCancellation s = Return s') \<longleftrightarrow>
      (\<exists>r. es_activeRun s = Some r \<and> \<not> ar_cancellationRequested r)) \<and>
   ((\<exists>s'. completeActiveRun s t = Return s') \<longleftrightarrow>
      es_activeRun s \<noteq> None \<and> isTerminalRunState t)"
proof (intro conjI)
  show "(\<exists>s'. setPipelineState s st = Return s') \<longleftrightarrow> es_activeRun s = None"
    by (simp add: execution_defs throw_if_def)
  show "(\<exists>s'. enqueuePipelineRun s runId = Return s') \<longleftrightarrow>
      es_pipelineState s = Enabled \<and> runId \<noteq> [] \<and> runId \<notin> set (pendingRuns s)"
    by (auto simp: execution_defs throw_if_def pendingRuns_def split: option.splits)
  show "(\<exists>s'. startActiveRun s = Return s') \<longleftrightarrow>
      (\<exists>r. es_activeRun s = Some r \<and> ar_state r = PhaseQueued \<and> \<not> ar_cancellationRequested r)"
    by (auto simp: execution_defs split: option.splits)
  show "(\<exists>s'. requestActiveRunCancellation s = Return s') \<longleftrightarrow>
      (\<exists>r. es_activeRun s = Some r \<and> \<not> ar_cancellationRequested r)"
    by (auto simp: execution_defs split: option.splits)
  show "(\<exists>s'. completeActiveRun s t = Return s') \<longleftrightarrow>
      es_activeRun s \<noteq> None \<and> isTerminalRunState t"
    by (rule completeActiveRun_accepts)
qed

end
