(* ===== verification/Run_Queue.thy ===== *)
theory Run_Queue
  imports Observability State_Machine
begin

text \<open>
  \<open>apps/scheduler/src/run-queue.ts\<close>: runs are persisted in the queue of their pipeline, the
  oldest waiting run is promoted when the active one has ended, and a promoted run gets a step per
  component and a job per Source component. A function that runs in a transaction returns the new
  database with its result, or an error, and then the caller keeps the database it had.
\<close>

section \<open>Requests, results and errors\<close>

record PipelineRunRequest =
  rq_pipelineId :: string
  rq_scheduledFor :: "time option"
  rq_triggerId :: "string option"

record CreatedPipelineRun =
  cp_initialJobCount :: nat
  cp_pipelineId :: string
  cp_queuedBehindActiveRun :: bool
  cp_runId :: string

record PromotedPipelineRun =
  pr_pipelineId :: string
  pr_runId :: string

datatype PipelineRunEnqueueConflictReason = ReasonNotEnabled | ReasonNotFound

datatype run_error =
    PipelineRunEnqueueConflictError PipelineRunEnqueueConflictReason string
  | RunContractError
  | RunError string
  | RunEventError event_error
  | RunDatabaseError db_error

section \<open>Ordering\<close>

text \<open>Ascending order puts nulls last, as PostgreSQL does.\<close>

definition nulls_last :: "time option \<Rightarrow> bool \<times> time" where
  "nulls_last t = (case t of None \<Rightarrow> (True, 0) | Some x \<Rightarrow> (False, x))"

definition queueOrder :: "run_row \<Rightarrow> (bool \<times> time) \<times> time \<times> string" where
  "queueOrder r = (nulls_last (rn_scheduledFor r), rn_createdAt r, rn_id r)"

definition completionOrder :: "run_row \<Rightarrow> (bool \<times> time) \<times> string" where
  "completionOrder r = (nulls_last (rn_completedAt r), rn_id r)"

text \<open>\<open>ORDER BY key LIMIT 1\<close>.\<close>

definition first_by :: "('r \<Rightarrow> 'k::linorder) \<Rightarrow> 'r list \<Rightarrow> 'r option" where
  "first_by key rows = (case sort_key key rows of [] \<Rightarrow> None | r # _ \<Rightarrow> Some r)"

section \<open>Initial work of a run\<close>

definition runStepRow :: "string \<Rightarrow> component_row \<times> string \<Rightarrow> run_step_row" where
  "runStepRow runId cu = (case cu of (component, uuid) \<Rightarrow>
     \<lparr>rs_id = uuid, rs_runId = runId, rs_componentId = pc_id component, rs_state = RunQueued,
      rs_startedAt = None, rs_completedAt = None, rs_warningCount = 0, rs_metrics = JObj [],
      rs_error = None\<rparr>)"

definition stepQueuedEvent :: "string \<Rightarrow> string \<Rightarrow> time \<Rightarrow> run_step_row \<Rightarrow> OperationalEventInput" where
  "stepQueuedEvent pipelineId runId now step =
     \<lparr>oe_event = EvStepQueued, oe_jobId = None, oe_occurredAt = Some now, oe_pipelineId = pipelineId,
      oe_runId = runId, oe_runStepId = Some (rs_id step), oe_workerId = None, oe_bytesRead = None,
      oe_bytesWritten = None, oe_durationMs = None, oe_recordsRead = None, oe_recordsWritten = None,
      oe_retryAttempt = None\<rparr>"

definition sourceJobRow ::
  "(string, string) js_map \<Rightarrow> string \<Rightarrow> string \<Rightarrow> time \<Rightarrow> time \<Rightarrow> component_row \<times> string \<Rightarrow>
   (run_error, job_row) result" where
  "sourceJobRow stepByComponentId pipelineId runId dbNow now cu = (case cu of (component, uuid) \<Rightarrow>
     (case map_get stepByComponentId (pc_id component) of
        None \<Rightarrow> Throw (RunError ''Run step creation did not return a Source step.'')
      | Some runStepId \<Rightarrow>
          if runStepId = [] then Throw (RunError ''Run step creation did not return a Source step.'')
          else Return
            \<lparr>jb_id = uuid, jb_pipelineId = pipelineId, jb_runId = runId, jb_runStepId = runStepId,
             jb_componentId = pc_id component, jb_state = JobQueued, jb_availableAt = now,
             jb_claimedAt = None, jb_heartbeatAt = None, jb_workerId = None, jb_attempt = 0,
             jb_retryMaxAttempts = 1, jb_retryDelaySeconds = 0, jb_createdAt = dbNow,
             jb_completedAt = None\<rparr>))"

definition createInitialSourceJobs ::
  "(nat \<Rightarrow> string) \<Rightarrow> time \<Rightarrow> string \<Rightarrow> string \<Rightarrow> time \<Rightarrow> database \<Rightarrow>
   (run_error, database \<times> nat) result" where
  "createInitialSourceJobs gen dbNow pipelineId runId now db =
     (let components = filter (\<lambda>c. pc_pipelineId c = pipelineId) (db_components db);
          sourceComponents = filter (\<lambda>c. pc_kind c = Source) components
      in bind_res (throw_if (length sourceComponents = 0)
           (RunError ''Pipeline runs require at least one Source component.'')) (\<lambda>_.
         let steps = map (runStepRow runId) (zip components (draw_uuids gen (length components) db)) in
         bind_res (map_err RunDatabaseError
           (insertRunSteps steps (advance_uuids (length components) db))) (\<lambda>db.
         let stepByComponentId = map_of_entries rs_componentId rs_id steps in
         bind_res (map_err RunEventError (recordOperationalEvents gen dbNow
           (map (stepQueuedEvent pipelineId runId now) steps) db)) (\<lambda>db.
         bind_res (map_res (sourceJobRow stepByComponentId pipelineId runId dbNow now)
           (zip sourceComponents (draw_uuids gen (length sourceComponents) db))) (\<lambda>rows.
         bind_res (map_err RunDatabaseError
           (insertJobs rows (advance_uuids (length sourceComponents) db))) (\<lambda>db.
         Return (db, length sourceComponents)))))))"

section \<open>The queue of a pipeline\<close>

definition findActiveRun :: "database \<Rightarrow> string \<Rightarrow> string option" where
  "findActiveRun db pipelineId =
     map_option rn_id (find (\<lambda>r. rn_pipelineId r = pipelineId \<and> rn_isActive r \<and> activeState (rn_state r))
       (db_runs db))"

definition waitingRun :: "string \<Rightarrow> run_row \<Rightarrow> bool" where
  "waitingRun pipelineId r \<longleftrightarrow>
     rn_pipelineId r = pipelineId \<and> \<not> rn_isActive r \<and> rn_state r = RunQueued"

definition promoteOldestQueuedRun ::
  "(nat \<Rightarrow> string) \<Rightarrow> time \<Rightarrow> string \<Rightarrow> time \<Rightarrow> database \<Rightarrow>
   (run_error, database \<times> string option) result" where
  "promoteOldestQueuedRun gen dbNow pipelineId now db =
     (case first_by queueOrder (filter (waitingRun pipelineId) (db_runs db)) of
        None \<Rightarrow> Return (db, None)
      | Some queuedRun \<Rightarrow>
          bind_res (map_err RunDatabaseError
            (updateRuns (\<lambda>r. rn_id r = rn_id queuedRun) (\<lambda>r. r\<lparr>rn_isActive := True\<rparr>) db)) (\<lambda>db.
          bind_res (createInitialSourceJobs gen dbNow pipelineId (rn_id queuedRun) now db) (\<lambda>(db, n).
          Return (db, Some (rn_id queuedRun)))))"

text \<open>\<open>UPDATE runs SET is_active = false\<close> on the ended active runs of the pipeline.\<close>

definition releaseEndedRuns :: "string \<Rightarrow> statement" where
  "releaseEndedRuns pipelineId =
     updateRuns (\<lambda>r. rn_pipelineId r = pipelineId \<and> rn_isActive r \<and> terminalState (rn_state r))
       (\<lambda>r. r\<lparr>rn_isActive := False\<rparr>)"

definition assertPipelineCanCreateRun :: "PipelineState \<Rightarrow> (run_error, unit) result" where
  "assertPipelineCanCreateRun state =
     (case enqueuePipelineRun (createPipelineExecutionState state) ''pending-run'' of
        Inl _ \<Rightarrow> Throw (PipelineRunEnqueueConflictError ReasonNotEnabled
          ''Cannot create a run until the pipeline has been reviewed and enabled.'')
      | Inr _ \<Rightarrow> Return ())"

definition runQueuedEvent :: "string \<Rightarrow> string \<Rightarrow> time \<Rightarrow> OperationalEventInput" where
  "runQueuedEvent pipelineId runId now =
     \<lparr>oe_event = EvRunQueued, oe_jobId = None, oe_occurredAt = Some now, oe_pipelineId = pipelineId,
      oe_runId = runId, oe_runStepId = None, oe_workerId = None, oe_bytesRead = None,
      oe_bytesWritten = None, oe_durationMs = None, oe_recordsRead = None, oe_recordsWritten = None,
      oe_retryAttempt = None\<rparr>"

definition newRunRow :: "string \<Rightarrow> bool \<Rightarrow> PipelineRunRequest \<Rightarrow> time \<Rightarrow> time \<Rightarrow> run_row" where
  "newRunRow uuid active request now expiresAt =
     \<lparr>rn_id = uuid, rn_pipelineId = rq_pipelineId request, rn_triggerId = rq_triggerId request,
      rn_contractVersion = ''v1'', rn_state = RunQueued, rn_isActive = active,
      rn_scheduledFor = rq_scheduledFor request, rn_createdAt = now, rn_expiresAt = expiresAt,
      rn_startedAt = None, rn_completedAt = None, rn_cancellationRequestedAt = None,
      rn_cancellationRequestedByUserId = None, rn_warningCount = 0\<rparr>"

definition createPipelineRunInTransaction ::
  "zod_formats \<Rightarrow> (nat \<Rightarrow> string) \<Rightarrow> time \<Rightarrow> PipelineRunRequest \<Rightarrow> time \<Rightarrow> database \<Rightarrow>
   (run_error, database \<times> CreatedPipelineRun) result" where
  "createPipelineRunInTransaction zf gen dbNow request now db =
     bind_res (throw_if (\<not> uuid_format zf (rq_pipelineId request)) RunContractError) (\<lambda>_.
     let pipelineId = rq_pipelineId request in
     (case find (\<lambda>p. pl_id p = pipelineId) (db_pipelines db) of
        None \<Rightarrow> Throw (PipelineRunEnqueueConflictError ReasonNotFound ''The requested pipeline was not found.'')
      | Some pipeline \<Rightarrow>
          bind_res (assertPipelineCanCreateRun (pl_state pipeline)) (\<lambda>_.
          bind_res (map_err RunError (getRunLogRetentionDays db)) (\<lambda>retentionDays.
          bind_res (map_err RunDatabaseError (releaseEndedRuns pipelineId db)) (\<lambda>db.
          bind_res (case findActiveRun db pipelineId of
              Some i \<Rightarrow> Return (db, Some i)
            | None \<Rightarrow> promoteOldestQueuedRun gen dbNow pipelineId now db) (\<lambda>(db, activeRun).
          bind_res (map_err RunError (calculateRunLogExpiry now retentionDays)) (\<lambda>expiry.
          bind_res (case expiry of None \<Rightarrow> Throw (RunError ''Invalid time value'') | Some t \<Rightarrow> Return t)
            (\<lambda>expiresAt.
          let runId = gen (db_uuids db) in
          bind_res (map_err RunDatabaseError
            (insertRuns [newRunRow runId (activeRun = None) request now expiresAt] (advance_uuids 1 db)))
            (\<lambda>db.
          bind_res (map_err RunEventError
            (recordOperationalEvent gen dbNow (runQueuedEvent pipelineId runId now) db)) (\<lambda>db.
          bind_res (if activeRun \<noteq> None then Return (db, 0)
            else createInitialSourceJobs gen dbNow pipelineId runId now db) (\<lambda>(db, initialJobCount).
          Return (db,
            \<lparr>cp_initialJobCount = initialJobCount, cp_pipelineId = pipelineId,
             cp_queuedBehindActiveRun = (activeRun \<noteq> None), cp_runId = runId\<rparr>))))))))))))"

definition createPipelineRun ::
  "zod_formats \<Rightarrow> (nat \<Rightarrow> string) \<Rightarrow> time \<Rightarrow> PipelineRunRequest \<Rightarrow> time \<Rightarrow> database \<Rightarrow>
   (run_error, database \<times> CreatedPipelineRun) result" where
  "createPipelineRun zf gen dbNow request now db =
     bind_res (throw_if (\<not> uuid_format zf (rq_pipelineId request)) RunContractError) (\<lambda>_.
     createPipelineRunInTransaction zf gen dbNow request now db)"

definition DEFAULT_QUEUED_RUN_PROMOTION_LIMIT :: rat where
  "DEFAULT_QUEUED_RUN_PROMOTION_LIMIT = 100"

definition promotePipeline ::
  "(nat \<Rightarrow> string) \<Rightarrow> time \<Rightarrow> time \<Rightarrow> run_row \<Rightarrow> database \<times> PromotedPipelineRun list \<Rightarrow>
   (run_error, database \<times> PromotedPipelineRun list) result" where
  "promotePipeline gen dbNow now completedRun dp = (case dp of (db, promotedRuns) \<Rightarrow>
     let pipelineId = rn_pipelineId completedRun in
     bind_res (map_err RunDatabaseError (releaseEndedRuns pipelineId db)) (\<lambda>db.
     bind_res (promoteOldestQueuedRun gen dbNow pipelineId now db) (\<lambda>(db, promotedRun).
     Return (db, promotedRuns @
       (case promotedRun of None \<Rightarrow> []
        | Some i \<Rightarrow> [\<lparr>pr_pipelineId = pipelineId, pr_runId = i\<rparr>])))))"

definition completedRuns :: "nat \<Rightarrow> database \<Rightarrow> run_row list" where
  "completedRuns limit db =
     take limit (sort_key completionOrder
       (filter (\<lambda>r. rn_isActive r \<and> terminalState (rn_state r)) (db_runs db)))"

definition promoteQueuedPipelineRuns ::
  "(nat \<Rightarrow> string) \<Rightarrow> time \<Rightarrow> time \<Rightarrow> rat \<Rightarrow> database \<Rightarrow>
   (run_error, database \<times> PromotedPipelineRun list) result" where
  "promoteQueuedPipelineRuns gen dbNow now limit db =
     bind_res (throw_if (\<not> js_isSafeInteger limit \<or> limit < 1)
       (RunError ''Queued run promotion limit must be a positive safe integer.'')) (\<lambda>_.
     for_each (promotePipeline gen dbNow now) (completedRuns (nat \<lfloor>limit\<rfloor>) db) (db, []))"

end
