(* ===== verification/Portability.thy ===== *)
theory Portability
  imports Contracts
begin

text \<open>
  \<open>packages/pipeline/src/portability.ts\<close>: export, duplication and import of portable pipeline
  definitions. Contract validation is the predicate of \<open>Contracts\<close> over the format checks
  \<open>zf\<close>; a failed parse is the error \<open>ContractParseError\<close>.
\<close>

section \<open>Data\<close>

record RequiredPipelineCapability =
  rq_type :: string
  rq_version :: string

record PortablePipelineDefinition =
  pd_contractVersion :: string
  pd_name :: string
  pd_requiredCapabilities :: "RequiredPipelineCapability list"
  pd_steps :: "PipelineStep list"
  pd_edges :: "PipelineEdge list"

record ImportedPipelineDefinition = PortablePipelineDefinition +
  pd_state :: PipelineState

datatype portability_error =
    ContractParseError
  | PortabilityTypeError
  | UnavailablePipelineCapabilityError "RequiredPipelineCapability list"

section \<open>Operations\<close>

definition capabilityKey :: "string \<Rightarrow> string \<Rightarrow> string" where
  "capabilityKey type version = type @ ''@'' @ version"

definition formatCapabilities :: "RequiredPipelineCapability list \<Rightarrow> string" where
  "formatCapabilities capabilities =
     js_join '', '' (map (\<lambda>c. capabilityKey (rq_type c) (rq_version c)) capabilities)"

definition unavailableCapabilityMessage :: "RequiredPipelineCapability list \<Rightarrow> string" where
  "unavailableCapabilityMessage missing =
     ''Cannot import pipeline because these required components are unavailable: '' @
     formatCapabilities missing @ ''.''"

text \<open>\<open>JSON.parse(JSON.stringify(values))\<close>, rebuilt node by node.\<close>

fun copyPortableValue :: "json \<Rightarrow> json" where
  "copyPortableValue (JArr xs) = JArr (map copyPortableValue xs)"
| "copyPortableValue (JObj kvs) = JObj (map (\<lambda>(k, v). (k, copyPortableValue v)) kvs)"
| "copyPortableValue v = v"

definition copyPortableValues :: "(string \<times> json) list \<Rightarrow> (string \<times> json) list" where
  "copyPortableValues values = map (\<lambda>(k, v). (k, copyPortableValue v)) values"

definition copyPortableStep :: "PipelineStep \<Rightarrow> PipelineStep" where
  "copyPortableStep step =
     step\<lparr>ps_configuration :=
       \<lparr>cc_values = copyPortableValues (cc_values (ps_configuration step)),
        cc_secretBindings = []\<rparr>\<rparr>"

text \<open>The first step is copied unconditionally: an empty list makes the access to it throw.\<close>

fun copyPortableSteps :: "PipelineStep list \<Rightarrow> (portability_error, PipelineStep list) result" where
  "copyPortableSteps [] = Throw PortabilityTypeError"
| "copyPortableSteps (firstStep # remainingSteps) =
     Return (copyPortableStep firstStep # map copyPortableStep remainingSteps)"

definition requiredCapabilities :: "PipelineStep list \<Rightarrow> RequiredPipelineCapability list" where
  "requiredCapabilities steps =
     snd (fold (\<lambda>step (seen, caps).
       let key = capabilityKey (ps_componentType step) (ps_componentVersion step)
       in if key \<in> set seen then (seen, caps)
          else (set_add key seen,
                caps @ [\<lparr>rq_type = ps_componentType step, rq_version = ps_componentVersion step\<rparr>]))
       steps ([], []))"

definition exportPortablePipelineDefinition ::
  "zod_formats \<Rightarrow> Pipeline \<Rightarrow> (portability_error, PortablePipelineDefinition) result" where
  "exportPortablePipelineDefinition zf pipeline =
     bind_res (throw_if (\<not> pipelineSchema_ok zf pipeline) ContractParseError) (\<lambda>_.
     bind_res (copyPortableSteps (p_steps pipeline)) (\<lambda>steps.
     Return
       \<lparr>pd_contractVersion = p_contractVersion pipeline,
        pd_name = p_name pipeline,
        pd_requiredCapabilities = requiredCapabilities (p_steps pipeline),
        pd_steps = steps,
        pd_edges = p_edges pipeline\<rparr>))"

definition duplicatePipelineDefinition ::
  "zod_formats \<Rightarrow> Pipeline \<Rightarrow> string \<Rightarrow> (portability_error, ImportedPipelineDefinition) result" where
  "duplicatePipelineDefinition zf pipeline name =
     bind_res (exportPortablePipelineDefinition zf pipeline) (\<lambda>d.
     Return
       \<lparr>pd_contractVersion = pd_contractVersion d,
        pd_name = name,
        pd_requiredCapabilities = pd_requiredCapabilities d,
        pd_steps = pd_steps d,
        pd_edges = pd_edges d,
        pd_state = Draft\<rparr>)"

definition portableAsPipeline :: "PortablePipelineDefinition \<Rightarrow> Pipeline" where
  "portableAsPipeline d =
     \<lparr>p_contractVersion = pd_contractVersion d,
      p_id = ''00000000-0000-4000-8000-000000000001'',
      p_ownerUserId = ''00000000-0000-4000-8000-000000000002'',
      p_name = pd_name d,
      p_state = Draft,
      p_createdAt = ''1970-01-01T00:00:00.000Z'',
      p_updatedAt = ''1970-01-01T00:00:00.000Z'',
      p_steps = pd_steps d,
      p_edges = pd_edges d,
      p_triggers = []\<rparr>"

definition validatePortablePipelineDefinition ::
  "zod_formats \<Rightarrow> PortablePipelineDefinition \<Rightarrow> (portability_error, Pipeline) result" where
  "validatePortablePipelineDefinition zf d =
     bind_res (throw_if (\<not> pipelineSchema_ok zf (portableAsPipeline d)) ContractParseError) (\<lambda>_.
     Return (portableAsPipeline d))"

definition importPortablePipelineDefinition ::
  "zod_formats \<Rightarrow> PortablePipelineDefinition \<Rightarrow> RequiredPipelineCapability list \<Rightarrow>
   (portability_error, ImportedPipelineDefinition) result" where
  "importPortablePipelineDefinition zf d availableCapabilities =
     bind_res (validatePortablePipelineDefinition zf d) (\<lambda>validated.
     let availableKeys = set_of_list
           (map (\<lambda>c. capabilityKey (rq_type c) (rq_version c)) availableCapabilities);
         required = requiredCapabilities (p_steps validated);
         missingCapabilities = filter
           (\<lambda>c. capabilityKey (rq_type c) (rq_version c) \<notin> set availableKeys) required
     in bind_res (throw_if (length missingCapabilities > 0)
                    (UnavailablePipelineCapabilityError missingCapabilities)) (\<lambda>_.
        bind_res (copyPortableSteps (p_steps validated)) (\<lambda>steps.
        Return
          \<lparr>pd_contractVersion = p_contractVersion validated,
           pd_name = p_name validated,
           pd_requiredCapabilities = required,
           pd_steps = steps,
           pd_edges = p_edges validated,
           pd_state = Draft\<rparr>)))"

section \<open>Specification\<close>

definition stepCapability :: "PipelineStep \<Rightarrow> RequiredPipelineCapability" where
  "stepCapability s = \<lparr>rq_type = ps_componentType s, rq_version = ps_componentVersion s\<rparr>"

definition withoutSecrets :: "PipelineStep \<Rightarrow> PipelineStep" where
  "withoutSecrets s =
     s\<lparr>ps_configuration := (ps_configuration s)\<lparr>cc_secretBindings := []\<rparr>\<rparr>"

section \<open>Lemmas\<close>

lemma copyPortableValue_id [simp]: "copyPortableValue v = v"
proof (induction v rule: copyPortableValue.induct)
  case (1 xs)
  then show ?case by (simp add: map_idI)
next
  case (2 kvs)
  have "map (\<lambda>(k, v). (k, copyPortableValue v)) kvs = kvs"
    by (rule map_idI) (use 2 in fastforce)
  then show ?case by simp
qed simp_all

lemma copyPortableStep_eq: "copyPortableStep = withoutSecrets"
  by (rule ext) (simp add: copyPortableStep_def withoutSecrets_def copyPortableValues_def)

lemma copyPortableSteps_eq:
  "copyPortableSteps ss =
     (if ss = [] then Throw PortabilityTypeError else Return (map withoutSecrets ss))"
  by (cases ss) (simp_all add: copyPortableStep_eq)

lemma withoutSecrets_simps [simp]:
  "ps_id (withoutSecrets s) = ps_id s"
  "ps_kind (withoutSecrets s) = ps_kind s"
  "stepCapability (withoutSecrets s) = stepCapability s"
  "cc_values (ps_configuration (withoutSecrets s)) = cc_values (ps_configuration s)"
  "cc_secretBindings (ps_configuration (withoutSecrets s)) = []"
  "withoutSecrets (withoutSecrets s) = withoutSecrets s"
  by (simp_all add: withoutSecrets_def stepCapability_def)

lemma step_ok_withoutSecrets:
  "pipelineStepSchema_ok zf s \<Longrightarrow> pipelineStepSchema_ok zf (withoutSecrets s)"
  by (simp add: pipelineStepSchema_ok_def withoutSecrets_def componentConfigurationSchema_ok_def)

text \<open>A valid type holds no separator, so a key determines its type and version.\<close>

lemma split_at_first:
  assumes "x \<notin> set t" and "t @ x # v = t' @ x # v'"
  shows "(t' = t \<and> v' = v) \<or> x \<in> set v"
  using assms
proof (induction t arbitrary: t')
  case Nil
  then show ?case by (cases t') auto
next
  case (Cons a t)
  then show ?case by (cases t') auto
qed

lemma version_no_at: "versionSchema_ok v \<Longrightarrow> CHR ''@'' \<notin> set v"
  by (cases v) (auto simp: versionSchema_ok_def list_all_iff is_digit_def code_def)

lemma capabilityKey_eq_iff:
  assumes "componentTypeSchema_ok t" and "versionSchema_ok v"
  shows "capabilityKey t v = capabilityKey t' v' \<longleftrightarrow> t' = t \<and> v' = v"
  using split_at_first [OF componentType_no_at [OF assms(1)], of v t' v'] version_no_at [OF assms(2)]
  by (auto simp: capabilityKey_def)

lemma capabilityKey_mem:
  fixes c :: RequiredPipelineCapability
  assumes "componentTypeSchema_ok (rq_type c)" and "versionSchema_ok (rq_version c)"
  shows "capabilityKey (rq_type c) (rq_version c) \<in>
      (\<lambda>c. capabilityKey (rq_type c) (rq_version c)) ` A \<longleftrightarrow> c \<in> A"
proof -
  have "c' = c" if "capabilityKey (rq_type c) (rq_version c) = capabilityKey (rq_type c') (rq_version c')"
    for c' :: RequiredPipelineCapability
    using that unfolding capabilityKey_eq_iff [OF assms] by simp
  then show ?thesis by blast
qed

definition keyed_steps :: "PipelineStep list \<Rightarrow> bool" where
  "keyed_steps ss \<longleftrightarrow>
     (\<forall>s\<in>set ss. componentTypeSchema_ok (ps_componentType s) \<and> versionSchema_ok (ps_componentVersion s))"

lemma valid_keyed_steps: "pipelineSchema_ok zf p \<Longrightarrow> keyed_steps (p_steps p)"
  by (auto simp: pipelineSchema_ok_def keyed_steps_def list_all_iff pipelineStepSchema_ok_def)

text \<open>The loop over the seen keys keeps the capabilities in order of first occurrence.\<close>

lemma requiredCapabilities_eq:
  assumes "keyed_steps ss"
  shows "requiredCapabilities ss = set_of_list (map stepCapability ss)"
proof -
  let ?k = "\<lambda>c. capabilityKey (rq_type c) (rq_version c)"
  let ?f = "\<lambda>step (seen, caps).
       let key = capabilityKey (ps_componentType step) (ps_componentVersion step)
       in if key \<in> set seen then (seen, caps)
          else (set_add key seen,
                caps @ [\<lparr>rq_type = ps_componentType step, rq_version = ps_componentVersion step\<rparr>])"
  have "set seen = ?k ` set caps \<Longrightarrow>
      snd (fold ?f ss (seen, caps)) = fold set_add (map stepCapability ss) caps" for seen caps
    using assms
  proof (induction ss arbitrary: seen caps)
    case Nil
    then show ?case by simp
  next
    case (Cons s ss)
    have "capabilityKey (ps_componentType s) (ps_componentVersion s) \<in> ?k ` set caps \<longleftrightarrow>
        stepCapability s \<in> set caps"
      using Cons.prems(2) capabilityKey_mem [of "stepCapability s" "set caps"]
      by (simp add: keyed_steps_def stepCapability_def)
    moreover have "keyed_steps ss" using Cons.prems(2) by (simp add: keyed_steps_def)
    ultimately show ?case
      using Cons.IH [of seen caps]
        Cons.IH [of "set_add (?k (stepCapability s)) seen" "caps @ [stepCapability s]"] Cons.prems(1)
      by (auto simp: Let_def set_add_def stepCapability_def)
  qed
  from this [of "[]" "[]"] show ?thesis by (simp add: requiredCapabilities_def set_of_list_def)
qed

lemma missing_iff:
  assumes "keyed_steps ss"
  shows "filter (\<lambda>c. capabilityKey (rq_type c) (rq_version c) \<notin>
            set (set_of_list (map (\<lambda>c. capabilityKey (rq_type c) (rq_version c)) available)))
          (requiredCapabilities ss) =
        filter (\<lambda>c. c \<notin> set available) (set_of_list (map stepCapability ss))"
proof -
  have "capabilityKey (rq_type c) (rq_version c) \<in>
      (\<lambda>c. capabilityKey (rq_type c) (rq_version c)) ` set available \<longleftrightarrow> c \<in> set available"
    if "c \<in> stepCapability ` set ss" for c
  proof -
    from that assms have "componentTypeSchema_ok (rq_type c) \<and> versionSchema_ok (rq_version c)"
      by (auto simp: stepCapability_def keyed_steps_def)
    then show ?thesis by (simp add: capabilityKey_mem)
  qed
  then show ?thesis
    unfolding requiredCapabilities_eq [OF assms] by (intro filter_cong) simp_all
qed

lemma export_eq:
  assumes "pipelineSchema_ok zf p"
  shows "exportPortablePipelineDefinition zf p =
    Return \<lparr>pd_contractVersion = p_contractVersion p, pd_name = p_name p,
      pd_requiredCapabilities = set_of_list (map stepCapability (p_steps p)),
      pd_steps = map withoutSecrets (p_steps p), pd_edges = p_edges p\<rparr>"
  using assms requiredCapabilities_eq [OF valid_keyed_steps [OF assms]]
  by (simp add: exportPortablePipelineDefinition_def copyPortableSteps_eq pipelineSchema_ok_def)

section \<open>Properties\<close>

text \<open>
  Exporting succeeds exactly for contract-valid pipelines. The exported definition
  keeps name, edges and every step's identity, kind, component and configuration values, carries
  no secret binding, and lists each component capability once, in the order of first use.
\<close>

theorem export_portable_definition:
  "exportPortablePipelineDefinition zf p =
     (if pipelineSchema_ok zf p
      then Return \<lparr>pd_contractVersion = p_contractVersion p, pd_name = p_name p,
        pd_requiredCapabilities = set_of_list (map stepCapability (p_steps p)),
        pd_steps = map withoutSecrets (p_steps p), pd_edges = p_edges p\<rparr>
      else Throw ContractParseError)"
  by (simp add: export_eq) (simp add: exportPortablePipelineDefinition_def)

text \<open>
  Importing a contract-valid definition succeeds exactly when the deployment offers
  every component type and version its steps use, and then yields a draft without secret bindings;
  otherwise the error lists exactly the missing capabilities, each once, in order of first use.
  No available capability can be mistaken for another one through the lookup key.
\<close>

theorem import_portable_definition:
  "importPortablePipelineDefinition zf d available =
     (if \<not> pipelineSchema_ok zf (portableAsPipeline d) then Throw ContractParseError
      else if stepCapability ` set (pd_steps d) \<subseteq> set available
      then Return \<lparr>pd_contractVersion = pd_contractVersion d, pd_name = pd_name d,
        pd_requiredCapabilities = set_of_list (map stepCapability (pd_steps d)),
        pd_steps = map withoutSecrets (pd_steps d), pd_edges = pd_edges d, pd_state = Draft\<rparr>
      else Throw (UnavailablePipelineCapabilityError
        (filter (\<lambda>c. c \<notin> set available) (set_of_list (map stepCapability (pd_steps d))))))"
proof (cases "pipelineSchema_ok zf (portableAsPipeline d)")
  case False
  then show ?thesis
    by (simp add: importPortablePipelineDefinition_def validatePortablePipelineDefinition_def)
next
  case True
  have keyed: "keyed_steps (pd_steps d)"
    using valid_keyed_steps [OF True] by (simp add: portableAsPipeline_def)
  have nonempty: "pd_steps d \<noteq> []"
    using True by (simp add: pipelineSchema_ok_def portableAsPipeline_def)
  have "filter (\<lambda>c. c \<notin> set available) (set_of_list (map stepCapability (pd_steps d))) = [] \<longleftrightarrow>
      stepCapability ` set (pd_steps d) \<subseteq> set available"
    by (auto simp: filter_empty_conv)
  then show ?thesis
    using True nonempty missing_iff [OF keyed, of available] requiredCapabilities_eq [OF keyed]
    by (simp add: importPortablePipelineDefinition_def validatePortablePipelineDefinition_def
        Let_def copyPortableSteps_eq) (simp add: portableAsPipeline_def)
qed

text \<open>
  Round trip. What a deployment exports, a deployment that offers the pipeline's
  components imports again: the same graph and values, as a draft that holds no secret binding.
  The hypothesis on the formats is that zod accepts the four constants the importer fills in.
\<close>

theorem import_export_roundtrip:
  assumes "pipelineSchema_ok zf p"
    and "uuid_format zf ''00000000-0000-4000-8000-000000000001''"
    and "uuid_format zf ''00000000-0000-4000-8000-000000000002''"
    and "datetime_format zf ''1970-01-01T00:00:00.000Z''"
    and "stepCapability ` set (p_steps p) \<subseteq> set available"
  shows "\<exists>d. exportPortablePipelineDefinition zf p = Return d \<and>
    importPortablePipelineDefinition zf d available =
      Return \<lparr>pd_contractVersion = p_contractVersion p, pd_name = p_name p,
        pd_requiredCapabilities = set_of_list (map stepCapability (p_steps p)),
        pd_steps = map withoutSecrets (p_steps p), pd_edges = p_edges p, pd_state = Draft\<rparr>"
proof -
  let ?d = "\<lparr>pd_contractVersion = p_contractVersion p, pd_name = p_name p,
      pd_requiredCapabilities = set_of_list (map stepCapability (p_steps p)),
      pd_steps = map withoutSecrets (p_steps p), pd_edges = p_edges p\<rparr>"
  have ok: "pipelineSchema_ok zf (portableAsPipeline ?d)"
    using assms(1-4)
    by (auto simp: pipelineSchema_ok_def portableAsPipeline_def list_all_iff
        intro: step_ok_withoutSecrets)
  have keyed: "keyed_steps (map withoutSecrets (p_steps p))"
    using valid_keyed_steps [OF ok] by (simp add: portableAsPipeline_def)
  have caps: "map stepCapability (map withoutSecrets (p_steps p)) = map stepCapability (p_steps p)"
    by simp
  have "filter (\<lambda>c. c \<notin> set available) (set_of_list (map stepCapability (p_steps p))) = []"
    using assms(5) by (auto simp: filter_empty_conv)
  then have "importPortablePipelineDefinition zf ?d available =
      Return \<lparr>pd_contractVersion = p_contractVersion p, pd_name = p_name p,
        pd_requiredCapabilities = set_of_list (map stepCapability (p_steps p)),
        pd_steps = map withoutSecrets (p_steps p), pd_edges = p_edges p, pd_state = Draft\<rparr>"
    using ok missing_iff [OF keyed, of available] requiredCapabilities_eq [OF keyed] assms(1)
    unfolding caps
    by (simp add: importPortablePipelineDefinition_def validatePortablePipelineDefinition_def
        Let_def copyPortableSteps_eq)
      (simp add: portableAsPipeline_def pipelineSchema_ok_def comp_def)
  with export_eq [OF assms(1)] show ?thesis by blast
qed

theorem import_export_roundtrip_witness:
  "\<exists>d. exportPortablePipelineDefinition \<lparr>uuid_format = \<lambda>_. True, datetime_format = \<lambda>_. True\<rparr>
      samplePipeline = Return d \<and>
    importPortablePipelineDefinition \<lparr>uuid_format = \<lambda>_. True, datetime_format = \<lambda>_. True\<rparr> d
      [\<lparr>rq_type = ''db'', rq_version = ''v1''\<rparr>, \<lparr>rq_type = ''csv'', rq_version = ''v1''\<rparr>] =
      Return \<lparr>pd_contractVersion = p_contractVersion samplePipeline,
        pd_name = p_name samplePipeline,
        pd_requiredCapabilities = set_of_list (map stepCapability (p_steps samplePipeline)),
        pd_steps = map withoutSecrets (p_steps samplePipeline),
        pd_edges = p_edges samplePipeline, pd_state = Draft\<rparr>"
proof -
  have "pipelineSchema_ok \<lparr>uuid_format = \<lambda>_. True, datetime_format = \<lambda>_. True\<rparr> samplePipeline"
    by code_simp
  moreover have "stepCapability ` set (p_steps samplePipeline) \<subseteq>
      set [\<lparr>rq_type = ''db'', rq_version = ''v1''\<rparr>, \<lparr>rq_type = ''csv'', rq_version = ''v1''\<rparr>]"
    by (simp add: sample_defs stepCapability_def)
  ultimately show ?thesis by (intro import_export_roundtrip) simp_all
qed

end
