(* ===== verification/Topology.thy ===== *)
theory Topology
  imports Contracts
begin

text \<open>
  \<open>packages/pipeline/src/topology.ts\<close>: the three indexes over a pipeline graph. The edge
  indexes are shown to return, for every step, exactly its edges in declaration order.
\<close>

record PipelineTopologyInput =
  ti_steps :: "PipelineStep list"
  ti_edges :: "PipelineEdge list"

record PipelineTopology =
  stepsById :: "(string, PipelineStep) js_map"
  outgoingEdgesByStepId :: "(string, PipelineEdge list) js_map"
  incomingEdgesByStepId :: "(string, PipelineEdge list) js_map"

definition addEdge ::
  "string \<Rightarrow> PipelineEdge \<Rightarrow> (string, PipelineEdge list) js_map \<Rightarrow> (string, PipelineEdge list) js_map"
  where
  "addEdge stepId edge edgesByStepId =
     (case map_get edgesByStepId stepId of
        Some existing \<Rightarrow> map_put stepId (existing @ [edge]) edgesByStepId
      | None \<Rightarrow> map_put stepId [edge] edgesByStepId)"

definition buildPipelineTopology :: "PipelineTopologyInput \<Rightarrow> PipelineTopology" where
  "buildPipelineTopology pipeline =
     \<lparr>stepsById = fold (\<lambda>step. map_put (ps_id step) step) (ti_steps pipeline) [],
      outgoingEdgesByStepId = fold (\<lambda>e. addEdge (pe_fromStepId e) e) (ti_edges pipeline) [],
      incomingEdgesByStepId = fold (\<lambda>e. addEdge (pe_toStepId e) e) (ti_edges pipeline) []\<rparr>"

text \<open>\<open>index.get(stepId) ?? []\<close>.\<close>

definition edgesAt :: "(string, PipelineEdge list) js_map \<Rightarrow> string \<Rightarrow> PipelineEdge list" where
  "edgesAt ix stepId = (case map_get ix stepId of None \<Rightarrow> [] | Some es \<Rightarrow> es)"

section \<open>Lemmas\<close>

lemma edgesAt_addEdge:
  "edgesAt (addEdge k e ix) s = (if s = k then edgesAt ix s @ [e] else edgesAt ix s)"
  by (auto simp: edgesAt_def addEdge_def map_get_put split: option.splits)

lemma map_keys_addEdge: "set (map_keys (addEdge k e ix)) = insert k (set (map_keys ix))"
  by (auto simp: addEdge_def map_keys_put split: option.splits)

lemma edgesAt_fold:
  "edgesAt (fold (\<lambda>e. addEdge (key e) e) es ix) s = edgesAt ix s @ filter (\<lambda>e. key e = s) es"
  by (induction es arbitrary: ix) (auto simp: edgesAt_addEdge)

lemma map_keys_fold_addEdge:
  "set (map_keys (fold (\<lambda>e. addEdge (key e) e) es ix)) = key ` set es \<union> set (map_keys ix)"
  by (induction es arbitrary: ix) (auto simp: map_keys_addEdge)

lemma edgesAt_outgoing [simp]:
  "edgesAt (outgoingEdgesByStepId (buildPipelineTopology p)) s =
     filter (\<lambda>e. pe_fromStepId e = s) (ti_edges p)"
  by (simp add: buildPipelineTopology_def edgesAt_fold) (simp add: edgesAt_def)

lemma edgesAt_incoming [simp]:
  "edgesAt (incomingEdgesByStepId (buildPipelineTopology p)) s =
     filter (\<lambda>e. pe_toStepId e = s) (ti_edges p)"
  by (simp add: buildPipelineTopology_def edgesAt_fold) (simp add: edgesAt_def)

lemma edgesAt_not_key: "s \<notin> set (map_keys ix) \<Longrightarrow> edgesAt ix s = []"
  using map_has_iff [of ix s] by (auto simp: edgesAt_def map_has_def)

lemma stepsById_get:
  "map_get (stepsById (buildPipelineTopology p)) k = find (\<lambda>s. ps_id s = k) (rev (ti_steps p))"
  using js_index.get_fold_put_empty [of ps_id "\<lambda>s. s" "ti_steps p" k]
  by (simp add: buildPipelineTopology_def option.map_ident)

lemma stepsById_keys:
  "set (map_keys (stepsById (buildPipelineTopology p))) = ps_id ` set (ti_steps p)"
proof -
  have "set (map_keys (fold (\<lambda>step. map_put (ps_id step) step) ss m)) =
      ps_id ` set ss \<union> set (map_keys m)" for ss and m :: "(string, PipelineStep) js_map"
    by (induction ss arbitrary: m) (auto simp: map_keys_put)
  from this [of "ti_steps p" "[]"] show ?thesis
    by (simp add: buildPipelineTopology_def map_keys_def)
qed

lemma stepsById_has:
  "map_has (stepsById (buildPipelineTopology p)) k \<longleftrightarrow> k \<in> ps_id ` set (ti_steps p)"
  by (simp only: map_has_iff stepsById_keys)

lemma stepsById_distinct:
  assumes "distinct (map ps_id (ti_steps p))" and "s \<in> set (ti_steps p)"
  shows "map_get (stepsById (buildPipelineTopology p)) (ps_id s) = Some s"
  using js_index.get_fold_put_distinct [OF assms, of "\<lambda>s. s"]
  by (simp add: buildPipelineTopology_def)

section \<open>Properties\<close>

text \<open>
  The topology answers navigation questions exactly. A step's outgoing and incoming
  edges are the graph's edges leaving and entering it, in declaration order; the step index knows
  exactly the declared identifiers and resolves each to a step that carries it, the last declared
  one.
\<close>

theorem topology_indexes_graph:
  "edgesAt (outgoingEdgesByStepId (buildPipelineTopology p)) s =
     filter (\<lambda>e. pe_fromStepId e = s) (ti_edges p) \<and>
   edgesAt (incomingEdgesByStepId (buildPipelineTopology p)) s =
     filter (\<lambda>e. pe_toStepId e = s) (ti_edges p) \<and>
   map_get (stepsById (buildPipelineTopology p)) s = find (\<lambda>x. ps_id x = s) (rev (ti_steps p)) \<and>
   (map_has (stepsById (buildPipelineTopology p)) s \<longleftrightarrow> s \<in> ps_id ` set (ti_steps p))"
  by (simp add: stepsById_get stepsById_has)

end
