(* ===== verification/Graph_Validation.thy ===== *)
theory Graph_Validation
  imports Topology
begin

text \<open>
  The graph check of \<open>packages/database/src/pipelines/create.ts\<close> that creation and replacement
  of a pipeline share. The two traversals, the worklist \<open>visitGraph\<close> and the depth-first
  \<open>assertNoCycle\<close>, are translated with their termination proofs; the whole check is shown to
  accept exactly the finite acyclic graphs in which every step lies on a path from a Source to an
  Export.
\<close>

datatype topology_error = InvalidPipelineTopologyError string

section \<open>Traversals\<close>

text \<open>
  The pending list is a stack: its head is the element that \<open>pop()\<close> returns, so pushing the
  edges in order leaves the last one on top.
\<close>

definition oppositeStep :: "string \<Rightarrow> PipelineEdge \<Rightarrow> string" where
  "oppositeStep stepId edge =
     (if pe_fromStepId edge = stepId then pe_toStepId edge else pe_fromStepId edge)"

function visitLoop ::
  "(string, PipelineEdge list) js_map \<Rightarrow> string list \<Rightarrow> string list \<Rightarrow> string list" where
  "visitLoop edgesByStepId [] visited = visited"
| "visitLoop edgesByStepId (stepId # pending) visited =
     (if stepId = [] \<or> stepId \<in> set visited then visitLoop edgesByStepId pending visited
      else visitLoop edgesByStepId
        (rev (map (oppositeStep stepId) (edgesAt edgesByStepId stepId)) @ pending)
        (set_add stepId visited))"
  by pat_completeness auto
termination
proof (relation "measures
    [\<lambda>(ix, pending, visited). card (set (map_keys ix) - set visited),
     \<lambda>(ix, pending, visited). length pending]", goal_cases)
  case 1
  then show ?case by simp
next
  case (2 ix s pending visited)
  then show ?case by simp
next
  case (3 ix s pending visited)
  let ?F = "set (map_keys ix)"
  show ?case
  proof (cases "s \<in> ?F")
    case True
    then have "?F - insert s (set visited) \<subset> ?F - set visited" using 3 by auto
    then have "card (?F - insert s (set visited)) < card (?F - set visited)"
      by (intro psubset_card_mono) auto
    then show ?thesis by simp
  next
    case False
    then have "edgesAt ix s = []" by (rule edgesAt_not_key)
    moreover have "?F - insert s (set visited) = ?F - set visited" using False by auto
    ultimately show ?thesis by simp
  qed
qed

definition visitGraph :: "string list \<Rightarrow> (string, PipelineEdge list) js_map \<Rightarrow> string list" where
  "visitGraph initialStepIds edgesByStepId = visitLoop edgesByStepId (rev initialStepIds) []"

text \<open>
  The set \<open>visiting\<close> is extended before the loop over the edges and the step is deleted from it
  afterwards, so within one call it is an argument of the loop; \<open>visited\<close> is threaded through
  all calls.
\<close>

function assertNoCycle ::
    "string \<Rightarrow> PipelineTopology \<Rightarrow> string list \<Rightarrow> string list \<Rightarrow> (topology_error, string list) result"
  and assertNoCycleEdges ::
    "PipelineEdge list \<Rightarrow> PipelineTopology \<Rightarrow> string list \<Rightarrow> string list \<Rightarrow>
     (topology_error, string list) result" where
  "assertNoCycle stepId topology visiting visited =
     (if stepId \<in> set visiting
      then Throw (InvalidPipelineTopologyError ''Pipeline graphs cannot contain cycles.'')
      else if stepId \<in> set visited then Return visited
      else bind_res
        (assertNoCycleEdges (edgesAt (outgoingEdgesByStepId topology) stepId) topology
          (set_add stepId visiting) visited)
        (\<lambda>visited. Return (set_add stepId visited)))"
| "assertNoCycleEdges [] topology visiting visited = Return visited"
| "assertNoCycleEdges (edge # edges) topology visiting visited =
     bind_res (assertNoCycle (pe_toStepId edge) topology visiting visited)
       (\<lambda>visited. assertNoCycleEdges edges topology visiting visited)"
  by pat_completeness auto
termination
proof (relation "measures
    [\<lambda>x. case x of
        Inl (s, t, visiting, visited) \<Rightarrow>
          card (set (map_keys (outgoingEdgesByStepId t)) - set visiting)
      | Inr (es, t, visiting, visited) \<Rightarrow>
          card (set (map_keys (outgoingEdgesByStepId t)) - set visiting),
     \<lambda>x. case x of Inl (s, t, visiting, visited) \<Rightarrow> 1
       | Inr (es, t, visiting, visited) \<Rightarrow> 2 * length es]", goal_cases)
  case 1
  then show ?case by simp
next
  case (2 s t visiting visited)
  let ?F = "set (map_keys (outgoingEdgesByStepId t))"
  show ?case
  proof (cases "s \<in> ?F")
    case True
    then have "?F - insert s (set visiting) \<subset> ?F - set visiting" using 2 by auto
    then have "card (?F - insert s (set visiting)) < card (?F - set visiting)"
      by (intro psubset_card_mono) auto
    then show ?thesis by simp
  next
    case False
    then have "edgesAt (outgoingEdgesByStepId t) s = []" by (rule edgesAt_not_key)
    moreover have "?F - insert s (set visiting) = ?F - set visiting" using False by auto
    ultimately show ?thesis by simp
  qed
qed simp_all

declare assertNoCycle.simps [simp del]

section \<open>The check\<close>

definition assertGraphConnectsSourcesToExports ::
  "PipelineTopology \<Rightarrow> string list \<Rightarrow> string list \<Rightarrow> (topology_error, unit) result" where
  "assertGraphConnectsSourcesToExports topology sourceIds exportIds =
     (let reachableFromSources = visitGraph sourceIds (outgoingEdgesByStepId topology);
          reachableToExports = visitGraph exportIds (incomingEdgesByStepId topology)
      in bind_res
        (for_each (\<lambda>stepId u. bind_res
            (throw_if (stepId \<notin> set reachableFromSources \<or> stepId \<notin> set reachableToExports)
              (InvalidPipelineTopologyError ''Every component must connect a Source to an Export.''))
            (\<lambda>_. Return u))
          (map_keys (stepsById topology)) ())
        (\<lambda>_. bind_res
          (for_each (\<lambda>sourceId visited. assertNoCycle sourceId topology [] visited) sourceIds [])
          (\<lambda>_. Return ())))"

definition edgeKey :: "PipelineEdge \<Rightarrow> string" where
  "edgeKey edge = pe_fromStepId edge @ '':'' @ pe_toStepId edge"

definition validateEdge ::
  "PipelineTopology \<Rightarrow> PipelineEdge \<Rightarrow> string list \<times> string list \<times> string list \<Rightarrow>
   (topology_error, string list \<times> string list \<times> string list) result" where
  "validateEdge topology edge acc =
     (case acc of (edgeKeys, incomingStepIds, outgoingStepIds) \<Rightarrow>
       bind_res (throw_if (\<not> map_has (stepsById topology) (pe_fromStepId edge) \<or>
           \<not> map_has (stepsById topology) (pe_toStepId edge))
         (InvalidPipelineTopologyError ''Pipeline edges must reference existing steps.'')) (\<lambda>_.
       bind_res (throw_if (pe_fromStepId edge = pe_toStepId edge)
         (InvalidPipelineTopologyError ''Pipeline steps cannot connect to themselves.'')) (\<lambda>_.
       bind_res (throw_if (edgeKey edge \<in> set edgeKeys)
         (InvalidPipelineTopologyError ''Pipeline edges must be unique.'')) (\<lambda>_.
       case (map_get (stepsById topology) (pe_fromStepId edge),
             map_get (stepsById topology) (pe_toStepId edge)) of
         (Some upstream, Some downstream) \<Rightarrow>
           bind_res (throw_if (ps_kind upstream = Export \<or> ps_kind downstream = Source)
             (InvalidPipelineTopologyError
               ''Pipeline edges must flow from Source through Transform to Export.'')) (\<lambda>_.
           Return (set_add (edgeKey edge) edgeKeys, set_add (pe_toStepId edge) incomingStepIds,
             set_add (pe_fromStepId edge) outgoingStepIds))
       | _ \<Rightarrow> Throw (InvalidPipelineTopologyError
           ''Pipeline edges must reference existing steps.'')))))"

definition validateStepDegree ::
  "string list \<Rightarrow> string list \<Rightarrow> PipelineStep \<Rightarrow> unit \<Rightarrow> (topology_error, unit) result" where
  "validateStepDegree incomingStepIds outgoingStepIds step u =
     bind_res (throw_if (ps_kind step = Source \<and> ps_id step \<notin> set outgoingStepIds)
       (InvalidPipelineTopologyError ''Every Source must produce data for another component.'')) (\<lambda>_.
     bind_res (throw_if (ps_kind step = Transform \<and>
         (ps_id step \<notin> set incomingStepIds \<or> ps_id step \<notin> set outgoingStepIds))
       (InvalidPipelineTopologyError ''Every Transform must receive and produce data.'')) (\<lambda>_.
     throw_if (ps_kind step = Export \<and> ps_id step \<notin> set incomingStepIds)
       (InvalidPipelineTopologyError ''Every Export must receive data from another component.'')))"

definition validatePipelineGraph :: "PipelineCreateRequest \<Rightarrow> (topology_error, unit) result" where
  "validatePipelineGraph request =
     (let topology = buildPipelineTopology \<lparr>ti_steps = cr_steps request, ti_edges = cr_edges request\<rparr>
      in bind_res
        (for_each (\<lambda>step stepIds.
            bind_res (throw_if (ps_id step \<in> set stepIds)
              (InvalidPipelineTopologyError ''Pipeline steps must have unique identifiers.'')) (\<lambda>_.
            Return (set_add (ps_id step) stepIds)))
          (cr_steps request) []) (\<lambda>stepIds.
        bind_res (for_each (validateEdge topology) (cr_edges request) ([], [], []))
          (\<lambda>(edgeKeys, incomingStepIds, outgoingStepIds).
        let sources = filter (\<lambda>step. ps_kind step = Source) (cr_steps request);
            exports = filter (\<lambda>step. ps_kind step = Export) (cr_steps request)
        in bind_res (throw_if (length sources = 0 \<or> length exports = 0)
          (InvalidPipelineTopologyError
            ''A pipeline requires at least one Source and one Export.'')) (\<lambda>_.
        bind_res (for_each (\<lambda>source u.
            bind_res (throw_if (ps_id source \<in> set incomingStepIds)
              (InvalidPipelineTopologyError
                ''A Source cannot receive input from another component.'')) (\<lambda>_. Return u))
          sources ()) (\<lambda>_.
        bind_res (for_each (\<lambda>output u.
            bind_res (throw_if (ps_id output \<in> set outgoingStepIds)
              (InvalidPipelineTopologyError
                ''An Export cannot provide output to another component.'')) (\<lambda>_. Return u))
          exports ()) (\<lambda>_.
        bind_res (for_each (validateStepDegree incomingStepIds outgoingStepIds) (cr_steps request) ())
          (\<lambda>_.
        assertGraphConnectsSourcesToExports topology (map ps_id sources) (map ps_id exports))))))))"

section \<open>Specification\<close>

definition stepRelation :: "PipelineEdge list \<Rightarrow> (string \<times> string) set" where
  "stepRelation es = (\<lambda>e. (pe_fromStepId e, pe_toStepId e)) ` set es"

text \<open>Step identifiers are UUIDs: not empty and without the separator of the edge key.\<close>

definition graph_ids_ok :: "PipelineStep list \<Rightarrow> bool" where
  "graph_ids_ok ss \<longleftrightarrow> (\<forall>s\<in>set ss. ps_id s \<noteq> [] \<and> CHR '':'' \<notin> set (ps_id s))"

definition kindIds :: "ComponentKind \<Rightarrow> PipelineStep list \<Rightarrow> string set" where
  "kindIds k ss = {ps_id s | s. s \<in> set ss \<and> ps_kind s = k}"

definition valid_graph :: "PipelineStep list \<Rightarrow> PipelineEdge list \<Rightarrow> bool" where
  "valid_graph ss es \<longleftrightarrow>
     distinct (map ps_id ss) \<and> distinct es \<and>
     (\<forall>e\<in>set es. pe_fromStepId e \<in> ps_id ` set ss \<and> pe_toStepId e \<in> ps_id ` set ss) \<and>
     (\<forall>e\<in>set es. pe_fromStepId e \<notin> kindIds Export ss \<and> pe_toStepId e \<notin> kindIds Source ss) \<and>
     kindIds Source ss \<noteq> {} \<and> kindIds Export ss \<noteq> {} \<and>
     (\<forall>x\<in>ps_id ` set ss.
        (\<exists>a\<in>kindIds Source ss. (a, x) \<in> (stepRelation es)\<^sup>*) \<and>
        (\<exists>b\<in>kindIds Export ss. (x, b) \<in> (stepRelation es)\<^sup>*)) \<and>
     acyclic (stepRelation es)"

section \<open>Reachability\<close>

definition walkRelation :: "(string, PipelineEdge list) js_map \<Rightarrow> (string \<times> string) set" where
  "walkRelation ix = {(a, oppositeStep a e) | a e. e \<in> set (edgesAt ix a) \<and> oppositeStep a e \<noteq> []}"

lemma visitLoop_sound:
  "x \<in> set (visitLoop ix pending visited) \<Longrightarrow>
     x \<in> set visited \<or> (\<exists>i\<in>set pending. i \<noteq> [] \<and> (i, x) \<in> (walkRelation ix)\<^sup>*)"
proof (induction ix pending visited rule: visitLoop.induct)
  case (1 ix visited)
  then show ?case by simp
next
  case (2 ix s pending visited)
  show ?case
  proof (cases "s = [] \<or> s \<in> set visited")
    case True
    then show ?thesis using 2 by auto
  next
    case False
    then have "x \<in> set (set_add s visited) \<or>
        (\<exists>i\<in>set (rev (map (oppositeStep s) (edgesAt ix s)) @ pending).
           i \<noteq> [] \<and> (i, x) \<in> (walkRelation ix)\<^sup>*)"
      using 2 by simp
    then consider "x \<in> set visited" | "x = s"
      | e where "e \<in> set (edgesAt ix s)" "oppositeStep s e \<noteq> []"
          "(oppositeStep s e, x) \<in> (walkRelation ix)\<^sup>*"
      | "\<exists>i\<in>set pending. i \<noteq> [] \<and> (i, x) \<in> (walkRelation ix)\<^sup>*"
      by auto
    then show ?thesis
    proof cases
      case 3
      then have "(s, oppositeStep s e) \<in> walkRelation ix" by (auto simp: walkRelation_def)
      with 3 have "(s, x) \<in> (walkRelation ix)\<^sup>*" by (meson converse_rtrancl_into_rtrancl)
      with False show ?thesis by auto
    qed (use False in auto)
  qed
qed

lemma visitLoop_closed:
  assumes "\<forall>v\<in>set visited. \<forall>b. (v, b) \<in> walkRelation ix \<longrightarrow> b \<in> set visited \<union> set pending"
  shows "set visited \<union> (set pending - {[]}) \<subseteq> set (visitLoop ix pending visited) \<and>
    (\<forall>v\<in>set (visitLoop ix pending visited). \<forall>b. (v, b) \<in> walkRelation ix \<longrightarrow>
       b \<in> set (visitLoop ix pending visited))"
  using assms
proof (induction ix pending visited rule: visitLoop.induct)
  case (1 ix visited)
  then show ?case by simp
next
  case (2 ix s pending visited)
  show ?case
  proof (cases "s = [] \<or> s \<in> set visited")
    case True
    have "\<forall>v\<in>set visited. \<forall>b. (v, b) \<in> walkRelation ix \<longrightarrow> b \<in> set visited \<union> set pending"
      using 2(3) True by (fastforce simp: walkRelation_def)
    with 2(1) [OF True] True show ?thesis by auto
  next
    case False
    have "b \<in> set (set_add s visited) \<union>
        set (rev (map (oppositeStep s) (edgesAt ix s)) @ pending)"
      if "v \<in> set (set_add s visited)" "(v, b) \<in> walkRelation ix" for v b
    proof (cases "v = s")
      case True
      with that(2) show ?thesis by (auto simp: walkRelation_def)
    next
      case False
      with that 2(3) show ?thesis by auto
    qed
    then have step: "\<forall>v\<in>set (set_add s visited). \<forall>b. (v, b) \<in> walkRelation ix \<longrightarrow>
        b \<in> set (set_add s visited) \<union> set (rev (map (oppositeStep s) (edgesAt ix s)) @ pending)"
      by blast
    have unfold: "visitLoop ix (s # pending) visited = visitLoop ix
        (rev (map (oppositeStep s) (edgesAt ix s)) @ pending) (set_add s visited)"
      using False by simp
    note IH = 2(2) [OF False step]
    show ?thesis
      unfolding unfold by (rule conjI [OF _ IH [THEN conjunct2]]) (use IH [THEN conjunct1] in auto)
  qed
qed

lemma visitGraph_reachable:
  "set (visitGraph ids ix) = {x. \<exists>i\<in>set ids. i \<noteq> [] \<and> (i, x) \<in> (walkRelation ix)\<^sup>*}"
proof
  show "set (visitGraph ids ix) \<subseteq> {x. \<exists>i\<in>set ids. i \<noteq> [] \<and> (i, x) \<in> (walkRelation ix)\<^sup>*}"
    using visitLoop_sound [of _ ix "rev ids" "[]"] by (auto simp: visitGraph_def)
next
  have closed: "set ids - {[]} \<subseteq> set (visitGraph ids ix) \<and>
    (\<forall>v\<in>set (visitGraph ids ix). \<forall>b. (v, b) \<in> walkRelation ix \<longrightarrow> b \<in> set (visitGraph ids ix))"
    using visitLoop_closed [of "[]" ix "rev ids"] by (simp add: visitGraph_def)
  have "(i, x) \<in> (walkRelation ix)\<^sup>* \<Longrightarrow> i \<in> set (visitGraph ids ix) \<Longrightarrow> x \<in> set (visitGraph ids ix)"
    for i x
    by (induction rule: rtrancl_induct) (use closed in auto)
  with closed show "{x. \<exists>i\<in>set ids. i \<noteq> [] \<and> (i, x) \<in> (walkRelation ix)\<^sup>*} \<subseteq> set (visitGraph ids ix)"
    by auto
qed

text \<open>On the indexes of a graph whose identifiers are not empty, a walk follows the edges.\<close>

lemma walkRelation_outgoing:
  assumes "\<forall>e\<in>set (ti_edges p). pe_fromStepId e \<noteq> [] \<and> pe_toStepId e \<noteq> []"
  shows "walkRelation (outgoingEdgesByStepId (buildPipelineTopology p)) = stepRelation (ti_edges p)"
  using assms by (fastforce simp: walkRelation_def stepRelation_def oppositeStep_def)

lemma walkRelation_incoming:
  assumes "\<forall>e\<in>set (ti_edges p). pe_fromStepId e \<noteq> [] \<and> pe_toStepId e \<noteq> []"
    and "\<forall>e\<in>set (ti_edges p). pe_fromStepId e \<noteq> pe_toStepId e"
  shows "walkRelation (incomingEdgesByStepId (buildPipelineTopology p)) =
    (stepRelation (ti_edges p))\<inverse>"
  using assms by (fastforce simp: walkRelation_def stepRelation_def oppositeStep_def)

section \<open>Cycle detection\<close>

definition edgeRelation :: "PipelineTopology \<Rightarrow> (string \<times> string) set" where
  "edgeRelation t = {(a, pe_toStepId e) | a e. e \<in> set (edgesAt (outgoingEdgesByStepId t) a)}"

definition settled :: "(string \<times> string) set \<Rightarrow> string set \<Rightarrow> bool" where
  "settled E D \<longleftrightarrow> E `` D \<subseteq> D \<and> (\<forall>x\<in>D. (x, x) \<notin> E\<^sup>+)"

lemma settled_insert:
  assumes "settled E D" and "E `` {s} \<subseteq> D"
  shows "settled E (insert s D)"
proof -
  have "x \<in> D" if "(s, x) \<in> E\<^sup>+" for x
    using that
  proof (induction rule: trancl_induct)
    case (base y)
    with assms(2) show ?case by auto
  next
    case (step y z)
    with assms(1) show ?case by (auto simp: settled_def)
  qed
  with assms show ?thesis by (auto simp: settled_def)
qed

lemma assertNoCycle_settles:
  "settled (edgeRelation t) (set visited) \<Longrightarrow>
     assertNoCycle s t visiting visited = Return visited' \<Longrightarrow>
     settled (edgeRelation t) (set visited') \<and> insert s (set visited) \<subseteq> set visited'"
  "settled (edgeRelation t) (set visited) \<Longrightarrow>
     assertNoCycleEdges es t visiting visited = Return visited' \<Longrightarrow>
     settled (edgeRelation t) (set visited') \<and> pe_toStepId ` set es \<union> set visited \<subseteq> set visited'"
proof (induction s t visiting visited and es t visiting visited
    arbitrary: visited' and visited' rule: assertNoCycle_assertNoCycleEdges.induct)
  case (1 s t visiting visited)
  show ?case
  proof (cases "s \<in> set visited")
    case True
    with 1(2,3) show ?thesis by (auto simp: assertNoCycle.simps split: if_splits)
  next
    case False
    with 1(3) obtain v where v: "s \<notin> set visiting"
      "assertNoCycleEdges (edgesAt (outgoingEdgesByStepId t) s) t (set_add s visiting) visited = Return v"
      "visited' = set_add s v"
      by (auto simp: assertNoCycle.simps bind_res_Return_iff split: if_splits)
    from 1(1) [OF v(1) False 1(2) v(2)] v(3) show ?thesis
      by (auto intro!: settled_insert simp: edgeRelation_def)
  qed
next
  case (2 t visiting visited)
  then show ?case by simp
next
  case (3 e es t visiting visited)
  then obtain v where v: "assertNoCycle (pe_toStepId e) t visiting visited = Return v"
    "assertNoCycleEdges es t visiting v = Return visited'"
    by (auto simp: bind_res_Return_iff)
  from 3(1) [OF 3(3) v(1)] have "settled (edgeRelation t) (set v)"
    "insert (pe_toStepId e) (set visited) \<subseteq> set v" by simp_all
  with 3(2) [OF v(1) _ v(2)] show ?case by auto
qed

lemma assertNoCycle_throws:
  "\<forall>x\<in>set visiting. (x, s) \<in> (edgeRelation t)\<^sup>+ \<Longrightarrow>
     assertNoCycle s t visiting visited = Throw err \<Longrightarrow> \<not> acyclic (edgeRelation t)"
  "\<forall>e\<in>set es. \<forall>x\<in>set visiting. (x, pe_toStepId e) \<in> (edgeRelation t)\<^sup>+ \<Longrightarrow>
     assertNoCycleEdges es t visiting visited = Throw err \<Longrightarrow> \<not> acyclic (edgeRelation t)"
proof (induction s t visiting visited and es t visiting visited
    rule: assertNoCycle_assertNoCycleEdges.induct)
  case (1 s t visiting visited)
  show ?case
  proof (cases "s \<in> set visiting")
    case True
    with 1(2) show ?thesis by (auto simp: acyclic_def)
  next
    case False
    with 1(3) have nv: "s \<notin> set visited" and
      th: "assertNoCycleEdges (edgesAt (outgoingEdgesByStepId t) s) t (set_add s visiting) visited =
        Throw err"
      by (auto simp: assertNoCycle.simps bind_res_Throw_iff split: if_splits)
    have edge: "(s, pe_toStepId e) \<in> edgeRelation t"
      if "e \<in> set (edgesAt (outgoingEdgesByStepId t) s)" for e
      using that by (auto simp: edgeRelation_def)
    have "\<forall>e\<in>set (edgesAt (outgoingEdgesByStepId t) s). \<forall>x\<in>set (set_add s visiting).
        (x, pe_toStepId e) \<in> (edgeRelation t)\<^sup>+"
      using 1(2) edge by (auto intro: trancl.r_into_trancl trancl.trancl_into_trancl)
    from 1(1) [OF False nv this th] show ?thesis .
  qed
next
  case (2 t visiting visited)
  then show ?case by simp
next
  case (3 e es t visiting visited)
  then show ?case by (auto simp: bind_res_Throw_iff)
qed

lemma for_each_assertNoCycle_settles:
  "settled (edgeRelation t) (set visited) \<Longrightarrow>
     for_each (\<lambda>s visited. assertNoCycle s t [] visited) ss visited = Return visited' \<Longrightarrow>
     settled (edgeRelation t) (set visited') \<and> set ss \<union> set visited \<subseteq> set visited'"
proof (induction ss arbitrary: visited)
  case Nil
  then show ?case by simp
next
  case (Cons s ss)
  then obtain v where v: "assertNoCycle s t [] visited = Return v"
    "for_each (\<lambda>s visited. assertNoCycle s t [] visited) ss v = Return visited'"
    by (auto simp: bind_res_Return_iff)
  from assertNoCycle_settles(1) [OF Cons.prems(1) v(1)] Cons.IH [OF _ v(2)] show ?case by auto
qed

lemma for_each_assertNoCycle_throws:
  "for_each (\<lambda>s visited. assertNoCycle s t [] visited) ss visited = Throw err \<Longrightarrow>
     \<not> acyclic (edgeRelation t)"
  by (induction ss arbitrary: visited)
    (auto simp: bind_res_Throw_iff dest: assertNoCycle_throws(1) [rotated])

text \<open>When every node is reached from the start nodes, the search succeeds on acyclic graphs only.\<close>

lemma no_cycle_check_iff:
  assumes "\<forall>(a, b)\<in>edgeRelation t. \<exists>s\<in>set ss. (s, a) \<in> (edgeRelation t)\<^sup>*"
  shows "(\<exists>v. for_each (\<lambda>s visited. assertNoCycle s t [] visited) ss [] = Return v) \<longleftrightarrow>
    acyclic (edgeRelation t)"
proof
  assume "\<exists>v. for_each (\<lambda>s visited. assertNoCycle s t [] visited) ss [] = Return v"
  then obtain v where "for_each (\<lambda>s visited. assertNoCycle s t [] visited) ss [] = Return v" ..
  from for_each_assertNoCycle_settles [OF _ this]
  have settled: "settled (edgeRelation t) (set v)" and start: "set ss \<subseteq> set v"
    by (simp_all add: settled_def)
  have closed: "(s, x) \<in> (edgeRelation t)\<^sup>* \<Longrightarrow> s \<in> set v \<Longrightarrow> x \<in> set v" for s x
    by (induction rule: rtrancl_induct) (use settled in \<open>auto simp: settled_def\<close>)
  show "acyclic (edgeRelation t)"
    unfolding acyclic_def
  proof (intro allI notI)
    fix x assume cyc: "(x, x) \<in> (edgeRelation t)\<^sup>+"
    then obtain y where "(x, y) \<in> edgeRelation t" by (meson tranclD)
    with assms obtain s where "s \<in> set ss" "(s, x) \<in> (edgeRelation t)\<^sup>*" by fast
    with closed start have "x \<in> set v" by blast
    with settled cyc show False by (simp add: settled_def)
  qed
next
  assume "acyclic (edgeRelation t)"
  then show "\<exists>v. for_each (\<lambda>s visited. assertNoCycle s t [] visited) ss [] = Return v"
    using for_each_assertNoCycle_throws [of t ss "[]"]
    by (cases "for_each (\<lambda>s visited. assertNoCycle s t [] visited) ss []") auto
qed

section \<open>The check as a conjunction\<close>

lemma validateEdge_iff:
  "validateEdge t e (ks, inc, out) = Return acc \<longleftrightarrow>
     (\<exists>u d. map_get (stepsById t) (pe_fromStepId e) = Some u \<and>
        map_get (stepsById t) (pe_toStepId e) = Some d \<and>
        ps_kind u \<noteq> Export \<and> ps_kind d \<noteq> Source) \<and>
     pe_fromStepId e \<noteq> pe_toStepId e \<and> edgeKey e \<notin> set ks \<and>
     acc = (set_add (edgeKey e) ks, set_add (pe_toStepId e) inc, set_add (pe_fromStepId e) out)"
  by (auto simp: validateEdge_def map_has_def throw_if_def split: option.splits)

lemma for_each_validateEdge_iff:
  "for_each (validateEdge t) es (ks, inc, out) = Return acc \<longleftrightarrow>
     (\<forall>e\<in>set es. (\<exists>u d. map_get (stepsById t) (pe_fromStepId e) = Some u \<and>
        map_get (stepsById t) (pe_toStepId e) = Some d \<and>
        ps_kind u \<noteq> Export \<and> ps_kind d \<noteq> Source) \<and> pe_fromStepId e \<noteq> pe_toStepId e) \<and>
     distinct (map edgeKey es) \<and> edgeKey ` set es \<inter> set ks = {} \<and>
     acc = (fold set_add (map edgeKey es) ks, fold set_add (map pe_toStepId es) inc,
       fold set_add (map pe_fromStepId es) out)"
proof (induction es arbitrary: ks inc out)
  case Nil
  then show ?case by auto
next
  case (Cons e es)
  show ?case
    unfolding for_each.simps bind_res_Return_iff validateEdge_iff by (auto simp: Cons)
qed

lemma validateStepDegree_iff:
  "validateStepDegree inc out s u = Return v \<longleftrightarrow>
     (ps_kind s \<noteq> Export \<longrightarrow> ps_id s \<in> set out) \<and> (ps_kind s \<noteq> Source \<longrightarrow> ps_id s \<in> set inc)"
  by (cases "ps_kind s") (auto simp: validateStepDegree_def throw_if_def)

lemma for_each_validateStepDegree_iff:
  "for_each (validateStepDegree inc out) ss u = Return v \<longleftrightarrow>
     (\<forall>s\<in>set ss. (ps_kind s \<noteq> Export \<longrightarrow> ps_id s \<in> set out) \<and>
        (ps_kind s \<noteq> Source \<longrightarrow> ps_id s \<in> set inc))"
  by (induction ss arbitrary: u) (simp_all add: bind_res_Return_iff validateStepDegree_iff)

lemma edgeKey_inj:
  assumes "CHR '':'' \<notin> set (pe_fromStepId e)" and "CHR '':'' \<notin> set (pe_fromStepId e')"
    and "edgeKey e = edgeKey e'"
  shows "(e :: PipelineEdge) = e'"
proof -
  have "pe_fromStepId e = takeWhile (\<lambda>c. c \<noteq> CHR '':'') (edgeKey e)"
    "pe_fromStepId e' = takeWhile (\<lambda>c. c \<noteq> CHR '':'') (edgeKey e')"
    using assms(1,2) by (auto simp: edgeKey_def takeWhile_append)
  with assms(3) have "pe_fromStepId e = pe_fromStepId e'" by simp
  with assms(3) show ?thesis by (simp add: edgeKey_def)
qed

lemma distinct_edgeKeys:
  assumes "graph_ids_ok ss" and "\<forall>e\<in>set es. pe_fromStepId e \<in> ps_id ` set ss"
  shows "distinct (map edgeKey es) \<longleftrightarrow> distinct es"
proof -
  have "inj_on edgeKey (set es)"
    using assms by (auto simp: inj_on_def graph_ids_ok_def intro!: edgeKey_inj)
  then show ?thesis by (simp add: distinct_map)
qed

lemma kind_of_step:
  assumes "distinct (map ps_id ss)"
  shows "(\<exists>u. map_get (stepsById (buildPipelineTopology \<lparr>ti_steps = ss, ti_edges = es\<rparr>)) k = Some u \<and>
      ps_kind u \<noteq> kd) \<longleftrightarrow> k \<in> ps_id ` set ss \<and> k \<notin> kindIds kd ss"
proof -
  let ?get = "map_get (stepsById (buildPipelineTopology \<lparr>ti_steps = ss, ti_edges = es\<rparr>))"
  have get: "?get (ps_id s) = Some s" if "s \<in> set ss" for s
    using that assms stepsById_distinct [of "\<lparr>ti_steps = ss, ti_edges = es\<rparr>" s] by simp
  have mem: "u \<in> set ss \<and> ps_id u = k" if "?get k = Some u" for u
    using that find_rev_mem by (fastforce simp: stepsById_get)
  show ?thesis
  proof
    assume "\<exists>u. ?get k = Some u \<and> ps_kind u \<noteq> kd"
    then obtain u where u: "?get k = Some u" "ps_kind u \<noteq> kd" by blast
    from mem [OF u(1)] have "k \<in> ps_id ` set ss" by blast
    moreover have "k \<notin> kindIds kd ss" using get u by (auto simp: kindIds_def)
    ultimately show "k \<in> ps_id ` set ss \<and> k \<notin> kindIds kd ss" ..
  next
    assume "k \<in> ps_id ` set ss \<and> k \<notin> kindIds kd ss"
    then obtain s where "s \<in> set ss" "k = ps_id s" "ps_kind s \<noteq> kd" by (auto simp: kindIds_def)
    with get show "\<exists>u. ?get k = Some u \<and> ps_kind u \<noteq> kd" by blast
  qed
qed

lemma edgeRelation_build:
  "edgeRelation (buildPipelineTopology p) = stepRelation (ti_edges p)"
  by (auto simp: edgeRelation_def stepRelation_def)

lemma set_kind_ids: "set (map ps_id (filter (\<lambda>s. ps_kind s = k) ss)) = kindIds k ss"
  by (auto simp: kindIds_def)

lemma assertGraphConnects_iff:
  assumes ids: "\<forall>s\<in>set ss. ps_id s \<noteq> []"
    and ends: "\<forall>e\<in>set es. pe_fromStepId e \<in> ps_id ` set ss \<and> pe_toStepId e \<in> ps_id ` set ss"
    and loops: "\<forall>e\<in>set es. pe_fromStepId e \<noteq> pe_toStepId e"
  shows "assertGraphConnectsSourcesToExports
      (buildPipelineTopology \<lparr>ti_steps = ss, ti_edges = es\<rparr>)
      (map ps_id (filter (\<lambda>s. ps_kind s = Source) ss))
      (map ps_id (filter (\<lambda>s. ps_kind s = Export) ss)) = Return () \<longleftrightarrow>
    (\<forall>x\<in>ps_id ` set ss.
        (\<exists>a\<in>kindIds Source ss. (a, x) \<in> (stepRelation es)\<^sup>*) \<and>
        (\<exists>b\<in>kindIds Export ss. (x, b) \<in> (stepRelation es)\<^sup>*)) \<and>
     acyclic (stepRelation es)"
    (is "?assert = Return () \<longleftrightarrow> ?connected \<and> _")
proof -
  let ?t = "buildPipelineTopology \<lparr>ti_steps = ss, ti_edges = es\<rparr>"
  let ?S = "map ps_id (filter (\<lambda>s. ps_kind s = Source) ss)"
  let ?X = "map ps_id (filter (\<lambda>s. ps_kind s = Export) ss)"
  have ne: "\<forall>e\<in>set (ti_edges \<lparr>ti_steps = ss, ti_edges = es\<rparr>).
      pe_fromStepId e \<noteq> [] \<and> pe_toStepId e \<noteq> []"
    using ids ends by auto
  have S: "set (visitGraph ?S (outgoingEdgesByStepId ?t)) =
      {x. \<exists>a\<in>kindIds Source ss. (a, x) \<in> (stepRelation es)\<^sup>*}"
    unfolding visitGraph_reachable set_kind_ids walkRelation_outgoing [OF ne]
    using ids by (auto simp: kindIds_def)
  have X: "set (visitGraph ?X (incomingEdgesByStepId ?t)) =
      {x. \<exists>b\<in>kindIds Export ss. (x, b) \<in> (stepRelation es)\<^sup>*}"
    using loops ids
    by (auto simp: visitGraph_reachable set_kind_ids walkRelation_incoming [OF ne] kindIds_def
        rtrancl_converse simp del: set_map set_filter)
  have "?assert = Return () \<longleftrightarrow> ?connected \<and>
      (\<exists>v. for_each (\<lambda>s visited. assertNoCycle s ?t [] visited) ?S [] = Return v)"
    unfolding assertGraphConnectsSourcesToExports_def Let_def bind_res_Return_iff for_each_guard_iff
      stepsById_keys S X
    by auto
  also have "\<dots> \<longleftrightarrow> ?connected \<and> acyclic (stepRelation es)"
  proof (rule conj_cong [OF refl])
    assume c: ?connected
    have "\<forall>(a, b)\<in>stepRelation es. \<exists>s\<in>set ?S. (s, a) \<in> (stepRelation es)\<^sup>*"
      unfolding set_kind_ids using c ends by (auto simp: stepRelation_def)
    then show "(\<exists>v. for_each (\<lambda>s visited. assertNoCycle s ?t [] visited) ?S [] = Return v) \<longleftrightarrow>
        acyclic (stepRelation es)"
      using no_cycle_check_iff [of ?t ?S] by (simp add: edgeRelation_build)
  qed
  finally show ?thesis .
qed

lemma validatePipelineGraph_iff:
  "validatePipelineGraph r = Return () \<longleftrightarrow>
     distinct (map ps_id (cr_steps r)) \<and>
     (\<forall>e\<in>set (cr_edges r).
        (\<exists>u. map_get (stepsById (buildPipelineTopology \<lparr>ti_steps = cr_steps r, ti_edges = cr_edges r\<rparr>))
           (pe_fromStepId e) = Some u \<and> ps_kind u \<noteq> Export) \<and>
        (\<exists>d. map_get (stepsById (buildPipelineTopology \<lparr>ti_steps = cr_steps r, ti_edges = cr_edges r\<rparr>))
           (pe_toStepId e) = Some d \<and> ps_kind d \<noteq> Source) \<and>
        pe_fromStepId e \<noteq> pe_toStepId e) \<and>
     distinct (map edgeKey (cr_edges r)) \<and>
     kindIds Source (cr_steps r) \<noteq> {} \<and> kindIds Export (cr_steps r) \<noteq> {} \<and>
     kindIds Source (cr_steps r) \<inter> pe_toStepId ` set (cr_edges r) = {} \<and>
     kindIds Export (cr_steps r) \<inter> pe_fromStepId ` set (cr_edges r) = {} \<and>
     (\<forall>s\<in>set (cr_steps r). (ps_kind s \<noteq> Export \<longrightarrow> ps_id s \<in> pe_fromStepId ` set (cr_edges r)) \<and>
        (ps_kind s \<noteq> Source \<longrightarrow> ps_id s \<in> pe_toStepId ` set (cr_edges r))) \<and>
     assertGraphConnectsSourcesToExports
      (buildPipelineTopology \<lparr>ti_steps = cr_steps r, ti_edges = cr_edges r\<rparr>)
      (map ps_id (filter (\<lambda>s. ps_kind s = Source) (cr_steps r)))
      (map ps_id (filter (\<lambda>s. ps_kind s = Export) (cr_steps r))) = Return ()"
proof -
  have none: "length (filter (\<lambda>s. ps_kind s = k) ss) = 0 \<longleftrightarrow> kindIds k ss = {}" for k ss
    by (auto simp: filter_empty_conv kindIds_def)
  have disj: "(\<forall>x\<in>set (filter (\<lambda>s. ps_kind s = k) ss). ps_id x \<notin> A) \<longleftrightarrow> kindIds k ss \<inter> A = {}"
    for k ss A
    by (auto simp: kindIds_def)
  show ?thesis
    unfolding validatePipelineGraph_def Let_def bind_res_Return_iff for_each_unique_iff case_prod_beta
      for_each_validateEdge_iff for_each_guard_iff for_each_validateStepDegree_iff throw_if_iff none
      disj
    by (auto simp: set_fold_set_add disj)
qed

text \<open>On a path from a Source to an Export the degree checks of the code hold by themselves.\<close>

lemma kindIds_own_kind:
  "distinct (map ps_id ss) \<Longrightarrow> s \<in> set ss \<Longrightarrow> ps_id s \<in> kindIds k ss \<Longrightarrow> ps_kind s = k"
  by (auto simp: kindIds_def distinct_map inj_on_def)

lemma connected_outgoing:
  assumes "distinct (map ps_id ss)" and "s \<in> set ss" and "ps_kind s \<noteq> Export"
    and "b \<in> kindIds Export ss" and "(ps_id s, b) \<in> (stepRelation es)\<^sup>*"
  shows "ps_id s \<in> pe_fromStepId ` set es"
proof -
  have "ps_id s \<noteq> b" using assms kindIds_own_kind by blast
  with assms(5) obtain y where "(ps_id s, y) \<in> stepRelation es" by (metis converse_rtranclE)
  then show ?thesis by (auto simp: stepRelation_def)
qed

lemma connected_incoming:
  assumes "distinct (map ps_id ss)" and "s \<in> set ss" and "ps_kind s \<noteq> Source"
    and "a \<in> kindIds Source ss" and "(a, ps_id s) \<in> (stepRelation es)\<^sup>*"
  shows "ps_id s \<in> pe_toStepId ` set es"
proof -
  have "ps_id s \<noteq> a" using assms kindIds_own_kind by blast
  with assms(5) obtain y where "(y, ps_id s) \<in> stepRelation es" by (metis rtranclE)
  then show ?thesis by (auto simp: stepRelation_def)
qed

lemma valid_graph_no_loops:
  assumes "valid_graph ss es" and "e \<in> set es"
  shows "pe_fromStepId e \<noteq> pe_toStepId e"
proof
  assume loop: "pe_fromStepId e = pe_toStepId e"
  have "(pe_fromStepId e, pe_toStepId e) \<in> stepRelation es"
    using assms(2) by (simp add: stepRelation_def)
  with loop have "(pe_toStepId e, pe_toStepId e) \<in> (stepRelation es)\<^sup>+" by auto
  with assms(1) show False by (simp add: valid_graph_def acyclic_def)
qed

lemma valid_graph_of_check:
  assumes "graph_ids_ok (cr_steps r)"
  shows "validatePipelineGraph r = Return () \<longleftrightarrow> valid_graph (cr_steps r) (cr_edges r)"
proof -
  have ids: "\<forall>s\<in>set (cr_steps r). ps_id s \<noteq> []" using assms by (simp add: graph_ids_ok_def)
  note connects = assertGraphConnects_iff [OF ids, of "cr_edges r"]
  show ?thesis
  proof
    assume "validatePipelineGraph r = Return ()"
    note raw = this [unfolded validatePipelineGraph_iff]
    have d: "distinct (map ps_id (cr_steps r))" using raw by (rule conjunct1)
    have ends: "\<forall>e\<in>set (cr_edges r). pe_fromStepId e \<in> ps_id ` set (cr_steps r) \<and>
        pe_toStepId e \<in> ps_id ` set (cr_steps r)"
      and kinds: "\<forall>e\<in>set (cr_edges r). pe_fromStepId e \<notin> kindIds Export (cr_steps r) \<and>
        pe_toStepId e \<notin> kindIds Source (cr_steps r)"
      and loops: "\<forall>e\<in>set (cr_edges r). pe_fromStepId e \<noteq> pe_toStepId e"
      using raw unfolding kind_of_step [OF d] by (simp_all add: Ball_def)
    have uniq: "distinct (cr_edges r)"
      using distinct_edgeKeys [OF assms, of "cr_edges r"] ends raw by simp
    have "(\<forall>x\<in>ps_id ` set (cr_steps r).
        (\<exists>a\<in>kindIds Source (cr_steps r). (a, x) \<in> (stepRelation (cr_edges r))\<^sup>*) \<and>
        (\<exists>b\<in>kindIds Export (cr_steps r). (x, b) \<in> (stepRelation (cr_edges r))\<^sup>*)) \<and>
        acyclic (stepRelation (cr_edges r))"
      unfolding connects [OF ends loops, symmetric] using raw by (elim conjE)
    with uniq raw d ends kinds show "valid_graph (cr_steps r) (cr_edges r)"
      unfolding valid_graph_def by (elim conjE) (intro conjI; assumption)
  next
    assume v: "valid_graph (cr_steps r) (cr_edges r)"
    note parts = v [unfolded valid_graph_def]
    have d: "distinct (map ps_id (cr_steps r))" using parts by (rule conjunct1)
    have ends: "\<forall>e\<in>set (cr_edges r). pe_fromStepId e \<in> ps_id ` set (cr_steps r) \<and>
        pe_toStepId e \<in> ps_id ` set (cr_steps r)"
      using parts by blast
    have loops: "\<forall>e\<in>set (cr_edges r). pe_fromStepId e \<noteq> pe_toStepId e"
      using valid_graph_no_loops [OF v] by blast
    have degrees: "\<forall>s\<in>set (cr_steps r).
        (ps_kind s \<noteq> Export \<longrightarrow> ps_id s \<in> pe_fromStepId ` set (cr_edges r)) \<and>
        (ps_kind s \<noteq> Source \<longrightarrow> ps_id s \<in> pe_toStepId ` set (cr_edges r))"
      using parts connected_outgoing [OF d] connected_incoming [OF d] by blast
    show "validatePipelineGraph r = Return ()"
      unfolding validatePipelineGraph_iff kind_of_step [OF d] connects [OF ends loops]
      using distinct_edgeKeys [OF assms, of "cr_edges r"] parts ends loops degrees
      by (intro conjI) (simp_all, blast+)
  qed
qed

section \<open>Properties\<close>


text \<open>
  Property C5: the graph check that guards every write accepts a graph exactly when its step
  identifiers and edges are unique, edges join existing steps in the direction Source to
  Export, every step lies on a path from a Source to an Export, and no cycle exists. The
  hypothesis is that identifiers are not empty and hold no colon, as UUIDs do.
\<close>

theorem validatePipelineGraph_correct:
  assumes "graph_ids_ok (cr_steps r)"
  shows "validatePipelineGraph r = Return () \<longleftrightarrow> valid_graph (cr_steps r) (cr_edges r)"
  by (rule valid_graph_of_check [OF assms])

theorem validatePipelineGraph_correct_witness:
  "graph_ids_ok [sampleSourceStep, sampleExportStep] \<and>
   validatePipelineGraph
     \<lparr>cr_contractVersion = ''v1'', cr_edges = [sampleEdge], cr_name = ''Load'',
      cr_steps = [sampleSourceStep, sampleExportStep], cr_triggers = []\<rparr> = Return () \<and>
   valid_graph [sampleSourceStep, sampleExportStep] [sampleEdge]"
proof -
  let ?r = "\<lparr>cr_contractVersion = ''v1'', cr_edges = [sampleEdge], cr_name = ''Load'',
      cr_steps = [sampleSourceStep, sampleExportStep], cr_triggers = []\<rparr>"
  have ids: "graph_ids_ok [sampleSourceStep, sampleExportStep]"
    by (simp add: graph_ids_ok_def sample_defs)
  have "validatePipelineGraph ?r = Return ()" by code_simp
  with ids validatePipelineGraph_correct [of ?r] show ?thesis by simp
qed

end
