(* ===== verification/Pipeline_Repository.thy ===== *)
theory Pipeline_Repository
  imports Database State_Machine Portability Graph_Validation
begin

text \<open>
  \<open>packages/database/src/pipelines\<close>: hydration, owner-scoped reads, creation, update, deletion
  and duplication of pipelines. A function that runs in a transaction takes the database and
  returns the new one with its result, or an error, in which case the transaction rolls back and the
  caller keeps the database it had. Row locks have no effect on a single transaction. The clock and the
  identifiers that PostgreSQL generates are arguments.
\<close>

section \<open>Timestamps as text\<close>

text \<open>\<open>Date.prototype.toISOString\<close>: proleptic Gregorian date and time of day in UTC.\<close>

definition padded :: "nat \<Rightarrow> int \<Rightarrow> string" where
  "padded width n = (let s = js_decimal (nat n) in replicate (width - length s) (CHR ''0'') @ s)"

definition civil_date :: "int \<Rightarrow> int \<times> int \<times> int" where
  "civil_date days =
     (let z = days + 719468;
          era = z div 146097;
          doe = z mod 146097;
          yoe = (doe - doe div 1460 + doe div 36524 - doe div 146096) div 365;
          doy = doe - (365 * yoe + yoe div 4 - yoe div 100);
          mp = (5 * doy + 2) div 153;
          d = doy - (153 * mp + 2) div 5 + 1;
          m = (if mp < 10 then mp + 3 else mp - 9);
          y = yoe + era * 400 + (if m \<le> 2 then 1 else 0)
      in (y, m, d))"

definition iso_year :: "int \<Rightarrow> string" where
  "iso_year y =
     (if 0 \<le> y \<and> y \<le> 9999 then padded 4 y
      else if y < 0 then ''-'' @ padded 6 (- y) else ''+'' @ padded 6 y)"

definition toISOString :: "time \<Rightarrow> string" where
  "toISOString t =
     (let (y, m, d) = civil_date (t div 86400000);
          ms = t mod 86400000
      in iso_year y @ ''-'' @ padded 2 m @ ''-'' @ padded 2 d @ ''T'' @
         padded 2 (ms div 3600000) @ '':'' @ padded 2 (ms div 60000 mod 60) @ '':'' @
         padded 2 (ms div 1000 mod 60) @ ''.'' @ padded 3 (ms mod 1000) @ ''Z'')"

section \<open>Errors\<close>

datatype repository_error =
    ContractError
  | TopologyRejected topology_error
  | TransitionRejected transition_error
  | DatabaseRejected db_error
  | PortabilityRejected portability_error
  | PipelineDeletionLockedError
  | PipelineDeletionHasRunHistoryError
  | RepositoryError string

section \<open>Hydration\<close>

record PersistedPipelineGraph =
  pg_pipeline :: pipeline_row
  pg_components :: "component_row list"
  pg_edges :: "edge_row list"
  pg_triggers :: "trigger_row list"

definition stepOfRow :: "component_row \<Rightarrow> PipelineStep" where
  "stepOfRow c =
     \<lparr>ps_id = pc_id c, ps_kind = pc_kind c, ps_componentType = pc_componentType c,
      ps_componentVersion = pc_componentVersion c,
      ps_configuration = \<lparr>cc_values = pc_configurationValues c,
        cc_secretBindings = pc_secretBindings c\<rparr>\<rparr>"

definition edgeOfRow :: "edge_row \<Rightarrow> PipelineEdge" where
  "edgeOfRow e = \<lparr>pe_fromStepId = eg_fromComponentId e, pe_toStepId = eg_toComponentId e\<rparr>"

text \<open>A schedule without cron or timezone yields nulls, which the contract rejects.\<close>

definition triggerOfRow :: "trigger_row \<Rightarrow> (repository_error, Trigger) result" where
  "triggerOfRow t =
     (case tg_type t of
        TriggerManual \<Rightarrow> Return (ManualTrigger (tg_id t) (tg_pipelineId t) (tg_enabled t))
      | TriggerSchedule \<Rightarrow>
          (case (tg_cron t, tg_timezone t) of
             (Some cron, Some timezone) \<Rightarrow>
               Return (ScheduleTrigger (tg_id t) (tg_pipelineId t) (tg_enabled t) cron timezone)
           | _ \<Rightarrow> Throw ContractError))"

definition hydratePipeline ::
  "zod_formats \<Rightarrow> PersistedPipelineGraph \<Rightarrow> (repository_error, Pipeline) result" where
  "hydratePipeline zf graph =
     bind_res (map_res triggerOfRow (pg_triggers graph)) (\<lambda>triggers.
     let pipeline =
       \<lparr>p_contractVersion = pl_contractVersion (pg_pipeline graph),
        p_id = pl_id (pg_pipeline graph),
        p_ownerUserId = pl_ownerUserId (pg_pipeline graph),
        p_name = pl_name (pg_pipeline graph),
        p_state = pl_state (pg_pipeline graph),
        p_createdAt = toISOString (pl_createdAt (pg_pipeline graph)),
        p_updatedAt = toISOString (pl_updatedAt (pg_pipeline graph)),
        p_steps = map stepOfRow (pg_components graph),
        p_edges = map edgeOfRow (pg_edges graph),
        p_triggers = triggers\<rparr>
     in bind_res (throw_if (\<not> pipelineSchema_ok zf pipeline) ContractError) (\<lambda>_. Return pipeline))"

section \<open>Reads\<close>

definition readPipelineGraph :: "database \<Rightarrow> pipeline_row \<Rightarrow> PersistedPipelineGraph" where
  "readPipelineGraph db pipeline =
     \<lparr>pg_pipeline = pipeline,
      pg_components = filter (\<lambda>c. pc_pipelineId c = pl_id pipeline) (db_components db),
      pg_edges = filter (\<lambda>e. eg_pipelineId e = pl_id pipeline) (db_edges db),
      pg_triggers = filter (\<lambda>t. tg_pipelineId t = pl_id pipeline) (db_triggers db)\<rparr>"

definition andOwnerAndPipelineId :: "string \<Rightarrow> string \<Rightarrow> pipeline_row \<Rightarrow> bool" where
  "andOwnerAndPipelineId ownerUserId pipelineId p \<longleftrightarrow>
     pl_ownerUserId p = ownerUserId \<and> pl_id p = pipelineId"

definition getPipeline ::
  "zod_formats \<Rightarrow> database \<Rightarrow> string \<Rightarrow> string \<Rightarrow> (repository_error, Pipeline option) result" where
  "getPipeline zf db ownerUserId pipelineId =
     (case find (andOwnerAndPipelineId ownerUserId pipelineId) (db_pipelines db) of
        None \<Rightarrow> Return None
      | Some pipeline \<Rightarrow>
          bind_res (hydratePipeline zf (readPipelineGraph db pipeline)) (\<lambda>p. Return (Some p)))"

definition listPipelinesByOwner ::
  "zod_formats \<Rightarrow> database \<Rightarrow> string \<Rightarrow> (repository_error, Pipeline list) result" where
  "listPipelinesByOwner zf db ownerUserId =
     (let pipelineRecords = sort_key (\<lambda>p. (pl_createdAt p, pl_id p))
            (filter (\<lambda>p. pl_ownerUserId p = ownerUserId) (db_pipelines db))
      in if pipelineRecords = [] then Return []
         else
           (let pipelineIds = map pl_id pipelineRecords;
                components = filter (\<lambda>c. pc_pipelineId c \<in> set pipelineIds) (db_components db);
                edges = filter (\<lambda>e. eg_pipelineId e \<in> set pipelineIds) (db_edges db);
                triggers = filter (\<lambda>t. tg_pipelineId t \<in> set pipelineIds) (db_triggers db)
            in map_res (\<lambda>pipeline. hydratePipeline zf
                 \<lparr>pg_pipeline = pipeline,
                  pg_components = filter (\<lambda>c. pc_pipelineId c = pl_id pipeline) components,
                  pg_edges = filter (\<lambda>e. eg_pipelineId e = pl_id pipeline) edges,
                  pg_triggers = filter (\<lambda>t. tg_pipelineId t = pl_id pipeline) triggers\<rparr>)
                 pipelineRecords))"

section \<open>Creation\<close>

definition componentRow :: "string \<Rightarrow> PipelineStep \<Rightarrow> component_row" where
  "componentRow pipelineId step =
     \<lparr>pc_id = ps_id step, pc_pipelineId = pipelineId, pc_kind = ps_kind step,
      pc_componentType = ps_componentType step, pc_componentVersion = ps_componentVersion step,
      pc_configurationValues = cc_values (ps_configuration step),
      pc_secretBindings = cc_secretBindings (ps_configuration step)\<rparr>"

definition edgeRow :: "string \<Rightarrow> PipelineEdge \<Rightarrow> edge_row" where
  "edgeRow pipelineId edge =
     \<lparr>eg_pipelineId = pipelineId, eg_fromComponentId = pe_fromStepId edge,
      eg_toComponentId = pe_toStepId edge\<rparr>"

text \<open>Neither branch supplies \<open>nextRunAt\<close>: the column stays null.\<close>

definition triggerRow :: "string \<Rightarrow> time \<Rightarrow> WritablePipelineTrigger \<times> string \<Rightarrow> trigger_row" where
  "triggerRow pipelineId now ti =
     (case ti of (trigger, uuid) \<Rightarrow>
       (case trigger of
          WritableManual enabled \<Rightarrow>
            \<lparr>tg_id = uuid, tg_pipelineId = pipelineId, tg_type = TriggerManual, tg_enabled = enabled,
             tg_cron = None, tg_timezone = None, tg_nextRunAt = None, tg_lastClaimedAt = None,
             tg_createdAt = now, tg_updatedAt = now\<rparr>
        | WritableSchedule enabled cron timezone \<Rightarrow>
            \<lparr>tg_id = uuid, tg_pipelineId = pipelineId, tg_type = TriggerSchedule,
             tg_enabled = enabled, tg_cron = Some cron, tg_timezone = Some timezone,
             tg_nextRunAt = None, tg_lastClaimedAt = None, tg_createdAt = now,
             tg_updatedAt = now\<rparr>))"

definition triggerRows ::
  "(nat \<Rightarrow> string) \<Rightarrow> string \<Rightarrow> time \<Rightarrow> WritablePipelineTrigger list \<Rightarrow> database \<Rightarrow> trigger_row list" where
  "triggerRows gen pipelineId now triggers db =
     map (triggerRow pipelineId now) (zip triggers (draw_uuids gen (length triggers) db))"

definition createPipeline ::
  "zod_formats \<Rightarrow> (nat \<Rightarrow> string) \<Rightarrow> time \<Rightarrow> string \<Rightarrow> PipelineCreateRequest \<Rightarrow> database \<Rightarrow>
   (repository_error, database \<times> Pipeline) result" where
  "createPipeline zf gen now ownerUserId request db =
     bind_res (throw_if (\<not> uuid_format zf ownerUserId) ContractError) (\<lambda>_.
     bind_res (throw_if (\<not> pipelineCreateRequestSchema_ok zf request) ContractError) (\<lambda>_.
     bind_res (map_err TopologyRejected (validatePipelineGraph request)) (\<lambda>_.
     let pipeline =
       \<lparr>pl_id = gen (db_uuids db), pl_ownerUserId = ownerUserId,
        pl_contractVersion = cr_contractVersion request, pl_name = cr_name request,
        pl_state = Draft, pl_createdAt = now, pl_updatedAt = now\<rparr>;
       components = map (componentRow (pl_id pipeline)) (cr_steps request);
       edges = map (edgeRow (pl_id pipeline)) (cr_edges request)
     in
     bind_res (map_err DatabaseRejected (insertPipelines [pipeline] (advance_uuids 1 db))) (\<lambda>db.
     bind_res (map_err DatabaseRejected (insertComponents components db)) (\<lambda>db.
     bind_res (map_err DatabaseRejected (insertEdgeRows edges db)) (\<lambda>db.
     let triggers = triggerRows gen (pl_id pipeline) now (cr_triggers request) db in
     bind_res (map_err DatabaseRejected
       (insertTriggerRows triggers (advance_uuids (length triggers) db))) (\<lambda>db.
     bind_res (hydratePipeline zf
       \<lparr>pg_pipeline = pipeline, pg_components = components, pg_edges = edges,
        pg_triggers = triggers\<rparr>) (\<lambda>p.
     Return (db, p)))))))))"

section \<open>Update\<close>

text \<open>The queued or running record that the statement returns first; any such record locks.\<close>

definition findLockingRun :: "database \<Rightarrow> string \<Rightarrow> ActivePipelineRun option" where
  "findLockingRun db pipelineId =
     map_option (\<lambda>r.
       \<lparr>ar_id = rn_id r,
        ar_state = (if rn_state r = RunRunning then PhaseRunning else PhaseQueued),
        ar_cancellationRequested = (rn_cancellationRequestedAt r \<noteq> None)\<rparr>)
     (find (\<lambda>r. rn_pipelineId r = pipelineId \<and> activeState (rn_state r)) (db_runs db))"

fun toWritableTrigger :: "Trigger \<Rightarrow> WritablePipelineTrigger" where
  "toWritableTrigger (ManualTrigger i p enabled) = WritableManual enabled"
| "toWritableTrigger (ScheduleTrigger i p enabled cron timezone) =
     WritableSchedule enabled cron timezone"

definition mergeUpdate :: "Pipeline \<Rightarrow> PipelineUpdateRequest \<Rightarrow> PipelineCreateRequest" where
  "mergeUpdate existing update =
     \<lparr>cr_contractVersion = p_contractVersion existing,
      cr_edges = (case ur_edges update of None \<Rightarrow> p_edges existing | Some es \<Rightarrow> es),
      cr_name = (case ur_name update of None \<Rightarrow> p_name existing | Some n \<Rightarrow> n),
      cr_steps = (case ur_steps update of None \<Rightarrow> p_steps existing | Some ss \<Rightarrow> ss),
      cr_triggers = (case ur_triggers update of
        None \<Rightarrow> map toWritableTrigger (p_triggers existing) | Some ts \<Rightarrow> ts)\<rparr>"

definition replaceComponents ::
  "string \<Rightarrow> PipelineCreateRequest \<Rightarrow> database \<Rightarrow>
   (repository_error, database \<times> component_row list) result" where
  "replaceComponents pipelineId replacement db =
     bind_res (map_err DatabaseRejected
       (deleteComponents (\<lambda>c. pc_pipelineId c = pipelineId) db)) (\<lambda>db.
     let rows = map (componentRow pipelineId) (cr_steps replacement) in
     bind_res (map_err DatabaseRejected (insertComponents rows db)) (\<lambda>db.
     Return (db, rows)))"

definition insertEdges ::
  "string \<Rightarrow> PipelineCreateRequest \<Rightarrow> database \<Rightarrow>
   (repository_error, database \<times> edge_row list) result" where
  "insertEdges pipelineId replacement db =
     (if length (cr_edges replacement) = 0 then Return (db, [])
      else
        (let rows = map (edgeRow pipelineId) (cr_edges replacement) in
         bind_res (map_err DatabaseRejected (insertEdgeRows rows db)) (\<lambda>db. Return (db, rows))))"

definition replaceTriggers ::
  "(nat \<Rightarrow> string) \<Rightarrow> time \<Rightarrow> string \<Rightarrow> PipelineCreateRequest \<Rightarrow> database \<Rightarrow>
   (repository_error, database \<times> trigger_row list) result" where
  "replaceTriggers gen now pipelineId replacement db =
     (let db = deleteTriggers (\<lambda>t. tg_pipelineId t = pipelineId) db
      in if length (cr_triggers replacement) = 0 then Return (db, [])
         else
           (let rows = triggerRows gen pipelineId now (cr_triggers replacement) db in
            bind_res (map_err DatabaseRejected
              (insertTriggerRows rows (advance_uuids (length rows) db))) (\<lambda>db. Return (db, rows))))"

definition replaceGraphRecords ::
  "(nat \<Rightarrow> string) \<Rightarrow> time \<Rightarrow> pipeline_row \<Rightarrow> PipelineCreateRequest \<Rightarrow> PipelineUpdateRequest \<Rightarrow>
   database \<Rightarrow> (repository_error, database \<times> PersistedPipelineGraph) result" where
  "replaceGraphRecords gen now pipeline replacement update db =
     (let replacingComponents = (ur_steps update \<noteq> None);
          replacingEdges = (replacingComponents \<or> ur_edges update \<noteq> None);
          replacingTriggers = (ur_triggers update \<noteq> None);
          db = (if replacingEdges then deleteEdges (\<lambda>e. eg_pipelineId e = pl_id pipeline) db else db)
      in bind_res
        (if replacingComponents then replaceComponents (pl_id pipeline) replacement db
         else Return (db, filter (\<lambda>c. pc_pipelineId c = pl_id pipeline) (db_components db)))
        (\<lambda>(db, components).
         bind_res
           (if replacingEdges then insertEdges (pl_id pipeline) replacement db
            else Return (db, filter (\<lambda>e. eg_pipelineId e = pl_id pipeline) (db_edges db)))
           (\<lambda>(db, edges).
            bind_res
              (if replacingTriggers then replaceTriggers gen now (pl_id pipeline) replacement db
               else Return (db, filter (\<lambda>t. tg_pipelineId t = pl_id pipeline) (db_triggers db)))
              (\<lambda>(db, triggers).
               Return (db, \<lparr>pg_pipeline = pipeline, pg_components = components,
                 pg_edges = edges, pg_triggers = triggers\<rparr>)))))"

definition updatePipelineInTransaction ::
  "zod_formats \<Rightarrow> (nat \<Rightarrow> string) \<Rightarrow> time \<Rightarrow> time \<Rightarrow> string \<Rightarrow> string \<Rightarrow> PipelineUpdateRequest \<Rightarrow>
   database \<Rightarrow> (repository_error, database \<times> Pipeline option) result" where
  "updatePipelineInTransaction zf gen dbNow now ownerUserId pipelineId update db =
     (case find (\<lambda>p. pl_id p = pipelineId \<and> pl_ownerUserId p = ownerUserId) (db_pipelines db) of
        None \<Rightarrow> Return (db, None)
      | Some persistedPipeline \<Rightarrow>
          (let executionState = createPipelineExecutionState (pl_state persistedPipeline);
               lockedExecutionState =
                 (case findLockingRun db pipelineId of
                    None \<Rightarrow> executionState
                  | Some activeRun \<Rightarrow> executionState\<lparr>es_activeRun := Some activeRun\<rparr>);
               nextState = (case ur_state update of None \<Rightarrow> pl_state persistedPipeline | Some s \<Rightarrow> s)
           in bind_res (map_err TransitionRejected (setPipelineState lockedExecutionState nextState)) (\<lambda>_.
              bind_res (hydratePipeline zf (readPipelineGraph db persistedPipeline)) (\<lambda>existing.
              let replacement = mergeUpdate existing update in
              bind_res (map_err TopologyRejected (validatePipelineGraph replacement)) (\<lambda>_.
              let set = (\<lambda>p. p\<lparr>pl_name := cr_name replacement, pl_state := nextState,
                     pl_updatedAt := now\<rparr>);
                  db = db\<lparr>db_pipelines :=
                     update_where (\<lambda>p. pl_id p = pipelineId) set (db_pipelines db)\<rparr>
              in bind_res (replaceGraphRecords gen dbNow (set persistedPipeline) replacement update db)
                   (\<lambda>(db, graph).
                    bind_res (hydratePipeline zf graph) (\<lambda>p. Return (db, Some p))))))))"

definition updatePipeline ::
  "zod_formats \<Rightarrow> (nat \<Rightarrow> string) \<Rightarrow> time \<Rightarrow> time \<Rightarrow> string \<Rightarrow> string \<Rightarrow> PipelineUpdateRequest \<Rightarrow>
   database \<Rightarrow> (repository_error, database \<times> Pipeline option) result" where
  "updatePipeline zf gen dbNow now ownerUserId pipelineId update db =
     bind_res (throw_if (\<not> uuid_format zf ownerUserId) ContractError) (\<lambda>_.
     bind_res (throw_if (\<not> uuid_format zf pipelineId) ContractError) (\<lambda>_.
     bind_res (throw_if (\<not> pipelineUpdateRequestSchema_ok zf update) ContractError) (\<lambda>_.
     updatePipelineInTransaction zf gen dbNow now ownerUserId pipelineId update db)))"

section \<open>Deletion\<close>

definition toActivePipelineRun :: "run_row \<Rightarrow> (repository_error, ActivePipelineRun) result" where
  "toActivePipelineRun activeRun =
     (if rn_state activeRun \<noteq> RunQueued \<and> rn_state activeRun \<noteq> RunRunning
      then Throw (RepositoryError ''Pipeline deletion requires an active run state.'')
      else Return
        \<lparr>ar_id = rn_id activeRun,
         ar_state = (if rn_state activeRun = RunRunning then PhaseRunning else PhaseQueued),
         ar_cancellationRequested = (rn_cancellationRequestedAt activeRun \<noteq> None)\<rparr>)"

definition deletionExecutionState ::
  "PipelineState \<Rightarrow> run_row option \<Rightarrow> (repository_error, PipelineExecutionState) result" where
  "deletionExecutionState pipelineState activeRun =
     bind_res (case activeRun of None \<Rightarrow> Return None
       | Some r \<Rightarrow> bind_res (toActivePipelineRun r) (\<lambda>a. Return (Some a))) (\<lambda>domainActiveRun.
     Return \<lparr>es_pipelineState = pipelineState, es_activeRun = domainActiveRun, es_queuedRunIds = []\<rparr>)"

definition deletePipeline ::
  "string \<Rightarrow> string \<Rightarrow> database \<Rightarrow> (repository_error, database \<times> bool) result" where
  "deletePipeline ownerUserId pipelineId db =
     (case find (\<lambda>p. pl_id p = pipelineId \<and> pl_ownerUserId p = ownerUserId) (db_pipelines db) of
        None \<Rightarrow> Return (db, False)
      | Some pipeline \<Rightarrow>
          bind_res (deletionExecutionState (pl_state pipeline)
            (find (\<lambda>r. rn_pipelineId r = pl_id pipeline \<and> activeState (rn_state r)) (db_runs db)))
          (\<lambda>executionState.
          bind_res (throw_if (\<not> isPipelineEditable executionState) PipelineDeletionLockedError) (\<lambda>_.
          bind_res (throw_if (find (\<lambda>r. rn_pipelineId r = pl_id pipeline) (db_runs db) \<noteq> None)
            PipelineDeletionHasRunHistoryError) (\<lambda>_.
          let deletable = (\<lambda>p. pl_id p = pl_id pipeline \<and> pl_ownerUserId p = ownerUserId);
              deletedPipelines = filter deletable (db_pipelines db)
          in bind_res (map_err DatabaseRejected (deletePipelines deletable db)) (\<lambda>db.
             Return (db, length deletedPipelines = 1))))))"

section \<open>Duplication\<close>

fun copyDisabledTrigger :: "Trigger \<Rightarrow> WritablePipelineTrigger" where
  "copyDisabledTrigger (ManualTrigger i p enabled) = WritableManual False"
| "copyDisabledTrigger (ScheduleTrigger i p enabled cron timezone) =
     WritableSchedule False cron timezone"

definition remapComponentId ::
  "(string, string) js_map \<Rightarrow> string \<Rightarrow> (repository_error, string) result" where
  "remapComponentId componentIdBySourceId sourceId =
     (case map_get componentIdBySourceId sourceId of
        None \<Rightarrow> Throw (RepositoryError
          ''Pipeline edge references a component that is absent from its graph.'')
      | Some i \<Rightarrow> if i = [] then Throw (RepositoryError
          ''Pipeline edge references a component that is absent from its graph.'') else Return i)"

text \<open>\<open>ids\<close> are the values that successive calls of \<open>createComponentId\<close> return.\<close>

definition buildDuplicateCreateRequest ::
  "Pipeline \<Rightarrow> ImportedPipelineDefinition \<Rightarrow> (nat \<Rightarrow> string) \<Rightarrow>
   (repository_error, PipelineCreateRequest) result" where
  "buildDuplicateCreateRequest source definition' ids =
     (let numbered = zip (pd_steps definition') (map ids [0 ..< length (pd_steps definition')]);
          componentIdBySourceId = map_of_entries (\<lambda>(step, i). ps_id step) snd numbered;
          steps = map (\<lambda>(step, i). step\<lparr>ps_id := i\<rparr>) numbered
      in bind_res (map_res (\<lambda>edge.
           bind_res (remapComponentId componentIdBySourceId (pe_fromStepId edge)) (\<lambda>a.
           bind_res (remapComponentId componentIdBySourceId (pe_toStepId edge)) (\<lambda>b.
           Return \<lparr>pe_fromStepId = a, pe_toStepId = b\<rparr>))) (pd_edges definition')) (\<lambda>edges.
         Return
           \<lparr>cr_contractVersion = pd_contractVersion definition',
            cr_edges = edges,
            cr_name = pd_name definition',
            cr_steps = steps,
            cr_triggers = map copyDisabledTrigger (p_triggers source)\<rparr>))"

definition duplicatePipeline ::
  "zod_formats \<Rightarrow> (nat \<Rightarrow> string) \<Rightarrow> (nat \<Rightarrow> string) \<Rightarrow> time \<Rightarrow> string \<Rightarrow> string \<Rightarrow> string option \<Rightarrow>
   database \<Rightarrow> (repository_error, database \<times> Pipeline option) result" where
  "duplicatePipeline zf gen createComponentId now ownerUserId pipelineId name db =
     bind_res (throw_if (\<not> uuid_format zf ownerUserId) ContractError) (\<lambda>_.
     bind_res (throw_if (\<not> (uuid_format zf pipelineId \<and> pred_option (\<lambda>n. n \<noteq> []) name)) ContractError) (\<lambda>_.
     bind_res (getPipeline zf db ownerUserId pipelineId) (\<lambda>found.
     case found of
       None \<Rightarrow> Return (db, None)
     | Some source \<Rightarrow>
         bind_res (map_err PortabilityRejected (duplicatePipelineDefinition zf source
           (case name of None \<Rightarrow> p_name source | Some n \<Rightarrow> n))) (\<lambda>d.
         bind_res (buildDuplicateCreateRequest source d createComponentId) (\<lambda>request.
         bind_res (createPipeline zf gen now ownerUserId request db) (\<lambda>(db, p).
         Return (db, Some p)))))))"

section \<open>Constraints are preserved\<close>

lemma createPipeline_Return:
  assumes "createPipeline zf gen now owner r db = Return (db', p)"
  obtains db1 db2 db3 where
    "uuid_format zf owner" "pipelineCreateRequestSchema_ok zf r" "validatePipelineGraph r = Return ()"
    "insertPipelines [\<lparr>pl_id = gen (db_uuids db), pl_ownerUserId = owner,
        pl_contractVersion = cr_contractVersion r, pl_name = cr_name r, pl_state = Draft,
        pl_createdAt = now, pl_updatedAt = now\<rparr>] (advance_uuids 1 db) = Return db1"
    "insertComponents (map (componentRow (gen (db_uuids db))) (cr_steps r)) db1 = Return db2"
    "insertEdgeRows (map (edgeRow (gen (db_uuids db))) (cr_edges r)) db2 = Return db3"
    "insertTriggerRows (triggerRows gen (gen (db_uuids db)) now (cr_triggers r) db3)
        (advance_uuids (length (triggerRows gen (gen (db_uuids db)) now (cr_triggers r) db3)) db3) =
      Return db'"
    "hydratePipeline zf
       \<lparr>pg_pipeline = \<lparr>pl_id = gen (db_uuids db), pl_ownerUserId = owner,
          pl_contractVersion = cr_contractVersion r, pl_name = cr_name r, pl_state = Draft,
          pl_createdAt = now, pl_updatedAt = now\<rparr>,
        pg_components = map (componentRow (gen (db_uuids db))) (cr_steps r),
        pg_edges = map (edgeRow (gen (db_uuids db))) (cr_edges r),
        pg_triggers = triggerRows gen (gen (db_uuids db)) now (cr_triggers r) db3\<rparr> = Return p"
  using assms
  by (auto simp: createPipeline_def Let_def bind_res_Return_iff throw_if_iff)

lemma createPipeline_wf:
  assumes "db_wf db" and "createPipeline zf gen now owner r db = Return (db', p)"
  shows "db_wf db'"
  using assms(2)
proof (rule createPipeline_Return)
  fix db1 db2 db3
  assume ins: "insertPipelines [\<lparr>pl_id = gen (db_uuids db), pl_ownerUserId = owner,
        pl_contractVersion = cr_contractVersion r, pl_name = cr_name r, pl_state = Draft,
        pl_createdAt = now, pl_updatedAt = now\<rparr>] (advance_uuids 1 db) = Return db1"
    "insertComponents (map (componentRow (gen (db_uuids db))) (cr_steps r)) db1 = Return db2"
    "insertEdgeRows (map (edgeRow (gen (db_uuids db))) (cr_edges r)) db2 = Return db3"
    "insertTriggerRows (triggerRows gen (gen (db_uuids db)) now (cr_triggers r) db3)
        (advance_uuids (length (triggerRows gen (gen (db_uuids db)) now (cr_triggers r) db3)) db3) =
      Return db'"
  have "db_wf db1" by (rule insertPipelines_wf [OF advance_uuids_wf [OF assms(1)] ins(1)])
  from insertEdgeRows_wf [OF insertComponents_wf [OF this ins(2)] ins(3)]
  show "db_wf db'" by (intro insertTriggerRows_wf [OF advance_uuids_wf ins(4)])
qed

lemma replaceComponents_wf:
  assumes "db_wf db" and "replaceComponents pid r db = Return (db', rows)"
  shows "db_wf db'"
  using assms
  by (auto simp: replaceComponents_def Let_def bind_res_Return_iff
      intro: insertComponents_wf deleteComponents_wf)

lemma insertEdges_wf:
  assumes "db_wf db" and "insertEdges pid r db = Return (db', rows)"
  shows "db_wf db'"
  using assms
  by (auto simp: insertEdges_def Let_def bind_res_Return_iff split: if_splits intro: insertEdgeRows_wf)

lemma replaceTriggers_wf:
  assumes "db_wf db" and "replaceTriggers gen now pid r db = Return (db', rows)"
  shows "db_wf db'"
  using assms
  by (auto simp: replaceTriggers_def Let_def bind_res_Return_iff split: if_splits
      intro: insertTriggerRows_wf advance_uuids_wf deleteTriggers_wf)

lemma replaceGraphRecords_Return:
  assumes "replaceGraphRecords gen now pl r u db = Return (db', g)"
  obtains db0 db1 cs db2 es ts where
    "db0 = (if ur_steps u \<noteq> None \<or> ur_edges u \<noteq> None
       then deleteEdges (\<lambda>e. eg_pipelineId e = pl_id pl) db else db)"
    "(if ur_steps u \<noteq> None then replaceComponents (pl_id pl) r db0
      else Return (db0, filter (\<lambda>c. pc_pipelineId c = pl_id pl) (db_components db0))) =
     Return (db1, cs)"
    "(if ur_steps u \<noteq> None \<or> ur_edges u \<noteq> None then insertEdges (pl_id pl) r db1
      else Return (db1, filter (\<lambda>e. eg_pipelineId e = pl_id pl) (db_edges db1))) =
     Return (db2, es)"
    "(if ur_triggers u \<noteq> None then replaceTriggers gen now (pl_id pl) r db2
      else Return (db2, filter (\<lambda>t. tg_pipelineId t = pl_id pl) (db_triggers db2))) =
     Return (db', ts)"
    "g = \<lparr>pg_pipeline = pl, pg_components = cs, pg_edges = es, pg_triggers = ts\<rparr>"
proof -
  note steps = assms [unfolded replaceGraphRecords_def Let_def bind_res_pair_Return_iff]
  from steps show thesis
    by (elim exE conjE) (rule that [OF refl], assumption+, simp_all only: sum.inject prod.inject,
      erule conjunct2 [THEN sym])
qed

lemma replaceGraphRecords_wf:
  assumes wf: "db_wf db" and ret: "replaceGraphRecords gen now pl r u db = Return (db', g)"
  shows "db_wf db'"
  using ret
proof (rule replaceGraphRecords_Return)
  fix db0 db1 cs db2 es ts
  assume 0: "db0 = (if ur_steps u \<noteq> None \<or> ur_edges u \<noteq> None
       then deleteEdges (\<lambda>e. eg_pipelineId e = pl_id pl) db else db)"
    and 1: "(if ur_steps u \<noteq> None then replaceComponents (pl_id pl) r db0
      else Return (db0, filter (\<lambda>c. pc_pipelineId c = pl_id pl) (db_components db0))) =
     Return (db1, cs)"
    and 2: "(if ur_steps u \<noteq> None \<or> ur_edges u \<noteq> None then insertEdges (pl_id pl) r db1
      else Return (db1, filter (\<lambda>e. eg_pipelineId e = pl_id pl) (db_edges db1))) =
     Return (db2, es)"
    and 3: "(if ur_triggers u \<noteq> None then replaceTriggers gen now (pl_id pl) r db2
      else Return (db2, filter (\<lambda>t. tg_pipelineId t = pl_id pl) (db_triggers db2))) =
     Return (db', ts)"
  have "db_wf db0" using 0 wf by (simp add: deleteEdges_wf)
  with 1 have "db_wf db1" by (auto split: if_splits intro: replaceComponents_wf)
  with 2 have "db_wf db2" by (auto split: if_splits intro: insertEdges_wf)
  with 3 show ?thesis by (auto split: if_splits intro: replaceTriggers_wf)
qed

lemma updatePipeline_wf:
  assumes "db_wf db" and "updatePipeline zf gen dbNow now owner pid u db = Return (db', p)"
  shows "db_wf db'"
proof -
  have ret: "updatePipelineInTransaction zf gen dbNow now owner pid u db = Return (db', p)"
    using assms(2) by (auto simp: updatePipeline_def bind_res_Return_iff)
  show ?thesis
  proof (cases "find (\<lambda>p. pl_id p = pid \<and> pl_ownerUserId p = owner) (db_pipelines db)")
    case None
    with ret assms(1) show ?thesis by (simp add: updatePipelineInTransaction_def)
  next
    case (Some row)
    with ret obtain r pl g where
      "replaceGraphRecords gen dbNow pl r u (db\<lparr>db_pipelines := update_where (\<lambda>p. pl_id p = pid)
         (\<lambda>p. p\<lparr>pl_name := cr_name r,
            pl_state := (case ur_state u of None \<Rightarrow> pl_state row | Some s \<Rightarrow> s), pl_updatedAt := now\<rparr>)
         (db_pipelines db)\<rparr>) = Return (db', g)"
      unfolding updatePipelineInTransaction_def Let_def
      by (auto simp: bind_res_Return_iff)
    then show ?thesis
      by (rule replaceGraphRecords_wf [rotated]) (rule updatePipelines_wf [OF assms(1)], simp_all)
  qed
qed

lemma deletePipeline_wf:
  assumes "db_wf db" and "deletePipeline owner pid db = Return (db', b)"
  shows "db_wf db'"
  using assms
  by (auto simp: deletePipeline_def Let_def bind_res_Return_iff split: option.splits
      intro: deletePipelines_wf)

lemma duplicatePipeline_Return:
  assumes "duplicatePipeline zf gen ids now owner pid name db = Return (db', Some p)"
  obtains source d r where
    "getPipeline zf db owner pid = Return (Some source)"
    "duplicatePipelineDefinition zf source (case name of None \<Rightarrow> p_name source | Some n \<Rightarrow> n) = Return d"
    "buildDuplicateCreateRequest source d ids = Return r"
    "createPipeline zf gen now owner r db = Return (db', p)"
proof -
  from assms obtain found where found: "getPipeline zf db owner pid = Return found" and
    rest: "(case found of None \<Rightarrow> Return (db, None)
     | Some source \<Rightarrow>
         bind_res (map_err PortabilityRejected (duplicatePipelineDefinition zf source
           (case name of None \<Rightarrow> p_name source | Some n \<Rightarrow> n))) (\<lambda>d.
         bind_res (buildDuplicateCreateRequest source d ids) (\<lambda>request.
         bind_res (createPipeline zf gen now owner request db) (\<lambda>(db, p).
         Return (db, Some p))))) = Return (db', Some p)"
    unfolding duplicatePipeline_def bind_res_Return_iff by blast
  from rest obtain source where "found = Some source" by (cases found) simp_all
  with found rest that show thesis
    by (simp add: bind_res_Return_iff bind_res_pair_Return_iff) blast
qed

lemma duplicatePipeline_none:
  "duplicatePipeline zf gen ids now owner pid name db = Return (db', None) \<Longrightarrow> db' = db"
  by (auto simp: duplicatePipeline_def bind_res_Return_iff split: option.split_asm)

lemma duplicatePipeline_wf:
  assumes "db_wf db" and "duplicatePipeline zf gen ids now owner pid name db = Return (db', p)"
  shows "db_wf db'"
  using assms duplicatePipeline_none [of zf gen ids now owner pid name db db']
  by (cases p) (auto elim!: duplicatePipeline_Return intro: createPipeline_wf)

section \<open>The graph that the tables hold for a pipeline\<close>

definition componentsOf :: "database \<Rightarrow> string \<Rightarrow> component_row list" where
  "componentsOf db pid = filter (\<lambda>c. pc_pipelineId c = pid) (db_components db)"

definition edgesOf :: "database \<Rightarrow> string \<Rightarrow> edge_row list" where
  "edgesOf db pid = filter (\<lambda>e. eg_pipelineId e = pid) (db_edges db)"

definition triggersOf :: "database \<Rightarrow> string \<Rightarrow> trigger_row list" where
  "triggersOf db pid = filter (\<lambda>t. tg_pipelineId t = pid) (db_triggers db)"

lemmas graph_tables = componentsOf_def edgesOf_def triggersOf_def

definition storedSteps :: "database \<Rightarrow> string \<Rightarrow> PipelineStep list" where
  "storedSteps db pid = map stepOfRow (componentsOf db pid)"

definition storedEdges :: "database \<Rightarrow> string \<Rightarrow> PipelineEdge list" where
  "storedEdges db pid = map edgeOfRow (edgesOf db pid)"

text \<open>Two databases hold the same graph for every pipeline but one.\<close>

definition agree_except :: "string \<Rightarrow> database \<Rightarrow> database \<Rightarrow> bool" where
  "agree_except pid db db' \<longleftrightarrow>
     (\<forall>q. q \<noteq> pid \<longrightarrow> componentsOf db' q = componentsOf db q \<and> edgesOf db' q = edgesOf db q \<and>
        triggersOf db' q = triggersOf db q)"

lemma agree_except_refl [simp]: "agree_except pid db db"
  by (simp add: agree_except_def)

lemma agree_except_trans:
  "agree_except pid db db' \<Longrightarrow> agree_except pid db' db'' \<Longrightarrow> agree_except pid db db''"
  by (simp add: agree_except_def)

lemma stepOfRow_componentRow [simp]: "stepOfRow (componentRow pid s) = s"
  by (simp add: stepOfRow_def componentRow_def)

lemma edgeOfRow_edgeRow [simp]: "edgeOfRow (edgeRow pid e) = e"
  by (simp add: edgeOfRow_def edgeRow_def)

lemma row_pipelineIds [simp]:
  "pc_pipelineId (componentRow pid s) = pid" "eg_pipelineId (edgeRow pid e) = pid"
  "tg_pipelineId (triggerRow pid now ti) = pid" "pc_id (componentRow pid s) = ps_id s"
  by (simp_all add: componentRow_def edgeRow_def triggerRow_def
      split: prod.splits WritablePipelineTrigger.splits)

lemma filter_map_const:
  "filter (\<lambda>r. key r = pid) (map f xs) = (if pid = k then map f xs else [])" if "\<And>x. key (f x) = k"
  using that by (simp add: filter_map comp_def)

lemma filter_delete_keeps:
  "(\<And>x. x \<in> set xs \<Longrightarrow> P x \<Longrightarrow> \<not> Q x) \<Longrightarrow> filter P (delete_where Q xs) = filter P xs"
  unfolding delete_where_def filter_filter by (rule filter_cong) auto

lemma filter_delete_all: "(\<And>x. P x \<Longrightarrow> Q x) \<Longrightarrow> filter P (delete_where Q xs) = []"
  by (auto simp: delete_where_def filter_empty_conv)

lemma replaceComponents_tables:
  assumes "replaceComponents pid r db = Return (db', rows)"
  shows "componentsOf db' pid = rows" and "rows = map (componentRow pid) (cr_steps r)"
    and "agree_except pid db db'" and "edgesOf db pid = [] \<Longrightarrow> edgesOf db' pid = []"
    and "triggersOf db' pid = triggersOf db pid" and "db_pipelines db' = db_pipelines db"
    and "db_runs db' = db_runs db"
proof -
  let ?gone = "componentRef ` {c \<in> set (db_components db). pc_pipelineId c = pid}"
  let ?D = "\<lambda>e. edgeFromRef e \<in> ?gone \<or> edgeToRef e \<in> ?gone"
  from assms have rows: "rows = map (componentRow pid) (cr_steps r)"
    and comps: "db_components db' =
      delete_where (\<lambda>c. pc_pipelineId c = pid) (db_components db) @ rows"
    and edges: "db_edges db' = delete_where ?D (db_edges db)"
    and rest: "db_triggers db' = db_triggers db" "db_pipelines db' = db_pipelines db"
      "db_runs db' = db_runs db"
    by (auto simp: replaceComponents_def Let_def bind_res_Return_iff deleteComponents_Return
        insertComponents_def insert_unique_Return)
  have own: "?D e \<Longrightarrow> eg_pipelineId e = pid" for e
    by (auto simp: edgeFromRef_def edgeToRef_def componentRef_def)
  have new: "filter (\<lambda>c. pc_pipelineId c = q) rows = (if q = pid then rows else [])" for q
    unfolding rows by (rule filter_map_const) simp
  have old: "q \<noteq> pid \<Longrightarrow> componentsOf db' q = componentsOf db q" for q
    by (simp add: componentsOf_def comps new filter_delete_keeps)
  have oldE: "q \<noteq> pid \<Longrightarrow> edgesOf db' q = edgesOf db q" for q
    unfolding edgesOf_def edges by (rule filter_delete_keeps) (use own in blast)
  show "componentsOf db' pid = rows"
    by (simp add: componentsOf_def comps new filter_delete_all)
  show "agree_except pid db db'" using old oldE by (simp add: agree_except_def triggersOf_def rest)
  show "edgesOf db pid = [] \<Longrightarrow> edgesOf db' pid = []"
    by (auto simp: edgesOf_def edges delete_where_def filter_empty_conv)
  show "rows = map (componentRow pid) (cr_steps r)" by (rule rows)
  show "triggersOf db' pid = triggersOf db pid" "db_pipelines db' = db_pipelines db"
    "db_runs db' = db_runs db"
    by (simp_all add: triggersOf_def rest)
qed

lemma insertEdges_tables:
  assumes "insertEdges pid r db = Return (db', rows)"
  shows "edgesOf db' pid = edgesOf db pid @ rows" and "rows = map (edgeRow pid) (cr_edges r)"
    and "agree_except pid db db'" and "componentsOf db' pid = componentsOf db pid"
    and "triggersOf db' pid = triggersOf db pid" and "db_pipelines db' = db_pipelines db"
    and "db_runs db' = db_runs db"
proof -
  from assms have rows: "rows = map (edgeRow pid) (cr_edges r)"
    and edges: "db_edges db' = db_edges db @ rows"
    and rest: "db_components db' = db_components db" "db_triggers db' = db_triggers db"
      "db_pipelines db' = db_pipelines db" "db_runs db' = db_runs db"
    by (auto simp: insertEdges_def insertEdgeRows_def Let_def bind_res_Return_iff insert_unique_Return
        split: if_splits)
  have new: "filter (\<lambda>e. eg_pipelineId e = q) rows = (if q = pid then rows else [])" for q
    unfolding rows by (rule filter_map_const) simp
  show "edgesOf db' pid = edgesOf db pid @ rows" "agree_except pid db db'"
    "componentsOf db' pid = componentsOf db pid" "triggersOf db' pid = triggersOf db pid"
    by (simp_all add: agree_except_def graph_tables edges rest new)
  show "rows = map (edgeRow pid) (cr_edges r)" by (rule rows)
  show "db_pipelines db' = db_pipelines db" "db_runs db' = db_runs db" by (rule rest)+
qed

lemma replaceTriggers_tables:
  assumes "replaceTriggers gen now pid r db = Return (db', rows)"
  shows "triggersOf db' pid = rows" and "agree_except pid db db'"
    and "componentsOf db' pid = componentsOf db pid" and "edgesOf db' pid = edgesOf db pid"
    and "db_pipelines db' = db_pipelines db"
proof -
  from assms have trig: "db_triggers db' =
      delete_where (\<lambda>t. tg_pipelineId t = pid) (db_triggers db) @ rows"
    and rows: "\<exists>xs. rows = map (triggerRow pid now) xs"
    and rest: "db_components db' = db_components db" "db_edges db' = db_edges db"
      "db_pipelines db' = db_pipelines db"
    by (auto simp: replaceTriggers_def insertTriggerRows_def deleteTriggers_def triggerRows_def Let_def
        bind_res_Return_iff insert_unique_Return advance_uuids_def split: if_splits)
  have new: "filter (\<lambda>t. tg_pipelineId t = q) rows = (if q = pid then rows else [])" for q
    using rows by (auto simp: filter_map_const)
  show "triggersOf db' pid = rows"
    by (simp add: triggersOf_def trig new filter_delete_all)
  show "agree_except pid db db'" "componentsOf db' pid = componentsOf db pid"
    "edgesOf db' pid = edgesOf db pid"
    by (simp_all add: agree_except_def graph_tables trig rest new filter_delete_keeps)
  show "db_pipelines db' = db_pipelines db" by (rule rest)
qed

text \<open>Afterwards the tables hold exactly the graph that the function returned.\<close>

lemma replaceGraphRecords_tables:
  assumes "replaceGraphRecords gen now pl r u db = Return (db', g)"
  shows "g = readPipelineGraph db' pl" and "agree_except (pl_id pl) db db'"
    and "db_pipelines db' = db_pipelines db"
    and "componentsOf db' (pl_id pl) =
      (if ur_steps u = None then componentsOf db (pl_id pl)
       else map (componentRow (pl_id pl)) (cr_steps r))"
    and "edgesOf db' (pl_id pl) =
      (if ur_steps u = None \<and> ur_edges u = None then edgesOf db (pl_id pl)
       else map (edgeRow (pl_id pl)) (cr_edges r))"
    and "ur_triggers u = None \<longrightarrow> triggersOf db' (pl_id pl) = triggersOf db (pl_id pl)"
proof -
  obtain db0 db1 cs db2 es ts where
    0: "db0 = (if ur_steps u \<noteq> None \<or> ur_edges u \<noteq> None
       then deleteEdges (\<lambda>e. eg_pipelineId e = pl_id pl) db else db)" and
    1: "(if ur_steps u \<noteq> None then replaceComponents (pl_id pl) r db0
      else Return (db0, componentsOf db0 (pl_id pl))) = Return (db1, cs)" and
    2: "(if ur_steps u \<noteq> None \<or> ur_edges u \<noteq> None then insertEdges (pl_id pl) r db1
      else Return (db1, edgesOf db1 (pl_id pl))) = Return (db2, es)" and
    3: "(if ur_triggers u \<noteq> None then replaceTriggers gen now (pl_id pl) r db2
      else Return (db2, triggersOf db2 (pl_id pl))) = Return (db', ts)" and
    g: "g = \<lparr>pg_pipeline = pl, pg_components = cs, pg_edges = es, pg_triggers = ts\<rparr>"
    by (rule replaceGraphRecords_Return [OF assms, folded graph_tables])
  have d0: "agree_except (pl_id pl) db db0" "componentsOf db0 q = componentsOf db q"
    "triggersOf db0 q = triggersOf db q" "db_pipelines db0 = db_pipelines db"
    "ur_steps u \<noteq> None \<or> ur_edges u \<noteq> None \<Longrightarrow> edgesOf db0 (pl_id pl) = []"
    "ur_steps u = None \<Longrightarrow> ur_edges u = None \<Longrightarrow> db0 = db" for q
    by (auto simp: 0 deleteEdges_def agree_except_def graph_tables filter_delete_keeps
        filter_delete_all)
  have d1: "agree_except (pl_id pl) db0 db1" "db_pipelines db1 = db_pipelines db0"
    "componentsOf db1 (pl_id pl) = cs" "triggersOf db1 (pl_id pl) = triggersOf db0 (pl_id pl)"
    "cs = (if ur_steps u = None then componentsOf db0 (pl_id pl)
       else map (componentRow (pl_id pl)) (cr_steps r))"
    "edgesOf db0 (pl_id pl) = [] \<Longrightarrow> edgesOf db1 (pl_id pl) = []"
    "ur_steps u = None \<Longrightarrow> db1 = db0"
    using 1 replaceComponents_tables [of "pl_id pl" r db0 db1 cs] by (auto split: if_splits)
  have d2: "agree_except (pl_id pl) db1 db2" "db_pipelines db2 = db_pipelines db1"
    "componentsOf db2 (pl_id pl) = componentsOf db1 (pl_id pl)"
    "triggersOf db2 (pl_id pl) = triggersOf db1 (pl_id pl)"
    "edgesOf db2 (pl_id pl) = es"
    "es = (if ur_steps u = None \<and> ur_edges u = None then edgesOf db1 (pl_id pl)
       else map (edgeRow (pl_id pl)) (cr_edges r))"
    using 2 insertEdges_tables [of "pl_id pl" r db1 db2 es] d0(5) d1(6) by (auto split: if_splits)
  have d3: "agree_except (pl_id pl) db2 db'" "db_pipelines db' = db_pipelines db2"
    "componentsOf db' (pl_id pl) = componentsOf db2 (pl_id pl)"
    "edgesOf db' (pl_id pl) = edgesOf db2 (pl_id pl)" "triggersOf db' (pl_id pl) = ts"
    "ur_triggers u = None \<longrightarrow> ts = triggersOf db2 (pl_id pl)"
    using 3 replaceTriggers_tables [of gen now "pl_id pl" r db2 db' ts] by (auto split: if_splits)
  show "g = readPipelineGraph db' pl"
    using g d1(3) d2(3,5) d3(3-5) by (simp add: readPipelineGraph_def graph_tables)
  show "agree_except (pl_id pl) db db'"
    using d0(1) d1(1) d2(1) d3(1) by (blast intro: agree_except_trans)
  show "db_pipelines db' = db_pipelines db" using d0(4) d1(2) d2(2) d3(2) by simp
  show "componentsOf db' (pl_id pl) = (if ur_steps u = None then componentsOf db (pl_id pl)
       else map (componentRow (pl_id pl)) (cr_steps r))"
    using d0(2) d1(3,5) d2(3) d3(3) by simp
  show "edgesOf db' (pl_id pl) = (if ur_steps u = None \<and> ur_edges u = None
       then edgesOf db (pl_id pl) else map (edgeRow (pl_id pl)) (cr_edges r))"
    using d0(6) d1(7) d2(5,6) d3(4) by auto
  show "ur_triggers u = None \<longrightarrow> triggersOf db' (pl_id pl) = triggersOf db (pl_id pl)"
    using d0(3) d1(4) d2(4) d3(5,6) by simp
qed

lemma hydratePipeline_Return:
  assumes "hydratePipeline zf g = Return p"
  shows "p_id p = pl_id (pg_pipeline g)" and "p_ownerUserId p = pl_ownerUserId (pg_pipeline g)"
    and "p_name p = pl_name (pg_pipeline g)" and "p_state p = pl_state (pg_pipeline g)"
    and "p_steps p = map stepOfRow (pg_components g)" and "p_edges p = map edgeOfRow (pg_edges g)"
    and "map_res triggerOfRow (pg_triggers g) = Return (p_triggers p)"
    and "pipelineSchema_ok zf p" and "p_contractVersion p = pl_contractVersion (pg_pipeline g)"
  using assms by (auto simp: hydratePipeline_def Let_def bind_res_Return_iff throw_if_iff)

lemma find_update_where:
  "(\<And>x. P (if Q x then f x else x) = P x) \<Longrightarrow>
     find P (update_where Q f xs) = map_option (\<lambda>x. if Q x then f x else x) (find P xs)"
  by (induction xs) (auto simp: update_where_def)

lemma readPipelineGraph_cong:
  "componentsOf db' q = componentsOf db q \<Longrightarrow> edgesOf db' q = edgesOf db q \<Longrightarrow>
     triggersOf db' q = triggersOf db q \<Longrightarrow> pl_id row = q \<Longrightarrow>
     readPipelineGraph db' row = readPipelineGraph db row"
  by (auto simp: readPipelineGraph_def graph_tables)

lemma find_owner_mem:
  "find (andOwnerAndPipelineId o' q) ps = Some row \<Longrightarrow> pl_id row = q \<and> pl_ownerUserId row = o' \<and> row \<in> set ps"
  by (auto simp: find_Some_iff andOwnerAndPipelineId_def)

text \<open>Whatever agrees on a pipeline's tables and on its row is read alike.\<close>

lemma getPipeline_agree:
  assumes "agree_except pid db db'" and "q \<noteq> pid"
    and "find (andOwnerAndPipelineId o' q) (db_pipelines db') =
      find (andOwnerAndPipelineId o' q) (db_pipelines db)"
  shows "getPipeline zf db' o' q = getPipeline zf db o' q"
proof (cases "find (andOwnerAndPipelineId o' q) (db_pipelines db)")
  case None
  with assms(3) show ?thesis by (simp add: getPipeline_def)
next
  case (Some row)
  have "readPipelineGraph db' row = readPipelineGraph db row"
    using assms(1,2) find_owner_mem [OF Some]
    by (intro readPipelineGraph_cong [of db' q db row]) (auto simp: agree_except_def)
  with Some assms(3) show ?thesis by (simp add: getPipeline_def)
qed

subsection \<open>Creation\<close>

lemma triggerOfRow_triggerRow:
  "\<exists>x. triggerOfRow (triggerRow pid now (t, u)) = Return x \<and> toWritableTrigger x = t"
  by (cases t) (auto simp: triggerOfRow_def triggerRow_def)

lemma triggers_of_rows:
  "length us = length ts \<Longrightarrow> map_res triggerOfRow (map (triggerRow pid now) (zip ts us)) = Return xs \<Longrightarrow>
     map toWritableTrigger xs = ts"
proof (induction ts arbitrary: us xs)
  case Nil
  then show ?case by simp
next
  case (Cons t ts)
  then obtain u us' where us: "us = u # us'" by (cases us) auto
  obtain x where x: "triggerOfRow (triggerRow pid now (t, u)) = Return x" "toWritableTrigger x = t"
    using triggerOfRow_triggerRow by blast
  with Cons us show ?case by (auto simp: bind_res_Return_iff)
qed

lemma length_draw_uuids [simp]: "length (draw_uuids gen n db) = n"
  by (simp add: draw_uuids_def)

lemma no_rows_of_absent_pipeline:
  assumes "db_wf db" and "pid \<notin> pl_id ` set (db_pipelines db)"
  shows "componentsOf db pid = []" and "edgesOf db pid = []" and "triggersOf db pid = []"
proof -
  have refs: "pc_pipelineId ` set (db_components db) \<subseteq> pl_id ` set (db_pipelines db)"
    "tg_pipelineId ` set (db_triggers db) \<subseteq> pl_id ` set (db_pipelines db)"
    "edgeFromRef ` set (db_edges db) \<subseteq> componentRef ` set (db_components db)"
    using assms(1) by (simp_all add: db_wf_def graph_refs_ok_def)
  have "fst ` edgeFromRef ` set (db_edges db) \<subseteq> fst ` componentRef ` set (db_components db)"
    using refs(3) by (rule image_mono)
  then have edges: "eg_pipelineId ` set (db_edges db) \<subseteq> pc_pipelineId ` set (db_components db)"
    by (simp add: image_image edgeFromRef_def componentRef_def)
  have absent: "pid \<notin> pc_pipelineId ` set (db_components db)" "pid \<notin> tg_pipelineId ` set (db_triggers db)"
    by (rule contra_subsetD [OF refs(1) assms(2)], rule contra_subsetD [OF refs(2) assms(2)])
  from edges absent(1) have "pid \<notin> eg_pipelineId ` set (db_edges db)" by (rule contra_subsetD)
  with absent show "componentsOf db pid = []" "edgesOf db pid = []" "triggersOf db pid = []"
    by (auto simp: graph_tables filter_empty_conv)
qed

lemma createPipeline_tables:
  assumes wf: "db_wf db" and ret: "createPipeline zf gen now owner r db = Return (db', p)"
  shows "agree_except (p_id p) db db'"
    and "\<exists>row. db_pipelines db' = db_pipelines db @ [row] \<and> pl_id row = p_id p \<and>
      pl_ownerUserId row = owner \<and> hydratePipeline zf (readPipelineGraph db' row) = Return p"
    and "p_id p \<notin> pl_id ` set (db_pipelines db)"
    and "p_steps p = cr_steps r" and "p_edges p = cr_edges r" and "p_name p = cr_name r"
    and "p_state p = Draft" and "p_ownerUserId p = owner"
    and "map toWritableTrigger (p_triggers p) = cr_triggers r"
    and "validatePipelineGraph r = Return ()" and "pipelineCreateRequestSchema_ok zf r"
proof -
  let ?id = "gen (db_uuids db)"
  let ?row = "\<lparr>pl_id = ?id, pl_ownerUserId = owner, pl_contractVersion = cr_contractVersion r,
      pl_name = cr_name r, pl_state = Draft, pl_createdAt = now, pl_updatedAt = now\<rparr>"
  from ret obtain db1 db2 db3 where
    ok: "pipelineCreateRequestSchema_ok zf r" "validatePipelineGraph r = Return ()" and
    ins: "insertPipelines [?row] (advance_uuids 1 db) = Return db1"
      "insertComponents (map (componentRow ?id) (cr_steps r)) db1 = Return db2"
      "insertEdgeRows (map (edgeRow ?id) (cr_edges r)) db2 = Return db3"
      "insertTriggerRows (triggerRows gen ?id now (cr_triggers r) db3)
        (advance_uuids (length (triggerRows gen ?id now (cr_triggers r) db3)) db3) = Return db'" and
    hyd: "hydratePipeline zf \<lparr>pg_pipeline = ?row,
        pg_components = map (componentRow ?id) (cr_steps r),
        pg_edges = map (edgeRow ?id) (cr_edges r),
        pg_triggers = triggerRows gen ?id now (cr_triggers r) db3\<rparr> = Return p"
    by (rule createPipeline_Return)
  have pid: "p_id p = ?id" using hydratePipeline_Return(1) [OF hyd] by simp
  have fresh: "?id \<notin> pl_id ` set (db_pipelines db)"
    using ins(1) by (auto simp: insertPipelines_def bind_res_Return_iff insert_unique_Return advance_uuids_def)
  have tables: "db_pipelines db' = db_pipelines db @ [?row]"
    "db_components db' = db_components db @ map (componentRow ?id) (cr_steps r)"
    "db_edges db' = db_edges db @ map (edgeRow ?id) (cr_edges r)"
    "db_triggers db' = db_triggers db @ triggerRows gen ?id now (cr_triggers r) db3"
    using ins by (auto simp: insertPipelines_def insertComponents_def insertEdgeRows_def
        insertTriggerRows_def bind_res_Return_iff insert_unique_Return advance_uuids_def)
  have none: "componentsOf db ?id = []" "edgesOf db ?id = []" "triggersOf db ?id = []"
    by (rule no_rows_of_absent_pipeline [OF wf fresh])+
  have rows: "filter (\<lambda>c. pc_pipelineId c = q) (map (componentRow ?id) (cr_steps r)) =
      (if q = ?id then map (componentRow ?id) (cr_steps r) else [])"
    "filter (\<lambda>e. eg_pipelineId e = q) (map (edgeRow ?id) (cr_edges r)) =
      (if q = ?id then map (edgeRow ?id) (cr_edges r) else [])"
    "filter (\<lambda>t. tg_pipelineId t = q) (triggerRows gen ?id now (cr_triggers r) db3) =
      (if q = ?id then triggerRows gen ?id now (cr_triggers r) db3 else [])" for q
    unfolding triggerRows_def by (rule filter_map_const, simp)+
  show "agree_except (p_id p) db db'"
    by (simp add: agree_except_def pid graph_tables tables rows)
  have "readPipelineGraph db' ?row = \<lparr>pg_pipeline = ?row,
        pg_components = map (componentRow ?id) (cr_steps r),
        pg_edges = map (edgeRow ?id) (cr_edges r),
        pg_triggers = triggerRows gen ?id now (cr_triggers r) db3\<rparr>"
    using none by (simp add: readPipelineGraph_def graph_tables tables rows)
  with hyd tables(1) pid show "\<exists>row. db_pipelines db' = db_pipelines db @ [row] \<and> pl_id row = p_id p \<and>
      pl_ownerUserId row = owner \<and> hydratePipeline zf (readPipelineGraph db' row) = Return p"
    by (intro exI [of _ ?row]) simp
  show "p_id p \<notin> pl_id ` set (db_pipelines db)" using fresh pid by simp
  show "p_steps p = cr_steps r" "p_edges p = cr_edges r" "p_name p = cr_name r" "p_state p = Draft"
    "p_ownerUserId p = owner"
    using hydratePipeline_Return [OF hyd] by (simp_all add: comp_def)
  show "map toWritableTrigger (p_triggers p) = cr_triggers r"
    using hydratePipeline_Return(7) [OF hyd]
      triggers_of_rows [of "draw_uuids gen (length (cr_triggers r)) db3" "cr_triggers r" ?id now]
    by (simp add: triggerRows_def)
  show "validatePipelineGraph r = Return ()" "pipelineCreateRequestSchema_ok zf r" by (rule ok)+
qed

subsection \<open>Update\<close>

lemma find_commute_owner:
  "find (\<lambda>p. pl_id p = pid \<and> pl_ownerUserId p = owner) ps = find (andOwnerAndPipelineId owner pid) ps"
  by (rule arg_cong [of _ _ "\<lambda>P. find P ps"]) (auto simp: andOwnerAndPipelineId_def)

lemma updatePipeline_Return:
  assumes "updatePipeline zf gen dbNow now owner pid u db = Return (db', Some p)"
  obtains row existing g where
    "find (andOwnerAndPipelineId owner pid) (db_pipelines db) = Some row"
    "findLockingRun db pid = None"
    "hydratePipeline zf (readPipelineGraph db row) = Return existing"
    "validatePipelineGraph (mergeUpdate existing u) = Return ()"
    "pipelineUpdateRequestSchema_ok zf u"
    "replaceGraphRecords gen dbNow (row\<lparr>pl_name := cr_name (mergeUpdate existing u),
        pl_state := (case ur_state u of None \<Rightarrow> pl_state row | Some s \<Rightarrow> s), pl_updatedAt := now\<rparr>)
      (mergeUpdate existing u) u
      (db\<lparr>db_pipelines := update_where (\<lambda>p. pl_id p = pid)
         (\<lambda>p. p\<lparr>pl_name := cr_name (mergeUpdate existing u),
            pl_state := (case ur_state u of None \<Rightarrow> pl_state row | Some s \<Rightarrow> s), pl_updatedAt := now\<rparr>)
         (db_pipelines db)\<rparr>) = Return (db', g)"
    "hydratePipeline zf g = Return p"
proof -
  have ok: "pipelineUpdateRequestSchema_ok zf u"
    and ret: "updatePipelineInTransaction zf gen dbNow now owner pid u db = Return (db', Some p)"
    using assms by (auto simp: updatePipeline_def bind_res_Return_iff throw_if_iff)
  obtain row where row: "find (andOwnerAndPipelineId owner pid) (db_pipelines db) = Some row"
    using ret by (cases "find (andOwnerAndPipelineId owner pid) (db_pipelines db)")
      (simp_all add: updatePipelineInTransaction_def find_commute_owner)
  have idle: "findLockingRun db pid = None"
    using ret row by (cases "findLockingRun db pid")
      (simp_all add: updatePipelineInTransaction_def find_commute_owner Let_def setPipelineState_def
        assertPipelineEditable_def isPipelineEditable_def)
  show thesis
    using ret row idle
    by (auto simp: updatePipelineInTransaction_def find_commute_owner Let_def bind_res_Return_iff
        bind_res_pair_Return_iff intro!: that [OF row idle _ _ ok])
qed

lemma graph_tables_pipelines [simp]:
  "componentsOf (db\<lparr>db_pipelines := x\<rparr>) q = componentsOf db q"
  "edgesOf (db\<lparr>db_pipelines := x\<rparr>) q = edgesOf db q"
  "triggersOf (db\<lparr>db_pipelines := x\<rparr>) q = triggersOf db q"
  by (simp_all add: graph_tables)

lemma hydrated_steps:
  "hydratePipeline zf (readPipelineGraph db row) = Return p \<Longrightarrow>
     p_steps p = storedSteps db (pl_id row) \<and> p_edges p = storedEdges db (pl_id row) \<and>
     map_res triggerOfRow (triggersOf db (pl_id row)) = Return (p_triggers p)"
  using hydratePipeline_Return(5,6,7)
  by (fastforce simp: readPipelineGraph_def storedSteps_def storedEdges_def graph_tables)

lemma updatePipeline_tables:
  assumes "updatePipeline zf gen dbNow now owner pid u db = Return (db', Some p)"
  shows "agree_except pid db db'"
    and "\<exists>existing. getPipeline zf db owner pid = Return (Some existing) \<and>
      validatePipelineGraph (mergeUpdate existing u) = Return () \<and>
      pipelineSchema_ok zf existing \<and>
      p_steps p = cr_steps (mergeUpdate existing u) \<and> p_edges p = cr_edges (mergeUpdate existing u) \<and>
      p_name p = cr_name (mergeUpdate existing u) \<and>
      p_state p = (case ur_state u of None \<Rightarrow> p_state existing | Some s \<Rightarrow> s) \<and>
      (ur_triggers u = None \<longrightarrow> p_triggers p = p_triggers existing)"
    and "getPipeline zf db' owner pid = Return (Some p)"
    and "storedSteps db' pid = p_steps p" and "storedEdges db' pid = p_edges p"
    and "map pl_id (db_pipelines db') = map pl_id (db_pipelines db)"
    and "q \<noteq> pid \<Longrightarrow> find (andOwnerAndPipelineId o' q) (db_pipelines db') =
      find (andOwnerAndPipelineId o' q) (db_pipelines db)"
    and "pipelineUpdateRequestSchema_ok zf u"
proof -
  from assms obtain row existing g where
    row: "find (andOwnerAndPipelineId owner pid) (db_pipelines db) = Some row" and
    hyd: "hydratePipeline zf (readPipelineGraph db row) = Return existing" and
    valid: "validatePipelineGraph (mergeUpdate existing u) = Return ()" and
    ok: "pipelineUpdateRequestSchema_ok zf u" and
    rep: "replaceGraphRecords gen dbNow (row\<lparr>pl_name := cr_name (mergeUpdate existing u),
        pl_state := (case ur_state u of None \<Rightarrow> pl_state row | Some s \<Rightarrow> s), pl_updatedAt := now\<rparr>)
      (mergeUpdate existing u) u
      (db\<lparr>db_pipelines := update_where (\<lambda>p. pl_id p = pid)
         (\<lambda>p. p\<lparr>pl_name := cr_name (mergeUpdate existing u),
            pl_state := (case ur_state u of None \<Rightarrow> pl_state row | Some s \<Rightarrow> s), pl_updatedAt := now\<rparr>)
         (db_pipelines db)\<rparr>) = Return (db', g)" and
    hyd': "hydratePipeline zf g = Return p"
    by (rule updatePipeline_Return)
  let ?set = "\<lambda>p. p\<lparr>pl_name := cr_name (mergeUpdate existing u),
      pl_state := (case ur_state u of None \<Rightarrow> pl_state row | Some s \<Rightarrow> s), pl_updatedAt := now\<rparr>"
  let ?db = "db\<lparr>db_pipelines := update_where (\<lambda>p. pl_id p = pid) ?set (db_pipelines db)\<rparr>"
  have rid: "pl_id row = pid" "pl_id (?set row) = pid" using find_owner_mem [OF row] by simp_all
  note t = replaceGraphRecords_tables [OF rep, unfolded rid(2)]
  show agree: "agree_except pid db db'" using t(2) by (simp add: agree_except_def)
  have pls: "db_pipelines db' = update_where (\<lambda>p. pl_id p = pid) ?set (db_pipelines db)"
    using t(3) by simp
  have "find (andOwnerAndPipelineId o' q) (db_pipelines db') =
      map_option (\<lambda>x. if pl_id x = pid then ?set x else x)
        (find (andOwnerAndPipelineId o' q) (db_pipelines db))" for o' q
    unfolding pls by (rule find_update_where) (simp add: andOwnerAndPipelineId_def)
  note found = this
  from found [of owner pid] row rid have "find (andOwnerAndPipelineId owner pid) (db_pipelines db') =
      Some (?set row)" by simp
  with hyd' t(1) show "getPipeline zf db' owner pid = Return (Some p)" by (simp add: getPipeline_def)
  show "q \<noteq> pid \<Longrightarrow> find (andOwnerAndPipelineId o' q) (db_pipelines db') =
      find (andOwnerAndPipelineId o' q) (db_pipelines db)"
    using found [of o' q] by (cases "find (andOwnerAndPipelineId o' q) (db_pipelines db)")
      (auto dest: find_owner_mem)
  show "map pl_id (db_pipelines db') = map pl_id (db_pipelines db)"
    unfolding pls by (rule map_update_where) simp
  note hg = hydrated_steps [OF hyd' [unfolded t(1)], unfolded rid(2)]
  then show stored: "storedSteps db' pid = p_steps p" "storedEdges db' pid = p_edges p" by simp_all
  note he = hydrated_steps [OF hyd, unfolded rid(1)]
  have "p_steps p = cr_steps (mergeUpdate existing u)" "p_edges p = cr_edges (mergeUpdate existing u)"
    using hg he t(4,5) by (auto simp: storedSteps_def storedEdges_def mergeUpdate_def comp_def
        split: option.splits)
  moreover have "ur_triggers u = None \<longrightarrow> p_triggers p = p_triggers existing"
    using hg he t(6) by auto
  moreover have "p_name p = cr_name (mergeUpdate existing u)"
    "p_state p = (case ur_state u of None \<Rightarrow> p_state existing | Some s \<Rightarrow> s)"
    using hydratePipeline_Return(3,4) [OF hyd' [unfolded t(1)]] hydratePipeline_Return(4) [OF hyd]
    by (auto simp: readPipelineGraph_def split: option.splits)
  moreover have "getPipeline zf db owner pid = Return (Some existing)"
    using row hyd by (simp add: getPipeline_def)
  ultimately show "\<exists>existing. getPipeline zf db owner pid = Return (Some existing) \<and>
      validatePipelineGraph (mergeUpdate existing u) = Return () \<and>
      pipelineSchema_ok zf existing \<and>
      p_steps p = cr_steps (mergeUpdate existing u) \<and> p_edges p = cr_edges (mergeUpdate existing u) \<and>
      p_name p = cr_name (mergeUpdate existing u) \<and>
      p_state p = (case ur_state u of None \<Rightarrow> p_state existing | Some s \<Rightarrow> s) \<and>
      (ur_triggers u = None \<longrightarrow> p_triggers p = p_triggers existing)"
    using valid hydratePipeline_Return(8) [OF hyd]
    by (intro exI [of _ existing] conjI) assumption+
  show "pipelineUpdateRequestSchema_ok zf u" by (rule ok)
qed

end
