(* ===== verification/Repository_Correctness.thy ===== *)
theory Repository_Correctness
  imports Pipeline_Repository
begin

text \<open>
  What the pipeline repository guarantees: the declared constraints and the validity of every
  stored graph are invariants, reads return what was written, owners cannot see or change each
  other's pipelines, and a duplicate is an isomorphic draft without credentials.
\<close>

section \<open>Deletion and duplication\<close>

lemma unique_pipeline_row:
  "db_wf db \<Longrightarrow> a \<in> set (db_pipelines db) \<Longrightarrow> b \<in> set (db_pipelines db) \<Longrightarrow> pl_id a = pl_id b \<Longrightarrow> a = b"
  by (simp add: db_wf_def keys_ok_def distinct_map inj_on_def)

text \<open>A pipeline that someone else owns is not found.\<close>

lemma find_other_owner:
  assumes "db_wf db" and "row \<in> set (db_pipelines db)" and "pl_id row = pid"
    and "pl_ownerUserId row \<noteq> owner"
  shows "find (andOwnerAndPipelineId owner pid) (db_pipelines db) = None"
proof (cases "find (andOwnerAndPipelineId owner pid) (db_pipelines db)")
  case (Some a)
  from find_owner_mem [OF Some] unique_pipeline_row [OF assms(1,2), of a] assms(3,4) show ?thesis by simp
qed

lemma deletePipeline_tables:
  assumes "db_wf db" and "deletePipeline owner pid db = Return (db', b)"
  shows "agree_except pid db db'"
    and "b \<longleftrightarrow> find (andOwnerAndPipelineId owner pid) (db_pipelines db) \<noteq> None"
    and "b \<Longrightarrow> rn_pipelineId ` set (db_runs db) \<inter> {pid} = {}"
    and "db_pipelines db' = delete_where (andOwnerAndPipelineId owner pid) (db_pipelines db)"
proof -
  have "agree_except pid db db' \<and>
    (b \<longleftrightarrow> find (andOwnerAndPipelineId owner pid) (db_pipelines db) \<noteq> None) \<and>
    (b \<longrightarrow> rn_pipelineId ` set (db_runs db) \<inter> {pid} = {}) \<and>
    db_pipelines db' = delete_where (andOwnerAndPipelineId owner pid) (db_pipelines db)"
  proof (cases "find (andOwnerAndPipelineId owner pid) (db_pipelines db)")
    case None
    then have "db' = db" "\<not> b" using assms(2) by (simp_all add: deletePipeline_def find_commute_owner)
    moreover have "delete_where (andOwnerAndPipelineId owner pid) (db_pipelines db) = db_pipelines db"
      using None by (auto simp: find_None_iff delete_where_def filter_id_conv)
    ultimately show ?thesis using None by simp
  next
    case (Some row)
    note row = find_owner_mem [OF Some]
    have pred: "(\<lambda>p. pl_id p = pl_id row \<and> pl_ownerUserId p = owner) = andOwnerAndPipelineId owner pid"
      using row by (auto simp: andOwnerAndPipelineId_def fun_eq_iff)
    from assms(2) Some have none: "find (\<lambda>r. rn_pipelineId r = pid) (db_runs db) = None"
      and del: "deletePipelines (andOwnerAndPipelineId owner pid) db = Return db'"
      and b: "b = (length (filter (andOwnerAndPipelineId owner pid) (db_pipelines db)) = 1)"
      using row pred
      by (auto simp: deletePipeline_def find_commute_owner Let_def bind_res_Return_iff throw_if_iff)
    have gone: "{p \<in> set (db_pipelines db). andOwnerAndPipelineId owner pid p} = {row}"
      using row assms(1) by (auto simp: andOwnerAndPipelineId_def db_wf_def keys_ok_def distinct_map inj_on_def)
    have "set (filter (andOwnerAndPipelineId owner pid) (db_pipelines db)) = {row}"
      using gone by simp
    moreover have "distinct (filter (andOwnerAndPipelineId owner pid) (db_pipelines db))"
      using assms(1) by (simp add: db_wf_def keys_ok_def distinct_map)
    ultimately have "length (filter (andOwnerAndPipelineId owner pid) (db_pipelines db)) = 1"
      by (metis One_nat_def card.empty card.insert distinct_card empty_iff finite.emptyI)
    with b Some have b': "b \<longleftrightarrow> find (andOwnerAndPipelineId owner pid) (db_pipelines db) \<noteq> None" by simp
    from del obtain db1 where
      comp: "deleteComponents (\<lambda>c. pc_pipelineId c \<in> {pid}) db = Return db1" and
      db': "db' = (deleteTriggers (\<lambda>t. tg_pipelineId t \<in> {pid}) db1)
        \<lparr>db_pipelines := delete_where (andOwnerAndPipelineId owner pid) (db_pipelines db1)\<rparr>"
      unfolding deletePipelines_Return Let_def gone using row by auto
    have pls: "db_pipelines db1 = db_pipelines db" using comp by (simp add: deleteComponents_Return)
    have "agree_except pid db db'"
      using comp
      by (auto simp: agree_except_def graph_tables db' deleteTriggers_def deleteComponents_Return
          edgeFromRef_def edgeToRef_def componentRef_def intro!: filter_delete_keeps)
    moreover have "rn_pipelineId ` set (db_runs db) \<inter> {pid} = {}"
      using none by (auto simp: find_None_iff)
    ultimately show ?thesis using b' db' pls by simp
  qed
  then show "agree_except pid db db'"
    "b \<longleftrightarrow> find (andOwnerAndPipelineId owner pid) (db_pipelines db) \<noteq> None"
    "b \<Longrightarrow> rn_pipelineId ` set (db_runs db) \<inter> {pid} = {}"
    "db_pipelines db' = delete_where (andOwnerAndPipelineId owner pid) (db_pipelines db)"
    by blast+
qed

section \<open>Stored graphs stay valid\<close>

text \<open>The format check accepts only text without a colon that is not empty, as UUIDs are.\<close>

definition uuid_text :: "zod_formats \<Rightarrow> bool" where
  "uuid_text zf \<longleftrightarrow> (\<forall>s. uuid_format zf s \<longrightarrow> s \<noteq> [] \<and> CHR '':'' \<notin> set s)"

definition graphs_ok :: "database \<Rightarrow> bool" where
  "graphs_ok db \<longleftrightarrow>
     (\<forall>p\<in>set (db_pipelines db). valid_graph (storedSteps db (pl_id p)) (storedEdges db (pl_id p)))"

lemma schema_graph_ids:
  "uuid_text zf \<Longrightarrow> list_all (pipelineStepSchema_ok zf) ss \<Longrightarrow> graph_ids_ok ss"
  by (auto simp: uuid_text_def graph_ids_ok_def list_all_iff pipelineStepSchema_ok_def)

lemma stored_agree:
  "agree_except pid db db' \<Longrightarrow> q \<noteq> pid \<Longrightarrow>
     storedSteps db' q = storedSteps db q \<and> storedEdges db' q = storedEdges db q"
  by (simp add: agree_except_def storedSteps_def storedEdges_def)

lemma graphs_ok_step:
  assumes "graphs_ok db" and "agree_except pid db db'"
    and "pl_id ` set (db_pipelines db') \<subseteq> insert pid (pl_id ` set (db_pipelines db))"
    and "pid \<in> pl_id ` set (db_pipelines db') \<Longrightarrow> valid_graph (storedSteps db' pid) (storedEdges db' pid)"
  shows "graphs_ok db'"
  unfolding graphs_ok_def
proof
  fix p assume p: "p \<in> set (db_pipelines db')"
  show "valid_graph (storedSteps db' (pl_id p)) (storedEdges db' (pl_id p))"
  proof (cases "pl_id p = pid")
    case True
    with p assms(4) show ?thesis by auto
  next
    case False
    from p have "pl_id p \<in> insert pid (pl_id ` set (db_pipelines db))"
      by (intro subsetD [OF assms(3)]) simp
    with False obtain q where "pl_id p = pl_id q" "q \<in> set (db_pipelines db)" by (elim insertE imageE) simp_all
    with assms(1) have "valid_graph (storedSteps db (pl_id p)) (storedEdges db (pl_id p))"
      unfolding graphs_ok_def by metis
    with stored_agree [OF assms(2) False] show ?thesis by simp
  qed
qed

lemma createPipeline_graphs:
  assumes "db_wf db" and "uuid_text zf" and "graphs_ok db"
    and "createPipeline zf gen now owner r db = Return (db', p)"
  shows "graphs_ok db'"
proof -
  note t = createPipeline_tables [OF assms(1,4)]
  from t(2) obtain row where row: "db_pipelines db' = db_pipelines db @ [row]" "pl_id row = p_id p"
    "hydratePipeline zf (readPipelineGraph db' row) = Return p" by blast
  have "graph_ids_ok (cr_steps r)"
    using t(11) assms(2) by (auto simp: pipelineCreateRequestSchema_ok_def intro: schema_graph_ids)
  from valid_graph_of_check [OF this] t(10) have "valid_graph (cr_steps r) (cr_edges r)" by simp
  moreover have "storedSteps db' (p_id p) = cr_steps r" "storedEdges db' (p_id p) = cr_edges r"
    using hydrated_steps [OF row(3)] row(2) t(4,5) by simp_all
  ultimately show ?thesis
    using row by (intro graphs_ok_step [OF assms(3) t(1)]) auto
qed

lemma updatePipeline_none:
  "updatePipeline zf gen dbNow now owner pid u db = Return (db', None) \<Longrightarrow> db' = db"
  unfolding updatePipeline_def updatePipelineInTransaction_def
  by (auto simp: bind_res_Return_iff bind_res_pair_Return_iff Let_def split: option.split_asm)

lemma updatePipeline_graphs:
  assumes "uuid_text zf" and "graphs_ok db"
    and "updatePipeline zf gen dbNow now owner pid u db = Return (db', p)"
  shows "graphs_ok db'"
proof (cases p)
  case None
  with assms show ?thesis using updatePipeline_none by blast
next
  case (Some q)
  note t = updatePipeline_tables [OF assms(3) [unfolded Some]]
  from t(2) obtain existing where
    e: "validatePipelineGraph (mergeUpdate existing u) = Return ()" "pipelineSchema_ok zf existing"
      "p_steps q = cr_steps (mergeUpdate existing u)" "p_edges q = cr_edges (mergeUpdate existing u)"
    by blast
  have "list_all (pipelineStepSchema_ok zf) (cr_steps (mergeUpdate existing u))"
    using e(2) t(8)
    by (auto simp: mergeUpdate_def pipelineSchema_ok_def pipelineUpdateRequestSchema_ok_def
        split: option.splits)
  with assms(1) have "graph_ids_ok (cr_steps (mergeUpdate existing u))" by (rule schema_graph_ids)
  from valid_graph_of_check [OF this] e have "valid_graph (p_steps q) (p_edges q)" by simp
  moreover have "pl_id ` set (db_pipelines db') = pl_id ` set (db_pipelines db)"
    using t(6) by (metis list.set_map)
  ultimately show ?thesis using t(4,5) by (intro graphs_ok_step [OF assms(2) t(1)]) auto
qed

lemma deletePipeline_graphs:
  assumes "db_wf db" and "graphs_ok db" and "deletePipeline owner pid db = Return (db', b)"
  shows "graphs_ok db'"
proof -
  note t = deletePipeline_tables [OF assms(1,3)]
  show ?thesis
  proof (cases "pid \<in> pl_id ` set (db_pipelines db')")
    case False
    with t(4) show ?thesis by (intro graphs_ok_step [OF assms(2) t(1)]) auto
  next
    case True
    with t(4) have mem: "pid \<in> pl_id ` set (db_pipelines db)" by auto
    from True t(4) obtain row where "row \<in> set (db_pipelines db)" "pl_id row = pid"
      "pl_ownerUserId row \<noteq> owner" by (auto simp: andOwnerAndPipelineId_def)
    then have "find (andOwnerAndPipelineId owner pid) (db_pipelines db) = None"
      by (rule find_other_owner [OF assms(1)])
    then have "db' = db" using assms(3) by (simp add: deletePipeline_def find_commute_owner)
    with assms(2) show ?thesis by simp
  qed
qed

section \<open>The repository as a machine\<close>

datatype repository_op =
    OpCreate (op_owner: string) time PipelineCreateRequest
  | OpUpdate (op_owner: string) time time string PipelineUpdateRequest
  | OpDelete (op_owner: string) string
  | OpDuplicate (op_owner: string) time string "string option" "nat \<Rightarrow> string"

fun repository_step ::
  "zod_formats \<Rightarrow> (nat \<Rightarrow> string) \<Rightarrow> database \<Rightarrow> repository_op \<Rightarrow> (repository_error, database) result" where
  "repository_step zf gen db (OpCreate owner now r) =
     bind_res (createPipeline zf gen now owner r db) (\<lambda>(db, p). Return db)"
| "repository_step zf gen db (OpUpdate owner dbNow now pid u) =
     bind_res (updatePipeline zf gen dbNow now owner pid u db) (\<lambda>(db, p). Return db)"
| "repository_step zf gen db (OpDelete owner pid) =
     bind_res (deletePipeline owner pid db) (\<lambda>(db, b). Return db)"
| "repository_step zf gen db (OpDuplicate owner now pid name ids) =
     bind_res (duplicatePipeline zf gen ids now owner pid name db) (\<lambda>(db, p). Return db)"

definition repository_inv :: "zod_formats \<Rightarrow> database \<Rightarrow> bool" where
  "repository_inv zf db \<longleftrightarrow> db_wf db \<and> (uuid_text zf \<longrightarrow> graphs_ok db)"

definition readable :: "zod_formats \<Rightarrow> database \<Rightarrow> string \<Rightarrow> string \<Rightarrow>
    (repository_error, Pipeline option) result" where
  "readable zf db owner pid = getPipeline zf db owner pid"

lemma createPipeline_inv:
  "repository_inv zf db \<Longrightarrow> createPipeline zf gen now owner r db = Return (db', p) \<Longrightarrow>
     repository_inv zf db'"
  using createPipeline_wf createPipeline_graphs unfolding repository_inv_def by blast

lemma duplicatePipeline_inv:
  assumes "repository_inv zf db"
    and "duplicatePipeline zf gen ids now owner pid name db = Return (db', p)"
  shows "repository_inv zf db'"
  using assms duplicatePipeline_none [of zf gen ids now owner pid name db db']
  by (cases p) (auto elim!: duplicatePipeline_Return intro: createPipeline_inv)

lemma repository_step_inv:
  assumes "repository_inv zf db" and "repository_step zf gen db op' = Return db'"
  shows "repository_inv zf db'"
proof (cases op')
  case (OpCreate owner now r)
  with assms show ?thesis by (auto simp: bind_res_pair_Return_iff intro: createPipeline_inv)
next
  case (OpUpdate owner dbNow now pid u)
  with assms show ?thesis
    using updatePipeline_wf updatePipeline_graphs
    by (fastforce simp: bind_res_pair_Return_iff repository_inv_def)
next
  case (OpDelete owner pid)
  with assms show ?thesis
    using deletePipeline_wf deletePipeline_graphs
    by (fastforce simp: bind_res_pair_Return_iff repository_inv_def)
next
  case (OpDuplicate owner now pid name ids)
  with assms show ?thesis by (auto simp: bind_res_pair_Return_iff intro: duplicatePipeline_inv)
qed

subsection \<open>Isolation\<close>

lemma find_absent:
  assumes "pid \<notin> pl_id ` set ps"
  shows "find (andOwnerAndPipelineId o' pid) ps = None"
proof (cases "find (andOwnerAndPipelineId o' pid) ps")
  case (Some row)
  from find_owner_mem [OF Some] have "pid \<in> pl_id ` set ps" by (metis imageI)
  with assms show ?thesis ..
qed

lemma createPipeline_reads:
  assumes "db_wf db" and "createPipeline zf gen now owner r db = Return (db', p)"
  shows "getPipeline zf db' o' q =
    (if q = p_id p then if o' = owner then Return (Some p) else Return None
     else getPipeline zf db o' q)"
proof -
  note t = createPipeline_tables [OF assms]
  from t(2) obtain row where row: "db_pipelines db' = db_pipelines db @ [row]" "pl_id row = p_id p"
    "pl_ownerUserId row = owner" "hydratePipeline zf (readPipelineGraph db' row) = Return p" by blast
  show ?thesis
  proof (cases "q = p_id p")
    case False
    then have "find (andOwnerAndPipelineId o' q) (db_pipelines db') =
        find (andOwnerAndPipelineId o' q) (db_pipelines db)"
      by (simp add: row(1) find_append row(2) andOwnerAndPipelineId_def split: option.splits)
    from getPipeline_agree [OF t(1) False this] False show ?thesis by simp
  next
    case True
    then have "find (andOwnerAndPipelineId o' q) (db_pipelines db) = None"
      using find_absent [OF t(3)] by simp
    then have "find (andOwnerAndPipelineId o' q) (db_pipelines db') = (if o' = owner then Some row else None)"
      using True row by (simp add: row(1) find_append andOwnerAndPipelineId_def)
    with True row(4) show ?thesis by (simp add: getPipeline_def)
  qed
qed

lemma created_was_unreadable:
  assumes "db_wf db" and "createPipeline zf gen now owner r db = Return (db', p)"
  shows "getPipeline zf db o' (p_id p) = Return None"
proof -
  have "find (andOwnerAndPipelineId o' (p_id p)) (db_pipelines db) = None"
    by (rule find_absent [OF createPipeline_tables(3) [OF assms]])
  then show ?thesis by (simp add: getPipeline_def)
qed

lemma create_isolated:
  assumes "db_wf db" and "createPipeline zf gen now owner r db = Return (db', p)" and "owner \<noteq> o'"
  shows "getPipeline zf db' o' q = getPipeline zf db o' q"
  using createPipeline_reads [OF assms(1,2), of o' q] created_was_unreadable [OF assms(1,2), of o'] assms(3)
  by auto

lemma duplicate_isolated:
  assumes "db_wf db" and "duplicatePipeline zf gen ids now owner pid name db = Return (db', p)"
    and "owner \<noteq> o'"
  shows "getPipeline zf db' o' q = getPipeline zf db o' q"
  using assms duplicatePipeline_none [of zf gen ids now owner pid name db db']
  by (cases p) (auto elim!: duplicatePipeline_Return intro: create_isolated)

lemma not_found_other:
  assumes "db_wf db" and "find (andOwnerAndPipelineId owner pid) (db_pipelines db) = Some row"
    and "owner \<noteq> o'"
  shows "find (andOwnerAndPipelineId o' pid) (db_pipelines db) = None"
proof -
  note row = find_owner_mem [OF assms(2)]
  show ?thesis by (rule find_other_owner [OF assms(1), of row]) (use row assms(3) in simp_all)
qed

lemma update_isolated:
  assumes wf: "db_wf db" and ret: "updatePipeline zf gen dbNow now owner pid u db = Return (db', p)"
    and "owner \<noteq> o'"
  shows "getPipeline zf db' o' q = getPipeline zf db o' q"
proof (cases p)
  case None
  with ret updatePipeline_none show ?thesis by blast
next
  case (Some p')
  note t = updatePipeline_tables [OF ret [unfolded Some]]
  obtain row where row: "find (andOwnerAndPipelineId owner pid) (db_pipelines db) = Some row"
    using ret Some by (auto elim: updatePipeline_Return)
  obtain row' where row': "find (andOwnerAndPipelineId owner pid) (db_pipelines db') = Some row'"
    using t(3) by (cases "find (andOwnerAndPipelineId owner pid) (db_pipelines db')")
      (simp_all add: getPipeline_def)
  have wf': "db_wf db'" by (rule updatePipeline_wf [OF wf ret])
  show ?thesis
  proof (cases "q = pid")
    case True
    with not_found_other [OF wf row assms(3)] not_found_other [OF wf' row' assms(3)]
    show ?thesis by (simp add: getPipeline_def)
  next
    case False
    from getPipeline_agree [OF t(1) False t(7) [OF False]] show ?thesis .
  qed
qed

lemma find_delete_where_other:
  "(\<And>x. x \<in> set xs \<Longrightarrow> P x \<Longrightarrow> \<not> Q x) \<Longrightarrow> find P (delete_where Q xs) = find P xs"
  by (induction xs) (auto simp: delete_where_def)

lemma deletePipeline_reads:
  assumes "db_wf db" and "deletePipeline owner pid db = Return (db', b)"
  shows "getPipeline zf db' o' q =
    (if q = pid \<and> o' = owner then Return None else getPipeline zf db o' q)"
proof -
  note t = deletePipeline_tables [OF assms]
  have other: "find (andOwnerAndPipelineId o' q) (db_pipelines db') =
      find (andOwnerAndPipelineId o' q) (db_pipelines db)" if "\<not> (q = pid \<and> o' = owner)"
    unfolding t(4) using that
    by (intro find_delete_where_other) (auto simp: andOwnerAndPipelineId_def)
  show ?thesis
  proof (cases "q = pid")
    case False
    from getPipeline_agree [OF t(1) False other] False show ?thesis by simp
  next
    case True
    show ?thesis
    proof (cases "find (andOwnerAndPipelineId owner pid) (db_pipelines db)")
      case None
      then have "db' = db" using assms(2) by (simp add: deletePipeline_def find_commute_owner)
      with None True show ?thesis by (simp add: getPipeline_def)
    next
      case (Some row)
      have "find (andOwnerAndPipelineId owner pid) (db_pipelines db') = None"
        unfolding t(4) by (auto simp: find_None_iff)
      with True not_found_other [OF assms(1) Some, of o'] other show ?thesis
        by (cases "o' = owner") (simp_all add: getPipeline_def)
    qed
  qed
qed

lemma repository_step_isolated:
  assumes "repository_inv zf db" and "repository_step zf gen db op' = Return db'"
    and "op_owner op' \<noteq> other"
  shows "readable zf db' other = readable zf db other"
proof
  fix q
  have wf: "db_wf db" using assms(1) by (simp add: repository_inv_def)
  show "readable zf db' other q = readable zf db other q"
  proof (cases op')
    case (OpCreate owner now r)
    with assms(2,3) create_isolated [OF wf] show ?thesis
      by (auto simp: bind_res_pair_Return_iff readable_def)
  next
    case (OpUpdate owner dbNow now pid u)
    with assms(2,3) update_isolated [OF wf] show ?thesis
      by (auto simp: bind_res_pair_Return_iff readable_def)
  next
    case (OpDelete owner pid)
    with assms(2,3) deletePipeline_reads [OF wf] show ?thesis
      by (auto simp: bind_res_pair_Return_iff readable_def)
  next
    case (OpDuplicate owner now pid name ids)
    with assms(2,3) duplicate_isolated [OF wf] show ?thesis
      by (auto simp: bind_res_pair_Return_iff readable_def)
  qed
qed

interpretation repo: isolated_machine "repository_step zf gen" "repository_inv zf" op_owner "readable zf"
  for zf gen
  by unfold_locales (auto intro: repository_step_inv repository_step_isolated)

section \<open>Duplicates\<close>

definition renameEdge :: "(string \<Rightarrow> string) \<Rightarrow> PipelineEdge \<Rightarrow> PipelineEdge" where
  "renameEdge f e = \<lparr>pe_fromStepId = f (pe_fromStepId e), pe_toStepId = f (pe_toStepId e)\<rparr>"

lemma map_res_Return_map:
  "map_res g xs = Return ys \<Longrightarrow> (\<And>x y. x \<in> set xs \<Longrightarrow> g x = Return y \<Longrightarrow> y = h x) \<Longrightarrow> ys = map h xs"
  by (induction xs arbitrary: ys) (auto simp: bind_res_Return_iff)

lemma buildDuplicateCreateRequest_renames:
  assumes "buildDuplicateCreateRequest source d ids = Return r" and "distinct (map ps_id (pd_steps d))"
  shows "\<exists>f. cr_steps r = map (\<lambda>s. s\<lparr>ps_id := f (ps_id s)\<rparr>) (pd_steps d) \<and>
    cr_edges r = map (renameEdge f) (pd_edges d) \<and> cr_name r = pd_name d \<and>
    cr_triggers r = map copyDisabledTrigger (p_triggers source)"
proof -
  let ?ids = "map ids [0 ..< length (pd_steps d)]"
  let ?num = "zip (pd_steps d) ?ids"
  let ?ix = "map_of_entries (\<lambda>(step, i). ps_id step) snd ?num"
  let ?f = "\<lambda>i. the (map_get ?ix i)"
  have keys: "map (\<lambda>(step, i). ps_id step) ?num = map ps_id (pd_steps d)"
    by (rule nth_equalityI) simp_all
  have get: "map_get ?ix (ps_id step) = Some i" if "(step, i) \<in> set ?num" for step i
    using js_index.get_fold_put_distinct [of "\<lambda>(step, i). ps_id step" ?num "(step, i)" snd]
      assms(2) that keys by (simp add: map_of_entries_def)
  have "map (\<lambda>(step, i). step\<lparr>ps_id := i\<rparr>) ?num = map (\<lambda>(step, i). step\<lparr>ps_id := ?f (ps_id step)\<rparr>) ?num"
    using get by (intro map_cong refl) (auto split: prod.splits)
  also have "\<dots> = map (\<lambda>s. s\<lparr>ps_id := ?f (ps_id s)\<rparr>) (pd_steps d)"
    by (rule nth_equalityI) simp_all
  finally have steps: "map (\<lambda>(step, i). step\<lparr>ps_id := i\<rparr>) ?num =
      map (\<lambda>s. s\<lparr>ps_id := ?f (ps_id s)\<rparr>) (pd_steps d)" .
  from assms(1) obtain es where
    es: "map_res (\<lambda>edge.
           bind_res (remapComponentId ?ix (pe_fromStepId edge)) (\<lambda>a.
           bind_res (remapComponentId ?ix (pe_toStepId edge)) (\<lambda>b.
           Return \<lparr>pe_fromStepId = a, pe_toStepId = b\<rparr>))) (pd_edges d) = Return es" and
    r: "r = \<lparr>cr_contractVersion = pd_contractVersion d, cr_edges = es, cr_name = pd_name d,
      cr_steps = map (\<lambda>(step, i). step\<lparr>ps_id := i\<rparr>) ?num,
      cr_triggers = map copyDisabledTrigger (p_triggers source)\<rparr>"
    unfolding buildDuplicateCreateRequest_def Let_def bind_res_Return_iff by auto
  have "es = map (renameEdge ?f) (pd_edges d)"
    by (rule map_res_Return_map [OF es])
      (auto simp: bind_res_Return_iff remapComponentId_def renameEdge_def
        split: option.splits if_splits)
  with r steps show ?thesis by (intro exI [of _ ?f]) simp
qed

lemma trigger_flags [simp]:
  "wt_enabled (toWritableTrigger t) = tr_enabled t" "wt_enabled (copyDisabledTrigger t) = False"
  by (cases t; simp)+

lemma stored_ids_distinct: "db_wf db \<Longrightarrow> distinct (map ps_id (storedSteps db pid))"
proof -
  assume "db_wf db"
  then have "distinct (map pc_id (componentsOf db pid))"
    by (simp add: componentsOf_def db_wf_def keys_ok_def distinct_map_filter)
  moreover have "map ps_id (storedSteps db pid) = map pc_id (componentsOf db pid)"
    by (simp add: storedSteps_def stepOfRow_def)
  ultimately show ?thesis by simp
qed

lemma getPipeline_Some:
  assumes "getPipeline zf db owner pid = Return (Some p)"
  obtains row where "find (andOwnerAndPipelineId owner pid) (db_pipelines db) = Some row"
    "hydratePipeline zf (readPipelineGraph db row) = Return p" "pl_id row = pid" "p_id p = pid"
    "p_ownerUserId p = owner"
proof -
  from assms obtain row where row: "find (andOwnerAndPipelineId owner pid) (db_pipelines db) = Some row"
    "hydratePipeline zf (readPipelineGraph db row) = Return p"
    by (auto simp: getPipeline_def bind_res_Return_iff split: option.splits)
  with find_owner_mem [OF row(1)] hydratePipeline_Return(1,2) [OF row(2)] that [OF row] show thesis
    by (simp add: readPipelineGraph_def)
qed

lemma duplicate_of_source:
  assumes wf: "db_wf db"
    and ret: "duplicatePipeline zf gen ids now owner pid name db = Return (db', Some p)"
  shows "\<exists>source f. getPipeline zf db owner pid = Return (Some source) \<and>
    p_steps p = map (\<lambda>s. (withoutSecrets s)\<lparr>ps_id := f (ps_id s)\<rparr>) (p_steps source) \<and>
    p_edges p = map (renameEdge f) (p_edges source) \<and>
    inj_on f (ps_id ` set (p_steps source)) \<and>
    p_name p = (case name of None \<Rightarrow> p_name source | Some n \<Rightarrow> n) \<and>
    p_state p = Draft \<and> (\<forall>t\<in>set (p_triggers p). \<not> tr_enabled t) \<and>
    length (p_triggers p) = length (p_triggers source) \<and>
    getPipeline zf db' owner (p_id p) = Return (Some p) \<and>
    getPipeline zf db' owner pid = Return (Some source)"
proof -
  from ret obtain source d r where
    src: "getPipeline zf db owner pid = Return (Some source)" and
    d: "duplicatePipelineDefinition zf source (case name of None \<Rightarrow> p_name source | Some n \<Rightarrow> n) = Return d" and
    r: "buildDuplicateCreateRequest source d ids = Return r" and
    new: "createPipeline zf gen now owner r db = Return (db', p)"
    by (rule duplicatePipeline_Return)
  from src obtain row where hyd: "hydratePipeline zf (readPipelineGraph db row) = Return source"
    "pl_id row = pid" by (rule getPipeline_Some)
  have ok: "pipelineSchema_ok zf source" by (rule hydratePipeline_Return(8) [OF hyd(1)])
  have steps: "p_steps source = storedSteps db pid" using hydrated_steps [OF hyd(1)] hyd(2) by simp
  have pd: "pd_steps d = map withoutSecrets (p_steps source)" "pd_edges d = p_edges source"
    "pd_name d = (case name of None \<Rightarrow> p_name source | Some n \<Rightarrow> n)"
    using d export_eq [OF ok] by (auto simp: duplicatePipelineDefinition_def)
  have "distinct (map ps_id (pd_steps d))"
    using stored_ids_distinct [OF wf, of pid] by (simp add: pd steps comp_def)
  from buildDuplicateCreateRequest_renames [OF r this] obtain f where
    f: "cr_steps r = map (\<lambda>s. s\<lparr>ps_id := f (ps_id s)\<rparr>) (pd_steps d)"
      "cr_edges r = map (renameEdge f) (pd_edges d)" "cr_name r = pd_name d"
      "cr_triggers r = map copyDisabledTrigger (p_triggers source)" by blast
  note t = createPipeline_tables [OF wf new]
  have "distinct (map ps_id (cr_steps r))" using t(10) by (simp add: validatePipelineGraph_iff)
  then have "distinct (map f (map ps_id (p_steps source)))" by (simp add: f pd comp_def)
  then have inj: "inj_on f (ps_id ` set (p_steps source))" by (simp add: distinct_map inj_on_imageI)
  have "map wt_enabled (map toWritableTrigger (p_triggers p)) =
      map wt_enabled (map copyDisabledTrigger (p_triggers source))" using t(9) f(4) by simp
  then have trig: "map tr_enabled (p_triggers p) = map (\<lambda>_. False) (p_triggers source)"
    by (simp add: comp_def)
  have off: "\<forall>x\<in>set (p_triggers p). \<not> tr_enabled x"
  proof
    fix x assume "x \<in> set (p_triggers p)"
    then have "tr_enabled x \<in> set (map tr_enabled (p_triggers p))" by simp
    then show "\<not> tr_enabled x" unfolding trig by auto
  qed
  have "pid \<noteq> p_id p" using created_was_unreadable [OF wf new, of owner] src by auto
  with createPipeline_reads [OF wf new, of owner] src
  have "getPipeline zf db' owner (p_id p) = Return (Some p)"
    "getPipeline zf db' owner pid = Return (Some source)" by simp_all
  moreover have "length (p_triggers p) = length (p_triggers source)" using trig by (rule map_eq_imp_length_eq)
  moreover have "p_steps p = map (\<lambda>s. (withoutSecrets s)\<lparr>ps_id := f (ps_id s)\<rparr>) (p_steps source)"
    "p_edges p = map (renameEdge f) (p_edges source)"
    "p_name p = (case name of None \<Rightarrow> p_name source | Some n \<Rightarrow> n)"
    using t(4-6) by (simp_all add: f pd comp_def)
  ultimately show ?thesis
    using src inj off t(7) by (intro exI [of _ source] exI [of _ f] conjI) assumption+
qed

section \<open>Sample database\<close>

definition sampleZf :: zod_formats where
  "sampleZf = \<lparr>uuid_format = \<lambda>s. s \<noteq> [] \<and> CHR '':'' \<notin> set s, datetime_format = \<lambda>_. True\<rparr>"

definition sampleGen :: "nat \<Rightarrow> string" where
  "sampleGen n = ''g'' @ js_decimal n"

definition sampleRequest :: PipelineCreateRequest where
  "sampleRequest =
     \<lparr>cr_contractVersion = ''v1'', cr_edges = [sampleEdge], cr_name = ''Load'',
      cr_steps = [sampleSourceStep, sampleExportStep],
      cr_triggers = [WritableSchedule True ''0 * * * *'' ''UTC'']\<rparr>"

text \<open>The database and the pipeline that creating \<open>sampleRequest\<close> yields.\<close>

definition samplePipelineRow :: pipeline_row where
  "samplePipelineRow =
     \<lparr>pl_id = ''g0'', pl_ownerUserId = ''u1'', pl_contractVersion = ''v1'', pl_name = ''Load'',
      pl_state = Draft, pl_createdAt = 0, pl_updatedAt = 0\<rparr>"

definition sampleDb :: database where
  "sampleDb = emptyDb
     \<lparr>db_pipelines := [samplePipelineRow],
      db_components := map (componentRow ''g0'') [sampleSourceStep, sampleExportStep],
      db_edges := [edgeRow ''g0'' sampleEdge],
      db_triggers := [\<lparr>tg_id = ''g1'', tg_pipelineId = ''g0'', tg_type = TriggerSchedule,
        tg_enabled = True, tg_cron = Some ''0 * * * *'', tg_timezone = Some ''UTC'',
        tg_nextRunAt = None, tg_lastClaimedAt = None, tg_createdAt = 0, tg_updatedAt = 0\<rparr>],
      db_uuids := 2\<rparr>"

definition samplePersisted :: Pipeline where
  "samplePersisted =
     \<lparr>p_contractVersion = ''v1'', p_id = ''g0'', p_ownerUserId = ''u1'', p_name = ''Load'',
      p_state = Draft, p_createdAt = ''1970-01-01T00:00:00.000Z'',
      p_updatedAt = ''1970-01-01T00:00:00.000Z'', p_steps = [sampleSourceStep, sampleExportStep],
      p_edges = [sampleEdge],
      p_triggers = [ScheduleTrigger ''g1'' ''g0'' True ''0 * * * *'' ''UTC'']\<rparr>"

lemma emptyDb_inv: "repository_inv zf emptyDb"
  by (simp add: repository_inv_def db_wf_defs emptyDb_def sampleUser_def graphs_ok_def nullable_def
      activeRunKeys_def)

lemma emptyDb_wf: "db_wf emptyDb"
  using emptyDb_inv by (simp add: repository_inv_def)

lemma sampleZf_uuid_text: "uuid_text sampleZf"
  by (simp add: uuid_text_def sampleZf_def)

lemma sampleCreated_eq:
  "createPipeline sampleZf sampleGen 0 ''u1'' sampleRequest emptyDb = Return (sampleDb, samplePersisted)"
  by code_simp

lemma sampleDb_wf: "db_wf sampleDb"
  by (rule createPipeline_wf [OF emptyDb_wf sampleCreated_eq])

lemma samplePersisted_id: "p_id samplePersisted = ''g0''"
  by (simp add: samplePersisted_def)

definition sampleRename :: PipelineUpdateRequest where
  "sampleRename =
     \<lparr>ur_edges = None, ur_name = Some ''Renamed'', ur_state = None, ur_steps = None,
      ur_triggers = None\<rparr>"

text \<open>A successful result that carries a value.\<close>

definition returnsSome :: "('e, 'd \<times> 'a option) result \<Rightarrow> bool" where
  "returnsSome m = (case m of Inl _ \<Rightarrow> False | Inr (d, x) \<Rightarrow> x \<noteq> None)"

lemma returnsSomeE: "returnsSome m \<Longrightarrow> \<exists>d x. m = Return (d, Some x)"
  by (auto simp: returnsSome_def split: sum.splits prod.splits)

lemma sampleRename_ok:
  "\<exists>db p. updatePipeline sampleZf sampleGen 5 6 ''u1'' ''g0'' sampleRename sampleDb = Return (db, Some p)"
proof -
  let ?row = "samplePipelineRow\<lparr>pl_name := ''Renamed'', pl_state := Draft, pl_updatedAt := 6\<rparr>"
  let ?db = "sampleDb\<lparr>db_pipelines := [?row]\<rparr>"
  let ?request = "mergeUpdate samplePersisted sampleRename"
  have tables: "db_pipelines sampleDb = [samplePipelineRow]" "findLockingRun sampleDb ''g0'' = None"
    "pl_id samplePipelineRow = ''g0''" "pl_ownerUserId samplePipelineRow = ''u1''"
    "pl_state samplePipelineRow = Draft"
    "cr_name ?request = ''Renamed''" "ur_state sampleRename = None"
    by (simp_all add: sampleDb_def samplePipelineRow_def findLockingRun_def emptyDb_def mergeUpdate_def
        sampleRename_def)
  have ok: "uuid_format sampleZf ''u1''" "uuid_format sampleZf ''g0''"
    "pipelineUpdateRequestSchema_ok sampleZf sampleRename" by code_simp+
  have read: "hydratePipeline sampleZf (readPipelineGraph sampleDb samplePipelineRow) = Return samplePersisted"
    by code_simp
  have valid: "validatePipelineGraph ?request = Return ()" by code_simp
  have rep: "replaceGraphRecords sampleGen 5 ?row ?request sampleRename ?db =
      Return (?db, readPipelineGraph ?db ?row)"
    by (simp add: replaceGraphRecords_def sampleRename_def readPipelineGraph_def)
  have "\<not> isl (hydratePipeline sampleZf (readPipelineGraph ?db ?row))" by code_simp
  then obtain p where "hydratePipeline sampleZf (readPipelineGraph ?db ?row) = Return p"
    by (cases "hydratePipeline sampleZf (readPipelineGraph ?db ?row)") simp_all
  with rep show ?thesis
    by (simp add: updatePipeline_def updatePipelineInTransaction_def ok tables read valid Let_def
        setPipelineState_def assertPipelineEditable_def isPipelineEditable_def
        createPipelineExecutionState_def update_where_def)
qed

lemma sampleDuplicate_ok:
  "\<exists>db p. duplicatePipeline sampleZf sampleGen (\<lambda>n. ''c'' @ js_decimal n) 5 ''u1'' ''g0'' None sampleDb = Return (db, Some p)"
  by (rule returnsSomeE) code_simp

text \<open>Every row that names a pipeline, directly or by a component, belongs to a run of it.\<close>

definition run_rows_consistent :: "database \<Rightarrow> bool" where
  "run_rows_consistent db \<longleftrightarrow>
     (\<forall>s\<in>set (db_runSteps db). \<forall>c\<in>set (db_components db). rs_componentId s = pc_id c \<longrightarrow>
        pc_pipelineId c \<in> rn_pipelineId ` set (db_runs db)) \<and>
     (\<forall>j\<in>set (db_jobs db). \<forall>c\<in>set (db_components db). jb_componentId j = pc_id c \<longrightarrow>
        pc_pipelineId c \<in> rn_pipelineId ` set (db_runs db)) \<and>
     jb_pipelineId ` set (db_jobs db) \<subseteq> rn_pipelineId ` set (db_runs db) \<and>
     ev_pipelineId ` set (db_events db) \<subseteq> rn_pipelineId ` set (db_runs db) \<and>
     ds_pipelineId ` set (db_datasets db) \<subseteq> rn_pipelineId ` set (db_runs db) \<and>
     af_pipelineId ` set (db_artifacts db) \<subseteq> rn_pipelineId ` set (db_runs db)"

lemma disjoint_singleton_mono: "A \<subseteq> B \<Longrightarrow> G \<subseteq> {x} \<Longrightarrow> x \<notin> B \<Longrightarrow> A \<inter> G = {}"
  by blast

lemma unreferenced:
  assumes "\<forall>x\<in>A. \<forall>c\<in>C. f x = g c \<longrightarrow> h c \<in> R" and "\<And>k. k \<in> R \<Longrightarrow> k \<notin> gone"
  shows "f ` A \<inter> g ` {c \<in> C. h c \<in> gone} = {}"
  using assms by blast

lemma deleteComponents_unused:
  assumes "run_rows_consistent db" and "pid \<notin> rn_pipelineId ` set (db_runs db)" and "gone \<subseteq> {pid}"
  shows "\<exists>db'. deleteComponents (\<lambda>c. pc_pipelineId c \<in> gone) db = Return db'"
proof -
  have steps: "\<forall>s\<in>set (db_runSteps db). \<forall>c\<in>set (db_components db). rs_componentId s = pc_id c \<longrightarrow>
        pc_pipelineId c \<in> rn_pipelineId ` set (db_runs db)"
    and jobs: "\<forall>j\<in>set (db_jobs db). \<forall>c\<in>set (db_components db). jb_componentId j = pc_id c \<longrightarrow>
        pc_pipelineId c \<in> rn_pipelineId ` set (db_runs db)"
    using assms(1) by (simp_all add: run_rows_consistent_def)
  have keep: "x \<notin> gone" if "x \<in> rn_pipelineId ` set (db_runs db)" for x
    using that assms(2,3) by (metis singletonD subsetD)
  have "rs_componentId ` set (db_runSteps db) \<inter>
      pc_id ` {c \<in> set (db_components db). pc_pipelineId c \<in> gone} = {}"
    by (rule unreferenced [OF steps keep])
  moreover have "jb_componentId ` set (db_jobs db) \<inter>
      pc_id ` {c \<in> set (db_components db). pc_pipelineId c \<in> gone} = {}"
    by (rule unreferenced [OF jobs keep])
  ultimately show ?thesis by (simp add: deleteComponents_Return)
qed

lemma deletePipelines_unused:
  assumes "run_rows_consistent db" and "pid \<notin> rn_pipelineId ` set (db_runs db)"
    and "\<And>p. P p \<Longrightarrow> pl_id p = pid"
  shows "\<exists>db'. deletePipelines P db = Return db'"
proof -
  let ?gone = "pl_id ` {p \<in> set (db_pipelines db). P p}"
  have gone: "?gone \<subseteq> {pid}" using assms(3) by auto
  obtain db1 where "deleteComponents (\<lambda>c. pc_pipelineId c \<in> ?gone) db = Return db1"
    using deleteComponents_unused [OF assms(1,2) gone] by blast
  moreover have "rn_pipelineId ` set (db_runs db) \<inter> ?gone = {}"
    by (rule disjoint_singleton_mono [OF _ gone assms(2)]) simp
  moreover have "jb_pipelineId ` set (db_jobs db) \<inter> ?gone = {}"
    "ev_pipelineId ` set (db_events db) \<inter> ?gone = {}"
    "ds_pipelineId ` set (db_datasets db) \<inter> ?gone = {}"
    "af_pipelineId ` set (db_artifacts db) \<inter> ?gone = {}"
    using assms(1) unfolding run_rows_consistent_def
    by (auto intro!: disjoint_singleton_mono [OF _ gone assms(2)])
  ultimately show ?thesis unfolding deletePipelines_Return Let_def by (intro exI conjI) (assumption | rule refl)+
qed

text \<open>A database in which a run of the sample pipeline is queued with its first step.\<close>

definition sampleRunRow :: run_row where
  "sampleRunRow =
     \<lparr>rn_id = ''r1'', rn_pipelineId = ''g0'', rn_triggerId = None, rn_contractVersion = ''v1'',
      rn_state = RunQueued, rn_isActive = True, rn_scheduledFor = None, rn_createdAt = 0,
      rn_expiresAt = 100, rn_startedAt = None, rn_completedAt = None,
      rn_cancellationRequestedAt = None, rn_cancellationRequestedByUserId = None,
      rn_warningCount = 0\<rparr>"

definition sampleRunStepRow :: run_step_row where
  "sampleRunStepRow =
     \<lparr>rs_id = ''rs1'', rs_runId = ''r1'', rs_componentId = ''s1'', rs_state = RunQueued,
      rs_startedAt = None, rs_completedAt = None, rs_warningCount = 0, rs_metrics = JObj [],
      rs_error = None\<rparr>"

definition sampleRunDb :: database where
  "sampleRunDb = sampleDb\<lparr>db_runs := [sampleRunRow], db_runSteps := [sampleRunStepRow]\<rparr>"

lemma map_res_cong: "(\<And>x. x \<in> set xs \<Longrightarrow> f x = g x) \<Longrightarrow> map_res f xs = map_res g xs"
  by (induction xs) auto

lemma map_res_after:
  "bind_res (map_res (\<lambda>x. bind_res (f x) (\<lambda>y. Return (Some y))) xs) (\<lambda>ys. Return (map the ys)) = map_res f xs"
proof (induction xs)
  case Nil
  then show ?case by simp
next
  case (Cons x xs)
  from Cons [symmetric] show ?case
    by (cases "f x"; cases "map_res (\<lambda>x. bind_res (f x) (\<lambda>y. Return (Some y))) xs") simp_all
qed

lemma find_owned_row:
  assumes "db_wf db" and "row \<in> set (db_pipelines db)" and "pl_ownerUserId row = owner"
  shows "find (andOwnerAndPipelineId owner (pl_id row)) (db_pipelines db) = Some row"
proof (cases "find (andOwnerAndPipelineId owner (pl_id row)) (db_pipelines db)")
  case None
  with assms show ?thesis by (auto simp: find_None_iff andOwnerAndPipelineId_def)
next
  case (Some r)
  from find_owner_mem [OF Some] unique_pipeline_row [OF assms(1) _ assms(2), of r] Some show ?thesis by simp
qed

lemma listPipelines_by_reads:
  assumes "db_wf db"
  shows "listPipelinesByOwner zf db owner =
    bind_res (map_res (\<lambda>row. getPipeline zf db owner (pl_id row))
      (sort_key (\<lambda>p. (pl_createdAt p, pl_id p)) (filter (\<lambda>p. pl_ownerUserId p = owner) (db_pipelines db))))
    (\<lambda>ps. Return (map the ps))"
proof -
  let ?rows = "sort_key (\<lambda>p. (pl_createdAt p, pl_id p)) (filter (\<lambda>p. pl_ownerUserId p = owner) (db_pipelines db))"
  have "listPipelinesByOwner zf db owner = map_res (\<lambda>p. hydratePipeline zf (readPipelineGraph db p)) ?rows"
    unfolding listPipelinesByOwner_def Let_def
    by (auto intro!: map_res_cong arg_cong [of _ _ "hydratePipeline zf"]
        simp: readPipelineGraph_def) (auto intro!: filter_cong)
  also have "\<dots> = bind_res (map_res (\<lambda>row. getPipeline zf db owner (pl_id row)) ?rows) (\<lambda>ps. Return (map the ps))"
    unfolding map_res_after [symmetric, of "\<lambda>p. hydratePipeline zf (readPipelineGraph db p)"]
    by (intro arg_cong [of _ _ "\<lambda>m. bind_res m _"] map_res_cong)
      (auto simp: getPipeline_def find_owned_row [OF assms])
  finally show ?thesis .
qed

section \<open>Properties\<close>

text \<open>
  Along any sequence of creations, updates, deletions and duplications, accepted or
  rejected, the database keeps every declared constraint, and (identifiers being UUIDs) the graph
  stored for every pipeline stays a valid Source-to-Export graph.
\<close>

theorem repository_keeps_invariant:
  assumes "repository_inv zf db"
  shows "repository_inv zf (run_steps (repository_step zf gen) db ops)"
  by (rule repo.run_inv [OF assms])

theorem repository_keeps_invariant_witness:
  "repository_inv sampleZf emptyDb \<and>
   repository_inv sampleZf (run_steps (repository_step sampleZf sampleGen) emptyDb
     [OpCreate ''u1'' 0 sampleRequest, OpDuplicate ''u1'' 1 ''g0'' None sampleGen,
      OpDelete ''u1'' ''g0''])"
  using repository_keeps_invariant [OF emptyDb_inv] emptyDb_inv by blast

text \<open>
  Whatever other users do, in any order, what an owner reads of any pipeline stays
  the same.
\<close>

theorem owners_are_isolated:
  assumes "repository_inv zf db" and "\<forall>x\<in>set ops. op_owner x \<noteq> owner"
  shows "getPipeline zf (run_steps (repository_step zf gen) db ops) owner pid = getPipeline zf db owner pid"
  using repo.run_isolated [OF assms(1), of ops owner gen] assms(2)
  by (simp add: readable_def fun_eq_iff)

theorem owners_are_isolated_witness:
  "getPipeline sampleZf (run_steps (repository_step sampleZf sampleGen) emptyDb
     [OpCreate ''u1'' 0 sampleRequest, OpDelete ''u1'' ''g0'']) ''u2'' ''g0'' =
   getPipeline sampleZf emptyDb ''u2'' ''g0''"
  by (rule owners_are_isolated [OF emptyDb_inv]) simp

text \<open>
  A created pipeline is read back by its owner exactly as it was returned: a draft with
  the requested name, steps, edges and triggers. No one else can read it and every other pipeline
  is unaffected.
\<close>

theorem create_then_get:
  assumes "db_wf db" and "createPipeline zf gen now owner r db = Return (db', p)"
  shows "getPipeline zf db' owner (p_id p) = Return (Some p) \<and>
    p_state p = Draft \<and> p_ownerUserId p = owner \<and> p_name p = cr_name r \<and> p_steps p = cr_steps r \<and>
    p_edges p = cr_edges r \<and> map toWritableTrigger (p_triggers p) = cr_triggers r \<and>
    (\<forall>o' q. o' \<noteq> owner \<or> q \<noteq> p_id p \<longrightarrow> getPipeline zf db' o' q = getPipeline zf db o' q)"
  using createPipeline_tables(4-9) [OF assms] createPipeline_reads [OF assms]
    created_was_unreadable [OF assms] by auto

theorem create_then_get_witness:
  "getPipeline sampleZf sampleDb ''u1'' ''g0'' = Return (Some samplePersisted) \<and>
   p_steps samplePersisted = [sampleSourceStep, sampleExportStep]"
  using create_then_get [OF emptyDb_wf sampleCreated_eq]
  by (simp add: samplePersisted_id sampleRequest_def)

text \<open>
  An accepted update replaces exactly the fields it names. The pipeline read
  afterwards is the one returned; steps, edges, name, state and triggers that the request omits,
  secret bindings included, are those of the pipeline before; other pipelines are unaffected.
\<close>

theorem update_then_get:
  assumes "db_wf db" and "updatePipeline zf gen dbNow now owner pid u db = Return (db', Some p)"
  shows "\<exists>existing. getPipeline zf db owner pid = Return (Some existing) \<and>
    getPipeline zf db' owner pid = Return (Some p) \<and>
    p_steps p = (case ur_steps u of None \<Rightarrow> p_steps existing | Some ss \<Rightarrow> ss) \<and>
    p_edges p = (case ur_edges u of None \<Rightarrow> p_edges existing | Some es \<Rightarrow> es) \<and>
    p_name p = (case ur_name u of None \<Rightarrow> p_name existing | Some n \<Rightarrow> n) \<and>
    p_state p = (case ur_state u of None \<Rightarrow> p_state existing | Some st \<Rightarrow> st) \<and>
    (ur_triggers u = None \<longrightarrow> p_triggers p = p_triggers existing) \<and>
    (\<forall>o' q. q \<noteq> pid \<longrightarrow> getPipeline zf db' o' q = getPipeline zf db o' q)"
proof -
  note t = updatePipeline_tables [OF assms(2)]
  have "\<forall>o' q. q \<noteq> pid \<longrightarrow> getPipeline zf db' o' q = getPipeline zf db o' q"
    using getPipeline_agree [OF t(1)] t(7) by blast
  with t(2,3) show ?thesis by (fastforce simp: mergeUpdate_def)
qed

theorem update_then_get_witness:
  "\<exists>db p. updatePipeline sampleZf sampleGen 5 6 ''u1'' ''g0'' sampleRename sampleDb = Return (db, Some p) \<and>
    getPipeline sampleZf db ''u1'' ''g0'' = Return (Some p) \<and> p_name p = ''Renamed''"
proof -
  from sampleRename_ok obtain db p where
    eq: "updatePipeline sampleZf sampleGen 5 6 ''u1'' ''g0'' sampleRename sampleDb = Return (db, Some p)"
    by blast
  from update_then_get [OF sampleDb_wf eq] eq show ?thesis by (auto simp: sampleRename_def)
qed

text \<open>
  While a run of the pipeline is queued or running, an update is never applied. A
  malformed request is rejected first, then an unknown or foreign pipeline yields nothing, and an
  owned one throws the lock error of the state machine.
\<close>

theorem running_pipelines_cannot_be_updated:
  assumes "r \<in> set (db_runs db)" and "rn_pipelineId r = pid" and "activeState (rn_state r)"
  shows "updatePipeline zf gen dbNow now owner pid u db =
    (if \<not> (uuid_format zf owner \<and> uuid_format zf pid \<and> pipelineUpdateRequestSchema_ok zf u)
     then Throw ContractError
     else if \<exists>p\<in>set (db_pipelines db). pl_id p = pid \<and> pl_ownerUserId p = owner
     then Throw (TransitionRejected (PipelineStateTransitionError
       ''Pipeline configuration is locked while a run is queued or active.''))
     else Return (db, None))"
proof -
  have "find (\<lambda>r. rn_pipelineId r = pid \<and> activeState (rn_state r)) (db_runs db) \<noteq> None"
    using assms by (auto simp: find_None_iff)
  then obtain a where a: "findLockingRun db pid = Some a" by (auto simp: findLockingRun_def)
  show ?thesis
  proof (cases "find (\<lambda>p. pl_id p = pid \<and> pl_ownerUserId p = owner) (db_pipelines db)")
    case None
    moreover from None have "\<not> (\<exists>p\<in>set (db_pipelines db). pl_id p = pid \<and> pl_ownerUserId p = owner)"
      by (auto simp: find_None_iff)
    ultimately show ?thesis
      by (auto simp: updatePipeline_def updatePipelineInTransaction_def throw_if_def)
  next
    case (Some row)
    then have "\<exists>p\<in>set (db_pipelines db). pl_id p = pid \<and> pl_ownerUserId p = owner"
      by (auto simp: find_Some_iff)
    with Some a show ?thesis
      by (simp add: updatePipeline_def updatePipelineInTransaction_def throw_if_def Let_def
          setPipelineState_def assertPipelineEditable_def isPipelineEditable_def)
  qed
qed

text \<open>
  Once a run step of the pipeline exists, its steps can no longer be replaced: the
  update deletes the components first and \<open>run_steps.component_id\<close> restricts that deletion.
\<close>

theorem steps_cannot_be_replaced_after_a_run:
  assumes "s \<in> set (db_runSteps db)" and "c \<in> set (db_components db)"
    and "rs_componentId s = pc_id c" and "pc_pipelineId c = pid" and "ur_steps u \<noteq> None"
  shows "updatePipeline zf gen dbNow now owner pid u db \<noteq> Return (db', Some p)"
proof
  assume "updatePipeline zf gen dbNow now owner pid u db = Return (db', Some p)"
  then obtain row existing g where
    row: "find (andOwnerAndPipelineId owner pid) (db_pipelines db) = Some row" and
    rep: "replaceGraphRecords gen dbNow (row\<lparr>pl_name := cr_name (mergeUpdate existing u),
        pl_state := (case ur_state u of None \<Rightarrow> pl_state row | Some s \<Rightarrow> s), pl_updatedAt := now\<rparr>)
      (mergeUpdate existing u) u
      (db\<lparr>db_pipelines := update_where (\<lambda>p. pl_id p = pid)
         (\<lambda>p. p\<lparr>pl_name := cr_name (mergeUpdate existing u),
            pl_state := (case ur_state u of None \<Rightarrow> pl_state row | Some s \<Rightarrow> s), pl_updatedAt := now\<rparr>)
         (db_pipelines db)\<rparr>) = Return (db', g)"
    by (rule updatePipeline_Return)
  from find_owner_mem [OF row] have "pl_id row = pid" by simp
  with rep assms(5) have "rs_componentId ` set (db_runSteps db) \<inter>
      pc_id ` {c \<in> set (db_components db). pc_pipelineId c = pid} = {}"
    by (auto simp: replaceGraphRecords_def replaceComponents_def Let_def bind_res_pair_Return_iff
        bind_res_Return_iff deleteComponents_Return deleteEdges_def)
  with assms(1-4) show False by (auto simp: image_iff)
qed

text \<open>
  Deletion on every branch. A pipeline that the owner does not have is not an error;
  a queued or running run locks it; any finished run keeps it; otherwise it is deleted, its steps,
  edges and triggers with it, and every other pipeline reads as before.
\<close>

theorem deletePipeline_correct:
  assumes "db_wf db" and "run_rows_consistent db"
  shows "if \<not> (\<exists>p\<in>set (db_pipelines db). pl_id p = pid \<and> pl_ownerUserId p = owner)
      then deletePipeline owner pid db = Return (db, False)
    else if \<exists>r\<in>set (db_runs db). rn_pipelineId r = pid \<and> activeState (rn_state r)
      then deletePipeline owner pid db = Throw PipelineDeletionLockedError
    else if \<exists>r\<in>set (db_runs db). rn_pipelineId r = pid
      then deletePipeline owner pid db = Throw PipelineDeletionHasRunHistoryError
    else \<exists>db'. deletePipeline owner pid db = Return (db', True) \<and>
      pid \<notin> pl_id ` set (db_pipelines db') \<and>
      storedSteps db' pid = [] \<and> storedEdges db' pid = [] \<and> triggersOf db' pid = [] \<and>
      (\<forall>o' q. q \<noteq> pid \<longrightarrow> getPipeline zf db' o' q = getPipeline zf db o' q)"
proof (cases "find (andOwnerAndPipelineId owner pid) (db_pipelines db)")
  case None
  then have "deletePipeline owner pid db = Return (db, False)"
    by (simp add: deletePipeline_def find_commute_owner)
  with None show ?thesis by (auto simp: find_None_iff andOwnerAndPipelineId_def)
next
  case (Some row)
  note row = find_owner_mem [OF Some]
  let ?busy = "\<lambda>r. rn_pipelineId r = pid \<and> activeState (rn_state r)"
  have owned: "\<exists>p\<in>set (db_pipelines db). pl_id p = pid \<and> pl_ownerUserId p = owner"
    using row by auto
  consider (busy) "\<exists>r\<in>set (db_runs db). ?busy r"
    | (history) "\<not> (\<exists>r\<in>set (db_runs db). ?busy r)" "\<exists>r\<in>set (db_runs db). rn_pipelineId r = pid"
    | (free) "pid \<notin> rn_pipelineId ` set (db_runs db)"
    by auto
  then show ?thesis
  proof cases
    case busy
    then obtain r where r: "find ?busy (db_runs db) = Some r"
      by (cases "find ?busy (db_runs db)") (auto simp: find_None_iff)
    then have "activeState (rn_state r)" by (auto simp: find_Some_iff)
    then have "deletePipeline owner pid db = Throw PipelineDeletionLockedError"
      using r row Some by (auto simp: deletePipeline_def find_commute_owner deletionExecutionState_def
          toActivePipelineRun_def isPipelineEditable_def activeState_def)
    with busy owned show ?thesis by simp
  next
    case history
    then have "find ?busy (db_runs db) = None" "find (\<lambda>r. rn_pipelineId r = pid) (db_runs db) \<noteq> None"
      by (auto simp: find_None_iff)
    then have "deletePipeline owner pid db = Throw PipelineDeletionHasRunHistoryError"
      using row Some by (auto simp: deletePipeline_def find_commute_owner deletionExecutionState_def
          isPipelineEditable_def)
    with history owned show ?thesis by simp
  next
    case free
    then have none: "find ?busy (db_runs db) = None" "find (\<lambda>r. rn_pipelineId r = pid) (db_runs db) = None"
      by (auto simp: find_None_iff)
    obtain db' where "deletePipelines (\<lambda>p. pl_id p = pid \<and> pl_ownerUserId p = owner) db = Return db'"
      using deletePipelines_unused [OF assms(2) free, of "\<lambda>p. pl_id p = pid \<and> pl_ownerUserId p = owner"]
      by auto
    then obtain b where del: "deletePipeline owner pid db = Return (db', b)"
      using none row Some by (auto simp: deletePipeline_def find_commute_owner deletionExecutionState_def
          isPipelineEditable_def Let_def)
    note t = deletePipeline_tables [OF assms(1) del]
    have gone: "pid \<notin> pl_id ` set (db_pipelines db')"
    proof
      assume "pid \<in> pl_id ` set (db_pipelines db')"
      then obtain p where "p \<in> set (db_pipelines db)" "pl_id p = pid" "pl_ownerUserId p \<noteq> owner"
        unfolding t(4) by (auto simp: andOwnerAndPipelineId_def)
      with unique_pipeline_row [OF assms(1), of p row] row show False by simp
    qed
    have "db_wf db'" by (rule deletePipeline_wf [OF assms(1) del])
    from no_rows_of_absent_pipeline [OF this gone] have
      "storedSteps db' pid = []" "storedEdges db' pid = []" "triggersOf db' pid = []"
      by (simp_all add: storedSteps_def storedEdges_def)
    moreover have "\<forall>o' q. q \<noteq> pid \<longrightarrow> getPipeline zf db' o' q = getPipeline zf db o' q"
      using deletePipeline_reads [OF assms(1) del] by simp
    moreover have "deletePipeline owner pid db = Return (db', True)" using del t(2) Some by simp
    moreover have unused: "\<not> (\<exists>r\<in>set (db_runs db). rn_pipelineId r = pid)" using free by auto
    then have idle: "\<not> (\<exists>r\<in>set (db_runs db). ?busy r)" by blast
    ultimately have "\<exists>db'. deletePipeline owner pid db = Return (db', True) \<and>
        pid \<notin> pl_id ` set (db_pipelines db') \<and>
        storedSteps db' pid = [] \<and> storedEdges db' pid = [] \<and> triggersOf db' pid = [] \<and>
        (\<forall>o' q. q \<noteq> pid \<longrightarrow> getPipeline zf db' o' q = getPipeline zf db o' q)"
      using gone by (intro exI [of _ db'] conjI)
    then show ?thesis
      by (simp only: owned unused idle not_True_eq_False if_True if_False)
  qed
qed

theorem deletePipeline_correct_witness:
  "\<exists>db'. deletePipeline ''u1'' ''g0'' sampleDb = Return (db', True) \<and> storedSteps db' ''g0'' = []"
proof -
  have "run_rows_consistent sampleDb"
    by (simp add: run_rows_consistent_def sampleDb_def emptyDb_def)
  from deletePipeline_correct [OF sampleDb_wf this, of "''g0''" "''u1''" sampleZf]
  show ?thesis by (auto simp: sampleDb_def emptyDb_def samplePipelineRow_def)
qed

theorem running_pipelines_cannot_be_updated_witness:
  "updatePipeline sampleZf sampleGen 5 6 ''u1'' ''g0'' sampleRename sampleRunDb =
    Throw (TransitionRejected (PipelineStateTransitionError
       ''Pipeline configuration is locked while a run is queued or active.''))"
  using running_pipelines_cannot_be_updated [of sampleRunRow sampleRunDb "''g0''" sampleZf sampleGen 5 6
      "''u1''" sampleRename]
  by (simp add: sampleRunDb_def sampleRunRow_def activeState_def sampleZf_def sampleRename_def
      pipelineUpdateRequestSchema_ok_def sampleDb_def samplePipelineRow_def)

theorem steps_cannot_be_replaced_after_a_run_witness:
  "\<forall>db' p. updatePipeline sampleZf sampleGen 5 6 ''u1'' ''g0''
     (sampleRename\<lparr>ur_steps := Some [sampleSourceStep, sampleExportStep]\<rparr>) sampleRunDb \<noteq>
     Return (db', Some p)"
proof (intro allI)
  fix db' p
  show "updatePipeline sampleZf sampleGen 5 6 ''u1'' ''g0''
     (sampleRename\<lparr>ur_steps := Some [sampleSourceStep, sampleExportStep]\<rparr>) sampleRunDb \<noteq>
     Return (db', Some p)"
    by (rule steps_cannot_be_replaced_after_a_run
        [of sampleRunStepRow _ "componentRow ''g0'' sampleSourceStep"])
      (simp_all add: sampleRunDb_def sampleDb_def sampleRunStepRow_def componentRow_def sample_defs)
qed

text \<open>
  A duplicate is a draft of the same shape. There is an injective renaming of the step
  identifiers under which its steps (without secret bindings) and edges are those of the source;
  every trigger is disabled; the new pipeline and the unchanged source are both readable.
\<close>

theorem duplicate_is_disabled_copy:
  assumes "db_wf db" and "duplicatePipeline zf gen ids now owner pid name db = Return (db', Some p)"
  shows "\<exists>source f. getPipeline zf db owner pid = Return (Some source) \<and>
    p_steps p = map (\<lambda>s. (withoutSecrets s)\<lparr>ps_id := f (ps_id s)\<rparr>) (p_steps source) \<and>
    p_edges p = map (renameEdge f) (p_edges source) \<and>
    inj_on f (ps_id ` set (p_steps source)) \<and>
    p_name p = (case name of None \<Rightarrow> p_name source | Some n \<Rightarrow> n) \<and>
    p_state p = Draft \<and> (\<forall>t\<in>set (p_triggers p). \<not> tr_enabled t) \<and>
    length (p_triggers p) = length (p_triggers source) \<and>
    getPipeline zf db' owner (p_id p) = Return (Some p) \<and>
    getPipeline zf db' owner pid = Return (Some source)"
  by (rule duplicate_of_source [OF assms])

theorem duplicate_is_disabled_copy_witness:
  "\<exists>db p. duplicatePipeline sampleZf sampleGen (\<lambda>n. ''c'' @ js_decimal n) 5 ''u1'' ''g0'' None sampleDb =
      Return (db, Some p) \<and> p_state p = Draft \<and>
    getPipeline sampleZf db ''u1'' (p_id p) = Return (Some p)"
proof -
  from sampleDuplicate_ok obtain db p where
    eq: "duplicatePipeline sampleZf sampleGen (\<lambda>n. ''c'' @ js_decimal n) 5 ''u1'' ''g0'' None sampleDb =
      Return (db, Some p)" by blast
  from duplicate_is_disabled_copy [OF sampleDb_wf eq] eq show ?thesis by blast
qed

text \<open>
  Property C30: the batched list of an owner's pipelines returns what reading them one by one
  returns, oldest first, and fails exactly when one of these reads fails.
\<close>

theorem list_is_get_of_each:
  assumes "db_wf db"
  shows "listPipelinesByOwner zf db owner =
    bind_res (map_res (\<lambda>row. getPipeline zf db owner (pl_id row))
      (sort_key (\<lambda>p. (pl_createdAt p, pl_id p)) (filter (\<lambda>p. pl_ownerUserId p = owner) (db_pipelines db))))
    (\<lambda>ps. Return (map the ps))"
  using assms by (rule listPipelines_by_reads)

theorem list_is_get_of_each_witness:
  "listPipelinesByOwner sampleZf sampleDb ''u1'' = Return [samplePersisted]"
proof -
  have "getPipeline sampleZf sampleDb ''u1'' ''g0'' = Return (Some samplePersisted)" by code_simp
  with list_is_get_of_each [OF sampleDb_wf, of sampleZf "''u1''"] show ?thesis
    by (simp add: sampleDb_def samplePipelineRow_def)
qed

end
