(* ===== verification/Job_Queue.thy ===== *)
theory Job_Queue
  imports Run_Queue Repository_Correctness
begin

text \<open>
  \<open>packages/database/src/queue.ts\<close>: a worker claims the next eligible job in a transaction that
  first locks a candidate, skipping the rows that other transactions have locked, and then marks it
  as running. \<open>claimNextJob\<close> is the transaction against the rows locked by others; the step
  relation below interleaves the transactions of any number of workers.
\<close>

section \<open>Claiming a job\<close>

definition claimable :: "time \<Rightarrow> job_row \<Rightarrow> bool" where
  "claimable now j \<longleftrightarrow> jb_state j = JobQueued \<and> jb_availableAt j \<le> now"

text \<open>\<open>ORDER BY available_at, created_at LIMIT 1 FOR UPDATE SKIP LOCKED\<close>.\<close>

definition lockCandidate :: "(string \<Rightarrow> bool) \<Rightarrow> time \<Rightarrow> database \<Rightarrow> string option" where
  "lockCandidate locked now db =
     map_option jb_id (first_by (\<lambda>j. (jb_availableAt j, jb_createdAt j))
       (filter (\<lambda>j. claimable now j \<and> \<not> locked (jb_id j)) (db_jobs db)))"

definition claimJob :: "string \<Rightarrow> time \<Rightarrow> job_row \<Rightarrow> job_row" where
  "claimJob workerId now j =
     j\<lparr>jb_state := JobRunning, jb_workerId := Some workerId, jb_claimedAt := Some now,
       jb_heartbeatAt := Some now, jb_attempt := jb_attempt j + 1\<rparr>"

definition updateCandidate ::
  "string \<Rightarrow> time \<Rightarrow> string \<Rightarrow> database \<Rightarrow> (db_error, database \<times> job_row option) result" where
  "updateCandidate workerId now candidate db =
     (let hit = (\<lambda>j. jb_id j = candidate \<and> jb_state j = JobQueued) in
      bind_res (throw_if (\<not> list_all (\<lambda>j. hit j \<longrightarrow> int4 (jb_attempt j + 1)) (db_jobs db))
        (CheckViolation ''integer out of range'')) (\<lambda>_.
      Return (db\<lparr>db_jobs := update_where hit (claimJob workerId now) (db_jobs db)\<rparr>,
        map_option (claimJob workerId now) (find hit (db_jobs db)))))"

definition claimNextJob ::
  "(string \<Rightarrow> bool) \<Rightarrow> string \<Rightarrow> time \<Rightarrow> database \<Rightarrow> (db_error, database \<times> job_row option) result" where
  "claimNextJob locked workerId now db =
     (case lockCandidate locked now db of
        None \<Rightarrow> Return (db, None)
      | Some candidate \<Rightarrow> updateCandidate workerId now candidate db)"

section \<open>Concurrent workers\<close>

text \<open>
  A worker is between its two statements while it holds the lock on its candidate. Its transaction
  ends with a commit or an abort; both release the lock.
\<close>

record worker_state =
  wk_db :: database
  wk_holds :: "(string \<times> string) list"
  wk_claims :: "(string \<times> string) list"

definition lockedJobs :: "worker_state \<Rightarrow> string \<Rightarrow> bool" where
  "lockedJobs s i \<longleftrightarrow> i \<in> snd ` set (wk_holds s)"

inductive worker_step :: "worker_state \<Rightarrow> worker_state \<Rightarrow> bool" where
  lock: "w \<notin> fst ` set (wk_holds s) \<Longrightarrow> lockCandidate (lockedJobs s) now (wk_db s) = Some i \<Longrightarrow>
    worker_step s (s\<lparr>wk_holds := (w, i) # wk_holds s\<rparr>)"
| commit: "(w, i) \<in> set (wk_holds s) \<Longrightarrow> updateCandidate w now i (wk_db s) = Return (db, Some j) \<Longrightarrow>
    worker_step s (s\<lparr>wk_db := db, wk_holds := removeAll (w, i) (wk_holds s), wk_claims := (i, w) # wk_claims s\<rparr>)"
| abort: "(w, i) \<in> set (wk_holds s) \<Longrightarrow>
    worker_step s (s\<lparr>wk_holds := removeAll (w, i) (wk_holds s)\<rparr>)"

inductive_cases worker_stepE: "worker_step s s'"

definition queuedJobs :: "database \<Rightarrow> string set" where
  "queuedJobs db = jb_id ` {j \<in> set (db_jobs db). jb_state j = JobQueued}"

text \<open>
  No two workers hold the same job, a held job is still queued, and a job that was claimed is not
  queued any more, so it cannot be claimed again.
\<close>

definition claims_ok :: "worker_state \<Rightarrow> bool" where
  "claims_ok s \<longleftrightarrow> distinct (map jb_id (db_jobs (wk_db s))) \<and> distinct (map snd (wk_holds s)) \<and>
     snd ` set (wk_holds s) \<subseteq> queuedJobs (wk_db s) \<and>
     distinct (map fst (wk_claims s)) \<and> fst ` set (wk_claims s) \<inter> queuedJobs (wk_db s) = {}"

section \<open>Lemmas\<close>

lemma first_by_least:
  assumes "first_by key xs = Some x"
  shows "x \<in> set xs" and "\<forall>y\<in>set xs. key x \<le> key y"
proof -
  from assms obtain ys where ys: "sort_key key xs = x # ys" by (auto simp: first_by_def split: list.splits)
  then have "set xs = set (x # ys)" by (metis set_sort)
  moreover have "sorted (map key (x # ys))" using ys by (metis sorted_sort_key)
  ultimately show "x \<in> set xs" "\<forall>y\<in>set xs. key x \<le> key y" by auto
qed

lemma first_by_None: "first_by key xs = None \<longleftrightarrow> xs = []"
proof -
  have "sort_key key xs = [] \<longleftrightarrow> xs = []" by (metis length_0_conv length_sort)
  then show ?thesis by (auto simp: first_by_def split: list.splits)
qed

lemma lockCandidate_Some:
  assumes "lockCandidate locked now db = Some i"
  shows "\<not> locked i" and "i \<in> queuedJobs db"
    and "\<exists>j\<in>set (db_jobs db). jb_id j = i \<and> claimable now j \<and>
      (\<forall>k\<in>set (db_jobs db). claimable now k \<and> \<not> locked (jb_id k) \<longrightarrow>
         (jb_availableAt j, jb_createdAt j) \<le> (jb_availableAt k, jb_createdAt k))"
proof -
  from assms obtain j where
    j: "first_by (\<lambda>j. (jb_availableAt j, jb_createdAt j))
       (filter (\<lambda>j. claimable now j \<and> \<not> locked (jb_id j)) (db_jobs db)) = Some j" "jb_id j = i"
    by (auto simp: lockCandidate_def)
  from first_by_least [OF j(1)] j(2) show "\<not> locked i"
    "\<exists>j\<in>set (db_jobs db). jb_id j = i \<and> claimable now j \<and>
      (\<forall>k\<in>set (db_jobs db). claimable now k \<and> \<not> locked (jb_id k) \<longrightarrow>
         (jb_availableAt j, jb_createdAt j) \<le> (jb_availableAt k, jb_createdAt k))"
    by auto
  then show "i \<in> queuedJobs db" by (auto simp: queuedJobs_def claimable_def)
qed

lemma claimJob_simps [simp]:
  "jb_id (claimJob w now j) = jb_id j" "jb_state (claimJob w now j) = JobRunning"
  "jb_pipelineId (claimJob w now j) = jb_pipelineId j" "jb_runId (claimJob w now j) = jb_runId j"
  "jb_runStepId (claimJob w now j) = jb_runStepId j" "jb_componentId (claimJob w now j) = jb_componentId j"
  by (simp_all add: claimJob_def)

lemma updateCandidate_Return:
  assumes "updateCandidate w now i db = Return (db', r)"
  shows "db' = db\<lparr>db_jobs := update_where (\<lambda>j. jb_id j = i \<and> jb_state j = JobQueued) (claimJob w now) (db_jobs db)\<rparr>"
    and "r = map_option (claimJob w now) (find (\<lambda>j. jb_id j = i \<and> jb_state j = JobQueued) (db_jobs db))"
  using assms by (auto simp: updateCandidate_def Let_def bind_res_Return_iff throw_if_iff)

lemma update_keeps_ids [simp]:
  "map jb_id (update_where P (claimJob w now) js) = map jb_id js"
  by (rule map_update_where) simp

lemma queuedJobs_update:
  assumes "updateCandidate w now i db = Return (db', r)"
  shows "queuedJobs db' = queuedJobs db - {i}"
proof -
  have "filter (\<lambda>j. jb_state j = JobQueued)
      (update_where (\<lambda>j. jb_id j = i \<and> jb_state j = JobQueued) (claimJob w now) js) =
    filter (\<lambda>j. jb_state j = JobQueued \<and> jb_id j \<noteq> i) js" for js
    by (induction js) (auto simp: update_where_def)
  then have "{j \<in> set (db_jobs db'). jb_state j = JobQueued} = {j \<in> set (db_jobs db). jb_state j = JobQueued \<and> jb_id j \<noteq> i}"
    unfolding updateCandidate_Return(1) [OF assms] by (simp add: set_filter [symmetric] del: set_filter)
  then show ?thesis by (auto simp: queuedJobs_def)
qed

lemma worker_step_ok: "worker_step s s' \<Longrightarrow> claims_ok s \<Longrightarrow> claims_ok s'"
proof (induction rule: worker_step.induct)
  case (lock w s now i)
  from lockCandidate_Some(1,2) [OF lock(2)] lock(3) show ?case
    by (auto simp: claims_ok_def lockedJobs_def)
next
  case (commit w i s now db j)
  have i: "i \<in> queuedJobs (wk_db s)" "i \<notin> fst ` set (wk_claims s)"
    using commit(1,3) by (force simp: claims_ok_def)+
  have "snd ` set (removeAll (w, i) (wk_holds s)) \<subseteq> queuedJobs (wk_db s) - {i}"
  proof -
    have "snd x \<noteq> i" if "x \<in> set (wk_holds s)" "x \<noteq> (w, i)" for x
    proof
      assume "snd x = i"
      moreover have "inj_on snd (set (wk_holds s))" using commit(3) by (simp add: claims_ok_def distinct_map)
      ultimately have "x = (w, i)" using that(1) commit(1) inj_onD [of snd "set (wk_holds s)" x "(w, i)"] by simp
      with that(2) show False ..
    qed
    then show ?thesis using commit(3) by (auto simp: claims_ok_def)
  qed
  moreover have "distinct (map snd (removeAll (w, i) (wk_holds s)))"
    using commit(3) by (simp add: claims_ok_def distinct_map_filter removeAll_filter_not_eq)
  moreover have "db_jobs db = update_where (\<lambda>j. jb_id j = i \<and> jb_state j = JobQueued) (claimJob w now) (db_jobs (wk_db s))"
    using updateCandidate_Return(1) [OF commit(2)] by simp
  ultimately show ?case
    using commit(3) i queuedJobs_update [OF commit(2)] by (auto simp: claims_ok_def)
next
  case (abort w i s)
  then show ?case by (auto simp: claims_ok_def distinct_map_filter removeAll_filter_not_eq)
qed

lemma workers_ok: "worker_step\<^sup>*\<^sup>* s s' \<Longrightarrow> claims_ok s \<Longrightarrow> claims_ok s'"
  by (induction rule: rtranclp_induct) (auto intro: worker_step_ok)

lemma find_unique_job:
  assumes "distinct (map jb_id js)" and "j \<in> set js" and "jb_state j = JobQueued"
  shows "find (\<lambda>k. jb_id k = jb_id j \<and> jb_state k = JobQueued) js = Some j"
  using assms
proof (induction js)
  case (Cons k js)
  then show ?case by (cases "k = j") (auto simp: image_iff)
qed simp

lemma claimNextJob_wf [db_preserves]:
  assumes "db_wf db" and "claimNextJob locked w now db = Return (db', r)"
  shows "db_wf db'"
proof (cases "lockCandidate locked now db")
  case None
  with assms show ?thesis by (simp add: claimNextJob_def)
next
  case (Some i)
  with assms(2) have "updateCandidate w now i db = Return (db', r)" by (simp add: claimNextJob_def)
  from updateCandidate_Return(1) [OF this] show ?thesis by (simp add: updateJobs_wf [OF assms(1)])
qed

definition sampleJobRow :: job_row where
  "sampleJobRow =
     \<lparr>jb_id = ''j1'', jb_pipelineId = ''g0'', jb_runId = ''r1'', jb_runStepId = ''rs1'', jb_componentId = ''s1'',
      jb_state = JobQueued, jb_availableAt = 0, jb_claimedAt = None, jb_heartbeatAt = None, jb_workerId = None,
      jb_attempt = 0, jb_retryMaxAttempts = 1, jb_retryDelaySeconds = 0, jb_createdAt = 0, jb_completedAt = None\<rparr>"

definition jobDb :: database where
  "jobDb = sampleRunDb\<lparr>db_jobs := [sampleJobRow]\<rparr>"

lemma jobDb_wf: "db_wf jobDb"
  by (simp add: db_wf_defs jobDb_def sampleJobRow_def sampleRunDb_def sampleRunRow_def sampleRunStepRow_def
      sampleDb_def emptyDb_def samplePipelineRow_def sampleUser_def componentRow_def edgeRow_def sample_defs
      nullable_def activeRunKeys_def edgeKeyOf_def edgeFromRef_def edgeToRef_def componentRef_def triggerFieldsCheck_def)

section \<open>Properties\<close>

text \<open>
  A claim takes the job that has been available longest among those that are queued,
  available and not locked by another transaction, and marks exactly that one as running for the
  worker with one more attempt; with no such job it changes nothing. It fails only when the attempt
  counter leaves the range of its column.
\<close>

theorem claimNextJob_correct:
  assumes "db_wf db"
  shows "case claimNextJob locked w now db of
      Inl _ \<Rightarrow> \<exists>j\<in>set (db_jobs db). claimable now j \<and> \<not> int4 (jb_attempt j + 1)
    | Inr (db', None) \<Rightarrow> db' = db \<and> (\<forall>j\<in>set (db_jobs db). claimable now j \<longrightarrow> locked (jb_id j))
    | Inr (db', Some c) \<Rightarrow> db_wf db' \<and> (\<exists>j\<in>set (db_jobs db). claimable now j \<and> \<not> locked (jb_id j) \<and>
        c = j\<lparr>jb_state := JobRunning, jb_workerId := Some w, jb_claimedAt := Some now,
          jb_heartbeatAt := Some now, jb_attempt := jb_attempt j + 1\<rparr> \<and>
        db' = db\<lparr>db_jobs := map (\<lambda>k. if jb_id k = jb_id j then c else k) (db_jobs db)\<rparr> \<and>
        (\<forall>k\<in>set (db_jobs db). claimable now k \<and> \<not> locked (jb_id k) \<longrightarrow>
           (jb_availableAt j, jb_createdAt j) \<le> (jb_availableAt k, jb_createdAt k)))"
proof (cases "lockCandidate locked now db")
  case None
  then have "claimNextJob locked w now db = Return (db, None)" by (simp add: claimNextJob_def)
  moreover have "\<forall>j\<in>set (db_jobs db). claimable now j \<longrightarrow> locked (jb_id j)"
    using None by (auto simp: lockCandidate_def first_by_None filter_empty_conv)
  ultimately show ?thesis by simp
next
  case (Some i)
  from lockCandidate_Some [OF this] obtain j where
    j: "j \<in> set (db_jobs db)" "jb_id j = i" "claimable now j" "\<not> locked i" and
    least: "\<forall>k\<in>set (db_jobs db). claimable now k \<and> \<not> locked (jb_id k) \<longrightarrow>
      (jb_availableAt j, jb_createdAt j) \<le> (jb_availableAt k, jb_createdAt k)" by blast
  have q: "jb_state j = JobQueued" using j(3) by (simp add: claimable_def)
  have ids: "distinct (map jb_id (db_jobs db))" using assms by (simp add: db_wf_def keys_ok_def)
  then have inj: "k = j" if "k \<in> set (db_jobs db)" "jb_id k = jb_id j" for k
    using that j(1) by (auto simp: distinct_map dest: inj_onD)
  have eq: "claimNextJob locked w now db = updateCandidate w now i db" using Some by (simp add: claimNextJob_def)
  show ?thesis
  proof (cases "int4 (jb_attempt j + 1)")
    case False
    then have "\<not> list_all (\<lambda>k. jb_id k = i \<and> jb_state k = JobQueued \<longrightarrow> int4 (jb_attempt k + 1)) (db_jobs db)"
      using j q by (auto simp: list_all_iff)
    then show ?thesis using False j by (auto simp: eq updateCandidate_def throw_if_def)
  next
    case True
    then have "list_all (\<lambda>k. jb_id k = i \<and> jb_state k = JobQueued \<longrightarrow> int4 (jb_attempt k + 1)) (db_jobs db)"
      using inj j(2) by (auto simp: list_all_iff)
    then have ret: "claimNextJob locked w now db =
        Return (db\<lparr>db_jobs := update_where (\<lambda>k. jb_id k = i \<and> jb_state k = JobQueued) (claimJob w now) (db_jobs db)\<rparr>,
          Some (claimJob w now j))"
      using find_unique_job [OF ids j(1) q] j(2) by (simp add: eq updateCandidate_def throw_if_def)
    have rows: "update_where (\<lambda>k. jb_id k = i \<and> jb_state k = JobQueued) (claimJob w now) (db_jobs db) =
        map (\<lambda>k. if jb_id k = jb_id j then claimJob w now j else k) (db_jobs db)"
      unfolding update_where_def using inj q j(2) by (intro map_cong) auto
    show ?thesis
      unfolding ret sum.case prod.case option.case
      by (intro conjI bexI [of _ j])
        (use claimNextJob_wf [OF assms ret] rows j least in \<open>simp_all add: claimJob_def [symmetric]\<close>)
  qed
qed

theorem claimNextJob_correct_witness:
  "\<exists>db' c. claimNextJob (\<lambda>_. False) ''w1'' 10 jobDb = Return (db', Some c) \<and> db_wf db' \<and> jb_attempt c = 1"
proof -
  have "case claimNextJob (\<lambda>_. False) ''w1'' 10 jobDb of Inr (db', Some c) \<Rightarrow> jb_attempt c = 1 | _ \<Rightarrow> False" by code_simp
  with claimNextJob_correct [OF jobDb_wf, where locked = "\<lambda>_. False" and w = "''w1''" and now = 10] show ?thesis
    by (auto split: sum.splits option.splits)
qed



end
