(* ===== verification/Wire_Format.thy ===== *)
theory Wire_Format
  imports Contracts "HOL-Library.Monad_Syntax"
begin

text \<open>
  The JSON documents of the HTTP boundary: what \<open>Response.json\<close> and \<open>JSON.stringify\<close> write for
  the types of the contract, and what the schemas of \<open>packages/contracts/src/api/pipelines.ts\<close> and
  \<open>schemas/contracts/pipeline.schema.json\<close> accept of a document of any shape. A schema is a
  decoder, which checks the shape (the type of every value, the required, optional and unknown
  properties, the alternatives of a union), followed by the check of the decoded value in \<open>Contracts\<close>.
  An object document has distinct keys, as \<open>JSON.parse\<close> produces them.
\<close>

section \<open>Shapes\<close>

definition strictObject :: "string list \<Rightarrow> string list \<Rightarrow> json \<Rightarrow> (string \<times> json) list option" where
  "strictObject required optional j =
     (case j of
        JObj kvs \<Rightarrow>
          if list_all (\<lambda>k. k \<in> set (map fst kvs)) required \<and>
             list_all (\<lambda>k. k \<in> set required \<union> set optional) (map fst kvs)
          then Some kvs else None
      | _ \<Rightarrow> None)"

definition field :: "(string \<times> json) list \<Rightarrow> string \<Rightarrow> (json \<Rightarrow> 'a option) \<Rightarrow> 'a option" where
  "field kvs k dec = Option.bind (map_of kvs k) dec"

definition optionalField :: "(string \<times> json) list \<Rightarrow> string \<Rightarrow> (json \<Rightarrow> 'a option) \<Rightarrow> 'a option option" where
  "optionalField kvs k dec =
     (case map_of kvs k of None \<Rightarrow> Some None | Some j \<Rightarrow> map_option Some (dec j))"

fun asString :: "json \<Rightarrow> string option" where
  "asString (JStr s) = Some s"
| "asString _ = None"

fun asBool :: "json \<Rightarrow> bool option" where
  "asBool (JBool b) = Some b"
| "asBool _ = None"

fun asObject :: "json \<Rightarrow> (string \<times> json) list option" where
  "asObject (JObj kvs) = Some kvs"
| "asObject _ = None"

definition asArray :: "(json \<Rightarrow> 'a option) \<Rightarrow> json \<Rightarrow> 'a list option" where
  "asArray dec j = (case j of JArr xs \<Rightarrow> those (map dec xs) | _ \<Rightarrow> None)"

definition asLiteral :: "(string \<times> 'a) list \<Rightarrow> json \<Rightarrow> 'a option" where
  "asLiteral literals j = Option.bind (asString j) (map_of literals)"

section \<open>Documents\<close>

fun kindName :: "ComponentKind \<Rightarrow> string" where
  "kindName Source = ''source''"
| "kindName Transform = ''transform''"
| "kindName Export = ''export''"

fun stateName :: "PipelineState \<Rightarrow> string" where
  "stateName Draft = ''draft''"
| "stateName Enabled = ''enabled''"
| "stateName Disabled = ''disabled''"

definition secretBindingJson :: "SecretBinding \<Rightarrow> json" where
  "secretBindingJson b = JObj [(''key'', JStr (sb_key b)), (''binding'', JStr (sb_binding b))]"

definition configurationJson :: "ComponentConfiguration \<Rightarrow> json" where
  "configurationJson c = JObj
     [(''values'', JObj (cc_values c)), (''secretBindings'', JArr (map secretBindingJson (cc_secretBindings c)))]"

definition stepJson :: "PipelineStep \<Rightarrow> json" where
  "stepJson s = JObj
     [(''id'', JStr (ps_id s)), (''kind'', JStr (kindName (ps_kind s))),
      (''componentType'', JStr (ps_componentType s)), (''componentVersion'', JStr (ps_componentVersion s)),
      (''configuration'', configurationJson (ps_configuration s))]"

definition edgeJson :: "PipelineEdge \<Rightarrow> json" where
  "edgeJson e = JObj [(''fromStepId'', JStr (pe_fromStepId e)), (''toStepId'', JStr (pe_toStepId e))]"

fun triggerJson :: "Trigger \<Rightarrow> json" where
  "triggerJson (ManualTrigger i p e) = JObj
     [(''id'', JStr i), (''pipelineId'', JStr p), (''type'', JStr ''manual''), (''enabled'', JBool e)]"
| "triggerJson (ScheduleTrigger i p e cron tz) = JObj
     [(''id'', JStr i), (''pipelineId'', JStr p), (''type'', JStr ''schedule''), (''enabled'', JBool e),
      (''cron'', JStr cron), (''timezone'', JStr tz)]"

definition pipelineJson :: "Pipeline \<Rightarrow> json" where
  "pipelineJson p = JObj
     [(''contractVersion'', JStr (p_contractVersion p)), (''id'', JStr (p_id p)),
      (''ownerUserId'', JStr (p_ownerUserId p)), (''name'', JStr (p_name p)),
      (''state'', JStr (stateName (p_state p))), (''createdAt'', JStr (p_createdAt p)),
      (''updatedAt'', JStr (p_updatedAt p)), (''steps'', JArr (map stepJson (p_steps p))),
      (''edges'', JArr (map edgeJson (p_edges p))), (''triggers'', JArr (map triggerJson (p_triggers p)))]"

fun writableTriggerJson :: "WritablePipelineTrigger \<Rightarrow> json" where
  "writableTriggerJson (WritableManual e) = JObj [(''enabled'', JBool e), (''type'', JStr ''manual'')]"
| "writableTriggerJson (WritableSchedule e cron tz) = JObj
     [(''cron'', JStr cron), (''enabled'', JBool e), (''timezone'', JStr tz), (''type'', JStr ''schedule'')]"

definition createRequestJson :: "PipelineCreateRequest \<Rightarrow> json" where
  "createRequestJson r = JObj
     [(''contractVersion'', JStr (cr_contractVersion r)), (''edges'', JArr (map edgeJson (cr_edges r))),
      (''name'', JStr (cr_name r)), (''steps'', JArr (map stepJson (cr_steps r))),
      (''triggers'', JArr (map writableTriggerJson (cr_triggers r)))]"

text \<open>\<open>JSON.stringify\<close> leaves out the properties that are undefined.\<close>

definition optionalEntry :: "string \<Rightarrow> ('a \<Rightarrow> json) \<Rightarrow> 'a option \<Rightarrow> (string \<times> json) list" where
  "optionalEntry k enc v = (case v of None \<Rightarrow> [] | Some x \<Rightarrow> [(k, enc x)])"

definition updateRequestJson :: "PipelineUpdateRequest \<Rightarrow> json" where
  "updateRequestJson r = JObj
     (optionalEntry ''edges'' (\<lambda>es. JArr (map edgeJson es)) (ur_edges r) @
      optionalEntry ''name'' JStr (ur_name r) @
      optionalEntry ''state'' (\<lambda>s. JStr (stateName s)) (ur_state r) @
      optionalEntry ''steps'' (\<lambda>ss. JArr (map stepJson ss)) (ur_steps r) @
      optionalEntry ''triggers'' (\<lambda>ts. JArr (map writableTriggerJson ts)) (ur_triggers r))"

section \<open>Decoders\<close>

definition decodeKind :: "json \<Rightarrow> ComponentKind option" where
  "decodeKind = asLiteral [(''source'', Source), (''transform'', Transform), (''export'', Export)]"

definition decodeState :: "json \<Rightarrow> PipelineState option" where
  "decodeState = asLiteral [(''draft'', Draft), (''enabled'', Enabled), (''disabled'', Disabled)]"

definition decodeSecretBinding :: "json \<Rightarrow> SecretBinding option" where
  "decodeSecretBinding j = do {
     kvs \<leftarrow> strictObject [''key'', ''binding''] [] j;
     k \<leftarrow> field kvs ''key'' asString;
     b \<leftarrow> field kvs ''binding'' asString;
     Some \<lparr>sb_key = k, sb_binding = b\<rparr> }"

definition decodeConfiguration :: "json \<Rightarrow> ComponentConfiguration option" where
  "decodeConfiguration j = do {
     kvs \<leftarrow> strictObject [''values'', ''secretBindings''] [] j;
     vs \<leftarrow> field kvs ''values'' asObject;
     bs \<leftarrow> field kvs ''secretBindings'' (asArray decodeSecretBinding);
     Some \<lparr>cc_values = vs, cc_secretBindings = bs\<rparr> }"

definition decodeStep :: "json \<Rightarrow> PipelineStep option" where
  "decodeStep j = do {
     kvs \<leftarrow> strictObject [''id'', ''kind'', ''componentType'', ''componentVersion'', ''configuration''] [] j;
     i \<leftarrow> field kvs ''id'' asString;
     k \<leftarrow> field kvs ''kind'' decodeKind;
     t \<leftarrow> field kvs ''componentType'' asString;
     v \<leftarrow> field kvs ''componentVersion'' asString;
     c \<leftarrow> field kvs ''configuration'' decodeConfiguration;
     Some \<lparr>ps_id = i, ps_kind = k, ps_componentType = t, ps_componentVersion = v, ps_configuration = c\<rparr> }"

definition decodeEdge :: "json \<Rightarrow> PipelineEdge option" where
  "decodeEdge j = do {
     kvs \<leftarrow> strictObject [''fromStepId'', ''toStepId''] [] j;
     a \<leftarrow> field kvs ''fromStepId'' asString;
     b \<leftarrow> field kvs ''toStepId'' asString;
     Some \<lparr>pe_fromStepId = a, pe_toStepId = b\<rparr> }"

text \<open>The discriminator of the two unions of triggers.\<close>

definition triggerType :: "json \<Rightarrow> string option" where
  "triggerType j = Option.bind (asObject j) (\<lambda>kvs. field kvs ''type'' asString)"

definition decodeTrigger :: "json \<Rightarrow> Trigger option" where
  "decodeTrigger j =
     (if triggerType j = Some ''manual'' then do {
        kvs \<leftarrow> strictObject [''id'', ''pipelineId'', ''type'', ''enabled''] [] j;
        i \<leftarrow> field kvs ''id'' asString;
        p \<leftarrow> field kvs ''pipelineId'' asString;
        e \<leftarrow> field kvs ''enabled'' asBool;
        Some (ManualTrigger i p e) }
      else if triggerType j = Some ''schedule'' then do {
        kvs \<leftarrow> strictObject [''id'', ''pipelineId'', ''type'', ''enabled'', ''cron'', ''timezone''] [] j;
        i \<leftarrow> field kvs ''id'' asString;
        p \<leftarrow> field kvs ''pipelineId'' asString;
        e \<leftarrow> field kvs ''enabled'' asBool;
        c \<leftarrow> field kvs ''cron'' asString;
        z \<leftarrow> field kvs ''timezone'' asString;
        Some (ScheduleTrigger i p e c z) }
      else None)"

definition decodeWritableTrigger :: "json \<Rightarrow> WritablePipelineTrigger option" where
  "decodeWritableTrigger j =
     (if triggerType j = Some ''manual'' then do {
        kvs \<leftarrow> strictObject [''enabled'', ''type''] [] j;
        e \<leftarrow> field kvs ''enabled'' asBool;
        Some (WritableManual e) }
      else if triggerType j = Some ''schedule'' then do {
        kvs \<leftarrow> strictObject [''cron'', ''enabled'', ''timezone'', ''type''] [] j;
        c \<leftarrow> field kvs ''cron'' asString;
        e \<leftarrow> field kvs ''enabled'' asBool;
        z \<leftarrow> field kvs ''timezone'' asString;
        Some (WritableSchedule e c z) }
      else None)"

definition decodePipeline :: "json \<Rightarrow> Pipeline option" where
  "decodePipeline j = do {
     kvs \<leftarrow> strictObject [''contractVersion'', ''id'', ''ownerUserId'', ''name'', ''state'', ''createdAt'',
       ''updatedAt'', ''steps'', ''edges'', ''triggers''] [] j;
     v \<leftarrow> field kvs ''contractVersion'' asString;
     i \<leftarrow> field kvs ''id'' asString;
     u \<leftarrow> field kvs ''ownerUserId'' asString;
     n \<leftarrow> field kvs ''name'' asString;
     s \<leftarrow> field kvs ''state'' decodeState;
     c \<leftarrow> field kvs ''createdAt'' asString;
     m \<leftarrow> field kvs ''updatedAt'' asString;
     steps \<leftarrow> field kvs ''steps'' (asArray decodeStep);
     edges \<leftarrow> field kvs ''edges'' (asArray decodeEdge);
     triggers \<leftarrow> field kvs ''triggers'' (asArray decodeTrigger);
     Some \<lparr>p_contractVersion = v, p_id = i, p_ownerUserId = u, p_name = n, p_state = s, p_createdAt = c,
       p_updatedAt = m, p_steps = steps, p_edges = edges, p_triggers = triggers\<rparr> }"

definition decodeCreateRequest :: "json \<Rightarrow> PipelineCreateRequest option" where
  "decodeCreateRequest j = do {
     kvs \<leftarrow> strictObject [''contractVersion'', ''edges'', ''name'', ''steps'', ''triggers''] [] j;
     v \<leftarrow> field kvs ''contractVersion'' asString;
     edges \<leftarrow> field kvs ''edges'' (asArray decodeEdge);
     n \<leftarrow> field kvs ''name'' asString;
     steps \<leftarrow> field kvs ''steps'' (asArray decodeStep);
     triggers \<leftarrow> field kvs ''triggers'' (asArray decodeWritableTrigger);
     Some \<lparr>cr_contractVersion = v, cr_edges = edges, cr_name = n, cr_steps = steps, cr_triggers = triggers\<rparr> }"

definition decodeUpdateRequest :: "json \<Rightarrow> PipelineUpdateRequest option" where
  "decodeUpdateRequest j = do {
     kvs \<leftarrow> strictObject [] [''edges'', ''name'', ''state'', ''steps'', ''triggers''] j;
     edges \<leftarrow> optionalField kvs ''edges'' (asArray decodeEdge);
     n \<leftarrow> optionalField kvs ''name'' asString;
     s \<leftarrow> optionalField kvs ''state'' decodeState;
     steps \<leftarrow> optionalField kvs ''steps'' (asArray decodeStep);
     triggers \<leftarrow> optionalField kvs ''triggers'' (asArray decodeWritableTrigger);
     Some \<lparr>ur_edges = edges, ur_name = n, ur_state = s, ur_steps = steps, ur_triggers = triggers\<rparr> }"

section \<open>Schemas\<close>

definition checked :: "('a \<Rightarrow> bool) \<Rightarrow> 'a option \<Rightarrow> 'a option" where
  "checked ok v = Option.bind v (\<lambda>x. if ok x then Some x else None)"

definition pipelineSchema :: "zod_formats \<Rightarrow> json \<Rightarrow> Pipeline option" where
  "pipelineSchema zf j = checked (pipelineSchema_ok zf) (decodePipeline j)"

definition pipelineListResponseSchema :: "zod_formats \<Rightarrow> json \<Rightarrow> Pipeline list option" where
  "pipelineListResponseSchema zf j = do {
     kvs \<leftarrow> strictObject [''pipelines''] [] j;
     field kvs ''pipelines'' (asArray (pipelineSchema zf)) }"

definition pipelineCreateRequestSchema :: "zod_formats \<Rightarrow> json \<Rightarrow> PipelineCreateRequest option" where
  "pipelineCreateRequestSchema zf j = checked (pipelineCreateRequestSchema_ok zf) (decodeCreateRequest j)"

definition pipelineUpdateRequestSchema :: "zod_formats \<Rightarrow> json \<Rightarrow> PipelineUpdateRequest option" where
  "pipelineUpdateRequestSchema zf j = checked (pipelineUpdateRequestSchema_ok zf) (decodeUpdateRequest j)"

definition pipelineDetailRequestSchema :: "zod_formats \<Rightarrow> json \<Rightarrow> string option" where
  "pipelineDetailRequestSchema zf j = do {
     kvs \<leftarrow> strictObject [''pipelineId''] [] j;
     checked (uuid_format zf) (field kvs ''pipelineId'' asString) }"

definition pipelineDuplicateBodyRequestSchema :: "json \<Rightarrow> string option option" where
  "pipelineDuplicateBodyRequestSchema j = do {
     kvs \<leftarrow> strictObject [] [''name''] j;
     checked (pred_option (\<lambda>n. n \<noteq> [])) (optionalField kvs ''name'' asString) }"

definition pipelineDuplicateRequestSchema :: "zod_formats \<Rightarrow> json \<Rightarrow> (string option \<times> string) option" where
  "pipelineDuplicateRequestSchema zf j = do {
     kvs \<leftarrow> strictObject [''pipelineId''] [''name''] j;
     n \<leftarrow> checked (pred_option (\<lambda>n. n \<noteq> [])) (optionalField kvs ''name'' asString);
     i \<leftarrow> checked (uuid_format zf) (field kvs ''pipelineId'' asString);
     Some (n, i) }"

section \<open>Round trips\<close>

lemma those_map_Some [simp]: "those (map Some xs) = Some xs"
  by (induction xs) auto

lemma asArray_map: "(\<And>x. dec (enc x) = Some x) \<Longrightarrow> asArray dec (JArr (map enc xs)) = Some xs"
  by (simp add: asArray_def comp_def cong: map_cong)

lemmas shape_defs = strictObject_def field_def optionalField_def asLiteral_def checked_def

lemma decodeKind_inverse [simp]: "decodeKind (JStr (kindName k)) = Some k"
  by (cases k) (simp_all add: decodeKind_def asLiteral_def)

lemma decodeState_inverse [simp]: "decodeState (JStr (stateName s)) = Some s"
  by (cases s) (simp_all add: decodeState_def asLiteral_def)

lemma decodeSecretBinding_inverse [simp]: "decodeSecretBinding (secretBindingJson b) = Some b"
  by (simp add: decodeSecretBinding_def secretBindingJson_def shape_defs)

lemma decodeConfiguration_inverse [simp]: "decodeConfiguration (configurationJson c) = Some c"
  by (simp add: decodeConfiguration_def configurationJson_def shape_defs asArray_map)

lemma decodeStep_inverse [simp]: "decodeStep (stepJson s) = Some s"
  by (simp add: decodeStep_def stepJson_def shape_defs)

lemma decodeEdge_inverse [simp]: "decodeEdge (edgeJson e) = Some e"
  by (simp add: decodeEdge_def edgeJson_def shape_defs)

lemma decodeTrigger_inverse [simp]: "decodeTrigger (triggerJson t) = Some t"
  by (cases t) (simp_all add: decodeTrigger_def triggerType_def shape_defs)

lemma decodeWritableTrigger_inverse [simp]: "decodeWritableTrigger (writableTriggerJson t) = Some t"
  by (cases t) (simp_all add: decodeWritableTrigger_def triggerType_def shape_defs)

lemma decodePipeline_inverse [simp]: "decodePipeline (pipelineJson p) = Some p"
  by (simp add: decodePipeline_def pipelineJson_def shape_defs asArray_map)

lemma decodeCreateRequest_inverse [simp]: "decodeCreateRequest (createRequestJson r) = Some r"
  by (simp add: decodeCreateRequest_def createRequestJson_def shape_defs asArray_map)

lemma decodeUpdateRequest_inverse [simp]: "decodeUpdateRequest (updateRequestJson r) = Some r"
  by (cases "ur_edges r"; cases "ur_name r"; cases "ur_state r"; cases "ur_steps r"; cases "ur_triggers r")
    (simp_all add: decodeUpdateRequest_def updateRequestJson_def optionalEntry_def shape_defs asArray_map)

lemmas schema_defs = pipelineSchema_def pipelineCreateRequestSchema_def pipelineUpdateRequestSchema_def

lemma pipelineSchema_inverse [simp]:
  "pipelineSchema zf (pipelineJson p) = (if pipelineSchema_ok zf p then Some p else None)"
  by (simp add: schema_defs checked_def)

lemma pipelineListResponseSchema_inverse:
  assumes "list_all (pipelineSchema_ok zf) ps"
  shows "pipelineListResponseSchema zf (JObj [(''pipelines'', JArr (map pipelineJson ps))]) = Some ps"
proof -
  have "those (map (\<lambda>p. pipelineSchema zf (pipelineJson p)) ps) = Some ps"
    using assms by (induction ps) auto
  then show ?thesis by (simp add: pipelineListResponseSchema_def shape_defs asArray_def comp_def)
qed

lemma pipelineDetailRequestSchema_path:
  "pipelineDetailRequestSchema zf (JObj [(''pipelineId'', JStr i)]) = (if uuid_format zf i then Some i else None)"
  by (simp add: pipelineDetailRequestSchema_def shape_defs)

section \<open>What the schemas accept\<close>

lemma strictObject_keys:
  "strictObject required optional j = Some kvs \<longleftrightarrow>
     j = JObj kvs \<and> set required \<subseteq> fst ` set kvs \<and> fst ` set kvs \<subseteq> set required \<union> set optional"
  by (cases j) (auto simp: strictObject_def list_all_iff)

lemma checked_Some: "checked ok v = Some x \<longleftrightarrow> v = Some x \<and> ok x"
  by (cases v) (auto simp: checked_def)

lemma optionalField_empty: "optionalField [] k dec = Some v \<longleftrightarrow> v = None"
  by (auto simp: optionalField_def)

lemma decodeCreateRequest_keys:
  "decodeCreateRequest j = Some r \<Longrightarrow> \<exists>kvs. j = JObj kvs \<and>
     fst ` set kvs = {''contractVersion'', ''edges'', ''name'', ''steps'', ''triggers''}"
  by (auto simp: decodeCreateRequest_def Option.bind_eq_Some_conv strictObject_keys)

lemma decodeUpdateRequest_keys:
  "decodeUpdateRequest j = Some r \<Longrightarrow> \<exists>kvs. j = JObj kvs \<and>
     fst ` set kvs \<subseteq> {''edges'', ''name'', ''state'', ''steps'', ''triggers''}"
  by (auto simp: decodeUpdateRequest_def Option.bind_eq_Some_conv strictObject_keys)

lemma decodeUpdateRequest_empty:
  "decodeUpdateRequest (JObj []) = Some r \<Longrightarrow> \<not> pipelineUpdateRequestSchema_ok zf r"
  by (auto simp: decodeUpdateRequest_def Option.bind_eq_Some_conv strictObject_keys optionalField_empty
      pipelineUpdateRequestSchema_ok_def)

text \<open>
  Property C28: the documents the schemas accept. Every value is read back from the document written
  for it exactly when it satisfies the contract; an accepted creation has exactly the five properties
  of the contract and an accepted update exactly the properties it changes, at least one, so that no
  request can carry an owner, an identifier or a timestamp.
\<close>

theorem accepted_documents:
  "(pipelineSchema zf (pipelineJson p) = Some p \<longleftrightarrow> pipelineSchema_ok zf p) \<and>
   (pipelineCreateRequestSchema zf (createRequestJson c) = Some c \<longleftrightarrow> pipelineCreateRequestSchema_ok zf c) \<and>
   (pipelineUpdateRequestSchema zf (updateRequestJson u) = Some u \<longleftrightarrow> pipelineUpdateRequestSchema_ok zf u) \<and>
   (pipelineCreateRequestSchema zf j = Some c \<longrightarrow> pipelineCreateRequestSchema_ok zf c \<and>
      (\<exists>kvs. j = JObj kvs \<and> fst ` set kvs = {''contractVersion'', ''edges'', ''name'', ''steps'', ''triggers''})) \<and>
   (pipelineUpdateRequestSchema zf j = Some u \<longrightarrow> pipelineUpdateRequestSchema_ok zf u \<and>
      (\<exists>kvs. j = JObj kvs \<and> kvs \<noteq> [] \<and> fst ` set kvs \<subseteq> {''edges'', ''name'', ''state'', ''steps'', ''triggers''}))"
proof (intro conjI impI)
  assume "pipelineUpdateRequestSchema zf j = Some u"
  then have d: "decodeUpdateRequest j = Some u" and ok: "pipelineUpdateRequestSchema_ok zf u"
    by (simp_all add: schema_defs checked_Some)
  then show "pipelineUpdateRequestSchema_ok zf u" by simp
  from decodeUpdateRequest_keys [OF d] decodeUpdateRequest_empty [of u zf] d ok
  show "\<exists>kvs. j = JObj kvs \<and> kvs \<noteq> [] \<and> fst ` set kvs \<subseteq> {''edges'', ''name'', ''state'', ''steps'', ''triggers''}"
    by blast
qed (auto simp: schema_defs checked_Some dest: decodeCreateRequest_keys)

theorem accepted_documents_witness:
  "\<exists>zf c kvs. pipelineCreateRequestSchema_ok zf c \<and> createRequestJson c = JObj kvs \<and>
     fst ` set kvs = {''contractVersion'', ''edges'', ''name'', ''steps'', ''triggers''}"
proof -
  let ?zf = "\<lparr>uuid_format = \<lambda>_. True, datetime_format = \<lambda>_. True\<rparr>"
  let ?c = "\<lparr>cr_contractVersion = ''v1'', cr_edges = [sampleEdge], cr_name = ''Load'',
      cr_steps = [sampleSourceStep, sampleExportStep], cr_triggers = [WritableManual True]\<rparr>"
  have ok: "pipelineCreateRequestSchema_ok ?zf ?c" by code_simp
  then have "pipelineCreateRequestSchema ?zf (createRequestJson ?c) = Some ?c"
    by (simp add: schema_defs checked_def)
  with accepted_documents [of ?zf samplePipeline ?c undefined "createRequestJson ?c"]
  have "\<exists>kvs. createRequestJson ?c = JObj kvs \<and>
      fst ` set kvs = {''contractVersion'', ''edges'', ''name'', ''steps'', ''triggers''}"
    by (elim conjE) (drule (1) mp, simp only:)
  with ok show ?thesis by metis
qed

end
