(* ===== verification/Retention.thy ===== *)
theory Retention
  imports Run_Queue Repository_Correctness
begin

text \<open>
  \<open>packages/database/src/retention.ts\<close>: the bounded queries for expired rows, the conditional
  deletions of their metadata, staged uploads and their release, and the deletion of an expired
  run with its execution children. A deletion that is one statement on a table nothing refers to
  returns the new database and whether a row was deleted; the deletion of a run is a transaction
  and may fail on a foreign key.
\<close>

section \<open>Selected columns\<close>

text \<open>\<open>ExpiredDataset\<close>, \<open>ExpiredArtifact\<close> and \<open>ExpiredStagedUpload\<close> select the same columns.\<close>

record ExpiredRecord =
  xr_id :: string
  xr_storageKind :: ArtifactStorageKind
  xr_storageLocation :: string
  xr_expiresAt :: "time option"

record ExpiredRun =
  xn_id :: string
  xn_expiresAt :: time

record ExpiredRunLog =
  xl_id :: string
  xl_runId :: string
  xl_expiresAt :: time

record StagedUploadRecord =
  su_ownerUserId :: string
  su_storageLocation :: string
  su_storageKind :: ArtifactStorageKind
  su_expiresAt :: time

definition datasetRecord :: "dataset_row \<Rightarrow> ExpiredRecord" where
  "datasetRecord d = \<lparr>xr_id = ds_id d, xr_storageKind = ds_storageKind d,
     xr_storageLocation = ds_storageLocation d, xr_expiresAt = ds_expiresAt d\<rparr>"

definition artifactRecord :: "artifact_row \<Rightarrow> ExpiredRecord" where
  "artifactRecord a = \<lparr>xr_id = af_id a, xr_storageKind = af_storageKind a,
     xr_storageLocation = af_storageLocation a, xr_expiresAt = Some (af_expiresAt a)\<rparr>"

definition uploadRecord :: "upload_row \<Rightarrow> ExpiredRecord" where
  "uploadRecord u = \<lparr>xr_id = up_id u, xr_storageKind = up_storageKind u,
     xr_storageLocation = up_storageLocation u, xr_expiresAt = Some (up_expiresAt u)\<rparr>"

section \<open>Queries\<close>

definition DEFAULT_RETENTION_BATCH_SIZE :: rat where
  "DEFAULT_RETENTION_BATCH_SIZE = 100"

definition validateBatchSize :: "rat \<Rightarrow> (string, nat) result" where
  "validateBatchSize batchSize =
     (if \<not> js_isInteger batchSize \<or> batchSize < 1
      then Throw ''Retention batch size must be a positive integer.''
      else Return (nat \<lfloor>batchSize\<rfloor>))"

text \<open>The comparison \<open>expires_at <= now\<close>, which is not true of null.\<close>

definition elapsed :: "time option \<Rightarrow> time \<Rightarrow> bool" where
  "elapsed expiresAt now = (case expiresAt of None \<Rightarrow> False | Some t \<Rightarrow> t \<le> now)"

text \<open>\<open>WHERE selected ORDER BY expires_at, id LIMIT limit\<close>.\<close>

definition expired_rows ::
  "('r \<Rightarrow> bool) \<Rightarrow> ('r \<Rightarrow> time option) \<Rightarrow> ('r \<Rightarrow> string) \<Rightarrow> nat \<Rightarrow> 'r list \<Rightarrow> 'r list" where
  "expired_rows selected expiresAt key limit rows =
     take limit (sort_key (\<lambda>r. (nulls_last (expiresAt r), key r)) (filter selected rows))"

definition terminalRun :: "string \<Rightarrow> run_row \<Rightarrow> bool" where
  "terminalRun runId r \<longleftrightarrow> rn_id r = runId \<and> terminalState (rn_state r)"

text \<open>The inner join with runs has a row for each run that a dataset matches.\<close>

definition datasetsOfTerminalRuns :: "database \<Rightarrow> dataset_row list" where
  "datasetsOfTerminalRuns db =
     concat (map (\<lambda>d. map (\<lambda>_. d) (filter (terminalRun (ds_runId d)) (db_runs db))) (db_datasets db))"

definition listExpiredDatasets :: "time \<Rightarrow> rat \<Rightarrow> database \<Rightarrow> (string, ExpiredRecord list) result" where
  "listExpiredDatasets now batchSize db =
     bind_res (validateBatchSize batchSize) (\<lambda>limit.
     Return (map datasetRecord
       (expired_rows (\<lambda>d. elapsed (ds_expiresAt d) now) ds_expiresAt ds_id limit (datasetsOfTerminalRuns db))))"

definition listExpiredStagedUploads :: "time \<Rightarrow> rat \<Rightarrow> database \<Rightarrow> (string, ExpiredRecord list) result" where
  "listExpiredStagedUploads now batchSize db =
     bind_res (validateBatchSize batchSize) (\<lambda>limit.
     Return (map uploadRecord
       (expired_rows (\<lambda>u. up_expiresAt u \<le> now) (\<lambda>u. Some (up_expiresAt u)) up_id limit (db_uploads db))))"

definition listExpiredArtifacts :: "time \<Rightarrow> rat \<Rightarrow> database \<Rightarrow> (string, ExpiredRecord list) result" where
  "listExpiredArtifacts now batchSize db =
     bind_res (validateBatchSize batchSize) (\<lambda>limit.
     Return (map artifactRecord
       (expired_rows (\<lambda>a. af_expiresAt a \<le> now) (\<lambda>a. Some (af_expiresAt a)) af_id limit (db_artifacts db))))"

definition listExpiredRuns :: "time \<Rightarrow> rat \<Rightarrow> database \<Rightarrow> (string, ExpiredRun list) result" where
  "listExpiredRuns now batchSize db =
     bind_res (validateBatchSize batchSize) (\<lambda>limit.
     Return (map (\<lambda>r. \<lparr>xn_id = rn_id r, xn_expiresAt = rn_expiresAt r\<rparr>)
       (expired_rows (\<lambda>r. rn_expiresAt r \<le> now \<and> terminalState (rn_state r))
         (\<lambda>r. Some (rn_expiresAt r)) rn_id limit (db_runs db))))"

definition listExpiredRunLogs :: "time \<Rightarrow> rat \<Rightarrow> database \<Rightarrow> (string, ExpiredRunLog list) result" where
  "listExpiredRunLogs now batchSize db =
     bind_res (validateBatchSize batchSize) (\<lambda>limit.
     Return (map (\<lambda>l. \<lparr>xl_id = lg_id l, xl_runId = lg_runId l, xl_expiresAt = lg_expiresAt l\<rparr>)
       (expired_rows (\<lambda>l. lg_expiresAt l \<le> now) (\<lambda>l. Some (lg_expiresAt l)) lg_id limit (db_runLogs db))))"

section \<open>Staged uploads\<close>

definition createStagedUpload ::
  "(nat \<Rightarrow> string) \<Rightarrow> time \<Rightarrow> StagedUploadRecord \<Rightarrow> database \<Rightarrow> (db_error, database \<times> string) result" where
  "createStagedUpload gen dbNow r db =
     (let uuid = gen (db_uuids db) in
      bind_res (insertUploads
        [\<lparr>up_id = uuid, up_ownerUserId = su_ownerUserId r, up_storageKind = su_storageKind r,
          up_storageLocation = su_storageLocation r, up_createdAt = dbNow, up_expiresAt = su_expiresAt r\<rparr>]
        (advance_uuids 1 db)) (\<lambda>db. Return (db, uuid)))"

definition claimStagedUploads :: "string \<Rightarrow> string list \<Rightarrow> database \<Rightarrow> database \<times> nat" where
  "claimStagedUploads ownerUserId storageLocations db =
     (if length storageLocations = 0 then (db, 0)
      else
        (let claimed = (\<lambda>u. up_ownerUserId u = ownerUserId \<and> up_storageLocation u \<in> set storageLocations)
         in (db\<lparr>db_uploads := delete_where claimed (db_uploads db)\<rparr>,
             length (filter claimed (db_uploads db)))))"

section \<open>Conditional deletion of metadata\<close>

text \<open>\<open>DELETE FROM t WHERE id = ... AND expires_at <= now RETURNING id\<close>.\<close>

definition deleteExpiredRecord ::
  "('r \<Rightarrow> string) \<Rightarrow> ('r \<Rightarrow> bool) \<Rightarrow> string \<Rightarrow> 'r list \<Rightarrow> 'r list \<times> bool" where
  "deleteExpiredRecord key selected i rows =
     (let deleted = (\<lambda>r. key r = i \<and> selected r)
      in (delete_where deleted rows, length (filter deleted rows) > 0))"

definition deleteExpiredArtifact :: "string \<Rightarrow> time \<Rightarrow> database \<Rightarrow> database \<times> bool" where
  "deleteExpiredArtifact i now db =
     (case deleteExpiredRecord af_id (\<lambda>a. af_expiresAt a \<le> now) i (db_artifacts db) of
        (rows, deleted) \<Rightarrow> (db\<lparr>db_artifacts := rows\<rparr>, deleted))"

definition deleteExpiredDataset :: "string \<Rightarrow> time \<Rightarrow> database \<Rightarrow> database \<times> bool" where
  "deleteExpiredDataset i now db =
     (case deleteExpiredRecord ds_id
        (\<lambda>d. elapsed (ds_expiresAt d) now \<and> list_ex (terminalRun (ds_runId d)) (db_runs db)) i (db_datasets db) of
        (rows, deleted) \<Rightarrow> (db\<lparr>db_datasets := rows\<rparr>, deleted))"

definition deleteExpiredStagedUpload :: "string \<Rightarrow> time \<Rightarrow> database \<Rightarrow> database \<times> bool" where
  "deleteExpiredStagedUpload i now db =
     (case deleteExpiredRecord up_id (\<lambda>u. up_expiresAt u \<le> now) i (db_uploads db) of
        (rows, deleted) \<Rightarrow> (db\<lparr>db_uploads := rows\<rparr>, deleted))"

definition deleteExpiredRunLog :: "string \<Rightarrow> time \<Rightarrow> database \<Rightarrow> database \<times> bool" where
  "deleteExpiredRunLog i now db =
     (case deleteExpiredRecord lg_id (\<lambda>l. lg_expiresAt l \<le> now) i (db_runLogs db) of
        (rows, deleted) \<Rightarrow> (db\<lparr>db_runLogs := rows\<rparr>, deleted))"

section \<open>Deletion of a run\<close>

definition expiredRun :: "string \<Rightarrow> time \<Rightarrow> run_row \<Rightarrow> bool" where
  "expiredRun i now r \<longleftrightarrow> rn_id r = i \<and> rn_expiresAt r \<le> now \<and> terminalState (rn_state r)"

definition noRemaining :: "('r \<Rightarrow> string) \<Rightarrow> 'r list \<Rightarrow> run_row \<Rightarrow> bool" where
  "noRemaining runId rows r \<longleftrightarrow> \<not> list_ex (\<lambda>x. runId x = rn_id r) rows"

definition deleteExpiredRun :: "string \<Rightarrow> time \<Rightarrow> database \<Rightarrow> (db_error, database \<times> bool) result" where
  "deleteExpiredRun i now db =
     (let eligible = list_ex (expiredRun i now) (db_runs db) in
      bind_res (deleteJobs (\<lambda>j. jb_runId j = i \<and> eligible) db) (\<lambda>db.
      bind_res (deleteRunSteps (\<lambda>s. rs_runId s = i \<and> eligible) db) (\<lambda>db.
      let deletable = (\<lambda>r. expiredRun i now r \<and> noRemaining lg_runId (db_runLogs db) r \<and>
            noRemaining af_runId (db_artifacts db) r \<and> noRemaining ds_runId (db_datasets db) r);
          deleted = filter deletable (db_runs db)
      in bind_res (deleteRuns deletable db) (\<lambda>db. Return (db, length deleted > 0)))))"

section \<open>Tables of expiring rows\<close>

text \<open>
  What the four tables have in common: a bounded query lists the keys of the selected rows, and the
  conditional deletion of a key removes exactly the selected row with that key.
\<close>

locale expiring_table =
  fixes rows :: "'d \<Rightarrow> 'r list"
    and key :: "'r \<Rightarrow> string"
    and selected :: "'d \<Rightarrow> 'r \<Rightarrow> bool"
    and wf :: "'d \<Rightarrow> bool"
    and listed :: "nat \<Rightarrow> 'd \<Rightarrow> string list"
    and del :: "string \<Rightarrow> 'd \<Rightarrow> 'd \<times> bool"
  assumes unique: "wf d \<Longrightarrow> distinct (map key (rows d))"
    and listed_rows: "wf d \<Longrightarrow> \<exists>xs. listed n d = map key xs \<and> distinct xs \<and>
      set xs \<subseteq> {r \<in> set (rows d). selected d r} \<and>
      length xs = min n (length (filter (selected d) (rows d)))"
    and del_rows: "wf d \<Longrightarrow> rows (fst (del i d)) = filter (\<lambda>r. \<not> (key r = i \<and> selected d r)) (rows d)"
    and del_flag: "wf d \<Longrightarrow> snd (del i d) \<longleftrightarrow> (\<exists>r\<in>set (rows d). key r = i \<and> selected d r)"
    and del_selected: "wf d \<Longrightarrow> selected (fst (del i d)) = selected d"
    and del_wf: "wf d \<Longrightarrow> wf (fst (del i d))"
begin

text \<open>The rows a pass selects, and a pass: delete what one bounded query lists.\<close>

definition candidates :: "'d \<Rightarrow> 'r list" where
  "candidates d = filter (selected d) (rows d)"

definition pass :: "nat \<Rightarrow> 'd \<Rightarrow> 'd" where
  "pass n d = fold (\<lambda>i d. fst (del i d)) (listed n d) d"

lemma del_again:
  assumes "wf d"
  shows "\<not> snd (del i (fst (del i d)))"
  using assms by (auto simp: del_flag del_wf del_rows del_selected)

lemma candidates_del:
  "wf d \<Longrightarrow> candidates (fst (del i d)) = filter (\<lambda>r. key r \<noteq> i) (candidates d)"
  by (auto simp: candidates_def del_rows del_selected intro: filter_cong)

lemma fold_del:
  "wf d \<Longrightarrow> wf (fold (\<lambda>i d. fst (del i d)) is d) \<and> selected (fold (\<lambda>i d. fst (del i d)) is d) = selected d \<and>
     rows (fold (\<lambda>i d. fst (del i d)) is d) = filter (\<lambda>r. \<not> (key r \<in> set is \<and> selected d r)) (rows d)"
proof (induction "is" arbitrary: d)
  case (Cons i "is")
  have "filter (\<lambda>r. \<not> (key r \<in> set is \<and> selected d r)) (filter (\<lambda>r. \<not> (key r = i \<and> selected d r)) (rows d)) =
      filter (\<lambda>r. \<not> (key r \<in> set (i # is) \<and> selected d r)) (rows d)"
    by (auto intro: filter_cong)
  with Cons.IH [OF del_wf [OF Cons.prems]] show ?case
    by (simp add: del_selected [OF Cons.prems] del_rows [OF Cons.prems])
qed simp

lemma pass_rows:
  assumes "wf d"
  shows "rows (pass n d) = filter (\<lambda>r. \<not> (key r \<in> set (listed n d) \<and> selected d r)) (rows d)"
    and "wf (pass n d)" and "selected (pass n d) = selected d"
  unfolding pass_def using fold_del [OF assms] by blast+

lemma listed_candidates:
  assumes "wf d"
  shows "set (listed n d) \<subseteq> key ` set (candidates d)" and "distinct (listed n d)"
    and "length (listed n d) = min n (length (candidates d))"
proof -
  from listed_rows [OF assms, of n] obtain xs where xs: "listed n d = map key xs" "distinct xs"
    "set xs \<subseteq> {r \<in> set (rows d). selected d r}" "length xs = min n (length (candidates d))"
    unfolding candidates_def by blast
  then show "set (listed n d) \<subseteq> key ` set (candidates d)" "length (listed n d) = min n (length (candidates d))"
    by (auto simp: candidates_def)
  have "inj_on key (set (rows d))" using unique [OF assms] by (simp add: distinct_map)
  then have "inj_on key (set xs)" by (rule inj_on_subset) (use xs(3) in blast)
  with xs(1,2) show "distinct (listed n d)" by (simp add: distinct_map)
qed

text \<open>A pass removes as many candidates as its bound allows.\<close>

lemma pass_progress:
  assumes "wf d"
  shows "length (candidates (pass n d)) = length (candidates d) - n"
proof -
  have cand: "candidates (pass n d) = filter (\<lambda>r. key r \<notin> set (listed n d)) (candidates d)"
    unfolding candidates_def pass_rows [OF assms] by (auto intro: filter_cong)
  have dist: "distinct (map key (candidates d))"
    using unique [OF assms] by (simp add: candidates_def distinct_map_filter)
  have "length (candidates (pass n d)) = card (key ` set (candidates (pass n d)))"
    using distinct_card [of "map key (candidates (pass n d))"] dist
    by (simp add: cand distinct_map_filter)
  also have "key ` set (candidates (pass n d)) = key ` set (candidates d) - set (listed n d)"
    by (auto simp: cand)
  also have "card \<dots> = card (key ` set (candidates d)) - card (set (listed n d))"
    by (rule card_Diff_subset) (use listed_candidates(1) [OF assms] in auto)
  also have "card (key ` set (candidates d)) = length (candidates d)"
    using distinct_card [OF dist] by simp
  also have "card (set (listed n d)) = min n (length (candidates d))"
    using distinct_card [OF listed_candidates(2) [OF assms]] listed_candidates(3) [OF assms] by simp
  finally show ?thesis by simp
qed

text \<open>Repeated passes of a positive bound leave no candidate.\<close>

lemma passes_drain:
  assumes "wf d" and "1 \<le> n"
  shows "length (candidates d) \<le> k * n \<Longrightarrow> candidates ((pass n ^^ k) d) = []"
  using assms(1)
proof (induction k arbitrary: d)
  case (Suc k)
  have "length (candidates (pass n d)) \<le> k * n"
    using Suc.prems(1) by (simp add: pass_progress [OF Suc.prems(2)])
  from Suc.IH [OF this pass_rows(2) [OF Suc.prems(2)]] show ?case by (simp add: funpow_swap1)
qed simp

end


section \<open>The four tables\<close>

definition listed_ids :: "('x \<Rightarrow> string) \<Rightarrow> (string, 'x list) result \<Rightarrow> string list" where
  "listed_ids key m = (case m of Inl _ \<Rightarrow> [] | Inr xs \<Rightarrow> map key xs)"

lemma validateBatchSize_of_nat:
  "validateBatchSize (of_nat n) =
     (if n = 0 then Throw ''Retention batch size must be a positive integer.'' else Return n)"
proof -
  have "js_isInteger (of_nat n)" using js_isInteger_of_int [of "int n"] by simp
  then show ?thesis by (simp add: validateBatchSize_def)
qed

lemma validateBatchSize_Return:
  "validateBatchSize b = Return n \<longleftrightarrow> js_isInteger b \<and> 1 \<le> b \<and> n = nat \<lfloor>b\<rfloor>"
  by (auto simp: validateBatchSize_def)

lemma expired_rows_props:
  "length (expired_rows sel ex key n rows) = min n (length (filter sel rows))"
  "set (expired_rows sel ex key n rows) \<subseteq> {r \<in> set rows. sel r}"
  "distinct rows \<Longrightarrow> distinct (expired_rows sel ex key n rows)"
  unfolding expired_rows_def by (auto simp: min_def dest!: in_set_takeD)

lemma expired_rows_0 [simp]: "expired_rows sel ex key 0 rows = []"
  by (simp add: expired_rows_def)

lemma listed_expired_rows:
  assumes "distinct (map key rows)"
  shows "\<exists>xs. map key (expired_rows sel ex key n rows) = map key xs \<and> distinct xs \<and>
    set xs \<subseteq> {r \<in> set rows. sel r} \<and> length xs = min n (length (filter sel rows))"
  using expired_rows_props [where sel = sel and ex = ex and key = key and n = n and rows = rows] assms
  by (auto simp: distinct_map intro!: exI [of _ "expired_rows sel ex key n rows"])

lemma db_wf_row_ids:
  assumes "db_wf db"
  shows "distinct (map af_id (db_artifacts db))" "distinct (map ds_id (db_datasets db))"
    "distinct (map up_id (db_uploads db))" "distinct (map lg_id (db_runLogs db))" "distinct (map rn_id (db_runs db))"
  using assms by (simp_all add: db_wf_def keys_ok_def)

text \<open>A run is joined at most once, so the join is a selection.\<close>

lemma datasetsOfTerminalRuns_filter:
  assumes "distinct (map rn_id (db_runs db))"
  shows "datasetsOfTerminalRuns db = filter (\<lambda>d. list_ex (terminalRun (ds_runId d)) (db_runs db)) (db_datasets db)"
proof -
  have one: "map (\<lambda>_. d) (filter (terminalRun i) rs) = (if list_ex (terminalRun i) rs then [d] else [])"
    if "distinct (map rn_id rs)" for rs i and d :: dataset_row
    using that
  proof (induction rs)
    case (Cons r rs)
    have "\<not> list_ex (terminalRun i) rs" if "terminalRun i r"
      using Cons.prems that by (simp add: list_ex_iff terminalRun_def) (metis imageI)
    with Cons show ?case by auto
  qed simp
  have "concat (map (\<lambda>d. if P d then [d] else []) xs) = filter P xs" for P and xs :: "dataset_row list"
    by (induction xs) auto
  then show ?thesis unfolding datasetsOfTerminalRuns_def one [OF assms] by simp
qed

lemma delete_rows_wf [db_preserves]:
  assumes "db_wf db"
  shows "db_wf (db\<lparr>db_artifacts := delete_where P (db_artifacts db)\<rparr>)"
    "db_wf (db\<lparr>db_datasets := delete_where Q (db_datasets db)\<rparr>)"
    "db_wf (db\<lparr>db_uploads := delete_where R (db_uploads db)\<rparr>)"
    "db_wf (db\<lparr>db_runLogs := delete_where S (db_runLogs db)\<rparr>)"
  using assms by (simp_all add: db_wf_defs subset_fewer distinct_map_delete_where)

lemma some_selected: "filter P xs \<noteq> [] \<longleftrightarrow> (\<exists>x\<in>set xs. P x)"
  by (induction xs) auto

lemma delete_effects:
  "deleteExpiredArtifact i now db =
     (db\<lparr>db_artifacts := delete_where (\<lambda>a. af_id a = i \<and> af_expiresAt a \<le> now) (db_artifacts db)\<rparr>,
      \<exists>a\<in>set (db_artifacts db). af_id a = i \<and> af_expiresAt a \<le> now)"
  "deleteExpiredDataset i now db =
     (db\<lparr>db_datasets := delete_where (\<lambda>d. ds_id d = i \<and> elapsed (ds_expiresAt d) now \<and>
        list_ex (terminalRun (ds_runId d)) (db_runs db)) (db_datasets db)\<rparr>,
      \<exists>d\<in>set (db_datasets db). ds_id d = i \<and> elapsed (ds_expiresAt d) now \<and>
        list_ex (terminalRun (ds_runId d)) (db_runs db))"
  "deleteExpiredStagedUpload i now db =
     (db\<lparr>db_uploads := delete_where (\<lambda>u. up_id u = i \<and> up_expiresAt u \<le> now) (db_uploads db)\<rparr>,
      \<exists>u\<in>set (db_uploads db). up_id u = i \<and> up_expiresAt u \<le> now)"
  "deleteExpiredRunLog i now db =
     (db\<lparr>db_runLogs := delete_where (\<lambda>l. lg_id l = i \<and> lg_expiresAt l \<le> now) (db_runLogs db)\<rparr>,
      \<exists>l\<in>set (db_runLogs db). lg_id l = i \<and> lg_expiresAt l \<le> now)"
  by (simp_all add: deleteExpiredRecord_def deleteExpiredArtifact_def deleteExpiredDataset_def
      deleteExpiredStagedUpload_def deleteExpiredRunLog_def Let_def some_selected)

lemma listed_bounded:
  assumes "g 0 = []"
  shows "listed_ids key (bind_res (validateBatchSize (of_nat n)) (\<lambda>l. Return (map f (g l)))) = map (\<lambda>x. key (f x)) (g n)"
  unfolding validateBatchSize_of_nat using assms by (cases "n = 0") (simp_all add: listed_ids_def comp_def)

lemmas listed_defs = listExpiredArtifacts_def listExpiredDatasets_def listExpiredStagedUploads_def
  listExpiredRunLogs_def listExpiredRuns_def

lemma listed_rows_of:
  "listed_ids xr_id (listExpiredArtifacts now (of_nat n) db) =
     map af_id (expired_rows (\<lambda>a. af_expiresAt a \<le> now) (\<lambda>a. Some (af_expiresAt a)) af_id n (db_artifacts db))"
  "listed_ids xr_id (listExpiredDatasets now (of_nat n) db) =
     map ds_id (expired_rows (\<lambda>d. elapsed (ds_expiresAt d) now) ds_expiresAt ds_id n (datasetsOfTerminalRuns db))"
  "listed_ids xr_id (listExpiredStagedUploads now (of_nat n) db) =
     map up_id (expired_rows (\<lambda>u. up_expiresAt u \<le> now) (\<lambda>u. Some (up_expiresAt u)) up_id n (db_uploads db))"
  "listed_ids xl_id (listExpiredRunLogs now (of_nat n) db) =
     map lg_id (expired_rows (\<lambda>l. lg_expiresAt l \<le> now) (\<lambda>l. Some (lg_expiresAt l)) lg_id n (db_runLogs db))"
  unfolding listed_defs by (subst listed_bounded; simp add: artifactRecord_def datasetRecord_def uploadRecord_def)+

lemma expired_rows_filter: "expired_rows sel ex key n (filter P rows) = expired_rows (\<lambda>r. sel r \<and> P r) ex key n rows"
  by (simp add: expired_rows_def conj_commute)

lemma listed_datasets:
  assumes "db_wf db"
  shows "listed_ids xr_id (listExpiredDatasets now (of_nat n) db) =
    map ds_id (expired_rows (\<lambda>d. elapsed (ds_expiresAt d) now \<and> list_ex (terminalRun (ds_runId d)) (db_runs db))
      ds_expiresAt ds_id n (db_datasets db))"
  by (simp add: listed_rows_of datasetsOfTerminalRuns_filter [OF db_wf_row_ids(5) [OF assms]] expired_rows_filter)

interpretation artifacts: expiring_table db_artifacts af_id "\<lambda>_ a. af_expiresAt a \<le> now" db_wf
  "\<lambda>n db. listed_ids xr_id (listExpiredArtifacts now (of_nat n) db)" "\<lambda>i. deleteExpiredArtifact i now" for now
  by unfold_locales
    (simp_all only: listed_rows_of listed_expired_rows [OF db_wf_row_ids(1)] db_wf_row_ids delete_effects fst_conv snd_conv
       delete_rows_wf, simp_all add: delete_where_def)

interpretation datasets: expiring_table db_datasets ds_id
  "\<lambda>db d. elapsed (ds_expiresAt d) now \<and> list_ex (terminalRun (ds_runId d)) (db_runs db)" db_wf
  "\<lambda>n db. listed_ids xr_id (listExpiredDatasets now (of_nat n) db)" "\<lambda>i. deleteExpiredDataset i now" for now
  by unfold_locales
    (simp_all only: listed_datasets listed_expired_rows [OF db_wf_row_ids(2)] db_wf_row_ids delete_effects fst_conv snd_conv
       delete_rows_wf, simp_all add: delete_where_def)

interpretation uploads: expiring_table db_uploads up_id "\<lambda>_ u. up_expiresAt u \<le> now" db_wf
  "\<lambda>n db. listed_ids xr_id (listExpiredStagedUploads now (of_nat n) db)" "\<lambda>i. deleteExpiredStagedUpload i now" for now
  by unfold_locales
    (simp_all only: listed_rows_of listed_expired_rows [OF db_wf_row_ids(3)] db_wf_row_ids delete_effects fst_conv snd_conv
       delete_rows_wf, simp_all add: delete_where_def)

interpretation run_logs: expiring_table db_runLogs lg_id "\<lambda>_ l. lg_expiresAt l \<le> now" db_wf
  "\<lambda>n db. listed_ids xl_id (listExpiredRunLogs now (of_nat n) db)" "\<lambda>i. deleteExpiredRunLog i now" for now
  by unfold_locales
    (simp_all only: listed_rows_of listed_expired_rows [OF db_wf_row_ids(4)] db_wf_row_ids delete_effects fst_conv snd_conv
       delete_rows_wf, simp_all add: delete_where_def)

section \<open>Deleting a run\<close>

lemma delete_where_never [simp]: "delete_where (\<lambda>_. False) xs = xs"
  by (simp add: delete_where_def)

lemma deleteExpiredRun_ineligible:
  assumes "\<not> list_ex (expiredRun i now) (db_runs db)"
  shows "deleteExpiredRun i now db = Return (db, False)"
proof -
  have none: "\<not> (\<exists>r\<in>set (db_runs db). expiredRun i now r)" using assms by (simp add: list_ex_iff)
  then have runs: "filter (\<lambda>r. expiredRun i now r \<and> Q r) (db_runs db) = []" for Q by (auto simp: filter_empty_conv)
  have kept: "delete_where (\<lambda>r. expiredRun i now r \<and> Q r) (db_runs db) = db_runs db" for Q
    using none by (auto simp: delete_where_def filter_id_conv)
  have empty: "{r \<in> set (db_runs db). expiredRun i now r \<and> Q r} = {}" for Q using none by blast
  have "deleteRuns (\<lambda>r. expiredRun i now r \<and> Q r) db = Return db" for Q
    by (simp only: deleteRuns_Return empty kept image_empty Int_empty_right) simp
  moreover have "deleteJobs (\<lambda>_. False) db = Return db" "deleteRunSteps (\<lambda>_. False) db = Return db"
    by (simp_all add: deleteJobs_Return deleteRunSteps_Return)
  ultimately show ?thesis by (simp add: deleteExpiredRun_def assms runs)
qed

lemma deleteExpiredRun_wf [db_preserves]:
  assumes "db_wf db" and "deleteExpiredRun i now db = Return (db', b)"
  shows "db_wf db'"
proof -
  let ?e = "list_ex (expiredRun i now) (db_runs db)"
  from assms(2) obtain db1 db2 P where
    "deleteJobs (\<lambda>j. jb_runId j = i \<and> ?e) db = Return db1"
    "deleteRunSteps (\<lambda>s. rs_runId s = i \<and> ?e) db1 = Return db2" "deleteRuns P db2 = Return db'"
    by (auto simp: deleteExpiredRun_def Let_def bind_res_Return_iff)
  with assms(1) show ?thesis by (blast intro: deleteJobs_wf deleteRunSteps_wf deleteRuns_wf)
qed

text \<open>What a run must not have for its deletion.\<close>

definition retained :: "string \<Rightarrow> database \<Rightarrow> bool" where
  "retained i db \<longleftrightarrow> list_ex (\<lambda>l. lg_runId l = i) (db_runLogs db) \<or> list_ex (\<lambda>a. af_runId a = i) (db_artifacts db) \<or>
     list_ex (\<lambda>d. ds_runId d = i) (db_datasets db)"

lemma noRemaining_retained:
  "expiredRun i now r \<and> noRemaining lg_runId (db_runLogs db) r \<and> noRemaining af_runId (db_artifacts db) r \<and>
     noRemaining ds_runId (db_datasets db) r \<longleftrightarrow> expiredRun i now r \<and> \<not> retained i db"
  by (auto simp: expiredRun_def noRemaining_def retained_def)

lemma deleteExpiredRun_Return:
  assumes "deleteExpiredRun i now db = Return (db', b)" and "list_ex (expiredRun i now) (db_runs db)"
  shows "b \<longleftrightarrow> \<not> retained i db"
    and "db' = db\<lparr>db_jobs := delete_where (\<lambda>j. jb_runId j = i) (db_jobs db),
      db_runSteps := delete_where (\<lambda>s. rs_runId s = i) (db_runSteps db),
      db_runs := (if b then delete_where (expiredRun i now) (db_runs db) else db_runs db)\<rparr>"
    and "b \<Longrightarrow> \<not> list_ex (\<lambda>e. ev_runId e = i) (db_events db)"
proof -
  let ?P = "\<lambda>r. expiredRun i now r \<and> \<not> retained i db"
  let ?db1 = "db\<lparr>db_jobs := delete_where (\<lambda>j. jb_runId j = i) (db_jobs db)\<rparr>"
  let ?db2 = "?db1\<lparr>db_runSteps := delete_where (\<lambda>s. rs_runId s = i) (db_runSteps db)\<rparr>"
  have same: "retained i ?db2 = retained i db" by (simp add: retained_def)
  have del: "deleteRuns ?P ?db2 = Return db'" and b: "b \<longleftrightarrow> filter ?P (db_runs db) \<noteq> []"
    using assms noRemaining_retained [of i now _ ?db2]
    by (auto simp: deleteExpiredRun_def Let_def bind_res_Return_iff deleteJobs_Return deleteRunSteps_Return same)
  have "filter ?P (db_runs db) \<noteq> [] \<longleftrightarrow> \<not> retained i db"
    using assms(2) by (auto simp: some_selected list_ex_iff)
  with b show flag: "b \<longleftrightarrow> \<not> retained i db" by simp
  from del flag show "db' = db\<lparr>db_jobs := delete_where (\<lambda>j. jb_runId j = i) (db_jobs db),
      db_runSteps := delete_where (\<lambda>s. rs_runId s = i) (db_runSteps db),
      db_runs := (if b then delete_where (expiredRun i now) (db_runs db) else db_runs db)\<rparr>"
    unfolding deleteRuns_Return by (cases b) simp_all
  assume b
  with flag del have "ev_runId ` set (db_events db) \<inter> rn_id ` {r \<in> set (db_runs db). expiredRun i now r} = {}"
    unfolding deleteRuns_Return by simp
  moreover have "i \<in> rn_id ` {r \<in> set (db_runs db). expiredRun i now r}"
    using assms(2) by (force simp: list_ex_iff expiredRun_def)
  ultimately show "\<not> list_ex (\<lambda>e. ev_runId e = i) (db_events db)" by (auto simp: list_ex_iff)
qed

text \<open>The sample pipeline with one expired run and the given events.\<close>

definition expiredDb :: "event_row list \<Rightarrow> database" where
  "expiredDb es = sampleDb\<lparr>db_runs := [sampleRunRow\<lparr>rn_state := RunSucceeded\<rparr>], db_events := es\<rparr>"

definition sampleEventRow :: event_row where
  "sampleEventRow =
     \<lparr>ev_id = ''e1'', ev_pipelineId = ''g0'', ev_runId = ''r1'', ev_runStepId = None, ev_jobId = None,
      ev_workerId = None, ev_event = EvRunQueued, ev_recordsRead = None, ev_recordsWritten = None,
      ev_bytesRead = None, ev_bytesWritten = None, ev_durationMs = None, ev_retryAttempt = None,
      ev_occurredAt = 0\<rparr>"

lemma expiredDb_wf: "db_wf (expiredDb [])"
  by (simp add: db_wf_defs expiredDb_def sampleRunRow_def sampleDb_def emptyDb_def samplePipelineRow_def sampleUser_def
      componentRow_def edgeRow_def sample_defs nullable_def activeRunKeys_def edgeKeyOf_def edgeFromRef_def
      edgeToRef_def componentRef_def triggerFieldsCheck_def)

section \<open>Properties\<close>

text \<open>
  Deleting an expired run, on every branch that returns. The constraints hold
  afterwards. A run that is not expired and terminal is left alone with everything it owns; an
  eligible one loses its jobs and steps, and is itself deleted exactly when no log, artifact or
  dataset of it remains and no event records it.
\<close>

theorem deleteExpiredRun_correct:
  assumes "db_wf db" and "deleteExpiredRun i now db = Return (db', deleted)"
  shows "db_wf db' \<and>
    (deleted \<longleftrightarrow> (\<exists>r\<in>set (db_runs db). rn_id r = i \<and> rn_expiresAt r \<le> now \<and> terminalState (rn_state r)) \<and>
       (\<forall>l\<in>set (db_runLogs db). lg_runId l \<noteq> i) \<and> (\<forall>a\<in>set (db_artifacts db). af_runId a \<noteq> i) \<and>
       (\<forall>d\<in>set (db_datasets db). ds_runId d \<noteq> i)) \<and>
    (if \<exists>r\<in>set (db_runs db). rn_id r = i \<and> rn_expiresAt r \<le> now \<and> terminalState (rn_state r)
     then db' = db\<lparr>db_jobs := filter (\<lambda>j. jb_runId j \<noteq> i) (db_jobs db),
       db_runSteps := filter (\<lambda>s. rs_runId s \<noteq> i) (db_runSteps db),
       db_runs := (if deleted then filter (\<lambda>r. rn_id r \<noteq> i) (db_runs db) else db_runs db)\<rparr>
     else db' = db)"
proof (cases "list_ex (expiredRun i now) (db_runs db)")
  case True
  note ret = deleteExpiredRun_Return [OF assms(2) True]
  from True obtain r where r: "r \<in> set (db_runs db)" "expiredRun i now r" by (auto simp: list_ex_iff)
  have "expiredRun i now x \<longleftrightarrow> rn_id x = i" if "x \<in> set (db_runs db)" for x
  proof
    assume "rn_id x = i"
    with r have "rn_id x = rn_id r" by (simp add: expiredRun_def)
    moreover have "inj_on rn_id (set (db_runs db))"
      using db_wf_row_ids(5) [OF assms(1)] by (simp add: distinct_map)
    ultimately show "expiredRun i now x" using r that by (auto dest: inj_onD)
  qed (simp add: expiredRun_def)
  then have "delete_where (expiredRun i now) (db_runs db) = filter (\<lambda>r. rn_id r \<noteq> i) (db_runs db)"
    by (auto simp: delete_where_def intro: filter_cong)
  with ret r deleteExpiredRun_wf [OF assms] show ?thesis
    by (auto simp: delete_where_def expiredRun_def retained_def list_ex_iff)
next
  case False
  with assms show ?thesis
    by (auto simp: deleteExpiredRun_ineligible list_ex_iff expiredRun_def)
qed

theorem deleteExpiredRun_correct_witness:
  "\<exists>db'. deleteExpiredRun ''r1'' 200 (expiredDb []) = Return (db', True) \<and> db_runs db' = []"
proof -
  have "\<not> isl (deleteExpiredRun ''r1'' 200 (expiredDb []))" by code_simp
  then obtain db' b where ret: "deleteExpiredRun ''r1'' 200 (expiredDb []) = Return (db', b)"
    by (cases "deleteExpiredRun ''r1'' 200 (expiredDb [])") auto
  from deleteExpiredRun_correct [OF expiredDb_wf ret] have "b" "db_runs db' = []"
    by (simp_all add: expiredDb_def sampleRunRow_def sampleDb_def emptyDb_def terminalState_def)
  with ret show ?thesis by simp
qed

text \<open>
  Property C33: a run that an operational event records can never be deleted. Nothing deletes
  events, and every run and step that the scheduler queues is recorded, so the deletion either
  leaves the run or, when nothing else is left of it, fails on a foreign key and is rolled back.
\<close>

theorem recorded_runs_cannot_be_deleted:
  assumes "\<exists>e\<in>set (db_events db). ev_runId e = i"
  shows "(\<forall>db'. deleteExpiredRun i now db \<noteq> Return (db', True)) \<and>
    ((\<exists>r\<in>set (db_runs db). rn_id r = i \<and> rn_expiresAt r \<le> now \<and> terminalState (rn_state r)) \<and>
     (\<forall>l\<in>set (db_runLogs db). lg_runId l \<noteq> i) \<and> (\<forall>a\<in>set (db_artifacts db). af_runId a \<noteq> i) \<and>
     (\<forall>d\<in>set (db_datasets db). ds_runId d \<noteq> i) \<longrightarrow> isl (deleteExpiredRun i now db))"
proof -
  have recorded: "list_ex (\<lambda>e. ev_runId e = i) (db_events db)" using assms by (auto simp: list_ex_iff)
  have no: "deleteExpiredRun i now db \<noteq> Return (db', True)" for db'
  proof
    assume del: "deleteExpiredRun i now db = Return (db', True)"
    then have "list_ex (expiredRun i now) (db_runs db)" using deleteExpiredRun_ineligible by fastforce
    from deleteExpiredRun_Return(3) [OF del this] recorded show False by simp
  qed
  moreover have "isl (deleteExpiredRun i now db)"
    if eligible: "list_ex (expiredRun i now) (db_runs db)" and free: "\<not> retained i db"
  proof (rule ccontr)
    assume "\<not> isl (deleteExpiredRun i now db)"
    then obtain db' b where del: "deleteExpiredRun i now db = Return (db', b)"
      by (cases "deleteExpiredRun i now db") auto
    with deleteExpiredRun_Return(1) [OF del eligible] free no show False by auto
  qed
  ultimately show ?thesis by (auto simp: list_ex_iff retained_def expiredRun_def)
qed

theorem recorded_runs_cannot_be_deleted_witness:
  "isl (deleteExpiredRun ''r1'' 200 (expiredDb [sampleEventRow]))"
  using recorded_runs_cannot_be_deleted [of "expiredDb [sampleEventRow]" "''r1''" 200]
  by (simp add: expiredDb_def sampleRunRow_def sampleEventRow_def sampleDb_def emptyDb_def terminalState_def)

end
