(* ===== verification/Storage.thy ===== *)
theory Storage
  imports Prelude
begin

text \<open>
  Internal storage: \<open>apps/garbage-collector/src/storage.ts\<close> deletes tracked files below the
  storage root, \<open>apps/web/src/uploads/import-storage.ts\<close> writes uploaded files there. An
  absolute path is the list of its segments; the file system is the list of the paths of its
  files and directories, and \<open>denied\<close> says where the operating system refuses an operation.
  Symbolic links are not modelled.
\<close>

section \<open>Paths of POSIX node\<close>

type_synonym path = "string list"

abbreviation slash :: char where
  "slash \<equiv> CHR ''/''"

definition backslash :: char where
  "backslash = CHR 0x5C"

text \<open>Empty segments and \<open>.\<close> disappear, \<open>..\<close> removes the segment before it.\<close>

fun normalize_from :: "path \<Rightarrow> string list \<Rightarrow> path" where
  "normalize_from acc [] = acc"
| "normalize_from acc (s # ss) =
     (if s = [] \<or> s = ''.'' then normalize_from acc ss
      else if s = ''..'' then normalize_from (butlast acc) ss
      else normalize_from (acc @ [s]) ss)"

text \<open>\<open>resolve(root, location)\<close> for an absolute root: an absolute location replaces the root.\<close>

definition node_resolve :: "path \<Rightarrow> string \<Rightarrow> path" where
  "node_resolve storageRoot location =
     normalize_from (if js_startsWith location ''/'' then [] else storageRoot) (js_split slash location)"

fun relative_segments :: "path \<Rightarrow> path \<Rightarrow> string list" where
  "relative_segments [] to = to"
| "relative_segments (a # as) [] = replicate (length (a # as)) ''..''"
| "relative_segments (a # as) (b # bs) =
     (if a = b then relative_segments as bs else replicate (length (a # as)) ''..'' @ b # bs)"

definition node_relative :: "path \<Rightarrow> path \<Rightarrow> string" where
  "node_relative from to = js_join ''/'' (relative_segments from to)"

text \<open>\<open>join(...parts)\<close> for parts without separators: empty parts are left out.\<close>

fun normalize_relative :: "string list \<Rightarrow> string list \<Rightarrow> string list" where
  "normalize_relative acc [] = acc"
| "normalize_relative acc (s # ss) =
     (if s = [] \<or> s = ''.'' then normalize_relative acc ss
      else if s = ''..'' \<and> acc \<noteq> [] \<and> last acc \<noteq> ''..'' then normalize_relative (butlast acc) ss
      else normalize_relative (acc @ [s]) ss)"

definition node_join :: "string list \<Rightarrow> string" where
  "node_join parts =
     (case normalize_relative [] parts of [] \<Rightarrow> ''.'' | s # ss \<Rightarrow> js_join ''/'' (s # ss))"

text \<open>\<open>extname\<close>: from the last dot of the last segment, unless nothing precedes it.\<close>

definition node_extname :: "string \<Rightarrow> string" where
  "node_extname file =
     (let reversed = takeWhile (\<lambda>c. c \<noteq> slash) (dropWhile (\<lambda>c. c = slash) (rev file));
          extension = takeWhile (\<lambda>c. c \<noteq> CHR ''.'') reversed;
          before = drop (length extension + 1) reversed
      in if CHR ''.'' \<notin> set reversed \<or> before = [] \<or> reversed = ''..'' then []
         else CHR ''.'' # rev extension)"

section \<open>Below the storage root\<close>

definition escapesRoot :: "path \<Rightarrow> path \<Rightarrow> bool" where
  "escapesRoot storageRoot path =
     (let relativePath = node_relative storageRoot path
      in length relativePath = 0 \<or> relativePath = ''..'' \<or> js_startsWith relativePath ''../'')"

definition pathForLocation :: "path \<Rightarrow> string \<Rightarrow> (string, path) result" where
  "pathForLocation storageRoot location =
     bind_res (throw_if (length location = 0 \<or> js_includes location [backslash])
       ''Storage location must be a safe relative POSIX path.'') (\<lambda>_.
     let path = node_resolve storageRoot location in
     bind_res (throw_if (escapesRoot storageRoot path) ''Storage location escapes the configured root.'') (\<lambda>_.
     Return path))"

definition resolveWithinRoot :: "path \<Rightarrow> string \<Rightarrow> (string, path) result" where
  "resolveWithinRoot storageRoot location =
     (let destination = node_resolve storageRoot (node_join (js_split slash location)) in
      bind_res (throw_if (escapesRoot storageRoot destination)
        ''Import location escapes the configured storage root.'') (\<lambda>_.
      Return destination))"

section \<open>The file system\<close>

record filesystem =
  fs_files :: "path list"
  fs_dirs :: "path list"

text \<open>\<open>rm(path, { force: true })\<close>: a missing file is no error, a directory is.\<close>

definition fs_rm :: "(path \<Rightarrow> bool) \<Rightarrow> path \<Rightarrow> filesystem \<Rightarrow> (string, filesystem) result" where
  "fs_rm denied path fs =
     (if path \<in> set (fs_dirs fs) \<or> denied path then Throw ''rm''
      else Return (fs\<lparr>fs_files := filter (\<lambda>f. f \<noteq> path) (fs_files fs)\<rparr>))"

text \<open>\<open>mkdir(path, { recursive: true })\<close> fails when a file is in the way.\<close>

definition fs_prefixes :: "path \<Rightarrow> path list" where
  "fs_prefixes path = map (\<lambda>n. take n path) [0 ..< Suc (length path)]"

definition fs_mkdir :: "(path \<Rightarrow> bool) \<Rightarrow> path \<Rightarrow> filesystem \<Rightarrow> (string, filesystem) result" where
  "fs_mkdir denied path fs =
     (if list_ex (\<lambda>p. p \<in> set (fs_files fs) \<or> (denied p \<and> p \<notin> set (fs_dirs fs))) (fs_prefixes path) then Throw ''mkdir''
      else Return (fs\<lparr>fs_dirs := fs_dirs fs @ filter (\<lambda>p. p \<notin> set (fs_dirs fs)) (fs_prefixes path)\<rparr>))"

text \<open>\<open>writeFile(path, contents, { flag: "wx" })\<close> fails when the path exists.\<close>

definition fs_write_new :: "(path \<Rightarrow> bool) \<Rightarrow> path \<Rightarrow> filesystem \<Rightarrow> (string, filesystem) result" where
  "fs_write_new denied path fs =
     (if path \<in> set (fs_files fs) \<or> path \<in> set (fs_dirs fs) \<or> denied path then Throw ''writeFile''
      else Return (fs\<lparr>fs_files := fs_files fs @ [path]\<rparr>))"

section \<open>Lemmas on paths\<close>

definition clean_segment :: "string \<Rightarrow> bool" where
  "clean_segment s \<longleftrightarrow> s \<noteq> [] \<and> s \<noteq> ''.'' \<and> s \<noteq> ''..'' \<and> slash \<notin> set s \<and> backslash \<notin> set s"

lemma relative_prefix: "relative_segments storageRoot (storageRoot @ rest) = rest"
  by (induction storageRoot) auto

lemma relative_not_prefix:
  "(\<nexists>rest. path = storageRoot @ rest) \<Longrightarrow> \<exists>ss. relative_segments storageRoot path = ''..'' # ss"
proof (induction storageRoot path rule: relative_segments.induct)
  case (3 a as b bs)
  then show ?case by (cases "a = b") auto
qed simp_all

lemma join_dotdot: "js_join ''/'' (''..'' # ss) = ''..'' \<or> js_startsWith (js_join ''/'' (''..'' # ss)) ''../''"
  by (cases ss) (auto simp: js_startsWith_def)

lemma escapesRoot_prefix: "\<not> escapesRoot storageRoot path \<Longrightarrow> \<exists>rest. path = storageRoot @ rest \<and> rest \<noteq> []"
proof -
  assume inside: "\<not> escapesRoot storageRoot path"
  have "\<exists>rest. path = storageRoot @ rest"
  proof (rule ccontr)
    assume "\<nexists>rest. path = storageRoot @ rest"
    then obtain ss where "relative_segments storageRoot path = ''..'' # ss" using relative_not_prefix by blast
    with inside join_dotdot [of ss] show False by (auto simp: escapesRoot_def node_relative_def Let_def)
  qed
  moreover have "path \<noteq> storageRoot"
    using inside relative_prefix [of storageRoot "[]"] by (auto simp: escapesRoot_def node_relative_def Let_def)
  ultimately show ?thesis by auto
qed

lemma join_head_dotdot:
  assumes "slash \<notin> set s" and "s \<noteq> ''..''" and "s \<noteq> []"
  shows "js_join ''/'' (s # ss) \<noteq> ''..''" "\<not> js_startsWith (js_join ''/'' (s # ss)) ''../''" "js_join ''/'' (s # ss) \<noteq> []"
proof -
  obtain t where t: "js_join ''/'' (s # ss) = s @ t" "t = [] \<or> hd t = slash" by (cases ss) auto
  show "js_join ''/'' (s # ss) \<noteq> ''..''"
  proof
    assume "js_join ''/'' (s # ss) = ''..''"
    with t assms show False by (cases s rule: list.exhaust; cases "tl s") (auto simp: Cons_eq_append_conv append_eq_Cons_conv)
  qed
  show "\<not> js_startsWith (js_join ''/'' (s # ss)) ''../''"
  proof
    assume "js_startsWith (js_join ''/'' (s # ss)) ''../''"
    then obtain u where u: "s @ t = ''../'' @ u" unfolding t(1) js_startsWith_def
      by (metis append_take_drop_id)
    with assms t(2) show False
      by (cases s rule: list.exhaust; cases "tl s"; cases "tl (tl s)") auto
  qed
  show "js_join ''/'' (s # ss) \<noteq> []" using t(1) assms(3) by simp
qed

lemma escapesRoot_below:
  assumes "rest \<noteq> []" and "clean_segment (hd rest)"
  shows "\<not> escapesRoot storageRoot (storageRoot @ rest)"
proof -
  obtain s ss where "rest = s # ss" using assms(1) by (cases rest) auto
  with assms(2) join_head_dotdot [of s ss] show ?thesis
    by (simp add: escapesRoot_def node_relative_def relative_prefix clean_segment_def)
qed

lemma normalize_clean: "\<forall>s\<in>set ss. clean_segment s \<Longrightarrow> normalize_from acc ss = acc @ ss"
  by (induction ss arbitrary: acc) (auto simp: clean_segment_def)

lemma normalize_relative_clean: "\<forall>s\<in>set ss. clean_segment s \<Longrightarrow> normalize_relative acc ss = acc @ ss"
  by (induction ss arbitrary: acc) (auto simp: clean_segment_def)

lemma set_join: "set (js_join ''/'' ss) \<subseteq> \<Union>(set ` set ss) \<union> {slash}"
  by (induction "''/''" ss rule: js_join.induct) auto

lemma includes_char: "js_includes s [c] \<longleftrightarrow> c \<in> set s"
  by (induction s) (auto simp: js_startsWith_def)

lemma join_not_absolute:
  assumes "ss \<noteq> []" and "\<forall>s\<in>set ss. clean_segment s"
  shows "\<not> js_startsWith (js_join ''/'' ss) ''/''"
proof -
  obtain s ss' where ss: "ss = s # ss'" using assms(1) by (cases ss) auto
  with assms(2) obtain c cs where "s = c # cs" "c \<noteq> slash" by (cases s) (auto simp: clean_segment_def)
  with ss show ?thesis by (cases ss') (auto simp: js_startsWith_def)
qed

lemma resolve_clean:
  assumes "ss \<noteq> []" and "\<forall>s\<in>set ss. clean_segment s"
  shows "node_resolve storageRoot (js_join ''/'' ss) = storageRoot @ ss"
proof -
  have "js_split slash (js_join ''/'' ss) = ss"
    using assms by (intro split_join) (auto simp: clean_segment_def)
  with join_not_absolute [OF assms] normalize_clean [OF assms(2)] show ?thesis by (simp add: node_resolve_def)
qed

lemma pathForLocation_clean:
  assumes "ss \<noteq> []" and "\<forall>s\<in>set ss. clean_segment s"
  shows "pathForLocation storageRoot (js_join ''/'' ss) = Return (storageRoot @ ss)"
proof -
  have "backslash \<notin> \<Union>(set ` set ss)" using assms(2) by (auto simp: clean_segment_def)
  moreover have "backslash \<noteq> slash" by code_simp
  ultimately have "backslash \<notin> set (js_join ''/'' ss)" using set_join [of ss] by blast
  moreover have "js_join ''/'' ss \<noteq> []"
    using assms join_head_dotdot(3) by (cases ss) (auto simp: clean_segment_def)
  moreover have "\<not> escapesRoot storageRoot (storageRoot @ ss)" using assms by (intro escapesRoot_below) auto
  ultimately show ?thesis
    by (simp add: pathForLocation_def includes_char throw_if_def resolve_clean [OF assms])
qed

lemma resolveWithinRoot_clean:
  assumes "ss \<noteq> []" and "\<forall>s\<in>set ss. clean_segment s"
  shows "resolveWithinRoot storageRoot (js_join ''/'' ss) = Return (storageRoot @ ss)"
proof -
  have "js_split slash (js_join ''/'' ss) = ss"
    using assms by (intro split_join) (auto simp: clean_segment_def)
  then have "node_join (js_split slash (js_join ''/'' ss)) = js_join ''/'' ss"
    using assms normalize_relative_clean [OF assms(2), of "[]"] by (cases ss) (simp_all add: node_join_def)
  moreover have "\<not> escapesRoot storageRoot (storageRoot @ ss)" using assms by (intro escapesRoot_below) auto
  ultimately show ?thesis by (simp add: resolveWithinRoot_def throw_if_def resolve_clean [OF assms])
qed

section \<open>Properties\<close>

text \<open>
  A location that the collector accepts resolves to a path strictly below the storage
  root, whatever it contains, and a relative location of ordinary segments is accepted and resolves
  to exactly those segments below the root.
\<close>

theorem storage_locations_stay_below_root:
  "(pathForLocation storageRoot location = Return path \<longrightarrow> (\<exists>rest. path = storageRoot @ rest \<and> rest \<noteq> [])) \<and>
   (ss \<noteq> [] \<and> (\<forall>s\<in>set ss. clean_segment s) \<longrightarrow>
      pathForLocation storageRoot (js_join ''/'' ss) = Return (storageRoot @ ss))"
proof (intro conjI impI)
  assume "pathForLocation storageRoot location = Return path"
  then have "\<not> escapesRoot storageRoot path"
    by (auto simp: pathForLocation_def Let_def bind_res_Return_iff throw_if_iff)
  then show "\<exists>rest. path = storageRoot @ rest \<and> rest \<noteq> []" by (rule escapesRoot_prefix)
qed (simp add: pathForLocation_clean)

theorem storage_locations_stay_below_root_witness:
  "pathForLocation [''srv'', ''storage''] ''imports/uploads/a.csv'' =
     Return [''srv'', ''storage'', ''imports'', ''uploads'', ''a.csv''] \<and>
   isl (pathForLocation [''srv'', ''storage''] ''../secret'')"
proof -
  have "\<forall>s\<in>set [''imports'', ''uploads'', ''a.csv'']. clean_segment s"
    by (simp add: clean_segment_def backslash_def)
  then have "pathForLocation [''srv'', ''storage''] (js_join ''/'' [''imports'', ''uploads'', ''a.csv'']) =
      Return ([''srv'', ''storage''] @ [''imports'', ''uploads'', ''a.csv''])"
    using storage_locations_stay_below_root [of "[''srv'', ''storage'']" "[]" "[]" "[''imports'', ''uploads'', ''a.csv'']"]
    by blast
  moreover have "isl (pathForLocation [''srv'', ''storage''] ''../secret'')" by code_simp
  ultimately show ?thesis by simp
qed

end
