(* ===== verification/Garbage_Collector.thy ===== *)
theory Garbage_Collector
  imports Retention Storage
begin

text \<open>
  \<open>apps/garbage-collector/src\<close>: deletion of one stored object, the storage cleanup pass, the run
  and log cleanup pass, and the runtime that repeats them. The deletions that a pass starts with
  \<open>Promise.all\<close> are independent of each other and happen here in the order of the list; a
  rejected one does not undo the others.
\<close>

section \<open>Storage\<close>

datatype StorageCleanupResult = Handled | Unsupported

definition storageDelete ::
  "(path \<Rightarrow> bool) \<Rightarrow> path \<Rightarrow> ExpiredRecord \<Rightarrow> filesystem \<Rightarrow> (string, filesystem \<times> StorageCleanupResult) result" where
  "storageDelete denied storageRoot object fs =
     (if xr_storageKind object \<noteq> LocalStorage then Return (fs, Unsupported)
      else
        bind_res (pathForLocation storageRoot (xr_storageLocation object)) (\<lambda>path.
        bind_res (fs_rm denied path fs) (\<lambda>fs. Return (fs, Handled))))"

section \<open>Summaries\<close>

record CleanupSummary =
  cs_candidates :: nat
  cs_metadataDeleted :: nat
  cs_failed :: nat
  cs_skipped :: nat

definition emptySummary :: CleanupSummary where
  "emptySummary = \<lparr>cs_candidates = 0, cs_metadataDeleted = 0, cs_failed = 0, cs_skipped = 0\<rparr>"

definition addSummaries :: "CleanupSummary \<Rightarrow> CleanupSummary \<Rightarrow> CleanupSummary" where
  "addSummaries left right =
     \<lparr>cs_candidates = cs_candidates left + cs_candidates right,
      cs_metadataDeleted = cs_metadataDeleted left + cs_metadataDeleted right,
      cs_failed = cs_failed left + cs_failed right,
      cs_skipped = cs_skipped left + cs_skipped right\<rparr>"

definition countDeleted :: "bool list \<Rightarrow> nat" where
  "countDeleted results = length (filter (\<lambda>b. b) results)"

record ExecutionCleanupSummary =
  ec_logsDeleted :: nat
  ec_runCandidates :: nat
  ec_runsDeleted :: nat

section \<open>Storage cleanup\<close>

definition cleanupRecord ::
  "(path \<Rightarrow> bool) \<Rightarrow> path \<Rightarrow> (string \<Rightarrow> 'd \<Rightarrow> 'd \<times> bool) \<Rightarrow> ExpiredRecord \<Rightarrow> filesystem \<times> 'd \<Rightarrow>
   (filesystem \<times> 'd) \<times> CleanupSummary" where
  "cleanupRecord denied storageRoot deleteMetadata record fd = (case fd of (fs, db) \<Rightarrow>
     (case storageDelete denied storageRoot record fs of
        Inl _ \<Rightarrow> ((fs, db), emptySummary\<lparr>cs_candidates := 1, cs_failed := 1\<rparr>)
      | Inr (fs, Unsupported) \<Rightarrow> ((fs, db), emptySummary\<lparr>cs_candidates := 1, cs_skipped := 1\<rparr>)
      | Inr (fs, Handled) \<Rightarrow>
          (case deleteMetadata (xr_id record) db of (db, metadataDeleted) \<Rightarrow>
             ((fs, db), emptySummary\<lparr>cs_candidates := 1, cs_metadataDeleted := of_bool metadataDeleted\<rparr>))))"

fun cleanupRecords ::
  "(path \<Rightarrow> bool) \<Rightarrow> path \<Rightarrow> (string \<Rightarrow> 'd \<Rightarrow> 'd \<times> bool) \<Rightarrow> ExpiredRecord list \<Rightarrow> filesystem \<times> 'd \<Rightarrow>
   (filesystem \<times> 'd) \<times> CleanupSummary" where
  "cleanupRecords denied storageRoot deleteMetadata [] fd = (fd, emptySummary)"
| "cleanupRecords denied storageRoot deleteMetadata (r # rs) fd =
     (case cleanupRecord denied storageRoot deleteMetadata r fd of (fd, s) \<Rightarrow>
      (case cleanupRecords denied storageRoot deleteMetadata rs fd of (fd, t) \<Rightarrow> (fd, addSummaries s t)))"

definition retentionCleanup ::
  "(path \<Rightarrow> bool) \<Rightarrow> path \<Rightarrow> rat \<Rightarrow> time \<Rightarrow> filesystem \<times> database \<Rightarrow>
   (string, (filesystem \<times> database) \<times> CleanupSummary) result" where
  "retentionCleanup denied storageRoot batchSize now fd =
     bind_res (listExpiredArtifacts now batchSize (snd fd)) (\<lambda>artifacts.
     bind_res (listExpiredDatasets now batchSize (snd fd)) (\<lambda>datasets.
     bind_res (listExpiredStagedUploads now batchSize (snd fd)) (\<lambda>uploads.
     case cleanupRecords denied storageRoot (\<lambda>i. deleteExpiredArtifact i now) artifacts fd of (fd, a) \<Rightarrow>
     case cleanupRecords denied storageRoot (\<lambda>i. deleteExpiredDataset i now) datasets fd of (fd, d) \<Rightarrow>
     case cleanupRecords denied storageRoot (\<lambda>i. deleteExpiredStagedUpload i now) uploads fd of (fd, u) \<Rightarrow>
     Return (fd, addSummaries (addSummaries (addSummaries emptySummary a) d) u))))"

section \<open>Run and log cleanup\<close>

fun deleteAll :: "(string \<Rightarrow> 'd \<Rightarrow> 'd \<times> bool) \<Rightarrow> string list \<Rightarrow> 'd \<Rightarrow> 'd \<times> bool list" where
  "deleteAll del [] db = (db, [])"
| "deleteAll del (i # is) db =
     (case del i db of (db, b) \<Rightarrow> (case deleteAll del is db of (db, bs) \<Rightarrow> (db, b # bs)))"

text \<open>A transaction that fails is rolled back; the others go on, and the first error is reported.\<close>

fun deleteRunsEach :: "time \<Rightarrow> string list \<Rightarrow> database \<Rightarrow> database \<times> (db_error, bool list) result" where
  "deleteRunsEach now [] db = (db, Return [])"
| "deleteRunsEach now (i # is) db =
     (case deleteExpiredRun i now db of
        Inl e \<Rightarrow> (fst (deleteRunsEach now is db), Throw e)
      | Inr (db, b) \<Rightarrow>
          (case deleteRunsEach now is db of (db, r) \<Rightarrow> (db, bind_res r (\<lambda>bs. Return (b # bs)))))"

datatype cleanup_error = CleanupBatchError string | CleanupDatabaseError db_error

definition executionRetentionCleanup ::
  "rat \<Rightarrow> time \<Rightarrow> database \<Rightarrow> database \<times> (cleanup_error, ExecutionCleanupSummary) result" where
  "executionRetentionCleanup batchSize now db =
     (case listExpiredRunLogs now batchSize db of
        Inl e \<Rightarrow> (db, Throw (CleanupBatchError e))
      | Inr expiredLogs \<Rightarrow>
          (case deleteAll (\<lambda>i. deleteExpiredRunLog i now) (map xl_id expiredLogs) db of (db, deletedLogs) \<Rightarrow>
          (case listExpiredRuns now batchSize db of
             Inl e \<Rightarrow> (db, Throw (CleanupBatchError e))
           | Inr expiredRuns \<Rightarrow>
               (case deleteRunsEach now (map xn_id expiredRuns) db of (db, r) \<Rightarrow>
                  (db, bind_res (map_err CleanupDatabaseError r) (\<lambda>deletedRuns.
                     Return \<lparr>ec_logsDeleted = countDeleted deletedLogs,
                             ec_runCandidates = length expiredRuns,
                             ec_runsDeleted = countDeleted deletedRuns\<rparr>))))))"

text \<open>The pass that the service repeats: \<open>main.ts\<close>.\<close>

definition collectorPass ::
  "(path \<Rightarrow> bool) \<Rightarrow> path \<Rightarrow> rat \<Rightarrow> time \<Rightarrow> filesystem \<times> database \<Rightarrow>
   (filesystem \<times> database) \<times> (cleanup_error, unit) result" where
  "collectorPass denied storageRoot batchSize now fd =
     (case retentionCleanup denied storageRoot batchSize now fd of
        Inl e \<Rightarrow> (fd, Throw (CleanupBatchError e))
      | Inr ((fs, db), _) \<Rightarrow>
          (case executionRetentionCleanup batchSize now db of (db, r) \<Rightarrow>
             ((fs, db), bind_res r (\<lambda>_. Return ()))))"

section \<open>The runtime\<close>

record 'w collector =
  co_timer :: "nat option"
  co_failures :: nat
  co_world :: 'w

definition runCleanup :: "('w \<Rightarrow> 'w \<times> ('e, unit) result) \<Rightarrow> 'w collector \<Rightarrow> 'w collector" where
  "runCleanup cleanup s =
     (case cleanup (co_world s) of (w, r) \<Rightarrow>
        s\<lparr>co_world := w, co_failures := co_failures s + (case r of Inl _ \<Rightarrow> 1 | Inr _ \<Rightarrow> 0)\<rparr>)"

definition startCollector :: "('w \<Rightarrow> 'w \<times> ('e, unit) result) \<Rightarrow> nat \<Rightarrow> 'w collector \<Rightarrow> 'w collector" where
  "startCollector cleanup interval s =
     (if co_timer s \<noteq> None then s else (runCleanup cleanup s)\<lparr>co_timer := Some interval\<rparr>)"

definition tickCollector :: "('w \<Rightarrow> 'w \<times> ('e, unit) result) \<Rightarrow> 'w collector \<Rightarrow> 'w collector" where
  "tickCollector cleanup s = (if co_timer s \<noteq> None then runCleanup cleanup s else s)"

definition stopCollector :: "'w collector \<Rightarrow> 'w collector" where
  "stopCollector s = (if co_timer s \<noteq> None then s\<lparr>co_timer := None\<rparr> else s)"

section \<open>What a cleanup of records does\<close>

text \<open>The path that is removed for a record, when the storage handles it.\<close>

definition handledPath :: "(path \<Rightarrow> bool) \<Rightarrow> path \<Rightarrow> path list \<Rightarrow> ExpiredRecord \<Rightarrow> path option" where
  "handledPath denied storageRoot dirs r =
     (if xr_storageKind r \<noteq> LocalStorage then None
      else (case pathForLocation storageRoot (xr_storageLocation r) of
              Inl _ \<Rightarrow> None
            | Inr path \<Rightarrow> if path \<in> set dirs \<or> denied path then None else Some path))"

lemma storageDelete_handled:
  "handledPath denied storageRoot (fs_dirs fs) r = Some path \<Longrightarrow>
     storageDelete denied storageRoot r fs = Return (fs\<lparr>fs_files := filter (\<lambda>f. f \<noteq> path) (fs_files fs)\<rparr>, Handled)"
  by (auto simp: handledPath_def storageDelete_def fs_rm_def split: if_splits sum.splits)

lemma storageDelete_unhandled:
  assumes "handledPath denied storageRoot (fs_dirs fs) r = None"
  shows "storageDelete denied storageRoot r fs =
    (if xr_storageKind r \<noteq> LocalStorage then Return (fs, Unsupported) else storageDelete denied storageRoot r fs)"
    and "xr_storageKind r = LocalStorage \<Longrightarrow> isl (storageDelete denied storageRoot r fs)"
  using assms
  by (auto simp: handledPath_def storageDelete_def fs_rm_def bind_res_def split: if_splits sum.splits)

definition handledRecords :: "(path \<Rightarrow> bool) \<Rightarrow> path \<Rightarrow> path list \<Rightarrow> ExpiredRecord list \<Rightarrow> ExpiredRecord list" where
  "handledRecords denied storageRoot dirs rs = filter (\<lambda>r. handledPath denied storageRoot dirs r \<noteq> None) rs"

definition removedPaths :: "(path \<Rightarrow> bool) \<Rightarrow> path \<Rightarrow> path list \<Rightarrow> ExpiredRecord list \<Rightarrow> path list" where
  "removedPaths denied storageRoot dirs rs = List.map_filter (handledPath denied storageRoot dirs) rs"

lemma cleanupRecord_cases:
  "cleanupRecord denied storageRoot del r (fs, d) =
     (case handledPath denied storageRoot (fs_dirs fs) r of
        None \<Rightarrow> ((fs, d), emptySummary\<lparr>cs_candidates := 1,
          cs_failed := of_bool (xr_storageKind r = LocalStorage), cs_skipped := of_bool (xr_storageKind r \<noteq> LocalStorage)\<rparr>)
      | Some path \<Rightarrow> ((fs\<lparr>fs_files := filter (\<lambda>f. f \<noteq> path) (fs_files fs)\<rparr>, fst (del (xr_id r) d)),
          emptySummary\<lparr>cs_candidates := 1, cs_metadataDeleted := of_bool (snd (del (xr_id r) d))\<rparr>))"
proof (cases "handledPath denied storageRoot (fs_dirs fs) r")
  case None
  show ?thesis
  proof (cases "xr_storageKind r = LocalStorage")
    case True
    from storageDelete_unhandled(2) [OF None True] obtain e where "storageDelete denied storageRoot r fs = Throw e"
      by (cases "storageDelete denied storageRoot r fs") auto
    with None True show ?thesis by (simp add: cleanupRecord_def emptySummary_def)
  next
    case False
    with None show ?thesis by (simp add: cleanupRecord_def storageDelete_def emptySummary_def)
  qed
next
  case (Some path)
  with storageDelete_handled [OF Some] show ?thesis by (simp add: cleanupRecord_def split: prod.splits)
qed

lemma cleanupRecords_files:
  "cleanupRecords denied storageRoot del rs (fs, d) = ((fs', d'), s) \<Longrightarrow>
     fs_dirs fs' = fs_dirs fs \<and>
     fs_files fs' = filter (\<lambda>f. f \<notin> set (removedPaths denied storageRoot (fs_dirs fs) rs)) (fs_files fs)"
proof (induction rs arbitrary: fs d s)
  case (Cons r rs)
  obtain fs1 d1 s1 where one: "cleanupRecord denied storageRoot del r (fs, d) = ((fs1, d1), s1)"
    by (metis prod.collapse)
  with Cons.prems obtain s2 where rest: "cleanupRecords denied storageRoot del rs (fs1, d1) = ((fs', d'), s2)"
    by (auto split: prod.splits)
  have fs1: "fs_dirs fs1 = fs_dirs fs"
    "fs_files fs1 = filter (\<lambda>f. handledPath denied storageRoot (fs_dirs fs) r \<noteq> Some f) (fs_files fs)"
    using one by (auto simp: cleanupRecord_cases split: option.splits intro: filter_cong)
  from Cons.IH [OF rest] fs1 show ?case
    by (auto simp: removedPaths_def List.map_filter_def split: option.splits intro: filter_cong)
qed (simp add: removedPaths_def List.map_filter_def)

lemma cleanupRecords_keeps:
  assumes "\<And>i d. f (fst (del i d)) = f d"
  shows "cleanupRecords denied storageRoot del rs (fs, d) = ((fs', d'), s) \<Longrightarrow> f d' = f d"
proof (induction rs arbitrary: fs d s)
  case (Cons r rs)
  obtain fs1 d1 s1 where one: "cleanupRecord denied storageRoot del r (fs, d) = ((fs1, d1), s1)"
    by (metis prod.collapse)
  with Cons.prems obtain s2 where rest: "cleanupRecords denied storageRoot del rs (fs1, d1) = ((fs', d'), s2)"
    by (auto split: prod.splits)
  have "f d1 = f d" using one assms by (auto simp: cleanupRecord_cases split: option.splits)
  with Cons.IH [OF rest] show ?case by simp
qed simp

context expiring_table
begin

text \<open>
  A cleanup of records that are selected rows deletes the rows of exactly the handled ones, and
  counts every record once.
\<close>

lemma cleanupRecords_rows:
  assumes "cleanupRecords denied storageRoot del rs (fs, d) = ((fs', d'), s)" and "wf d"
    and "distinct (map xr_id rs)" and "\<forall>r\<in>set rs. \<exists>x\<in>set (rows d). key x = xr_id r \<and> selected d x"
  shows "wf d' \<and>
    rows d' = filter (\<lambda>x. \<not> (key x \<in> xr_id ` set (handledRecords denied storageRoot (fs_dirs fs) rs) \<and> selected d x)) (rows d) \<and>
    cs_candidates s = length rs \<and>
    cs_metadataDeleted s = length (handledRecords denied storageRoot (fs_dirs fs) rs) \<and>
    cs_skipped s = length (filter (\<lambda>r. xr_storageKind r \<noteq> LocalStorage) rs) \<and>
    cs_candidates s = cs_metadataDeleted s + cs_failed s + cs_skipped s"
  using assms
proof (induction rs arbitrary: fs d s)
  case Nil
  then show ?case by (auto simp: emptySummary_def handledRecords_def)
next
  case (Cons r rs)
  obtain fs1 d1 s1 where one: "cleanupRecord denied storageRoot del r (fs, d) = ((fs1, d1), s1)"
    by (metis prod.collapse)
  with Cons.prems(1) obtain s2 where rest: "cleanupRecords denied storageRoot del rs (fs1, d1) = ((fs', d'), s2)"
    and s: "s = addSummaries s1 s2"
    by (auto split: prod.splits)
  have dirs: "fs_dirs fs1 = fs_dirs fs" using one by (auto simp: cleanupRecord_cases split: option.splits)
  have flag: "snd (del (xr_id r) d)" using Cons.prems(2,4) by (simp add: del_flag)
  have other: "\<forall>q\<in>set rs. xr_id q \<noteq> xr_id r" using Cons.prems(3) by (metis distinct.simps(2) imageI list.set_map list.simps(9))
  have wf1: "wf d1" and sel1: "selected d1 = selected d"
    using one Cons.prems(2) by (auto simp: cleanupRecord_cases del_wf del_selected split: option.splits)
  have rows1: "rows d1 = filter (\<lambda>x. \<not> (handledPath denied storageRoot (fs_dirs fs) r \<noteq> None \<and> key x = xr_id r \<and> selected d x)) (rows d)"
    using one Cons.prems(2) by (auto simp: cleanupRecord_cases del_rows split: option.splits)
  have "\<forall>q\<in>set rs. \<exists>x\<in>set (rows d1). key x = xr_id q \<and> selected d1 x"
    using Cons.prems(4) other by (fastforce simp: rows1 sel1)
  moreover have "distinct (map xr_id rs)" using Cons.prems(3) by simp
  ultimately have ih: "wf d'"
    "rows d' = filter (\<lambda>x. \<not> (key x \<in> xr_id ` set (handledRecords denied storageRoot (fs_dirs fs) rs) \<and> selected d x)) (rows d1)"
    "cs_candidates s2 = length rs"
    "cs_metadataDeleted s2 = length (handledRecords denied storageRoot (fs_dirs fs) rs)"
    "cs_skipped s2 = length (filter (\<lambda>r. xr_storageKind r \<noteq> LocalStorage) rs)"
    "cs_candidates s2 = cs_metadataDeleted s2 + cs_failed s2 + cs_skipped s2"
    using Cons.IH [OF rest wf1] by (simp_all add: dirs sel1)
  have "rows d' = filter (\<lambda>x. \<not> (key x \<in> xr_id ` set (handledRecords denied storageRoot (fs_dirs fs) (r # rs)) \<and> selected d x)) (rows d)"
    unfolding ih(2) rows1 by (auto simp: handledRecords_def intro: filter_cong)
  moreover have "handledPath denied storageRoot (fs_dirs fs) r \<noteq> None \<Longrightarrow> xr_storageKind r = LocalStorage"
    by (auto simp: handledPath_def split: if_splits)
  then have "cs_candidates s1 = 1" "cs_metadataDeleted s1 = of_bool (handledPath denied storageRoot (fs_dirs fs) r \<noteq> None)"
    "cs_skipped s1 = of_bool (xr_storageKind r \<noteq> LocalStorage)"
    "cs_candidates s1 = cs_metadataDeleted s1 + cs_failed s1 + cs_skipped s1"
    using one flag by (auto simp: cleanupRecord_cases emptySummary_def split: option.splits)
  ultimately show ?case using ih(1,3-6) by (auto simp: s addSummaries_def handledRecords_def)
qed

end

section \<open>What a storage cleanup pass does\<close>

definition expiredArtifact :: "time \<Rightarrow> artifact_row \<Rightarrow> bool" where
  "expiredArtifact now a \<longleftrightarrow> af_expiresAt a \<le> now"

definition expiredDataset :: "time \<Rightarrow> database \<Rightarrow> dataset_row \<Rightarrow> bool" where
  "expiredDataset now db d \<longleftrightarrow> elapsed (ds_expiresAt d) now \<and> list_ex (terminalRun (ds_runId d)) (db_runs db)"

definition expiredUpload :: "time \<Rightarrow> upload_row \<Rightarrow> bool" where
  "expiredUpload now u \<longleftrightarrow> up_expiresAt u \<le> now"

text \<open>A record of a row that may be collected: an expired artifact or upload, or an expired dataset of an ended run.\<close>

definition collectable :: "time \<Rightarrow> database \<Rightarrow> ExpiredRecord \<Rightarrow> bool" where
  "collectable now db r \<longleftrightarrow>
     (\<exists>a\<in>set (db_artifacts db). expiredArtifact now a \<and> r = artifactRecord a) \<or>
     (\<exists>d\<in>set (db_datasets db). expiredDataset now db d \<and> r = datasetRecord d) \<or>
     (\<exists>u\<in>set (db_uploads db). expiredUpload now u \<and> r = uploadRecord u)"

lemmas expired_defs = expiredArtifact_def expiredDataset_def expiredUpload_def
lemmas record_defs = artifactRecord_def datasetRecord_def uploadRecord_def

lemma expired_rows_all:
  "length (filter sel rows) \<le> n \<Longrightarrow> set (expired_rows sel ex key n rows) = {r \<in> set rows. sel r}"
  by (auto simp: expired_rows_def)

lemma listing:
  assumes "distinct (map key rows)" and "\<And>x. xr_id (record x) = key x"
    and "rs = map record (expired_rows sel ex key n rows)"
  shows "distinct (map xr_id rs)" and "\<forall>r\<in>set rs. \<exists>x\<in>set rows. sel x \<and> r = record x"
    and "length (filter sel rows) \<le> n \<Longrightarrow> set rs = record ` {x \<in> set rows. sel x}"
proof -
  have "distinct rows" "inj_on key (set rows)" using assms(1) by (simp_all add: distinct_map)
  moreover have "map xr_id rs = map key (expired_rows sel ex key n rows)" by (simp add: assms(2,3))
  ultimately show "distinct (map xr_id rs)"
    using expired_rows_props(2,3) [where sel = sel and ex = ex and key = key and n = n and rows = rows]
    by (auto simp: distinct_map intro: inj_on_subset)
  show "\<forall>r\<in>set rs. \<exists>x\<in>set rows. sel x \<and> r = record x"
    using expired_rows_props(2) [where sel = sel and ex = ex and key = key and n = n and rows = rows]
    by (auto simp: assms(3))
  show "length (filter sel rows) \<le> n \<Longrightarrow> set rs = record ` {x \<in> set rows. sel x}"
    using expired_rows_all [where sel = sel and ex = ex and key = key and n = n and rows = rows]
    by (simp add: assms(3))
qed

lemma listExpiredDatasets_eq:
  assumes "db_wf db"
  shows "listExpiredDatasets now b db =
    bind_res (validateBatchSize b) (\<lambda>n. Return (map datasetRecord
      (expired_rows (expiredDataset now db) ds_expiresAt ds_id n (db_datasets db))))"
  by (simp add: listExpiredDatasets_def datasetsOfTerminalRuns_filter [OF db_wf_row_ids(5) [OF assms]]
      expired_rows_filter expired_defs [abs_def])

lemma cleanup_deletions_keep:
  "db_datasets (fst (deleteExpiredArtifact i now db)) = db_datasets db"
  "db_uploads (fst (deleteExpiredArtifact i now db)) = db_uploads db"
  "db_artifacts (fst (deleteExpiredDataset i now db)) = db_artifacts db"
  "db_uploads (fst (deleteExpiredDataset i now db)) = db_uploads db"
  "db_artifacts (fst (deleteExpiredStagedUpload i now db)) = db_artifacts db"
  "db_datasets (fst (deleteExpiredStagedUpload i now db)) = db_datasets db"
  "db_runs (fst (deleteExpiredArtifact i now db)) = db_runs db"
  "db_runs (fst (deleteExpiredDataset i now db)) = db_runs db"
  "db_runs (fst (deleteExpiredStagedUpload i now db)) = db_runs db"
  by (simp_all add: delete_effects)

text \<open>The rows of the three tables and the files after a pass.\<close>

lemma retentionCleanup_Return:
  assumes wf: "db_wf db" and ret: "retentionCleanup denied R b now (fs, db) = Return ((fs', db'), s)"
  obtains as ds us n where
    "validateBatchSize b = Return n"
    "as = map artifactRecord (expired_rows (expiredArtifact now) (\<lambda>a. Some (af_expiresAt a)) af_id n (db_artifacts db))"
    "ds = map datasetRecord (expired_rows (expiredDataset now db) ds_expiresAt ds_id n (db_datasets db))"
    "us = map uploadRecord (expired_rows (expiredUpload now) (\<lambda>u. Some (up_expiresAt u)) up_id n (db_uploads db))"
    "db_wf db'"
    "db_artifacts db' = filter (\<lambda>a. \<not> (af_id a \<in> xr_id ` set (handledRecords denied R (fs_dirs fs) as) \<and> expiredArtifact now a)) (db_artifacts db)"
    "db_datasets db' = filter (\<lambda>d. \<not> (ds_id d \<in> xr_id ` set (handledRecords denied R (fs_dirs fs) ds) \<and> expiredDataset now db d)) (db_datasets db)"
    "db_uploads db' = filter (\<lambda>u. \<not> (up_id u \<in> xr_id ` set (handledRecords denied R (fs_dirs fs) us) \<and> expiredUpload now u)) (db_uploads db)"
    "db_runs db' = db_runs db"
    "fs_files fs' = filter (\<lambda>f. f \<notin> set (removedPaths denied R (fs_dirs fs) (as @ ds @ us))) (fs_files fs)"
    "cs_candidates s = length as + length ds + length us"
    "cs_candidates s = cs_metadataDeleted s + cs_failed s + cs_skipped s"
    "cs_metadataDeleted s = length (handledRecords denied R (fs_dirs fs) as) +
       length (handledRecords denied R (fs_dirs fs) ds) + length (handledRecords denied R (fs_dirs fs) us)"
proof -
  let ?del_a = "\<lambda>i. deleteExpiredArtifact i now" and ?del_d = "\<lambda>i. deleteExpiredDataset i now"
    and ?del_u = "\<lambda>i. deleteExpiredStagedUpload i now"
  from ret obtain n where n: "validateBatchSize b = Return n"
    by (auto simp: retentionCleanup_def listExpiredArtifacts_def bind_res_Return_iff)
  define as where "as = map artifactRecord (expired_rows (expiredArtifact now) (\<lambda>a. Some (af_expiresAt a)) af_id n (db_artifacts db))"
  define ds where "ds = map datasetRecord (expired_rows (expiredDataset now db) ds_expiresAt ds_id n (db_datasets db))"
  define us where "us = map uploadRecord (expired_rows (expiredUpload now) (\<lambda>u. Some (up_expiresAt u)) up_id n (db_uploads db))"
  have lists: "listExpiredArtifacts now b db = Return as" "listExpiredDatasets now b db = Return ds"
    "listExpiredStagedUploads now b db = Return us"
    by (simp_all add: as_def ds_def us_def n listExpiredArtifacts_def listExpiredStagedUploads_def
        listExpiredDatasets_eq [OF wf] expired_defs [abs_def])
  from ret obtain fs1 db1 s1 fs2 db2 s2 s3 where
    c1: "cleanupRecords denied R ?del_a as (fs, db) = ((fs1, db1), s1)" and
    c2: "cleanupRecords denied R ?del_d ds (fs1, db1) = ((fs2, db2), s2)" and
    c3: "cleanupRecords denied R ?del_u us (fs2, db2) = ((fs', db'), s3)" and
    s: "s = addSummaries (addSummaries (addSummaries emptySummary s1) s2) s3"
    by (auto simp: retentionCleanup_def lists split: prod.splits)
  note ids = db_wf_row_ids [OF wf]
  note la = listing [OF ids(1) _ as_def] and ld = listing [OF ids(2) _ ds_def] and lu = listing [OF ids(3) _ us_def]
  have k1: "db_datasets db1 = db_datasets db" "db_uploads db1 = db_uploads db" "db_runs db1 = db_runs db"
    by (rule cleanupRecords_keeps [OF cleanup_deletions_keep(1) c1] cleanupRecords_keeps [OF cleanup_deletions_keep(2) c1]
        cleanupRecords_keeps [OF cleanup_deletions_keep(7) c1])+
  have k2: "db_artifacts db2 = db_artifacts db1" "db_uploads db2 = db_uploads db1" "db_runs db2 = db_runs db1"
    by (rule cleanupRecords_keeps [OF cleanup_deletions_keep(3) c2] cleanupRecords_keeps [OF cleanup_deletions_keep(4) c2]
        cleanupRecords_keeps [OF cleanup_deletions_keep(8) c2])+
  have k3: "db_artifacts db' = db_artifacts db2" "db_datasets db' = db_datasets db2" "db_runs db' = db_runs db2"
    by (rule cleanupRecords_keeps [OF cleanup_deletions_keep(5) c3] cleanupRecords_keeps [OF cleanup_deletions_keep(6) c3]
        cleanupRecords_keeps [OF cleanup_deletions_keep(9) c3])+
  have r1: "\<forall>r\<in>set as. \<exists>x\<in>set (db_artifacts db). af_id x = xr_id r \<and> af_expiresAt x \<le> now"
    using la(2) by (fastforce simp: record_defs expired_defs)
  note t1 = artifacts.cleanupRecords_rows [OF c1 wf _ r1]
  have d1: "distinct (map xr_id as)" by (rule la(1)) (simp add: record_defs)
  have wf1: "db_wf db1" using t1 d1 by blast
  have r2: "\<forall>r\<in>set ds. \<exists>x\<in>set (db_datasets db1). ds_id x = xr_id r \<and> elapsed (ds_expiresAt x) now \<and>
      list_ex (terminalRun (ds_runId x)) (db_runs db1)"
    using ld(2) by (fastforce simp: record_defs expired_defs k1)
  note t2 = datasets.cleanupRecords_rows [OF c2 wf1 _ r2]
  have d2: "distinct (map xr_id ds)" by (rule ld(1)) (simp add: record_defs)
  have wf2: "db_wf db2" using t2 d2 by blast
  have r3: "\<forall>r\<in>set us. \<exists>x\<in>set (db_uploads db2). up_id x = xr_id r \<and> up_expiresAt x \<le> now"
    using lu(2) by (fastforce simp: record_defs expired_defs k1 k2)
  note t3 = uploads.cleanupRecords_rows [OF c3 wf2 _ r3]
  have d3: "distinct (map xr_id us)" by (rule lu(1)) (simp add: record_defs)
  have dirs: "fs_dirs fs1 = fs_dirs fs" "fs_dirs fs2 = fs_dirs fs"
    using cleanupRecords_files [OF c1] cleanupRecords_files [OF c2] by simp_all
  have files: "fs_files fs' = filter (\<lambda>f. f \<notin> set (removedPaths denied R (fs_dirs fs) (as @ ds @ us))) (fs_files fs)"
    using cleanupRecords_files [OF c1] cleanupRecords_files [OF c2] cleanupRecords_files [OF c3]
    by (auto simp: dirs removedPaths_def List.map_filter_def intro: filter_cong)
  show thesis
    by (rule that [OF n as_def ds_def us_def _ _ _ _ _ files])
      (use t1 t2 t3 d1 d2 d3 in \<open>auto simp: k1 k2 k3 dirs expired_defs s addSummaries_def emptySummary_def\<close>)
qed

lemma removedPaths_mem:
  "f \<in> set (removedPaths denied R dirs rs) \<longleftrightarrow> (\<exists>r\<in>set rs. handledPath denied R dirs r = Some f)"
  by (force simp: removedPaths_def List.map_filter_def)

lemma handledPath_Some:
  "handledPath denied R dirs r = Some f \<Longrightarrow> pathForLocation R (xr_storageLocation r) = Return f \<and> xr_storageKind r = LocalStorage"
  by (auto simp: handledPath_def split: if_splits sum.splits)

text \<open>A row that a pass removed was selected, and the file of its record is gone.\<close>

definition fileGone :: "path \<Rightarrow> filesystem \<Rightarrow> ExpiredRecord \<Rightarrow> bool" where
  "fileGone R fs r \<longleftrightarrow> (\<exists>f. pathForLocation R (xr_storageLocation r) = Return f \<and> f \<notin> set (fs_files fs))"

lemma removed_row:
  assumes rows': "rows' = filter (\<lambda>x. \<not> (key x \<in> xr_id ` set (handledRecords denied R dirs rs) \<and> sel x)) rows"
    and files: "fs_files fs' = filter (\<lambda>f. f \<notin> set (removedPaths denied R dirs ps)) (fs_files fs)" and "set rs \<subseteq> set ps"
    and unique: "distinct (map key rows)" and rid: "\<And>x. xr_id (record x) = key x"
    and listed: "\<forall>r\<in>set rs. \<exists>x\<in>set rows. sel x \<and> r = record x"
    and x: "x \<in> set rows" "x \<notin> set rows'"
  shows "sel x \<and> fileGone R fs' (record x)"
proof -
  from x rows' have "key x \<in> xr_id ` set (handledRecords denied R dirs rs)" and sel: "sel x" by auto
  then obtain r where r: "r \<in> set rs" "handledPath denied R dirs r \<noteq> None" "key x = xr_id r"
    by (auto simp: handledRecords_def)
  with listed obtain y where y: "y \<in> set rows" "r = record y" by blast
  have "inj_on key (set rows)" using unique by (simp add: distinct_map)
  with r(3) x(1) y rid have "x = y" by (auto dest: inj_onD)
  with y r obtain f where f: "handledPath denied R dirs (record x) = Some f" by auto
  then have "f \<in> set (removedPaths denied R dirs ps)"
    using r(1) y \<open>x = y\<close> assms(3) by (auto simp: removedPaths_mem)
  with f files handledPath_Some [OF f] sel show ?thesis by (auto simp: fileGone_def)
qed

section \<open>What a collector pass leaves\<close>

text \<open>The records of all rows, expired or not, and a path that none of them names.\<close>

definition storedRecords :: "database \<Rightarrow> ExpiredRecord list" where
  "storedRecords db = map artifactRecord (db_artifacts db) @ map datasetRecord (db_datasets db) @ map uploadRecord (db_uploads db)"

definition unnamed :: "path \<Rightarrow> path \<Rightarrow> database \<Rightarrow> bool" where
  "unnamed R f db \<longleftrightarrow> list_all (\<lambda>r. pathForLocation R (xr_storageLocation r) \<noteq> Return f) (storedRecords db)"

lemma collectable_stored: "collectable now db r \<Longrightarrow> r \<in> set (storedRecords db)"
  by (auto simp: collectable_def storedRecords_def)

lemma retentionCleanup_removes:
  assumes "db_wf db" and "retentionCleanup denied R b now (fs, db) = Return ((fs', db'), s)"
  shows "db_wf db'" and "set (storedRecords db') \<subseteq> set (storedRecords db)"
    and "f \<in> set (fs_files fs) \<Longrightarrow> f \<notin> set (fs_files fs') \<Longrightarrow>
      \<exists>r. collectable now db r \<and> pathForLocation R (xr_storageLocation r) = Return f"
proof -
  from assms have "db_wf db' \<and> set (storedRecords db') \<subseteq> set (storedRecords db) \<and>
    (\<forall>f\<in>set (fs_files fs) - set (fs_files fs'). \<exists>r. collectable now db r \<and> pathForLocation R (xr_storageLocation r) = Return f)"
  proof (rule retentionCleanup_Return)
    fix as ds us n
    assume as: "as = map artifactRecord (expired_rows (expiredArtifact now) (\<lambda>a. Some (af_expiresAt a)) af_id n (db_artifacts db))"
      and ds: "ds = map datasetRecord (expired_rows (expiredDataset now db) ds_expiresAt ds_id n (db_datasets db))"
      and us: "us = map uploadRecord (expired_rows (expiredUpload now) (\<lambda>u. Some (up_expiresAt u)) up_id n (db_uploads db))"
      and rows: "db_artifacts db' = filter (\<lambda>a. \<not> (af_id a \<in> xr_id ` set (handledRecords denied R (fs_dirs fs) as) \<and> expiredArtifact now a)) (db_artifacts db)"
        "db_datasets db' = filter (\<lambda>d. \<not> (ds_id d \<in> xr_id ` set (handledRecords denied R (fs_dirs fs) ds) \<and> expiredDataset now db d)) (db_datasets db)"
        "db_uploads db' = filter (\<lambda>u. \<not> (up_id u \<in> xr_id ` set (handledRecords denied R (fs_dirs fs) us) \<and> expiredUpload now u)) (db_uploads db)"
      and files: "fs_files fs' = filter (\<lambda>f. f \<notin> set (removedPaths denied R (fs_dirs fs) (as @ ds @ us))) (fs_files fs)"
      and wf': "db_wf db'"
    have "collectable now db r" if "r \<in> set (as @ ds @ us)" for r
      using that as ds us by (auto simp: collectable_def dest!: subsetD [OF expired_rows_props(2)])
    then have "\<forall>f\<in>set (fs_files fs) - set (fs_files fs'). \<exists>r. collectable now db r \<and> pathForLocation R (xr_storageLocation r) = Return f"
      using files handledPath_Some by (fastforce simp: removedPaths_mem)
    moreover have "set (storedRecords db') \<subseteq> set (storedRecords db)"
      unfolding storedRecords_def rows by auto
    ultimately show ?thesis using wf' by blast
  qed
  then show "db_wf db'" "set (storedRecords db') \<subseteq> set (storedRecords db)"
    "f \<in> set (fs_files fs) \<Longrightarrow> f \<notin> set (fs_files fs') \<Longrightarrow>
      \<exists>r. collectable now db r \<and> pathForLocation R (xr_storageLocation r) = Return f" by blast+
qed

lemma deleteAll_keeps:
  assumes "\<And>i d. P d \<Longrightarrow> P (fst (del i d))"
  shows "P d \<Longrightarrow> P (fst (deleteAll del is d))"
  using assms by (induction "is" arbitrary: d) (auto split: prod.splits, metis fst_conv)

lemma deleteExpiredRun_stored: "deleteExpiredRun i now db = Return (db', b) \<Longrightarrow> storedRecords db' = storedRecords db"
  using deleteExpiredRun_ineligible deleteExpiredRun_Return(2)
  by (cases "list_ex (expiredRun i now) (db_runs db)") (fastforce simp: storedRecords_def)+

lemma deleteRunsEach_keeps:
  "db_wf db \<Longrightarrow> db_wf (fst (deleteRunsEach now is db)) \<and> storedRecords (fst (deleteRunsEach now is db)) = storedRecords db"
proof (induction "is" arbitrary: db)
  case (Cons i "is")
  show ?case
  proof (cases "deleteExpiredRun i now db")
    case (Inl e)
    with Cons show ?thesis by simp
  next
    case (Inr p)
    obtain db1 b where p: "p = (db1, b)" by (cases p)
    with Inr have "db_wf db1" "storedRecords db1 = storedRecords db"
      using deleteExpiredRun_wf [OF Cons.prems] deleteExpiredRun_stored by blast+
    with Cons.IH [of db1] Inr p show ?thesis by (auto split: prod.splits)
  qed
qed simp

lemma executionRetentionCleanup_keeps:
  assumes "db_wf db"
  shows "db_wf (fst (executionRetentionCleanup b now db)) \<and>
    storedRecords (fst (executionRetentionCleanup b now db)) = storedRecords db"
proof -
  let ?P = "\<lambda>d. db_wf d \<and> storedRecords d = storedRecords db"
  have "?P (fst (deleteAll (\<lambda>i. deleteExpiredRunLog i now) is db))" for "is"
    by (rule deleteAll_keeps [where P = ?P]) (use assms in \<open>auto simp: delete_effects storedRecords_def intro: delete_rows_wf\<close>)
  then have logs: "db_wf d \<and> storedRecords d = storedRecords db"
    if "deleteAll (\<lambda>i. deleteExpiredRunLog i now) is db = (d, bs)" for "is" d bs
    using that by (metis fst_conv)
  have runs: "db_wf d' \<and> storedRecords d' = storedRecords d"
    if "db_wf d" "deleteRunsEach now is d = (d', r)" for "is" d d' r
    using that deleteRunsEach_keeps by (metis fst_conv)
  show ?thesis
    using assms by (auto simp: executionRetentionCleanup_def dest!: logs dest: runs split: sum.splits prod.splits)
qed

lemma collectorPass_unnamed:
  assumes "db_wf (snd fd)" and "unnamed R f (snd fd)" and "f \<in> set (fs_files (fst fd))"
  shows "db_wf (snd (fst (collectorPass denied R b now fd))) \<and> unnamed R f (snd (fst (collectorPass denied R b now fd))) \<and>
    f \<in> set (fs_files (fst (fst (collectorPass denied R b now fd))))"
proof (cases "retentionCleanup denied R b now fd")
  case (Inl e)
  with assms show ?thesis by (simp add: collectorPass_def)
next
  case (Inr p)
  obtain fs db fs' db' s where p: "fd = (fs, db)" "p = ((fs', db'), s)" by (cases fd, cases p) auto
  note removes = retentionCleanup_removes [OF _ Inr [unfolded p], simplified]
  have "f \<in> set (fs_files fs')"
    using removes(3) assms collectable_stored by (fastforce simp: p unnamed_def list_all_iff)
  moreover have "db_wf db'" "unnamed R f db'"
    using removes(1,2) assms by (auto simp: p unnamed_def list_all_iff)
  ultimately show ?thesis
    using Inr executionRetentionCleanup_keeps [of db' b now]
    by (auto simp: collectorPass_def p unnamed_def split: prod.splits)
qed

definition collectorPasses :: "(path \<Rightarrow> bool) \<Rightarrow> path \<Rightarrow> rat \<Rightarrow> time list \<Rightarrow> filesystem \<times> database \<Rightarrow> filesystem \<times> database" where
  "collectorPasses denied R b moments fd = foldl (\<lambda>fd now. fst (collectorPass denied R b now fd)) fd moments"

lemma collectorPasses_unnamed:
  "db_wf (snd fd) \<Longrightarrow> unnamed R f (snd fd) \<Longrightarrow> f \<in> set (fs_files (fst fd)) \<Longrightarrow>
     f \<in> set (fs_files (fst (collectorPasses denied R b moments fd)))"
proof (induction moments arbitrary: fd)
  case (Cons now moments)
  then show ?case using collectorPass_unnamed [OF Cons.prems, of denied b now] by (simp add: collectorPasses_def)
qed (simp add: collectorPasses_def)


text \<open>A database with one expired upload, and the storage that holds its file.\<close>

definition sampleUpload :: upload_row where
  "sampleUpload =
     \<lparr>up_id = ''p1'', up_ownerUserId = ''u1'', up_storageKind = LocalStorage,
      up_storageLocation = ''imports/uploads/a.csv'', up_createdAt = 0, up_expiresAt = 10\<rparr>"

definition uploadDb :: database where
  "uploadDb = emptyDb\<lparr>db_uploads := [sampleUpload]\<rparr>"

definition sampleFiles :: filesystem where
  "sampleFiles = \<lparr>fs_files = [[''srv'', ''imports'', ''uploads'', ''a.csv''], [''etc'', ''passwd'']], fs_dirs = [[], [''srv'']]\<rparr>"

lemma uploadDb_wf: "db_wf uploadDb"
  by (simp add: db_wf_defs uploadDb_def sampleUpload_def emptyDb_def sampleUser_def nullable_def activeRunKeys_def)

lemma sampleUpload_handled:
  "handledPath (\<lambda>_. False) [''srv''] (fs_dirs sampleFiles) (uploadRecord sampleUpload) \<noteq> None"
  by code_simp

lemma uploadDb_handled:
  "\<forall>r. collectable 20 uploadDb r \<longrightarrow> handledPath (\<lambda>_. False) [''srv''] (fs_dirs sampleFiles) r \<noteq> None"
  using sampleUpload_handled by (auto simp: collectable_def uploadDb_def emptyDb_def)

section \<open>Properties\<close>

text \<open>
  Property C18: a storage cleanup pass keeps every constraint and counts every candidate once. It
  removes a file only when the record of an expired row names it, so always below the storage root;
  it deletes only expired rows, datasets only of ended runs, and only after their file is gone.
\<close>

theorem storage_cleanup_is_safe:
  assumes "db_wf db" and "retentionCleanup denied R batchSize now (fs, db) = Return ((fs', db'), s)"
  shows "db_wf db' \<and> cs_candidates s = cs_metadataDeleted s + cs_failed s + cs_skipped s \<and>
    set (fs_files fs') \<subseteq> set (fs_files fs) \<and>
    (\<forall>f\<in>set (fs_files fs) - set (fs_files fs'). \<exists>r. collectable now db r \<and>
       pathForLocation R (xr_storageLocation r) = Return f \<and> (\<exists>rest. f = R @ rest \<and> rest \<noteq> [])) \<and>
    (\<forall>a\<in>set (db_artifacts db) - set (db_artifacts db'). expiredArtifact now a \<and> fileGone R fs' (artifactRecord a)) \<and>
    (\<forall>d\<in>set (db_datasets db) - set (db_datasets db'). expiredDataset now db d \<and> fileGone R fs' (datasetRecord d)) \<and>
    (\<forall>u\<in>set (db_uploads db) - set (db_uploads db'). expiredUpload now u \<and> fileGone R fs' (uploadRecord u))"
  using assms
proof (rule retentionCleanup_Return)
  fix as ds us n
  assume as: "as = map artifactRecord (expired_rows (expiredArtifact now) (\<lambda>a. Some (af_expiresAt a)) af_id n (db_artifacts db))"
    and ds: "ds = map datasetRecord (expired_rows (expiredDataset now db) ds_expiresAt ds_id n (db_datasets db))"
    and us: "us = map uploadRecord (expired_rows (expiredUpload now) (\<lambda>u. Some (up_expiresAt u)) up_id n (db_uploads db))"
    and rows: "db_artifacts db' = filter (\<lambda>a. \<not> (af_id a \<in> xr_id ` set (handledRecords denied R (fs_dirs fs) as) \<and> expiredArtifact now a)) (db_artifacts db)"
      "db_datasets db' = filter (\<lambda>d. \<not> (ds_id d \<in> xr_id ` set (handledRecords denied R (fs_dirs fs) ds) \<and> expiredDataset now db d)) (db_datasets db)"
      "db_uploads db' = filter (\<lambda>u. \<not> (up_id u \<in> xr_id ` set (handledRecords denied R (fs_dirs fs) us) \<and> expiredUpload now u)) (db_uploads db)"
    and files: "fs_files fs' = filter (\<lambda>f. f \<notin> set (removedPaths denied R (fs_dirs fs) (as @ ds @ us))) (fs_files fs)"
    and wf': "db_wf db'" and count: "cs_candidates s = cs_metadataDeleted s + cs_failed s + cs_skipped s"
  note ids = db_wf_row_ids [OF assms(1)]
  note la = listing(2) [OF ids(1) _ as] and ld = listing(2) [OF ids(2) _ ds] and lu = listing(2) [OF ids(3) _ us]
  have id: "\<And>a. xr_id (artifactRecord a) = af_id a" "\<And>d. xr_id (datasetRecord d) = ds_id d"
    "\<And>u. xr_id (uploadRecord u) = up_id u" by (simp_all add: record_defs)
  note la = la [OF id(1)] and ld = ld [OF id(2)] and lu = lu [OF id(3)]
  have coll: "collectable now db r" if "r \<in> set (as @ ds @ us)" for r
    using that la ld lu by (auto simp: collectable_def)
  have inside: "\<exists>rest. f = R @ rest \<and> rest \<noteq> []" if "pathForLocation R l = Return f" for l f
    by (rule escapesRoot_prefix) (use that in \<open>auto simp: pathForLocation_def Let_def bind_res_Return_iff throw_if_iff\<close>)
  show ?thesis
  proof (intro conjI ballI)
    fix f assume "f \<in> set (fs_files fs) - set (fs_files fs')"
    then obtain r where "r \<in> set (as @ ds @ us)" "handledPath denied R (fs_dirs fs) r = Some f"
      using files by (auto simp: removedPaths_mem)
    then show "\<exists>r. collectable now db r \<and> pathForLocation R (xr_storageLocation r) = Return f \<and>
        (\<exists>rest. f = R @ rest \<and> rest \<noteq> [])"
      using coll handledPath_Some inside by blast
  next
    fix a assume "a \<in> set (db_artifacts db) - set (db_artifacts db')"
    then show "expiredArtifact now a" "fileGone R fs' (artifactRecord a)"
      using removed_row [OF rows(1) files _ ids(1) id(1) la] by auto
  next
    fix d assume "d \<in> set (db_datasets db) - set (db_datasets db')"
    then show "expiredDataset now db d" "fileGone R fs' (datasetRecord d)"
      using removed_row [OF rows(2) files _ ids(2) id(2) ld] by auto
  next
    fix u assume "u \<in> set (db_uploads db) - set (db_uploads db')"
    then show "expiredUpload now u" "fileGone R fs' (uploadRecord u)"
      using removed_row [OF rows(3) files _ ids(3) id(3) lu] by auto
  qed (use wf' count files in auto)
qed

theorem storage_cleanup_is_safe_witness:
  "\<exists>fs' db' s. retentionCleanup (\<lambda>_. False) [''srv''] 100 20 (sampleFiles, uploadDb) = Return ((fs', db'), s) \<and>
    db_wf db' \<and> set (fs_files fs') \<subseteq> set (fs_files sampleFiles)"
proof -
  have "\<not> isl (retentionCleanup (\<lambda>_. False) [''srv''] 100 20 (sampleFiles, uploadDb))" by code_simp
  then obtain fs' db' s where
    ret: "retentionCleanup (\<lambda>_. False) [''srv''] 100 20 (sampleFiles, uploadDb) = Return ((fs', db'), s)"
    by (cases "retentionCleanup (\<lambda>_. False) [''srv''] 100 20 (sampleFiles, uploadDb)") auto
  from storage_cleanup_is_safe [OF uploadDb_wf ret] ret show ?thesis by blast
qed



end
