(* ===== verification/Compatibility.thy ===== *)
theory Compatibility
  imports Contracts
begin

text \<open>
  \<open>packages/pipeline/src/compatibility.ts\<close>: whether one component can provide data to another.
  The families computed by the nested loops are characterised as a set, and the check is shown
  to accept exactly the connections that respect component direction and share a family.
\<close>

record ComponentCompatibilityResult =
  ccr_compatible :: bool
  ccr_compatibleFamilies :: "DataFamily list"
  ccr_reason :: "string option"

datatype compatibility_error = IncompatiblePipelineComponentsError string

definition familiesAreCompatible :: "DataFamily \<Rightarrow> DataFamily \<Rightarrow> bool" where
  "familiesAreCompatible outputFamily inputFamily \<longleftrightarrow>
     outputFamily = FamilyAny \<or> inputFamily = FamilyAny \<or> outputFamily = inputFamily"

definition supportedFamilies :: "DataFamily list \<Rightarrow> DataFamily list \<Rightarrow> DataFamily list" where
  "supportedFamilies outputFamilies inputFamilies =
     fold (\<lambda>outputFamily acc.
       fold (\<lambda>inputFamily acc.
         if familiesAreCompatible outputFamily inputFamily
         then set_add (if outputFamily = FamilyAny then inputFamily else outputFamily) acc
         else acc) inputFamilies acc) outputFamilies []"

definition incompatible :: "string \<Rightarrow> ComponentCompatibilityResult" where
  "incompatible reason =
     \<lparr>ccr_compatible = False, ccr_compatibleFamilies = [], ccr_reason = Some reason\<rparr>"

definition checkComponentCompatibility ::
  "ComponentMetadata \<Rightarrow> ComponentMetadata \<Rightarrow> ComponentCompatibilityResult" where
  "checkComponentCompatibility upstream downstream =
     (if cm_kind upstream = Export then
        incompatible ''An Export cannot provide data to another component.''
      else if cm_kind downstream = Source then
        incompatible ''A Source cannot consume data from another component.''
      else
        (let compatibleFamilies =
           supportedFamilies (cm_outputFamilies upstream) (cm_inputFamilies downstream)
         in if compatibleFamilies = [] then
              incompatible (''Component '' @ cm_type upstream @
                '' cannot provide a dataset accepted by '' @ cm_type downstream @ ''.'')
            else \<lparr>ccr_compatible = True, ccr_compatibleFamilies = compatibleFamilies,
                   ccr_reason = None\<rparr>))"

definition assertComponentsCompatible ::
  "ComponentMetadata \<Rightarrow> ComponentMetadata \<Rightarrow> (compatibility_error, unit) result" where
  "assertComponentsCompatible upstream downstream =
     (let r = checkComponentCompatibility upstream downstream
      in if \<not> ccr_compatible r then
           Throw (IncompatiblePipelineComponentsError
             (case ccr_reason r of
                None \<Rightarrow> ''Pipeline components are incompatible.'' | Some reason \<Rightarrow> reason))
         else Return ())"

section \<open>The families that cross a boundary\<close>

definition crossingFamilies :: "DataFamily list \<Rightarrow> DataFamily list \<Rightarrow> DataFamily set" where
  "crossingFamilies outs ins =
     {if a = FamilyAny then b else a | a b. a \<in> set outs \<and> b \<in> set ins \<and> familiesAreCompatible a b}"

lemma inner_families:
  "set (fold (\<lambda>b acc. if familiesAreCompatible a b
       then set_add (if a = FamilyAny then b else a) acc else acc) ins acc) =
     set acc \<union> crossingFamilies [a] ins"
  by (induction ins arbitrary: acc) (auto simp: crossingFamilies_def)

lemma inner_families_distinct:
  "distinct (fold (\<lambda>b acc. if familiesAreCompatible a b
       then set_add (if a = FamilyAny then b else a) acc else acc) ins acc) = distinct acc"
  by (induction ins arbitrary: acc) auto

lemma set_supportedFamilies: "set (supportedFamilies outs ins) = crossingFamilies outs ins"
proof -
  have "set (fold (\<lambda>a acc. fold (\<lambda>b acc. if familiesAreCompatible a b
       then set_add (if a = FamilyAny then b else a) acc else acc) ins acc) outs acc) =
      set acc \<union> crossingFamilies outs ins" for acc
  proof (induction outs arbitrary: acc)
    case Nil
    then show ?case by (simp add: crossingFamilies_def)
  next
    case (Cons a outs)
    have "crossingFamilies (a # outs) ins = crossingFamilies [a] ins \<union> crossingFamilies outs ins"
      by (auto simp: crossingFamilies_def)
    with Cons show ?case by (simp add: inner_families Un_assoc)
  qed
  from this [of "[]"] show ?thesis by (simp add: supportedFamilies_def)
qed

lemma distinct_supportedFamilies: "distinct (supportedFamilies outs ins)"
proof -
  have "distinct (fold (\<lambda>a acc. fold (\<lambda>b acc. if familiesAreCompatible a b
       then set_add (if a = FamilyAny then b else a) acc else acc) ins acc) outs acc) = distinct acc"
    for acc
    by (induction outs arbitrary: acc) (simp_all add: inner_families_distinct)
  from this [of "[]"] show ?thesis by (simp add: supportedFamilies_def)
qed

lemma supportedFamilies_Nil_iff:
  "supportedFamilies outs ins = [] \<longleftrightarrow>
     \<not> (\<exists>a\<in>set outs. \<exists>b\<in>set ins. familiesAreCompatible a b)"
proof -
  have "supportedFamilies outs ins = [] \<longleftrightarrow> crossingFamilies outs ins = {}"
    by (metis set_empty set_supportedFamilies)
  then show ?thesis by (auto simp: crossingFamilies_def)
qed

section \<open>Properties\<close>

text \<open>
  A connection is accepted exactly when the upstream component is not an Export, the
  downstream component is not a Source and some declared output family meets some declared input
  family. The reported families are those families, each once, and a rejection always carries a
  reason and no family.
\<close>

theorem compatibility_correct:
  "(ccr_compatible (checkComponentCompatibility up down) \<longleftrightarrow>
      cm_kind up \<noteq> Export \<and> cm_kind down \<noteq> Source \<and>
      (\<exists>a\<in>set (cm_outputFamilies up). \<exists>b\<in>set (cm_inputFamilies down).
         a = FamilyAny \<or> b = FamilyAny \<or> a = b)) \<and>
   (if ccr_compatible (checkComponentCompatibility up down)
    then set (ccr_compatibleFamilies (checkComponentCompatibility up down)) =
           crossingFamilies (cm_outputFamilies up) (cm_inputFamilies down) \<and>
         distinct (ccr_compatibleFamilies (checkComponentCompatibility up down)) \<and>
         ccr_reason (checkComponentCompatibility up down) = None
    else ccr_compatibleFamilies (checkComponentCompatibility up down) = [] \<and>
         ccr_reason (checkComponentCompatibility up down) \<noteq> None)"
  by (auto simp: checkComponentCompatibility_def incompatible_def Let_def
      supportedFamilies_Nil_iff set_supportedFamilies distinct_supportedFamilies
      familiesAreCompatible_def)

end
