(* ===== verification/Executable_Validation.thy ===== *)
theory Executable_Validation
  imports Compatibility Topology
begin

text \<open>
  \<open>packages/pipeline/src/executable-validation.ts\<close>: the check that gates enabling a pipeline.
  The loops are translated as they stand, including the walk along single outgoing edges, whose
  termination is proved here. The result is characterised by \<open>executable_pipeline\<close>: one
  Source, one Export, no branching, every component installed and configured, and one walk from
  the Source that reaches every step through compatible neighbours.
\<close>

section \<open>Violations\<close>

datatype PipelineExecutableViolation =
    MissingSource
  | MultipleSources "string list"
  | MissingExport
  | MultipleExports "string list"
  | BranchingStep string
  | DisconnectedStep string
  | UnavailableComponent string string string
  | MissingConfigValue string string
  | MissingSecretBinding string string
  | IncompatibleAdjacentSteps string string string

datatype PipelineExecutableResult =
    Executable
  | NotExecutable "PipelineExecutableViolation list"

datatype executable_error = PipelineNotExecutableError "PipelineExecutableViolation list"

fun describeViolation :: "PipelineExecutableViolation \<Rightarrow> string" where
  "describeViolation MissingSource = ''no Source step''"
| "describeViolation (MultipleSources ids) =
     ''multiple Source steps ('' @ js_join '', '' ids @ '')''"
| "describeViolation MissingExport = ''no Export step''"
| "describeViolation (MultipleExports ids) =
     ''multiple Export steps ('' @ js_join '', '' ids @ '')''"
| "describeViolation (BranchingStep s) =
     ''step '' @ s @ '' branches instead of forming a linear chain''"
| "describeViolation (DisconnectedStep s) =
     ''step '' @ s @ '' is not connected to the Source-to-Export chain''"
| "describeViolation (UnavailableComponent s t v) =
     ''step '' @ s @ '' uses unavailable component '' @ t @ ''@'' @ v"
| "describeViolation (MissingConfigValue s k) =
     ''step '' @ s @ '' is missing required configuration value '' @ k"
| "describeViolation (MissingSecretBinding s k) =
     ''step '' @ s @ '' is missing required secret binding '' @ k"
| "describeViolation (IncompatibleAdjacentSteps a b reason) =
     a @ '' -> '' @ b @ '': '' @ reason"

definition notExecutableMessage :: "PipelineExecutableViolation list \<Rightarrow> string" where
  "notExecutableMessage vs =
     ''Pipeline is not executable: '' @ js_join ''; '' (map describeViolation vs) @ ''.''"

section \<open>Component lookup and step configuration\<close>

definition componentKey :: "string \<Rightarrow> string \<Rightarrow> string" where
  "componentKey type version = type @ ''@'' @ version"

definition indexComponentsByKey ::
  "ComponentMetadata list \<Rightarrow> (string, ComponentMetadata) js_map" where
  "indexComponentsByKey components =
     map_of_entries (\<lambda>c. componentKey (cm_type c) (cm_version c)) (\<lambda>c. c) components"

definition hasConfigValue :: "(string \<times> json) list \<Rightarrow> string \<Rightarrow> bool" where
  "hasConfigValue values key =
     (case map_of values key of
        None \<Rightarrow> False
      | Some v \<Rightarrow> v \<noteq> JNull \<and> v \<noteq> JStr [])"

definition checkStepConfiguration ::
  "PipelineStep \<Rightarrow> ComponentMetadata \<Rightarrow> PipelineExecutableViolation list" where
  "checkStepConfiguration step metadata =
     (let boundSecretKeys = set_of_list (map sb_key (cc_secretBindings (ps_configuration step)))
      in fold (\<lambda>field violations.
           if \<not> cf_required field then violations
           else if cf_secret field then
             (if cf_key field \<notin> set boundSecretKeys
              then violations @ [MissingSecretBinding (ps_id step) (cf_key field)] else violations)
           else if \<not> hasConfigValue (cc_values (ps_configuration step)) (cf_key field)
             then violations @ [MissingConfigValue (ps_id step) (cf_key field)] else violations)
         (cm_configFields metadata) [])"

section \<open>The linear walk\<close>

text \<open>The target of the only outgoing edge of a step, if it has exactly one.\<close>

definition nextStepId :: "PipelineTopology \<Rightarrow> string \<Rightarrow> string option" where
  "nextStepId topology currentStepId =
     (case edgesAt (outgoingEdgesByStepId topology) currentStepId of
        [onlyOutgoingEdge] \<Rightarrow> Some (pe_toStepId onlyOutgoingEdge)
      | _ \<Rightarrow> None)"

function walkLoop ::
  "PipelineTopology \<Rightarrow> string option \<Rightarrow> string list \<Rightarrow> string list \<Rightarrow> string list" where
  "walkLoop topology None chainStepIds visitedStepIds = chainStepIds"
| "walkLoop topology (Some currentStepId) chainStepIds visitedStepIds =
     (if currentStepId \<in> set visitedStepIds then chainStepIds
      else walkLoop topology (nextStepId topology currentStepId)
             (chainStepIds @ [currentStepId]) (set_add currentStepId visitedStepIds))"
  by pat_completeness auto
termination
proof (relation "measures
    [\<lambda>(t, cur, chain, visited). card (set (map_keys (outgoingEdgesByStepId t)) - set visited),
     \<lambda>(t, cur, chain, visited). case cur of None \<Rightarrow> 0 | Some _ \<Rightarrow> 1]", goal_cases)
  case 1
  then show ?case by simp
next
  case (2 t cur chain visited)
  let ?F = "set (map_keys (outgoingEdgesByStepId t))"
  show ?case
  proof (cases "cur \<in> ?F")
    case True
    have "?F - insert cur (set visited) \<subset> ?F - set visited" using True 2 by auto
    then have "card (?F - insert cur (set visited)) < card (?F - set visited)"
      by (intro psubset_card_mono) auto
    then show ?thesis by simp
  next
    case False
    then have "nextStepId t cur = None" by (simp add: nextStepId_def edgesAt_not_key)
    moreover have "?F - insert cur (set visited) = ?F - set visited" using False by auto
    ultimately show ?thesis by simp
  qed
qed

definition walkLinearChain :: "PipelineTopology \<Rightarrow> string \<Rightarrow> string list" where
  "walkLinearChain topology startStepId = walkLoop topology (Some startStepId) [] []"

section \<open>The check\<close>

text \<open>Neighbours whose component could not be resolved are skipped; they are reported elsewhere.\<close>

definition checkAdjacentSteps ::
  "(string, ComponentMetadata) js_map \<Rightarrow> string \<times> string \<Rightarrow> PipelineExecutableViolation list" where
  "checkAdjacentSteps metadataByStepId pair =
     (case pair of (upstreamStepId, downstreamStepId) \<Rightarrow>
       (case (map_get metadataByStepId upstreamStepId, map_get metadataByStepId downstreamStepId) of
          (Some upstreamMetadata, Some downstreamMetadata) \<Rightarrow>
            (let result = checkComponentCompatibility upstreamMetadata downstreamMetadata
             in if \<not> ccr_compatible result
                then [IncompatibleAdjacentSteps upstreamStepId downstreamStepId
                        (case ccr_reason result of
                           None \<Rightarrow> ''Adjacent components are incompatible.'' | Some r \<Rightarrow> r)]
                else [])
        | _ \<Rightarrow> []))"

definition checkChainConnectivity ::
  "PipelineTopologyInput \<Rightarrow> PipelineTopology \<Rightarrow> string \<Rightarrow> (string, ComponentMetadata) js_map \<Rightarrow>
   PipelineExecutableViolation list" where
  "checkChainConnectivity pipeline topology sourceStepId metadataByStepId =
     (let chainStepIds = walkLinearChain topology sourceStepId;
          reachedStepIds = set_of_list chainStepIds
      in map (\<lambda>step. DisconnectedStep (ps_id step))
           (filter (\<lambda>step. ps_id step \<notin> set reachedStepIds) (ti_steps pipeline)) @
         concat (map (checkAdjacentSteps metadataByStepId) (zip chainStepIds (tl chainStepIds))))"

definition checkStep ::
  "PipelineTopology \<Rightarrow> (string, ComponentMetadata) js_map \<Rightarrow> PipelineStep \<Rightarrow>
   PipelineExecutableViolation list \<times> (string, ComponentMetadata) js_map \<Rightarrow>
   PipelineExecutableViolation list \<times> (string, ComponentMetadata) js_map" where
  "checkStep topology componentsByKey step acc =
     (case acc of (violations, metadataByStepId) \<Rightarrow>
       (let outgoingCount = length (edgesAt (outgoingEdgesByStepId topology) (ps_id step));
            incomingCount = length (edgesAt (incomingEdgesByStepId topology) (ps_id step));
            violations =
              (if outgoingCount > 1 \<or> incomingCount > 1
               then violations @ [BranchingStep (ps_id step)] else violations)
        in case map_get componentsByKey
               (componentKey (ps_componentType step) (ps_componentVersion step)) of
             None \<Rightarrow>
               (violations @ [UnavailableComponent (ps_id step) (ps_componentType step)
                  (ps_componentVersion step)], metadataByStepId)
           | Some metadata \<Rightarrow>
               (violations @ checkStepConfiguration step metadata,
                map_put (ps_id step) metadata metadataByStepId)))"

definition countViolations ::
  "PipelineStep list \<Rightarrow> PipelineExecutableViolation \<Rightarrow>
   (string list \<Rightarrow> PipelineExecutableViolation) \<Rightarrow> PipelineExecutableViolation list" where
  "countViolations steps missing multiple =
     (if length steps = 0 then [missing]
      else if length steps > 1 then [multiple (map ps_id steps)] else [])"

definition pipelineViolations ::
  "PipelineTopologyInput \<Rightarrow> ComponentMetadata list \<Rightarrow> PipelineExecutableViolation list" where
  "pipelineViolations pipeline availableComponents =
     (let topology = buildPipelineTopology pipeline;
          componentsByKey = indexComponentsByKey availableComponents;
          sourceSteps = filter (\<lambda>step. ps_kind step = Source) (ti_steps pipeline);
          exportSteps = filter (\<lambda>step. ps_kind step = Export) (ti_steps pipeline);
          violations = countViolations sourceSteps MissingSource MultipleSources @
            countViolations exportSteps MissingExport MultipleExports;
          (violations, metadataByStepId) =
            fold (checkStep topology componentsByKey) (ti_steps pipeline) (violations, [])
      in case sourceSteps of
           [] \<Rightarrow> violations
         | sourceStep # _ \<Rightarrow>
             if length exportSteps = 1
             then violations @
               checkChainConnectivity pipeline topology (ps_id sourceStep) metadataByStepId
             else violations)"

definition checkPipelineExecutable ::
  "PipelineTopologyInput \<Rightarrow> ComponentMetadata list \<Rightarrow> PipelineExecutableResult" where
  "checkPipelineExecutable pipeline availableComponents =
     (let violations = pipelineViolations pipeline availableComponents
      in if length violations = 0 then Executable else NotExecutable violations)"

definition assertPipelineExecutable ::
  "PipelineTopologyInput \<Rightarrow> ComponentMetadata list \<Rightarrow> (executable_error, unit) result" where
  "assertPipelineExecutable pipeline availableComponents =
     (case checkPipelineExecutable pipeline availableComponents of
        Executable \<Rightarrow> Return ()
      | NotExecutable violations \<Rightarrow> Throw (PipelineNotExecutableError violations))"

section \<open>Specification\<close>

definition resolveComponent ::
  "ComponentMetadata list \<Rightarrow> PipelineStep \<Rightarrow> ComponentMetadata option" where
  "resolveComponent components step =
     map_get (indexComponentsByKey components)
       (componentKey (ps_componentType step) (ps_componentVersion step))"

definition stepConfigured :: "PipelineStep \<Rightarrow> ComponentMetadata \<Rightarrow> bool" where
  "stepConfigured step metadata \<longleftrightarrow>
     (\<forall>f\<in>set (cm_configFields metadata). cf_required f \<longrightarrow>
        (if cf_secret f then cf_key f \<in> sb_key ` set (cc_secretBindings (ps_configuration step))
         else hasConfigValue (cc_values (ps_configuration step)) (cf_key f)))"

definition compatibleSteps ::
  "PipelineTopologyInput \<Rightarrow> ComponentMetadata list \<Rightarrow> string \<Rightarrow> string \<Rightarrow> bool" where
  "compatibleSteps p cs a b \<longleftrightarrow>
     (\<forall>u\<in>set (ti_steps p). \<forall>d\<in>set (ti_steps p). \<forall>m m'.
        ps_id u = a \<longrightarrow> ps_id d = b \<longrightarrow>
        resolveComponent cs u = Some m \<longrightarrow> resolveComponent cs d = Some m' \<longrightarrow>
        ccr_compatible (checkComponentCompatibility m m'))"

text \<open>A maximal walk along single outgoing edges.\<close>

definition maximalWalk :: "PipelineTopology \<Rightarrow> string \<Rightarrow> string list \<Rightarrow> bool" where
  "maximalWalk t start chain \<longleftrightarrow>
     chain \<noteq> [] \<and> hd chain = start \<and> distinct chain \<and>
     successively (\<lambda>a b. nextStepId t a = Some b) chain \<and>
     (\<forall>b. nextStepId t (last chain) = Some b \<longrightarrow> b \<in> set chain)"

definition executable_pipeline :: "PipelineTopologyInput \<Rightarrow> ComponentMetadata list \<Rightarrow> bool" where
  "executable_pipeline p cs \<longleftrightarrow>
     (\<exists>src ex chain.
        filter (\<lambda>s. ps_kind s = Source) (ti_steps p) = [src] \<and>
        filter (\<lambda>s. ps_kind s = Export) (ti_steps p) = [ex] \<and>
        (\<forall>s\<in>set (ti_steps p).
           length (filter (\<lambda>e. pe_fromStepId e = ps_id s) (ti_edges p)) \<le> 1 \<and>
           length (filter (\<lambda>e. pe_toStepId e = ps_id s) (ti_edges p)) \<le> 1 \<and>
           (\<exists>m. resolveComponent cs s = Some m \<and> stepConfigured s m)) \<and>
        maximalWalk (buildPipelineTopology p) (ps_id src) chain \<and>
        ps_id ` set (ti_steps p) \<subseteq> set chain \<and>
        successively (compatibleSteps p cs) chain)"

section \<open>Lemmas\<close>

subsection \<open>The walk\<close>

lemma walkLoop_completes:
  "distinct (acc @ rest) \<Longrightarrow> successively (\<lambda>a b. nextStepId t a = Some b) (acc @ rest) \<Longrightarrow>
   rest \<noteq> [] \<Longrightarrow> (\<forall>b. nextStepId t (last rest) = Some b \<longrightarrow> b \<in> set (acc @ rest)) \<Longrightarrow>
   set visited = set acc \<Longrightarrow> walkLoop t (Some (hd rest)) acc visited = acc @ rest"
proof (induction rest arbitrary: acc visited)
  case Nil
  then show ?case by simp
next
  case (Cons x rest)
  have step: "walkLoop t (Some x) acc visited =
      walkLoop t (nextStepId t x) (acc @ [x]) (set_add x visited)"
    using Cons.prems by simp
  show ?case
  proof (cases rest)
    case Nil
    show ?thesis
    proof (cases "nextStepId t x")
      case None
      with step Nil show ?thesis by simp
    next
      case (Some b)
      then have "b \<in> set (set_add x visited)" using Cons.prems(4,5) Nil by simp
      with step Some Nil show ?thesis by simp
    qed
  next
    case (Cons y ys)
    then have "nextStepId t x = Some (hd rest)"
      using Cons.prems(2) by (auto simp: successively_append_iff)
    moreover have "walkLoop t (Some (hd rest)) (acc @ [x]) (set_add x visited) = (acc @ [x]) @ rest"
      using Cons.prems Cons by (intro Cons.IH) auto
    ultimately show ?thesis using step by simp
  qed
qed

lemma walkLoop_extends:
  assumes "distinct chain" and "set visited = set chain"
    and "successively (\<lambda>a b. nextStepId t a = Some b) chain"
    and "chain \<noteq> [] \<longrightarrow> nextStepId t (last chain) = cur"
  shows "\<exists>zs. walkLoop t cur chain visited = chain @ zs \<and> distinct (chain @ zs) \<and>
    successively (\<lambda>a b. nextStepId t a = Some b) (chain @ zs) \<and>
    (chain @ zs \<noteq> [] \<longrightarrow> (\<forall>b. nextStepId t (last (chain @ zs)) = Some b \<longrightarrow> b \<in> set (chain @ zs)))"
  using assms
proof (induction t cur chain visited rule: walkLoop.induct)
  case (1 t chain visited)
  then show ?case by (intro exI [of _ "[]"]) auto
next
  case (2 t cur chain visited)
  show ?case
  proof (cases "cur \<in> set visited")
    case True
    have "walkLoop t (Some cur) chain visited = chain" using True by simp
    moreover from True have mem: "cur \<in> set chain" using 2(3) by simp
    moreover from mem have "nextStepId t (last chain) = Some cur" using 2(5) by auto
    ultimately show ?thesis using 2(2) 2(4) by (intro exI [of _ "[]"]) auto
  next
    case False
    have "successively (\<lambda>a b. nextStepId t a = Some b) (chain @ [cur])"
      using 2 by (auto simp: successively_append_iff)
    then obtain zs where "walkLoop t (nextStepId t cur) (chain @ [cur]) (set_add cur visited) =
        (chain @ [cur]) @ zs \<and> distinct ((chain @ [cur]) @ zs) \<and>
        successively (\<lambda>a b. nextStepId t a = Some b) ((chain @ [cur]) @ zs) \<and>
        ((chain @ [cur]) @ zs \<noteq> [] \<longrightarrow> (\<forall>b. nextStepId t (last ((chain @ [cur]) @ zs)) = Some b \<longrightarrow>
           b \<in> set ((chain @ [cur]) @ zs)))"
      using 2 False by (atomize_elim, intro 2(1)) auto
    with False show ?thesis by (intro exI [of _ "cur # zs"]) auto
  qed
qed

lemma walkLinearChain_maximal: "maximalWalk t s (walkLinearChain t s)"
proof -
  have unfold: "walkLinearChain t s = walkLoop t (nextStepId t s) [s] [s]"
    by (simp add: walkLinearChain_def set_add_def)
  then show ?thesis
    using walkLoop_extends [of "[s]" "[s]" t "nextStepId t s"] by (auto simp: maximalWalk_def)
qed

lemma maximalWalk_unique: "maximalWalk t s chain \<Longrightarrow> chain = walkLinearChain t s"
  using walkLoop_completes [of "[]" chain t "[]"]
  by (auto simp: maximalWalk_def walkLinearChain_def)

subsection \<open>Step configuration\<close>

lemma checkStepConfiguration_set:
  "set (checkStepConfiguration step m) =
     {MissingSecretBinding (ps_id step) (cf_key f) | f. f \<in> set (cm_configFields m) \<and>
        cf_required f \<and> cf_secret f \<and>
        cf_key f \<notin> sb_key ` set (cc_secretBindings (ps_configuration step))} \<union>
     {MissingConfigValue (ps_id step) (cf_key f) | f. f \<in> set (cm_configFields m) \<and>
        cf_required f \<and> \<not> cf_secret f \<and>
        \<not> hasConfigValue (cc_values (ps_configuration step)) (cf_key f)}"
proof -
  have main: "set (fold (\<lambda>field violations.
           if \<not> cf_required field then violations
           else if cf_secret field then
             (if cf_key field \<notin> set B
              then violations @ [MissingSecretBinding i (cf_key field)] else violations)
           else if \<not> hasConfigValue V (cf_key field)
             then violations @ [MissingConfigValue i (cf_key field)] else violations) fs acc) =
      set acc \<union>
      {MissingSecretBinding i (cf_key f) | f. f \<in> set fs \<and> cf_required f \<and> cf_secret f \<and>
         cf_key f \<notin> set B} \<union>
      {MissingConfigValue i (cf_key f) | f. f \<in> set fs \<and> cf_required f \<and> \<not> cf_secret f \<and>
         \<not> hasConfigValue V (cf_key f)}" for i B V fs acc
    by (induction fs arbitrary: acc) auto
  show ?thesis
    unfolding checkStepConfiguration_def Let_def main by simp
qed

lemma checkStepConfiguration_Nil_iff: "checkStepConfiguration step m = [] \<longleftrightarrow> stepConfigured step m"
proof -
  have "checkStepConfiguration step m = [] \<longleftrightarrow> set (checkStepConfiguration step m) = {}" by simp
  also have "\<dots> \<longleftrightarrow> stepConfigured step m"
    unfolding checkStepConfiguration_set stepConfigured_def by (auto split: if_splits)
  finally show ?thesis .
qed

subsection \<open>The loop over the steps\<close>

definition stepViolations ::
  "PipelineTopology \<Rightarrow> ComponentMetadata list \<Rightarrow> PipelineStep \<Rightarrow> PipelineExecutableViolation list" where
  "stepViolations t cs s = fst (checkStep t (indexComponentsByKey cs) s ([], []))"

lemma checkStep_fst:
  "fst (checkStep t (indexComponentsByKey cs) s (vs, md)) = vs @ stepViolations t cs s"
  by (simp add: checkStep_def stepViolations_def Let_def split: option.splits)

lemma checkStep_snd:
  "snd (checkStep t (indexComponentsByKey cs) s (vs, md)) =
     (case resolveComponent cs s of None \<Rightarrow> md | Some m \<Rightarrow> map_put (ps_id s) m md)"
  by (simp add: checkStep_def resolveComponent_def Let_def split: option.splits)

lemma fold_checkStep_fst:
  "fst (fold (checkStep t (indexComponentsByKey cs)) ss acc) =
     fst acc @ concat (map (stepViolations t cs) ss)"
proof (induction ss arbitrary: acc)
  case Nil
  then show ?case by simp
next
  case (Cons s ss)
  then show ?case using checkStep_fst [of t cs s "fst acc" "snd acc"] by simp
qed

lemma fold_checkStep_snd:
  "map_get (snd (fold (checkStep t (indexComponentsByKey cs)) ss acc)) k =
     (case find (\<lambda>s. ps_id s = k \<and> resolveComponent cs s \<noteq> None) (rev ss) of
        None \<Rightarrow> map_get (snd acc) k
      | Some s \<Rightarrow> resolveComponent cs s)"
proof (induction ss arbitrary: acc)
  case Nil
  then show ?case by simp
next
  case (Cons s ss)
  have "map_get (snd (checkStep t (indexComponentsByKey cs) s acc)) k =
      (if ps_id s = k \<and> resolveComponent cs s \<noteq> None then resolveComponent cs s
       else map_get (snd acc) k)"
    using checkStep_snd [of t cs s "fst acc" "snd acc"]
    by (auto simp: map_get_put split: option.splits)
  with Cons show ?case by (auto simp: find_append split: option.splits)
qed

lemma fold_checkStep_metadata:
  assumes "distinct (map ps_id ss)"
  shows "map_get (snd (fold (checkStep t (indexComponentsByKey cs)) ss (vs, []))) k = Some m \<longleftrightarrow>
    (\<exists>s\<in>set ss. ps_id s = k \<and> resolveComponent cs s = Some m)"
proof (cases "find (\<lambda>s. ps_id s = k \<and> resolveComponent cs s \<noteq> None) (rev ss)")
  case None
  then have "\<not> (\<exists>s\<in>set ss. ps_id s = k \<and> resolveComponent cs s \<noteq> None)"
    unfolding find_None_iff by auto
  then show ?thesis unfolding fold_checkStep_snd None by auto
next
  case (Some s)
  from find_rev_mem [OF Some]
  have "s \<in> set ss" "ps_id s = k" "resolveComponent cs s \<noteq> None" by blast+
  then obtain m' where s: "s \<in> set ss" "ps_id s = k" "resolveComponent cs s = Some m'" by auto
  have "s' = s" if "s' \<in> set ss" "ps_id s' = k" for s'
    using assms s(1,2) that by (simp add: distinct_map inj_on_def)
  then have "(\<exists>s'\<in>set ss. ps_id s' = k \<and> resolveComponent cs s' = Some m) \<longleftrightarrow>
      resolveComponent cs s = Some m"
    using s by blast
  then show ?thesis unfolding fold_checkStep_snd Some by simp
qed

lemma stepViolations_Nil_iff:
  "stepViolations (buildPipelineTopology p) cs s = [] \<longleftrightarrow>
     length (filter (\<lambda>e. pe_fromStepId e = ps_id s) (ti_edges p)) \<le> 1 \<and>
     length (filter (\<lambda>e. pe_toStepId e = ps_id s) (ti_edges p)) \<le> 1 \<and>
     (\<exists>m. resolveComponent cs s = Some m \<and> stepConfigured s m)"
  by (auto simp: stepViolations_def checkStep_def resolveComponent_def Let_def
      checkStepConfiguration_Nil_iff split: option.splits)

lemma countViolations_Nil_iff: "countViolations ss a f = [] \<longleftrightarrow> (\<exists>s. ss = [s])"
  by (cases ss; cases "tl ss") (auto simp: countViolations_def)

subsection \<open>The chain\<close>

lemma successively_zip:
  "successively P xs \<longleftrightarrow> (\<forall>(a, b)\<in>set (zip xs (tl xs)). P a b)"
  by (induction P xs rule: successively.induct) auto

lemma checkAdjacentSteps_Nil_iff:
  assumes "distinct (map ps_id (ti_steps p))"
  shows "checkAdjacentSteps
      (snd (fold (checkStep t (indexComponentsByKey cs)) (ti_steps p) (vs, []))) (a, b) = [] \<longleftrightarrow>
    compatibleSteps p cs a b"
  (is "checkAdjacentSteps ?md _ = [] \<longleftrightarrow> _")
proof -
  have "checkAdjacentSteps ?md (a, b) = [] \<longleftrightarrow>
      (\<forall>m m'. map_get ?md a = Some m \<longrightarrow> map_get ?md b = Some m' \<longrightarrow>
         ccr_compatible (checkComponentCompatibility m m'))"
    by (auto simp: checkAdjacentSteps_def Let_def split: option.splits)
  also have "\<dots> \<longleftrightarrow> compatibleSteps p cs a b"
    unfolding compatibleSteps_def fold_checkStep_metadata [OF assms] by blast
  finally show ?thesis .
qed

lemma checkChainConnectivity_Nil_iff:
  assumes "distinct (map ps_id (ti_steps p))"
  shows "checkChainConnectivity p t s
      (snd (fold (checkStep t (indexComponentsByKey cs)) (ti_steps p) (vs, []))) = [] \<longleftrightarrow>
    ps_id ` set (ti_steps p) \<subseteq> set (walkLinearChain t s) \<and>
    successively (compatibleSteps p cs) (walkLinearChain t s)"
  by (auto simp: checkChainConnectivity_def Let_def successively_zip filter_empty_conv
      checkAdjacentSteps_Nil_iff [OF assms])

lemma pipelineViolations_unfold:
  "pipelineViolations p cs =
     countViolations (filter (\<lambda>s. ps_kind s = Source) (ti_steps p)) MissingSource MultipleSources @
     countViolations (filter (\<lambda>s. ps_kind s = Export) (ti_steps p)) MissingExport MultipleExports @
     concat (map (stepViolations (buildPipelineTopology p) cs) (ti_steps p)) @
     (case filter (\<lambda>s. ps_kind s = Source) (ti_steps p) of
        [] \<Rightarrow> []
      | src # _ \<Rightarrow>
          if length (filter (\<lambda>s. ps_kind s = Export) (ti_steps p)) = 1
          then checkChainConnectivity p (buildPipelineTopology p) (ps_id src)
            (snd (fold (checkStep (buildPipelineTopology p) (indexComponentsByKey cs)) (ti_steps p)
              (countViolations (filter (\<lambda>s. ps_kind s = Source) (ti_steps p))
                 MissingSource MultipleSources @
               countViolations (filter (\<lambda>s. ps_kind s = Export) (ti_steps p))
                 MissingExport MultipleExports, [])))
          else [])"
  by (simp add: pipelineViolations_def Let_def case_prod_beta fold_checkStep_fst split: list.splits)

lemma executable_iff_no_violations:
  "checkPipelineExecutable p cs = Executable \<longleftrightarrow> pipelineViolations p cs = []"
  by (simp add: checkPipelineExecutable_def Let_def)

lemma executable_iff_spec:
  assumes "distinct (map ps_id (ti_steps p))"
  shows "checkPipelineExecutable p cs = Executable \<longleftrightarrow> executable_pipeline p cs"
proof
  assume "checkPipelineExecutable p cs = Executable"
  then have none: "pipelineViolations p cs = []" by (simp add: executable_iff_no_violations)
  then obtain src ex where src: "filter (\<lambda>s. ps_kind s = Source) (ti_steps p) = [src]"
    and ex: "filter (\<lambda>s. ps_kind s = Export) (ti_steps p) = [ex]"
    by (auto simp: pipelineViolations_unfold countViolations_Nil_iff)
  with none show "executable_pipeline p cs"
    unfolding executable_pipeline_def
    by (intro exI [of _ src] exI [of _ ex]
        exI [of _ "walkLinearChain (buildPipelineTopology p) (ps_id src)"])
      (auto simp: pipelineViolations_unfold checkChainConnectivity_Nil_iff [OF assms]
        stepViolations_Nil_iff walkLinearChain_maximal)
next
  assume "executable_pipeline p cs"
  then show "checkPipelineExecutable p cs = Executable"
    unfolding executable_pipeline_def executable_iff_no_violations pipelineViolations_unfold
    by (auto simp: countViolations_Nil_iff checkChainConnectivity_Nil_iff [OF assms]
        stepViolations_Nil_iff dest!: maximalWalk_unique)
qed

lemmas executable_of_check = executable_iff_spec [THEN iffD1]

lemma sample_executable:
  "pipelineViolations \<lparr>ti_steps = [sampleSourceStep, sampleExportStep], ti_edges = [sampleEdge]\<rparr>
     sampleCatalog = []"
  by code_simp

section \<open>Properties\<close>

text \<open>
  Property C6: the executable check accepts a graph with distinct step identifiers exactly when it
  has one Source and one Export, no step branches, every step's component is installed and has
  all its required values and secret bindings, and the maximal walk along single outgoing edges
  from the Source passes through every step with compatible neighbours.
\<close>

theorem checkPipelineExecutable_correct:
  assumes "distinct (map ps_id (ti_steps p))"
  shows "checkPipelineExecutable p cs = Executable \<longleftrightarrow> executable_pipeline p cs"
  by (rule executable_iff_spec [OF assms])

theorem checkPipelineExecutable_correct_witness:
  "distinct (map ps_id [sampleSourceStep, sampleExportStep]) \<and>
   checkPipelineExecutable
     \<lparr>ti_steps = [sampleSourceStep, sampleExportStep], ti_edges = [sampleEdge]\<rparr>
     sampleCatalog = Executable \<and>
   executable_pipeline
     \<lparr>ti_steps = [sampleSourceStep, sampleExportStep], ti_edges = [sampleEdge]\<rparr> sampleCatalog"
proof -
  let ?p = "\<lparr>ti_steps = [sampleSourceStep, sampleExportStep], ti_edges = [sampleEdge]\<rparr>"
  have d: "distinct (map ps_id [sampleSourceStep, sampleExportStep])" by (simp add: sample_defs)
  then have "distinct (map ps_id (ti_steps ?p))" by simp
  from checkPipelineExecutable_correct [OF this, of sampleCatalog] d show ?thesis
    by (auto simp: executable_iff_no_violations intro: sample_executable)
qed

end
