(* ===== verification/Linear_Chain.thy ===== *)
theory Linear_Chain
  imports Graph_Validation Executable_Validation
begin

text \<open>
  What the two graph checks establish together: the write check of \<open>Graph_Validation\<close> and the
  enable check of \<open>Executable_Validation\<close> leave only linear chains.
\<close>

lemma zip_tl_mem: "a \<in> set xs \<Longrightarrow> a \<noteq> last xs \<Longrightarrow> \<exists>b. (a, b) \<in> set (zip xs (tl xs))"
proof (induction xs)
  case Nil
  then show ?case by simp
next
  case (Cons x xs)
  then show ?case by (cases xs) auto
qed

lemma zip_tl_pred: "b \<in> set xs \<Longrightarrow> b \<noteq> hd xs \<Longrightarrow> \<exists>a. (a, b) \<in> set (zip xs (tl xs))"
proof (induction xs)
  case Nil
  then show ?case by simp
next
  case (Cons x xs)
  then show ?case by (cases xs) auto
qed

lemma nextStepId_edge:
  "nextStepId (buildPipelineTopology p) a = Some b \<Longrightarrow> (a, b) \<in> stepRelation (ti_edges p)"
proof -
  assume "nextStepId (buildPipelineTopology p) a = Some b"
  then obtain e where "filter (\<lambda>e. pe_fromStepId e = a) (ti_edges p) = [e]" "b = pe_toStepId e"
    by (auto simp: nextStepId_def split: list.splits)
  then have "e \<in> set (ti_edges p) \<and> pe_fromStepId e = a"
    by (blast dest: filter_Cons_mem)
  with \<open>b = pe_toStepId e\<close> show ?thesis by (auto simp: stepRelation_def)
qed

lemma nextStepId_single:
  assumes "e \<in> set (ti_edges p)"
    and "length (filter (\<lambda>x. pe_fromStepId x = pe_fromStepId e) (ti_edges p)) \<le> 1"
  shows "nextStepId (buildPipelineTopology p) (pe_fromStepId e) = Some (pe_toStepId e)"
proof -
  have "e \<in> set (filter (\<lambda>x. pe_fromStepId x = pe_fromStepId e) (ti_edges p))" using assms(1) by simp
  with assms(2) have "filter (\<lambda>x. pe_fromStepId x = pe_fromStepId e) (ti_edges p) = [e]"
    by (cases "filter (\<lambda>x. pe_fromStepId x = pe_fromStepId e) (ti_edges p)") auto
  then show ?thesis by (simp add: nextStepId_def)
qed

text \<open>In an acyclic graph the last step of a walk has no edge back into it.\<close>

lemma walk_last_no_back_edge:
  assumes "acyclic E" and "successively (\<lambda>a b. (a, b) \<in> E) xs" and "x \<in> set xs"
  shows "(last xs, x) \<notin> E"
proof
  assume closing: "(last xs, x) \<in> E"
  have "transp (\<lambda>a b. (a, b) \<in> E\<^sup>+)" by (auto intro: transpI)
  moreover have "successively (\<lambda>a b. (a, b) \<in> E\<^sup>+) xs"
    using assms(2) by (rule successively_mono) auto
  ultimately have sorted: "sorted_wrt (\<lambda>a b. (a, b) \<in> E\<^sup>+) xs"
    by (simp add: successively_conv_sorted_wrt)
  obtain ys where xs: "xs = ys @ [last xs]"
    using assms(3) by (metis append_butlast_last_id list.set_cases list.distinct(1))
  from sorted have "\<forall>y\<in>set ys. (y, last xs) \<in> E\<^sup>+" by (subst (asm) xs) (simp add: sorted_wrt_append)
  moreover have "x \<in> set ys \<or> x = last xs" using assms(3) by (subst (asm) xs) auto
  ultimately have "(last xs, last xs) \<in> E\<^sup>+" using closing by (auto intro: trancl_into_trancl2)
  with assms(1) show False by (simp add: acyclic_def)
qed

lemma executable_valid_chain:
  assumes valid: "valid_graph ss es"
    and exec: "executable_pipeline \<lparr>ti_steps = ss, ti_edges = es\<rparr> cs"
  shows "\<exists>chain. chain \<noteq> [] \<and> distinct chain \<and> set chain = ps_id ` set ss \<and>
    stepRelation es = set (zip chain (tl chain)) \<and>
    kindIds Source ss = {hd chain} \<and> kindIds Export ss = {last chain} \<and>
    successively (compatibleSteps \<lparr>ti_steps = ss, ti_edges = es\<rparr> cs) chain"
proof -
  let ?p = "\<lparr>ti_steps = ss, ti_edges = es\<rparr>"
  let ?t = "buildPipelineTopology ?p"
  from exec obtain src ex chain where
    src: "filter (\<lambda>s. ps_kind s = Source) ss = [src]" and
    ex: "filter (\<lambda>s. ps_kind s = Export) ss = [ex]" and
    single: "\<forall>s\<in>set ss. length (filter (\<lambda>e. pe_fromStepId e = ps_id s) es) \<le> 1" and
    walk: "maximalWalk ?t (ps_id src) chain" and
    sub: "ps_id ` set ss \<subseteq> set chain" and
    comp: "successively (compatibleSteps ?p cs) chain"
    by (auto simp: executable_pipeline_def)
  have ne: "chain \<noteq> []" and hd: "hd chain = ps_id src" and dist: "distinct chain"
    and nxt: "successively (\<lambda>a b. nextStepId ?t a = Some b) chain"
    using walk by (simp_all add: maximalWalk_def)
  have S: "kindIds Source ss = {hd chain}" and X: "kindIds Export ss = {ps_id ex}"
    using set_kind_ids [of Source ss] set_kind_ids [of Export ss] src ex hd by simp_all
  have ends: "\<forall>e\<in>set es. pe_fromStepId e \<in> ps_id ` set ss \<and> pe_toStepId e \<in> ps_id ` set ss"
    and ac: "acyclic (stepRelation es)"
    using valid by (simp_all add: valid_graph_def)
  have zip: "(a, b) \<in> stepRelation es \<and> nextStepId ?t a = Some b"
    if "(a, b) \<in> set (zip chain (tl chain))" for a b
    using that nxt nextStepId_edge [of ?p a b] by (auto simp: successively_zip)
  have walkE: "successively (\<lambda>a b. (a, b) \<in> stepRelation es) chain"
    using zip by (auto simp: successively_zip)
  have sub': "set chain \<subseteq> ps_id ` set ss"
  proof
    fix x assume x: "x \<in> set chain"
    show "x \<in> ps_id ` set ss"
    proof (cases "x = hd chain")
      case True
      have "src \<in> set ss" using filter_Cons_mem [OF src] by simp
      with True hd show ?thesis by simp
    next
      case False
      from zip_tl_pred [OF x False] zip obtain a where "(a, x) \<in> stepRelation es" by blast
      with ends show ?thesis by (auto simp: stepRelation_def)
    qed
  qed
  have edges: "(pe_fromStepId e, pe_toStepId e) \<in> set (zip chain (tl chain))" if e: "e \<in> set es" for e
  proof -
    have mem: "pe_fromStepId e \<in> set chain" "pe_toStepId e \<in> set chain" using e ends sub by auto
    have "(pe_fromStepId e, pe_toStepId e) \<in> stepRelation es" using e by (auto simp: stepRelation_def)
    with walk_last_no_back_edge [OF ac walkE mem(2)] have "pe_fromStepId e \<noteq> last chain" by auto
    from zip_tl_mem [OF mem(1) this]
    obtain b where b: "(pe_fromStepId e, b) \<in> set (zip chain (tl chain))" ..
    obtain s where "s \<in> set ss" "pe_fromStepId e = ps_id s" using e ends by blast
    with single have "length (filter (\<lambda>x. pe_fromStepId x = pe_fromStepId e) es) \<le> 1" by simp
    with nextStepId_single [of e ?p] e zip [OF b] have "b = pe_toStepId e" by simp
    with b show ?thesis by simp
  qed
  have rel: "stepRelation es = set (zip chain (tl chain))"
    using edges zip by (auto simp: stepRelation_def)
  have "ps_id ex = last chain"
  proof (rule ccontr)
    assume other: "ps_id ex \<noteq> last chain"
    have "ps_id ex \<in> set chain" using X sub by (auto simp: kindIds_def)
    from zip_tl_mem [OF this other] rel obtain b where "(ps_id ex, b) \<in> stepRelation es" by auto
    with valid X show False by (auto simp: valid_graph_def stepRelation_def)
  qed
  with ne dist sub sub' rel S X comp show ?thesis by (intro exI [of _ chain]) auto
qed

end
