(* ===== verification/Pipeline_Actions.thy ===== *)
theory Pipeline_Actions
  imports Run_Queue Repository_Correctness Linear_Chain
begin

text \<open>
  \<open>packages/database/src/pipelines/actions.ts\<close> and \<open>execution-state.ts\<close> with
  \<open>apps/scheduler/src/pipeline-actions.ts\<close> and \<open>internal-run-route.ts\<close>: the
  owner-scoped actions run, enable and disable, the run that locks a pipeline, and the internal
  endpoint of the scheduler that enqueues a manual run.
\<close>

section \<open>Errors and results\<close>

datatype PipelineActionConflictReason = ActLocked | ActNotEnabled | ActNotExecutable | ActNotFound

datatype action_error =
    PipelineActionConflictError PipelineActionConflictReason string
      "PipelineExecutableViolation list option"
  | ActionContractError
  | ActionRunError run_error

record PipelineStateActionResult =
  sa_pipelineId :: string
  sa_state :: PipelineState

definition notFoundConflict :: action_error where
  "notFoundConflict = PipelineActionConflictError ActNotFound ''The requested pipeline was not found.'' None"

definition notEnabledConflict :: action_error where
  "notEnabledConflict =
     PipelineActionConflictError ActNotEnabled ''The pipeline must be enabled before it can run.'' None"

definition lockedConflict :: action_error where
  "lockedConflict =
     PipelineActionConflictError ActLocked ''The pipeline is locked while a run is queued or active.'' None"

definition notExecutableConflict :: "PipelineExecutableViolation list \<Rightarrow> action_error" where
  "notExecutableConflict violations =
     PipelineActionConflictError ActNotExecutable ''The pipeline is not executable and cannot be enabled.''
       (Some violations)"

section \<open>Enable and disable\<close>

definition parseActionInput :: "zod_formats \<Rightarrow> string \<Rightarrow> string \<Rightarrow> (action_error, unit) result" where
  "parseActionInput zf ownerUserId pipelineId =
     bind_res (throw_if (\<not> uuid_format zf pipelineId) ActionContractError) (\<lambda>_.
     throw_if (\<not> uuid_format zf ownerUserId) ActionContractError)"

definition readPipelineTopologyForExecutableCheck :: "database \<Rightarrow> string \<Rightarrow> PipelineTopologyInput" where
  "readPipelineTopologyForExecutableCheck db pipelineId =
     \<lparr>ti_steps = map stepOfRow (filter (\<lambda>c. pc_pipelineId c = pipelineId) (db_components db)),
      ti_edges = map edgeOfRow (filter (\<lambda>e. eg_pipelineId e = pipelineId) (db_edges db))\<rparr>"

definition setPipelineStateForOwner ::
  "zod_formats \<Rightarrow> string \<Rightarrow> string \<Rightarrow> PipelineState \<Rightarrow> time \<Rightarrow> ComponentMetadata list option \<Rightarrow>
   database \<Rightarrow> (action_error, database \<times> PipelineStateActionResult) result" where
  "setPipelineStateForOwner zf ownerUserId pipelineId state now availableComponents db =
     bind_res (parseActionInput zf ownerUserId pipelineId) (\<lambda>_.
     (case find (\<lambda>p. pl_id p = pipelineId \<and> pl_ownerUserId p = ownerUserId) (db_pipelines db) of
        None \<Rightarrow> Throw notFoundConflict
      | Some pipeline \<Rightarrow>
          (let blockingRun = find (\<lambda>r. rn_pipelineId r = pipelineId \<and> activeState (rn_state r)) (db_runs db);
               executionState = createPipelineExecutionState (pl_state pipeline);
               locked = (case blockingRun of None \<Rightarrow> executionState
                 | Some r \<Rightarrow> executionState\<lparr>es_activeRun := Some
                     \<lparr>ar_id = rn_id r,
                      ar_state = (if rn_state r = RunRunning then PhaseRunning else PhaseQueued),
                      ar_cancellationRequested = False\<rparr>\<rparr>)
           in bind_res (map_err (\<lambda>_. lockedConflict) (setPipelineState locked state)) (\<lambda>_.
              bind_res (if state = Enabled
                then map_err (\<lambda>e. case e of PipelineNotExecutableError vs \<Rightarrow> notExecutableConflict vs)
                  (assertPipelineExecutable (readPipelineTopologyForExecutableCheck db pipelineId)
                    (case availableComponents of None \<Rightarrow> [] | Some cs \<Rightarrow> cs))
                else Return ()) (\<lambda>_.
              Return
                (db\<lparr>db_pipelines := update_where
                    (\<lambda>p. pl_id p = pipelineId \<and> pl_ownerUserId p = ownerUserId)
                    (\<lambda>p. p\<lparr>pl_state := state, pl_updatedAt := now\<rparr>) (db_pipelines db)\<rparr>,
                 \<lparr>sa_pipelineId = pipelineId, sa_state = state\<rparr>))))))"

definition enablePipelineForOwner ::
  "zod_formats \<Rightarrow> string \<Rightarrow> string \<Rightarrow> ComponentMetadata list \<Rightarrow> time \<Rightarrow> database \<Rightarrow>
   (action_error, database \<times> PipelineStateActionResult) result" where
  "enablePipelineForOwner zf ownerUserId pipelineId availableComponents now =
     setPipelineStateForOwner zf ownerUserId pipelineId Enabled now (Some availableComponents)"

definition disablePipelineForOwner ::
  "zod_formats \<Rightarrow> string \<Rightarrow> string \<Rightarrow> time \<Rightarrow> database \<Rightarrow>
   (action_error, database \<times> PipelineStateActionResult) result" where
  "disablePipelineForOwner zf ownerUserId pipelineId now =
     setPipelineStateForOwner zf ownerUserId pipelineId Disabled now None"

section \<open>Run\<close>

definition findOwnedPipeline :: "database \<Rightarrow> string \<Rightarrow> string \<Rightarrow> PipelineState option" where
  "findOwnedPipeline db ownerUserId pipelineId =
     map_option pl_state
       (find (\<lambda>p. pl_id p = pipelineId \<and> pl_ownerUserId p = ownerUserId) (db_pipelines db))"

definition assertActionCanRun :: "PipelineState \<Rightarrow> (action_error, unit) result" where
  "assertActionCanRun state =
     (case enqueuePipelineRun (createPipelineExecutionState state) ''manual-action'' of
        Inl _ \<Rightarrow> Throw notEnabledConflict
      | Inr _ \<Rightarrow> Return ())"

definition hasPipelineRunConflictReason :: "run_error \<Rightarrow> PipelineRunEnqueueConflictReason \<Rightarrow> bool" where
  "hasPipelineRunConflictReason error reason =
     (case error of PipelineRunEnqueueConflictError r m \<Rightarrow> r = reason | _ \<Rightarrow> False)"

definition runPipelineForOwner ::
  "zod_formats \<Rightarrow> string \<Rightarrow> string \<Rightarrow>
   (string \<Rightarrow> database \<Rightarrow> (run_error, database \<times> CreatedPipelineRun) result) \<Rightarrow>
   database \<Rightarrow> (action_error, database \<times> CreatedPipelineRun) result" where
  "runPipelineForOwner zf ownerUserId pipelineId enqueueRun db =
     bind_res (parseActionInput zf ownerUserId pipelineId) (\<lambda>_.
     (case findOwnedPipeline db ownerUserId pipelineId of
        None \<Rightarrow> Throw notFoundConflict
      | Some state \<Rightarrow>
          bind_res (assertActionCanRun state) (\<lambda>_.
          catch_res (map_err ActionRunError (enqueueRun pipelineId db)) (\<lambda>error.
            case error of
              ActionRunError e \<Rightarrow>
                if hasPipelineRunConflictReason e ReasonNotEnabled then Throw notEnabledConflict
                else if hasPipelineRunConflictReason e ReasonNotFound then Throw notFoundConflict
                else Throw error
            | _ \<Rightarrow> Throw error))))"

definition enqueuePipelineRunForOwner ::
  "zod_formats \<Rightarrow> (nat \<Rightarrow> string) \<Rightarrow> time \<Rightarrow> string \<Rightarrow> string \<Rightarrow> time \<Rightarrow> database \<Rightarrow>
   (action_error, database \<times> CreatedPipelineRun) result" where
  "enqueuePipelineRunForOwner zf gen dbNow ownerUserId pipelineId now =
     runPipelineForOwner zf ownerUserId pipelineId
       (\<lambda>pipelineId. createPipelineRun zf gen dbNow
          \<lparr>rq_pipelineId = pipelineId, rq_scheduledFor = None, rq_triggerId = None\<rparr> now)"

section \<open>The run that locks a pipeline\<close>

record ActiveRunSummary =
  rm_id :: string
  rm_state :: ActiveRunPhase

definition getActiveRunForPipeline :: "database \<Rightarrow> string \<Rightarrow> ActiveRunSummary option" where
  "getActiveRunForPipeline db pipelineId =
     map_option (\<lambda>r. \<lparr>rm_id = rn_id r,
         rm_state = (if rn_state r = RunRunning then PhaseRunning else PhaseQueued)\<rparr>)
       (find (\<lambda>r. rn_pipelineId r = pipelineId \<and> activeState (rn_state r)) (db_runs db))"

section \<open>The internal endpoint of the scheduler\<close>

text \<open>
  A request has its method, its authorization header and its body, \<open>None\<close> when it is not JSON.
\<close>

record internal_request =
  ir_method :: string
  ir_authorization :: "string option"
  ir_body :: "json option"

record response =
  re_status :: nat
  re_body :: "json option"

text \<open>\<open>Buffer.from\<close> encodes a Latin-1 string as UTF-8.\<close>

definition utf8 :: "string \<Rightarrow> nat list" where
  "utf8 s = concat (map (\<lambda>c. if code c < 128 then [code c]
     else [192 + code c div 64, 128 + code c mod 64]) s)"

definition hasValidInternalToken :: "string option \<Rightarrow> string \<Rightarrow> bool" where
  "hasValidInternalToken header expectedToken =
     (case header of
        None \<Rightarrow> False
      | Some h \<Rightarrow>
          js_startsWith h ''Bearer '' \<and>
          (let received = utf8 (drop (length ''Bearer '') h); expected = utf8 expectedToken
           in length received = length expected \<and> received = expected))"

definition parseInternalInput :: "zod_formats \<Rightarrow> json option \<Rightarrow> (string \<times> string) option" where
  "parseInternalInput zf body =
     (case body of
        Some (JObj kvs) \<Rightarrow>
          if length (map_keys kvs) \<noteq> 2 then None
          else (case (map_get kvs ''ownerUserId'', map_get kvs ''pipelineId'') of
             (Some (JStr ownerUserId), Some (JStr pipelineId)) \<Rightarrow>
               if uuid_format zf ownerUserId \<and> uuid_format zf pipelineId
               then Some (ownerUserId, pipelineId) else None
           | _ \<Rightarrow> None)
      | _ \<Rightarrow> None)"

definition actionErrorResponse :: "action_error \<Rightarrow> (action_error, response) result" where
  "actionErrorResponse error =
     (case error of
        PipelineActionConflictError reason m vs \<Rightarrow>
          (let code = (if reason = ActLocked then ''pipeline_locked''
                       else if reason = ActNotEnabled then ''pipeline_not_enabled''
                       else ''pipeline_not_found'')
           in Return \<lparr>re_status = (if reason = ActNotFound then 404 else 409),
                re_body = Some (JObj [(''code'', JStr code)])\<rparr>)
      | _ \<Rightarrow> Throw error)"

definition pipelineRunResponseSchema_ok :: "zod_formats \<Rightarrow> CreatedPipelineRun \<Rightarrow> bool" where
  "pipelineRunResponseSchema_ok zf run \<longleftrightarrow>
     cp_initialJobCount run \<le> 9007199254740991 \<and> uuid_format zf (cp_pipelineId run) \<and>
     uuid_format zf (cp_runId run)"

definition runResponse :: "CreatedPipelineRun \<Rightarrow> response" where
  "runResponse run =
     \<lparr>re_status = 200, re_body = Some (JObj
        [(''initialJobCount'', JNum (of_nat (cp_initialJobCount run))),
         (''pipelineId'', JStr (cp_pipelineId run)),
         (''queuedBehindActiveRun'', JBool (cp_queuedBehindActiveRun run)),
         (''runId'', JStr (cp_runId run))])\<rparr>"

text \<open>A run that was committed stays committed when its response cannot be built.\<close>

definition internalPipelineRunRoute ::
  "zod_formats \<Rightarrow> (nat \<Rightarrow> string) \<Rightarrow> time \<Rightarrow> string \<Rightarrow> internal_request \<Rightarrow> time \<Rightarrow> database \<Rightarrow>
   database \<times> (action_error, response) result" where
  "internalPipelineRunRoute zf gen dbNow internalToken request now db =
     (if ir_method request \<noteq> ''POST'' then (db, Return \<lparr>re_status = 405, re_body = None\<rparr>)
      else if \<not> hasValidInternalToken (ir_authorization request) internalToken
      then (db, Return \<lparr>re_status = 401, re_body = None\<rparr>)
      else (case parseInternalInput zf (ir_body request) of
          None \<Rightarrow> (db, Return \<lparr>re_status = 400,
            re_body = Some (JObj [(''code'', JStr ''invalid_pipeline_request'')])\<rparr>)
        | Some (ownerUserId, pipelineId) \<Rightarrow>
            (case enqueuePipelineRunForOwner zf gen dbNow ownerUserId pipelineId now db of
               Inl error \<Rightarrow> (db, actionErrorResponse error)
             | Inr (db', run) \<Rightarrow>
                 (db', if pipelineRunResponseSchema_ok zf run then Return (runResponse run)
                    else actionErrorResponse ActionContractError))))"

section \<open>Lemmas\<close>

lemma utf8_Cons_eq:
  "utf8 (c # s) = utf8 (d # t) \<longleftrightarrow> c = d \<and> utf8 s = utf8 t"
proof
  assume eq: "utf8 (c # s) = utf8 (d # t)"
  have b: "code c < 256" "code d < 256" by (simp_all add: code_def)
  show "c = d \<and> utf8 s = utf8 t"
  proof (cases "code c < 128")
    case True
    with eq b have "code c = code d \<and> utf8 s = utf8 t"
      by (cases "code d < 128") (auto simp: utf8_def)
    then show ?thesis by (simp add: code_def)
  next
    case False
    with eq b have "\<not> code d < 128" by (auto simp: utf8_def split: if_splits)
    with False eq have "code c div 64 = code d div 64" "code c mod 64 = code d mod 64" "utf8 s = utf8 t"
      by (auto simp: utf8_def)
    then have "code c = code d" by (metis div_mult_mod_eq)
    with \<open>utf8 s = utf8 t\<close> show ?thesis by (simp add: code_def)
  qed
qed (simp add: utf8_def)

lemma utf8_eq_iff: "utf8 s = utf8 t \<longleftrightarrow> s = t"
proof (induction s arbitrary: t)
  case Nil
  then show ?case by (cases t) (auto simp: utf8_def)
next
  case (Cons c s)
  show ?case
  proof (cases t)
    case Nil
    then show ?thesis by (auto simp: utf8_def)
  next
    case (Cons d t')
    with Cons.IH show ?thesis by (simp only: utf8_Cons_eq list.inject)
  qed
qed

lemma hasValidInternalToken_iff:
  "hasValidInternalToken header token \<longleftrightarrow> header = Some (''Bearer '' @ token)"
proof (cases header)
  case (Some h)
  have "js_startsWith h p \<and> drop (length p) h = token \<longleftrightarrow> h = p @ token" for p
    unfolding js_startsWith_def by (metis append_eq_conv_conj append_take_drop_id)
  from this [of "''Bearer ''"] Some show ?thesis
    unfolding hasValidInternalToken_def Let_def utf8_eq_iff by (auto simp del: js_startsWith_def)
qed (simp add: hasValidInternalToken_def)

lemma setPipelineStateForOwner_Return:
  assumes "setPipelineStateForOwner zf owner pid st now cs db = Return (db', r)"
  obtains row where
    "find (andOwnerAndPipelineId owner pid) (db_pipelines db) = Some row"
    "\<forall>r\<in>set (db_runs db). rn_pipelineId r = pid \<longrightarrow> \<not> activeState (rn_state r)"
    "st = Enabled \<Longrightarrow> checkPipelineExecutable (readPipelineTopologyForExecutableCheck db pid)
       (case cs of None \<Rightarrow> [] | Some cs \<Rightarrow> cs) = Executable"
    "db' = db\<lparr>db_pipelines := update_where (\<lambda>p. pl_id p = pid \<and> pl_ownerUserId p = owner)
        (\<lambda>p. p\<lparr>pl_state := st, pl_updatedAt := now\<rparr>) (db_pipelines db)\<rparr>"
    "r = \<lparr>sa_pipelineId = pid, sa_state = st\<rparr>"
proof -
  obtain row where row: "find (andOwnerAndPipelineId owner pid) (db_pipelines db) = Some row"
    using assms by (cases "find (andOwnerAndPipelineId owner pid) (db_pipelines db)")
      (auto simp: setPipelineStateForOwner_def find_commute_owner bind_res_Return_iff)
  have idle: "find (\<lambda>r. rn_pipelineId r = pid \<and> activeState (rn_state r)) (db_runs db) = None"
    using assms row
    by (cases "find (\<lambda>r. rn_pipelineId r = pid \<and> activeState (rn_state r)) (db_runs db)")
      (auto simp: setPipelineStateForOwner_def find_commute_owner bind_res_Return_iff Let_def setPipelineState_def
        assertPipelineEditable_def isPipelineEditable_def)
  then have "\<forall>r\<in>set (db_runs db). rn_pipelineId r = pid \<longrightarrow> \<not> activeState (rn_state r)"
    by (auto simp: find_None_iff)
  with row show thesis
    using assms idle
    by (intro that)
      (auto simp: setPipelineStateForOwner_def find_commute_owner bind_res_Return_iff Let_def setPipelineState_def
        assertPipelineEditable_def isPipelineEditable_def createPipelineExecutionState_def
        assertPipelineExecutable_def split: PipelineExecutableResult.splits if_splits)
qed

lemma stateUpdate_wf:
  assumes "db_wf db" and "setPipelineStateForOwner zf owner pid st now cs db = Return (db', r)"
  shows "db_wf db'"
proof -
  from assms(2) have "db' = db\<lparr>db_pipelines := update_where (\<lambda>p. pl_id p = pid \<and> pl_ownerUserId p = owner)
        (\<lambda>p. p\<lparr>pl_state := st, pl_updatedAt := now\<rparr>) (db_pipelines db)\<rparr>"
    by (rule setPipelineStateForOwner_Return)
  then show ?thesis using updatePipelines_wf [OF assms(1)] by simp
qed

lemma topology_of_stored:
  "readPipelineTopologyForExecutableCheck db pid = \<lparr>ti_steps = storedSteps db pid, ti_edges = storedEdges db pid\<rparr>"
  by (simp add: readPipelineTopologyForExecutableCheck_def storedSteps_def storedEdges_def graph_tables)

text \<open>A successful result with a property, for evaluation on samples.\<close>

definition returnsWith :: "('a \<Rightarrow> bool) \<Rightarrow> ('e, 'a) result \<Rightarrow> bool" where
  "returnsWith P m = (case m of Inl _ \<Rightarrow> False | Inr x \<Rightarrow> P x)"

lemma returnsWithE: "returnsWith P m \<Longrightarrow> \<exists>x. m = Return x \<and> P x"
  by (auto simp: returnsWith_def split: sum.splits)

lemma sampleEnable_ok:
  "returnsWith (\<lambda>_. True) (enablePipelineForOwner sampleZf ''u1'' ''g0'' sampleCatalog 7 sampleDb)"
  by code_simp

section \<open>Properties\<close>



text \<open>
  The internal endpoint of the scheduler changes the database only for a POST request
  that carries exactly the configured bearer token; any other request gets status 405 or 401.
\<close>

theorem internal_route_requires_token:
  "(ir_method request \<noteq> ''POST'' \<longrightarrow> internalPipelineRunRoute zf gen dbNow token request now db =
      (db, Return \<lparr>re_status = 405, re_body = None\<rparr>)) \<and>
   (ir_method request = ''POST'' \<and> ir_authorization request \<noteq> Some (''Bearer '' @ token) \<longrightarrow>
     internalPipelineRunRoute zf gen dbNow token request now db =
      (db, Return \<lparr>re_status = 401, re_body = None\<rparr>)) \<and>
   (fst (internalPipelineRunRoute zf gen dbNow token request now db) \<noteq> db \<longrightarrow>
     (\<exists>owner pid run. parseInternalInput zf (ir_body request) = Some (owner, pid) \<and>
        ir_authorization request = Some (''Bearer '' @ token) \<and>
        (\<exists>p\<in>set (db_pipelines db). pl_id p = pid \<and> pl_ownerUserId p = owner) \<and>
        enqueuePipelineRunForOwner zf gen dbNow owner pid now db =
          Return (fst (internalPipelineRunRoute zf gen dbNow token request now db), run)))"
proof (intro conjI impI)
  assume changed: "fst (internalPipelineRunRoute zf gen dbNow token request now db) \<noteq> db"
  then have auth: "ir_method request = ''POST''" "ir_authorization request = Some (''Bearer '' @ token)"
    by (auto simp: internalPipelineRunRoute_def hasValidInternalToken_iff split: if_splits)
  with changed obtain owner pid where
    input: "parseInternalInput zf (ir_body request) = Some (owner, pid)"
    by (cases "parseInternalInput zf (ir_body request)")
      (auto simp: internalPipelineRunRoute_def hasValidInternalToken_iff)
  with changed auth obtain run where
    run: "enqueuePipelineRunForOwner zf gen dbNow owner pid now db =
      Return (fst (internalPipelineRunRoute zf gen dbNow token request now db), run)"
    by (cases "enqueuePipelineRunForOwner zf gen dbNow owner pid now db")
      (auto simp: internalPipelineRunRoute_def hasValidInternalToken_iff)
  then have "find (\<lambda>p. pl_id p = pid \<and> pl_ownerUserId p = owner) (db_pipelines db) \<noteq> None"
    by (auto simp: enqueuePipelineRunForOwner_def runPipelineForOwner_def findOwnedPipeline_def bind_res_Return_iff
        split: option.splits)
  then have "\<exists>p\<in>set (db_pipelines db). pl_id p = pid \<and> pl_ownerUserId p = owner" by (auto simp: find_None_iff)
  with input auth run show "\<exists>owner pid run. parseInternalInput zf (ir_body request) = Some (owner, pid) \<and>
        ir_authorization request = Some (''Bearer '' @ token) \<and>
        (\<exists>p\<in>set (db_pipelines db). pl_id p = pid \<and> pl_ownerUserId p = owner) \<and>
        enqueuePipelineRunForOwner zf gen dbNow owner pid now db =
          Return (fst (internalPipelineRunRoute zf gen dbNow token request now db), run)" by blast
qed (simp_all add: internalPipelineRunRoute_def hasValidInternalToken_iff)

theorem internal_route_requires_token_witness:
  "internalPipelineRunRoute sampleZf sampleGen 0 ''secret''
     \<lparr>ir_method = ''POST'', ir_authorization = Some ''Bearer guess'', ir_body = None\<rparr> 0 sampleDb =
   (sampleDb, Return \<lparr>re_status = 401, re_body = None\<rparr>)"
  using internal_route_requires_token
    [of "\<lparr>ir_method = ''POST'', ir_authorization = Some ''Bearer guess'', ir_body = None\<rparr>"
      sampleZf sampleGen 0 "''secret''" 0 sampleDb]
  by simp

end
