(* ===== verification/Uploads.thy ===== *)
theory Uploads
  imports Garbage_Collector Pipeline_Actions
begin

text \<open>
  Staged uploads: \<open>apps/web/src/uploads/import-storage.ts\<close> stores a file under a generated
  name, \<open>collection-route.ts\<close> is the authenticated upload endpoint that records it with an
  owner and an expiry, and \<open>pipeline-claims.ts\<close> releases the staged files that a saved
  pipeline names. \<open>randomUUID\<close> and the resolved session are arguments. A file has its name,
  its declared size and the number of bytes read from it.
\<close>

section \<open>Storing a file\<close>

record StoredImport =
  si_sourcePath :: string
  si_storageLocation :: string

definition IMPORT_DIRECTORY :: string where
  "IMPORT_DIRECTORY = ''imports''"

definition UPLOAD_DIRECTORY :: string where
  "UPLOAD_DIRECTORY = ''uploads''"

text \<open>The pattern \<open>^\.[a-z0-9]{1,12}$\<close>.\<close>

definition extensionPattern :: "string \<Rightarrow> bool" where
  "extensionPattern e =
     (case e of [] \<Rightarrow> False
      | c # cs \<Rightarrow> c = CHR ''.'' \<and> 1 \<le> length cs \<and> length cs \<le> 12 \<and> list_all (\<lambda>c. is_lower c \<or> is_digit c) cs)"

definition safeExtension :: "string \<Rightarrow> string" where
  "safeExtension fileName =
     (let extension = js_toLowerCase (node_extname fileName)
      in if extensionPattern extension then extension else [])"

definition importStore ::
  "(path \<Rightarrow> bool) \<Rightarrow> path \<Rightarrow> string \<Rightarrow> string \<Rightarrow> filesystem \<Rightarrow> filesystem \<times> (string, StoredImport) result" where
  "importStore denied storageRoot uuid originalFileName fs =
     (let storedName = uuid @ safeExtension originalFileName;
          sourcePath = UPLOAD_DIRECTORY @ ''/'' @ storedName;
          storageLocation = IMPORT_DIRECTORY @ ''/'' @ sourcePath
      in case resolveWithinRoot storageRoot storageLocation of
           Inl e \<Rightarrow> (fs, Throw e)
         | Inr destination \<Rightarrow>
             (case fs_mkdir denied (butlast destination) fs of
                Inl e \<Rightarrow> (fs, Throw e)
              | Inr fs \<Rightarrow>
                  (case fs_write_new denied destination fs of
                     Inl e \<Rightarrow> (fs, Throw e)
                   | Inr fs \<Rightarrow> (fs, Return \<lparr>si_sourcePath = sourcePath, si_storageLocation = storageLocation\<rparr>))))"

section \<open>The upload endpoint\<close>

record UploadedFile =
  uf_name :: string
  uf_size :: int
  uf_byteLength :: int

definition MAXIMUM_UPLOAD_BYTES :: int where
  "MAXIMUM_UPLOAD_BYTES = 100 * 1024 * 1024"

definition UPLOAD_RETENTION_HOURS :: int where
  "UPLOAD_RETENTION_HOURS = 24"

definition PERMITTED_EXTENSIONS :: "string list" where
  "PERMITTED_EXTENSIONS = [''.csv'', ''.tsv'', ''.json'', ''.xlsx'', ''.xls'']"

definition hasPermittedExtension :: "string \<Rightarrow> bool" where
  "hasPermittedExtension fileName =
     (let lowercaseName = js_toLowerCase fileName
      in list_ex (\<lambda>extension. js_endsWith lowercaseName extension) PERMITTED_EXTENSIONS)"

definition uploadRejectedResponse :: "string \<Rightarrow> nat \<Rightarrow> response" where
  "uploadRejectedResponse c status = \<lparr>re_status = status, re_body = Some (JObj [(''code'', JStr c)])\<rparr>"

text \<open>A body that is no form, or has no named file, is \<open>None\<close>.\<close>

definition readUploadedFile :: "UploadedFile option \<Rightarrow> UploadedFile option" where
  "readUploadedFile form =
     (case form of None \<Rightarrow> None | Some file \<Rightarrow> if length (uf_name file) > 0 then Some file else None)"

datatype upload_error = UploadDatabaseError db_error | UploadContractError

definition sourceUploadResponseSchema_ok :: "zod_formats \<Rightarrow> string \<Rightarrow> string \<Rightarrow> int \<Rightarrow> string \<Rightarrow> bool" where
  "sourceUploadResponseSchema_ok zf sourcePath fileName byteSize expiresAt \<longleftrightarrow>
     sourcePath \<noteq> [] \<and> fileName \<noteq> [] \<and> 0 \<le> byteSize \<and> byteSize \<le> 9007199254740991 \<and> datetime_format zf expiresAt"

definition sourceUploadRoute ::
  "zod_formats \<Rightarrow> (path \<Rightarrow> bool) \<Rightarrow> path \<Rightarrow> string \<Rightarrow> (nat \<Rightarrow> string) \<Rightarrow> time \<Rightarrow> string option \<Rightarrow>
   UploadedFile option \<Rightarrow> time \<Rightarrow> filesystem \<times> database \<Rightarrow>
   (filesystem \<times> database) \<times> (upload_error, response) result" where
  "sourceUploadRoute zf denied storageRoot uuid gen dbNow session form now fd = (case fd of (fs, db) \<Rightarrow>
     (case session of
        None \<Rightarrow> (fd, Return \<lparr>re_status = 401, re_body = None\<rparr>)
      | Some userId \<Rightarrow>
     (case readUploadedFile form of
        None \<Rightarrow> (fd, Return (uploadRejectedResponse ''invalid_upload_request'' 400))
      | Some file \<Rightarrow>
          if uf_size file > MAXIMUM_UPLOAD_BYTES then (fd, Return (uploadRejectedResponse ''upload_too_large'' 413))
          else if \<not> hasPermittedExtension (uf_name file)
          then (fd, Return (uploadRejectedResponse ''unsupported_upload_type'' 415))
          else if uf_byteLength file > MAXIMUM_UPLOAD_BYTES
          then (fd, Return (uploadRejectedResponse ''upload_too_large'' 413))
          else (case importStore denied storageRoot uuid (uf_name file) fs of
              (fs, Inl _) \<Rightarrow> ((fs, db), Return (uploadRejectedResponse ''upload_storage_unavailable'' 503))
            | (fs, Inr stored) \<Rightarrow>
                (let expiresAt = now + UPLOAD_RETENTION_HOURS * 60 * 60 * 1000
                 in case createStagedUpload gen dbNow
                      \<lparr>su_ownerUserId = userId, su_storageLocation = si_storageLocation stored,
                       su_storageKind = LocalStorage, su_expiresAt = expiresAt\<rparr> db of
                      Inl e \<Rightarrow> ((fs, db), Throw (UploadDatabaseError e))
                    | Inr (db, _) \<Rightarrow> ((fs, db),
                        if sourceUploadResponseSchema_ok zf (si_sourcePath stored) (uf_name file)
                             (uf_byteLength file) (toISOString expiresAt)
                        then Return \<lparr>re_status = 201, re_body = Some (JObj
                          [(''sourcePath'', JStr (si_sourcePath stored)), (''fileName'', JStr (uf_name file)),
                           (''byteSize'', JNum (of_int (uf_byteLength file))),
                           (''expiresAt'', JStr (toISOString expiresAt))])\<rparr>
                        else Throw UploadContractError))))))"

section \<open>Releasing the files of a pipeline\<close>

definition UPLOAD_PATH_PREFIX :: string where
  "UPLOAD_PATH_PREFIX = ''uploads/''"

definition uploadStorageLocations :: "Pipeline \<Rightarrow> string list" where
  "uploadStorageLocations pipeline =
     set_of_list (concat (map (\<lambda>step. concat (map (\<lambda>(k, v).
       case v of
         JStr s \<Rightarrow> if js_startsWith s UPLOAD_PATH_PREFIX then [IMPORT_DIRECTORY @ ''/'' @ s] else []
       | _ \<Rightarrow> []) (cc_values (ps_configuration step)))) (p_steps pipeline)))"

definition claimPipelineUploads :: "string \<Rightarrow> Pipeline \<Rightarrow> database \<Rightarrow> database" where
  "claimPipelineUploads ownerUserId pipeline db =
     (let locations = uploadStorageLocations pipeline
      in if length locations = 0 then db else fst (claimStagedUploads ownerUserId locations db))"

section \<open>Where a file is stored\<close>

text \<open>A generated identifier: hexadecimal digits and dashes.\<close>

definition uuid_chars :: "string \<Rightarrow> bool" where
  "uuid_chars u \<longleftrightarrow> u \<noteq> [] \<and> list_all (\<lambda>c. is_lower c \<or> is_digit c \<or> c = CHR ''-'') u"

lemma word_chars:
  "is_lower c \<or> is_digit c \<or> c = CHR ''-'' \<Longrightarrow> c \<noteq> slash \<and> c \<noteq> backslash \<and> c \<noteq> CHR ''.''"
  by (auto simp: is_lower_def is_digit_def code_def backslash_def)

lemma stored_name_clean:
  assumes "uuid_chars uuid"
  shows "clean_segment (uuid @ safeExtension fileName)"
proof -
  obtain c cs where u: "uuid = c # cs" using assms by (cases uuid) (auto simp: uuid_chars_def)
  have "\<forall>x\<in>set uuid. x \<noteq> slash \<and> x \<noteq> backslash \<and> x \<noteq> CHR ''.''"
    using assms word_chars by (auto simp: uuid_chars_def list_all_iff)
  moreover have "\<forall>x\<in>set (safeExtension fileName). x \<noteq> slash \<and> x \<noteq> backslash"
    using word_chars
    by (auto simp: safeExtension_def extensionPattern_def Let_def list_all_iff backslash_def split: list.splits if_splits)
  ultimately show ?thesis by (auto simp: clean_segment_def u)
qed

definition uploadPath :: "path \<Rightarrow> string \<Rightarrow> string \<Rightarrow> path" where
  "uploadPath storageRoot uuid fileName =
     storageRoot @ [IMPORT_DIRECTORY, UPLOAD_DIRECTORY, uuid @ safeExtension fileName]"

definition uploadLocation :: "string \<Rightarrow> string \<Rightarrow> string" where
  "uploadLocation uuid fileName = js_join ''/'' [IMPORT_DIRECTORY, UPLOAD_DIRECTORY, uuid @ safeExtension fileName]"

lemma upload_segments_clean:
  "uuid_chars uuid \<Longrightarrow> \<forall>s\<in>set [IMPORT_DIRECTORY, UPLOAD_DIRECTORY, uuid @ safeExtension fileName]. clean_segment s"
  using stored_name_clean
  by (auto simp: IMPORT_DIRECTORY_def UPLOAD_DIRECTORY_def clean_segment_def backslash_def)

lemma upload_location_resolves:
  assumes "uuid_chars uuid"
  shows "resolveWithinRoot storageRoot (uploadLocation uuid fileName) = Return (uploadPath storageRoot uuid fileName)"
    and "pathForLocation storageRoot (uploadLocation uuid fileName) = Return (uploadPath storageRoot uuid fileName)"
  unfolding uploadLocation_def uploadPath_def
  using resolveWithinRoot_clean [OF _ upload_segments_clean [OF assms]]
    pathForLocation_clean [OF _ upload_segments_clean [OF assms]] by blast+

lemma importStore_cases:
  assumes "uuid_chars uuid"
  shows "importStore denied storageRoot uuid fileName fs =
    (case fs_mkdir denied (storageRoot @ [IMPORT_DIRECTORY, UPLOAD_DIRECTORY]) fs of
       Inl e \<Rightarrow> (fs, Throw e)
     | Inr fs1 \<Rightarrow>
         (case fs_write_new denied (uploadPath storageRoot uuid fileName) fs1 of
            Inl e \<Rightarrow> (fs1, Throw e)
          | Inr fs2 \<Rightarrow> (fs2, Return \<lparr>si_sourcePath = UPLOAD_PATH_PREFIX @ uuid @ safeExtension fileName,
              si_storageLocation = uploadLocation uuid fileName\<rparr>)))"
proof -
  have "IMPORT_DIRECTORY @ ''/'' @ UPLOAD_DIRECTORY @ ''/'' @ uuid @ safeExtension fileName = uploadLocation uuid fileName"
    by (simp add: uploadLocation_def)
  moreover have "butlast (uploadPath storageRoot uuid fileName) = storageRoot @ [IMPORT_DIRECTORY, UPLOAD_DIRECTORY]"
    by (simp add: uploadPath_def butlast_append)
  ultimately show ?thesis
    using upload_location_resolves(1) [OF assms, of storageRoot fileName]
    by (simp add: importStore_def UPLOAD_DIRECTORY_def UPLOAD_PATH_PREFIX_def split: sum.splits)
qed


lemma fs_mkdir_files: "fs_mkdir denied path fs = Return fs' \<Longrightarrow> fs_files fs' = fs_files fs"
  by (auto simp: fs_mkdir_def split: if_splits)

text \<open>A successful store adds one file, at a path that no file had; a failed one adds none.\<close>

lemma importStore_files:
  assumes "uuid_chars uuid" and "importStore denied R uuid fileName fs = (fs', r)"
  shows "case r of Inl _ \<Rightarrow> fs_files fs' = fs_files fs
    | Inr stored \<Rightarrow> uploadPath R uuid fileName \<notin> set (fs_files fs) \<and>
        fs_files fs' = fs_files fs @ [uploadPath R uuid fileName] \<and>
        si_sourcePath stored = UPLOAD_PATH_PREFIX @ uuid @ safeExtension fileName \<and>
        si_storageLocation stored = uploadLocation uuid fileName"
  using assms(2) fs_mkdir_files unfolding importStore_cases [OF assms(1)]
  by (fastforce simp: fs_write_new_def split: sum.splits if_splits)

section \<open>What the endpoint does\<close>

definition uploadRow :: "string \<Rightarrow> string \<Rightarrow> string \<Rightarrow> time \<Rightarrow> time \<Rightarrow> upload_row" where
  "uploadRow i owner location created now =
     \<lparr>up_id = i, up_ownerUserId = owner, up_storageKind = LocalStorage, up_storageLocation = location,
      up_createdAt = created, up_expiresAt = now + UPLOAD_RETENTION_HOURS * 60 * 60 * 1000\<rparr>"

lemma createStagedUpload_Return:
  "createStagedUpload gen dbNow r db = Return (db', i) \<Longrightarrow>
     i = gen (db_uuids db) \<and>
     db_uploads db' = db_uploads db @ [\<lparr>up_id = i, up_ownerUserId = su_ownerUserId r,
       up_storageKind = su_storageKind r, up_storageLocation = su_storageLocation r, up_createdAt = dbNow,
       up_expiresAt = su_expiresAt r\<rparr>] \<and>
     db' = db\<lparr>db_uploads := db_uploads db', db_uuids := db_uuids db'\<rparr>"
  by (auto simp: createStagedUpload_def Let_def bind_res_Return_iff insertUploads_def insert_unique_Return
      references_Return advance_uuids_def)

lemma createStagedUpload_wf:
  "db_wf db \<Longrightarrow> createStagedUpload gen dbNow r db = Return (db', i) \<Longrightarrow> db_wf db'"
  by (auto simp: createStagedUpload_def Let_def bind_res_Return_iff intro: insertUploads_wf advance_uuids_wf)

text \<open>Every outcome but an acceptance leaves the database alone, and only a failed insertion leaves a file.\<close>

lemma sourceUploadRoute_cases:
  assumes "uuid_chars uuid"
    and "sourceUploadRoute zf denied R uuid gen dbNow session form now (fs, db) = ((fs', db'), Return r)"
  shows "(re_status r \<noteq> 201 \<longrightarrow> db' = db \<and> fs_files fs' = fs_files fs) \<and>
    (re_status r = 201 \<longrightarrow> (\<exists>owner file i.
       session = Some owner \<and> form = Some file \<and> hasPermittedExtension (uf_name file) \<and>
       uf_byteLength file \<le> MAXIMUM_UPLOAD_BYTES \<and>
       uploadPath R uuid (uf_name file) \<notin> set (fs_files fs) \<and>
       fs_files fs' = fs_files fs @ [uploadPath R uuid (uf_name file)] \<and>
       createStagedUpload gen dbNow \<lparr>su_ownerUserId = owner, su_storageLocation = uploadLocation uuid (uf_name file),
         su_storageKind = LocalStorage, su_expiresAt = now + UPLOAD_RETENTION_HOURS * 60 * 60 * 1000\<rparr> db = Return (db', i) \<and>
       re_body r = Some (JObj
          [(''sourcePath'', JStr (UPLOAD_PATH_PREFIX @ uuid @ safeExtension (uf_name file))),
           (''fileName'', JStr (uf_name file)), (''byteSize'', JNum (of_int (uf_byteLength file))),
           (''expiresAt'', JStr (toISOString (now + UPLOAD_RETENTION_HOURS * 60 * 60 * 1000)))])))"
  using assms(2) importStore_files [OF assms(1), of denied R _ fs]
  by (auto simp: sourceUploadRoute_def uploadRejectedResponse_def readUploadedFile_def Let_def
      split: option.splits if_splits prod.splits sum.splits) fastforce+


section \<open>What a pipeline claims\<close>

lemma uploadStorageLocations_mem:
  "l \<in> set (uploadStorageLocations pipeline) \<longleftrightarrow>
     (\<exists>step\<in>set (p_steps pipeline). \<exists>k s. (k, JStr s) \<in> set (cc_values (ps_configuration step)) \<and>
        js_startsWith s UPLOAD_PATH_PREFIX \<and> l = IMPORT_DIRECTORY @ ''/'' @ s)"
  by (fastforce simp: uploadStorageLocations_def split: json.splits if_splits)

lemma claimPipelineUploads_rows:
  "db_uploads (claimPipelineUploads owner pipeline db) =
     filter (\<lambda>u. \<not> (up_ownerUserId u = owner \<and> up_storageLocation u \<in> set (uploadStorageLocations pipeline))) (db_uploads db)"
  "claimPipelineUploads owner pipeline db = db\<lparr>db_uploads := db_uploads (claimPipelineUploads owner pipeline db)\<rparr>"
  by (simp_all add: claimPipelineUploads_def claimStagedUploads_def delete_where_def Let_def)

lemma claimPipelineUploads_wf: "db_wf db \<Longrightarrow> db_wf (claimPipelineUploads owner pipeline db)"
  by (auto simp: claimPipelineUploads_def claimStagedUploads_def Let_def intro: delete_rows_wf)


text \<open>After the claim of a pipeline that names a fresh upload, no row names its file.\<close>

lemma claimed_upload_unnamed:
  assumes "uuid_chars uuid" and "unnamed R (uploadPath R uuid fileName) db"
    and "db_uploads db' = db_uploads db @ [u]" and "db' = db\<lparr>db_uploads := db_uploads db', db_uuids := n\<rparr>"
    and "up_ownerUserId u = owner" and "up_storageLocation u = uploadLocation uuid fileName"
    and "step \<in> set (p_steps pipeline)"
    and "(k, JStr (UPLOAD_PATH_PREFIX @ uuid @ safeExtension fileName)) \<in> set (cc_values (ps_configuration step))"
  shows "unnamed R (uploadPath R uuid fileName) (claimPipelineUploads owner pipeline db')"
proof -
  have "js_startsWith (UPLOAD_PATH_PREFIX @ x) UPLOAD_PATH_PREFIX" for x by (simp add: js_startsWith_def)
  moreover have "uploadLocation uuid fileName = IMPORT_DIRECTORY @ ''/'' @ UPLOAD_PATH_PREFIX @ uuid @ safeExtension fileName"
    by (simp add: uploadLocation_def UPLOAD_PATH_PREFIX_def UPLOAD_DIRECTORY_def)
  ultimately have "uploadLocation uuid fileName \<in> set (uploadStorageLocations pipeline)"
    unfolding uploadStorageLocations_mem using assms(7,8) by metis
  then have "set (db_uploads (claimPipelineUploads owner pipeline db')) \<subseteq> set (db_uploads db)"
    using assms(3,5,6) by (auto simp: claimPipelineUploads_rows(1))
  moreover have "db_artifacts (claimPipelineUploads owner pipeline db') = db_artifacts db"
    "db_datasets (claimPipelineUploads owner pipeline db') = db_datasets db"
    by (subst claimPipelineUploads_rows(2), subst assms(4), simp)+
  ultimately show ?thesis using assms(2) by (auto simp: unnamed_def storedRecords_def list_all_iff)
qed

text \<open>A signed-in user uploads a file to an empty storage and saves a pipeline that reads it.\<close>

definition sampleCsv :: UploadedFile where
  "sampleCsv = \<lparr>uf_name = ''data.CSV'', uf_size = 3, uf_byteLength = 3\<rparr>"

definition emptyStorage :: filesystem where
  "emptyStorage = \<lparr>fs_files = [], fs_dirs = [[], [''srv'']]\<rparr>"

definition sampleUploadResult :: "(filesystem \<times> database) \<times> (upload_error, response) result" where
  "sampleUploadResult = sourceUploadRoute sampleZf (\<lambda>_. False) [''srv''] ''a1-b2'' sampleGen 0 (Some ''u1'')
     (Some sampleCsv) 5 (emptyStorage, emptyDb)"

lemma sampleUpload_accepted:
  "case snd sampleUploadResult of Inl _ \<Rightarrow> False | Inr r \<Rightarrow> re_status r = 201"
  by code_simp

lemma sampleUpload_result:
  obtains fs db r where "re_status r = 201"
    "sourceUploadRoute sampleZf (\<lambda>_. False) [''srv''] ''a1-b2'' sampleGen 0 (Some ''u1'')
       (Some sampleCsv) 5 (emptyStorage, emptyDb) = ((fs, db), Return r)"
  using sampleUpload_accepted
  by (cases sampleUploadResult; cases "snd sampleUploadResult") (auto simp: sampleUploadResult_def)

lemma sample_uuid: "uuid_chars ''a1-b2''"
  by code_simp

section \<open>Properties\<close>

text \<open>
  An accepted upload is on disk exactly where the collector resolves the location of its
  new row, below the storage root, at a path no file had; the row carries the uploader and the expiry,
  and the reply carries the source path. Any other reply leaves the files and the database as they were.
\<close>

theorem uploads_are_recorded_where_stored:
  assumes "uuid_chars uuid"
    and "sourceUploadRoute zf denied R uuid gen dbNow session form now (fs, db) = ((fs', db'), Return r)"
  shows "(re_status r \<noteq> 201 \<longrightarrow> db' = db \<and> fs_files fs' = fs_files fs) \<and>
    (re_status r = 201 \<longrightarrow> (\<exists>owner upload u path.
       session = Some owner \<and> form = Some upload \<and> uf_byteLength upload \<le> MAXIMUM_UPLOAD_BYTES \<and>
       db_uploads db' = db_uploads db @ [u] \<and> up_ownerUserId u = owner \<and>
       up_expiresAt u = now + 24 * 60 * 60 * 1000 \<and>
       pathForLocation R (up_storageLocation u) = Return path \<and> (\<exists>rest. path = R @ rest \<and> rest \<noteq> []) \<and>
       path \<notin> set (fs_files fs) \<and> fs_files fs' = fs_files fs @ [path]))"
proof (intro conjI impI)
  note cases = sourceUploadRoute_cases [OF assms]
  show "re_status r \<noteq> 201 \<Longrightarrow> db' = db" "re_status r \<noteq> 201 \<Longrightarrow> fs_files fs' = fs_files fs" using cases by blast+
  assume "re_status r = 201"
  then obtain owner upload i where
    o: "session = Some owner" "form = Some upload" "uf_byteLength upload \<le> MAXIMUM_UPLOAD_BYTES" and
    f: "uploadPath R uuid (uf_name upload) \<notin> set (fs_files fs)" "fs_files fs' = fs_files fs @ [uploadPath R uuid (uf_name upload)]" and
    c: "createStagedUpload gen dbNow \<lparr>su_ownerUserId = owner, su_storageLocation = uploadLocation uuid (uf_name upload),
         su_storageKind = LocalStorage, su_expiresAt = now + UPLOAD_RETENTION_HOURS * 60 * 60 * 1000\<rparr> db = Return (db', i)"
    using cases by blast
  let ?u = "uploadRow i owner (uploadLocation uuid (uf_name upload)) dbNow now"
  have "db_uploads db' = db_uploads db @ [?u]" using createStagedUpload_Return [OF c] by (simp add: uploadRow_def)
  moreover have "pathForLocation R (up_storageLocation ?u) = Return (uploadPath R uuid (uf_name upload))"
    using upload_location_resolves(2) [OF assms(1)] by (simp add: uploadRow_def)
  moreover have "up_expiresAt ?u = now + 24 * 60 * 60 * 1000" "up_ownerUserId ?u = owner"
    by (simp_all add: uploadRow_def UPLOAD_RETENTION_HOURS_def)
  moreover have "\<exists>rest. uploadPath R uuid (uf_name upload) = R @ rest \<and> rest \<noteq> []" by (simp add: uploadPath_def)
  ultimately show "\<exists>owner upload u path.
       session = Some owner \<and> form = Some upload \<and> uf_byteLength upload \<le> MAXIMUM_UPLOAD_BYTES \<and>
       db_uploads db' = db_uploads db @ [u] \<and> up_ownerUserId u = owner \<and>
       up_expiresAt u = now + 24 * 60 * 60 * 1000 \<and>
       pathForLocation R (up_storageLocation u) = Return path \<and> (\<exists>rest. path = R @ rest \<and> rest \<noteq> []) \<and>
       path \<notin> set (fs_files fs) \<and> fs_files fs' = fs_files fs @ [path]"
    using o f by blast
qed

theorem uploads_are_recorded_where_stored_witness:
  "\<exists>fs db u. sourceUploadRoute sampleZf (\<lambda>_. False) [''srv''] ''a1-b2'' sampleGen 0 (Some ''u1'') (Some sampleCsv) 5
      (emptyStorage, emptyDb) = ((fs, db), snd sampleUploadResult) \<and>
    db_uploads db = [u] \<and> up_ownerUserId u = ''u1'' \<and> up_expiresAt u = 86400005"
proof -
  obtain fs db r where s: "re_status r = 201" and ret: "sourceUploadRoute sampleZf (\<lambda>_. False) [''srv''] ''a1-b2''
      sampleGen 0 (Some ''u1'') (Some sampleCsv) 5 (emptyStorage, emptyDb) = ((fs, db), Return r)"
    by (rule sampleUpload_result)
  have "db_uploads emptyDb = []" by (simp add: emptyDb_def)
  with uploads_are_recorded_where_stored [OF sample_uuid ret] s
  obtain u where "db_uploads db = [u]" "up_ownerUserId u = ''u1''" "up_expiresAt u = 86400005" by auto
  with ret show ?thesis by (simp add: sampleUploadResult_def)
qed


text \<open>The sample pipeline with the uploaded upload as the path of its source, and the upload afterwards.\<close>

definition uploadPipeline :: Pipeline where
  "uploadPipeline = samplePipeline\<lparr>p_steps := [sampleSourceStep\<lparr>ps_configuration :=
     \<lparr>cc_values = [(''path'', JStr ''uploads/a1-b2.csv'')], cc_secretBindings = []\<rparr>\<rparr>]\<rparr>"


end
