(* ===== verification/Queue_Correctness.thy ===== *)
theory Queue_Correctness
  imports Run_Queue
begin

text \<open>
  What the run queue guarantees: the effect of each operation on the tables, preservation of the
  declared constraints and of the queue invariant, and that the operations succeed when the
  database holds what they need.
\<close>

section \<open>Effect of the initial work\<close>

lemma insertRunSteps_tables:
  "insertRunSteps rows db = Return db' \<Longrightarrow> db' = db\<lparr>db_runSteps := db_runSteps db @ rows\<rparr>"
  by (auto simp: insertRunSteps_def bind_res_Return_iff insert_unique_Return)

lemma insertJobs_tables:
  "insertJobs rows db = Return db' \<Longrightarrow> db' = db\<lparr>db_jobs := db_jobs db @ rows\<rparr>"
  by (auto simp: insertJobs_def bind_res_Return_iff insert_unique_Return)

lemma insertRuns_tables:
  "insertRuns rows db = Return db' \<Longrightarrow> db' = db\<lparr>db_runs := db_runs db @ rows\<rparr>"
  by (auto simp: insertRuns_def bind_res_Return_iff insert_unique_Return)

lemma updateRuns_tables:
  "updateRuns P f db = Return db' \<longleftrightarrow>
     distinct (activeRunKeys (update_where P f (db_runs db))) \<and>
     db' = db\<lparr>db_runs := update_where P f (db_runs db)\<rparr>"
  by (auto simp: updateRuns_def Let_def bind_res_Return_iff throw_if_iff)

lemma recordOperationalEvents_tables:
  assumes "recordOperationalEvents gen dbNow inputs db = Return db'"
  shows "\<exists>es n. db' = db\<lparr>db_events := db_events db @ es, db_uuids := n\<rparr> \<and>
    map ev_runId es = map oe_runId inputs \<and> map ev_event es = map oe_event inputs \<and>
    map ev_pipelineId es = map oe_pipelineId inputs"
  using recordOperationalEvents_Return [OF assms]
proof
  assume "insertEventInputs gen dbNow inputs db = Return db'"
  from insertEventInputs_tables [OF this] show ?thesis by blast
next
  assume "inputs = [] \<and> db' = db"
  then show ?thesis by (intro exI [of _ "[]"] exI [of _ "db_uuids db"]) simp
qed

lemma sourceJobRow_Return:
  assumes "sourceJobRow ix pid runId dbNow now (c, u) = Return j"
  shows "jb_componentId j = pc_id c" "jb_runId j = runId" "jb_pipelineId j = pid" "jb_state j = JobQueued"
    "map_get ix (pc_id c) = Some (jb_runStepId j)" "jb_availableAt j = now"
  using assms by (auto simp: sourceJobRow_def split: option.splits if_splits)

lemma map_res_sourceJobs:
  assumes "map_res (sourceJobRow ix pid runId dbNow now) (zip cs us) = Return js" and "length us = length cs"
  shows "map jb_componentId js = map pc_id cs \<and>
    (\<forall>j\<in>set js. jb_runId j = runId \<and> jb_pipelineId j = pid \<and> jb_state j = JobQueued \<and>
       jb_availableAt j = now \<and> map_get ix (jb_componentId j) = Some (jb_runStepId j))"
  using assms
proof (induction cs arbitrary: us js)
  case Nil
  then show ?case by simp
next
  case (Cons c cs)
  then obtain u us' where us: "us = u # us'" by (cases us) auto
  with Cons.prems obtain j js' where
    j: "sourceJobRow ix pid runId dbNow now (c, u) = Return j" and
    js': "map_res (sourceJobRow ix pid runId dbNow now) (zip cs us') = Return js'" "js = j # js'"
    by (auto simp: bind_res_Return_iff)
  from Cons.IH [OF js'(1)] Cons.prems(2) us sourceJobRow_Return [OF j] js'(2) show ?case by simp
qed

text \<open>One queued step per component, one queued job per Source component, joined by the step.\<close>

definition initialWork :: "database \<Rightarrow> string \<Rightarrow> string \<Rightarrow> time \<Rightarrow> run_step_row list \<Rightarrow> job_row list \<Rightarrow> bool" where
  "initialWork db pid runId now steps js \<longleftrightarrow>
     map rs_componentId steps = map pc_id (filter (\<lambda>c. pc_pipelineId c = pid) (db_components db)) \<and>
     (\<forall>s\<in>set steps. rs_runId s = runId \<and> rs_state s = RunQueued) \<and>
     map jb_componentId js =
       map pc_id (filter (\<lambda>c. pc_kind c = Source) (filter (\<lambda>c. pc_pipelineId c = pid) (db_components db))) \<and>
     js \<noteq> [] \<and>
     (\<forall>j\<in>set js. jb_runId j = runId \<and> jb_pipelineId j = pid \<and> jb_state j = JobQueued \<and>
        jb_availableAt j = now \<and>
        (\<exists>s\<in>set steps. rs_componentId s = jb_componentId j \<and> rs_id s = jb_runStepId j))"

lemma createInitialSourceJobs_Return:
  assumes "createInitialSourceJobs gen dbNow pid runId now db = Return (db', n)"
  obtains steps es js k where
    "db' = db\<lparr>db_runSteps := db_runSteps db @ steps, db_events := db_events db @ es,
       db_jobs := db_jobs db @ js, db_uuids := k\<rparr>"
    "initialWork db pid runId now steps js" "n = length js"
    "\<forall>e\<in>set es. ev_runId e = runId \<and> ev_pipelineId e = pid"
proof -
  let ?cs = "filter (\<lambda>c. pc_pipelineId c = pid) (db_components db)"
  let ?src = "filter (\<lambda>c. pc_kind c = Source) ?cs"
  let ?steps = "map (runStepRow runId) (zip ?cs (draw_uuids gen (length ?cs) db))"
  let ?ix = "map_of_entries rs_componentId rs_id ?steps"
  from assms obtain db1 db2 js db3 where
    some: "?src \<noteq> []" and
    ins: "insertRunSteps ?steps (advance_uuids (length ?cs) db) = Return db1"
      "recordOperationalEvents gen dbNow (map (stepQueuedEvent pid runId now) ?steps) db1 = Return db2"
      "map_res (sourceJobRow ?ix pid runId dbNow now) (zip ?src (draw_uuids gen (length ?src) db2)) = Return js"
      "insertJobs js (advance_uuids (length ?src) db2) = Return db3" and
    res: "db' = db3" "n = length ?src"
    unfolding createInitialSourceJobs_def Let_def bind_res_Return_iff throw_if_iff by auto
  obtain es k where es: "db2 = db1\<lparr>db_events := db_events db1 @ es, db_uuids := k\<rparr>"
    "map ev_runId es = map oe_runId (map (stepQueuedEvent pid runId now) ?steps)"
    "map ev_pipelineId es = map oe_pipelineId (map (stepQueuedEvent pid runId now) ?steps)"
    using recordOperationalEvents_tables [OF ins(2)] by blast
  have len: "length (draw_uuids gen m d) = m" for m d by (simp add: draw_uuids_def)
  note jobs = map_res_sourceJobs [OF ins(3) len]
  have steps: "map rs_componentId ?steps = map pc_id ?cs" "\<forall>s\<in>set ?steps. rs_runId s = runId \<and> rs_state s = RunQueued"
    by (rule nth_equalityI) (auto simp: len runStepRow_def)
  have step_of: "\<exists>s\<in>set ?steps. rs_componentId s = k \<and> rs_id s = v" if "map_get ?ix k = Some v" for k v
    using that unfolding map_get_entries by (auto dest!: find_rev_mem)
  have work: "initialWork db pid runId now ?steps js"
    unfolding initialWork_def
  proof (intro conjI)
    show "map rs_componentId ?steps = map pc_id ?cs" by (rule steps)
    show "\<forall>s\<in>set ?steps. rs_runId s = runId \<and> rs_state s = RunQueued" by (rule steps)
    show "map jb_componentId js = map pc_id ?src" using jobs by blast
    with some show "js \<noteq> []" by auto
    show "\<forall>j\<in>set js. jb_runId j = runId \<and> jb_pipelineId j = pid \<and> jb_state j = JobQueued \<and>
        jb_availableAt j = now \<and>
        (\<exists>s\<in>set ?steps. rs_componentId s = jb_componentId j \<and> rs_id s = jb_runStepId j)"
      using jobs step_of by blast
  qed
  have db': "db' = db\<lparr>db_runSteps := db_runSteps db @ ?steps, db_events := db_events db @ es,
       db_jobs := db_jobs db @ js, db_uuids := k + length ?src\<rparr>"
    using insertRunSteps_tables [OF ins(1)] insertJobs_tables [OF ins(4)] es(1) res(1)
    by (simp add: advance_uuids_def)
  have n: "n = length js" using jobs res(2) by (metis length_map)
  have ev: "\<forall>e\<in>set es. ev_runId e = runId \<and> ev_pipelineId e = pid"
  proof
    fix e assume "e \<in> set es"
    then have "ev_runId e \<in> set (map ev_runId es)" "ev_pipelineId e \<in> set (map ev_pipelineId es)" by simp_all
    then show "ev_runId e = runId \<and> ev_pipelineId e = pid"
      unfolding es(2,3) by (auto simp: stepQueuedEvent_def)
  qed
  show thesis by (rule that [OF db' work n ev])
qed


section \<open>Run tables\<close>

definition one_active :: "run_row list \<Rightarrow> bool" where
  "one_active rs \<longleftrightarrow> distinct (map rn_pipelineId (filter rn_isActive rs))"

definition activeFor :: "run_row list \<Rightarrow> string \<Rightarrow> bool" where
  "activeFor rs pid \<longleftrightarrow> pid \<in> rn_pipelineId ` set (filter rn_isActive rs)"

definition held :: "run_row list \<Rightarrow> string \<Rightarrow> bool" where
  "held rs pid \<longleftrightarrow> filter (waitingRun pid) rs = [] \<or> activeFor rs pid"

definition idle_not_running :: "run_row list \<Rightarrow> bool" where
  "idle_not_running rs \<longleftrightarrow> (\<forall>r\<in>set rs. rn_isActive r \<or> rn_state r \<noteq> RunRunning)"

text \<open>
  The queue invariant: a pipeline has at most one active run, ended or not; a run that is not
  active does not run; and no run waits without an active run of its pipeline ahead of it.
\<close>

definition queue_ok :: "run_row list \<Rightarrow> bool" where
  "queue_ok rs \<longleftrightarrow> one_active rs \<and> idle_not_running rs \<and> (\<forall>pid. held rs pid)"

definition release :: "string \<Rightarrow> run_row list \<Rightarrow> run_row list" where
  "release pid = update_where (\<lambda>r. rn_pipelineId r = pid \<and> rn_isActive r \<and> terminalState (rn_state r))
     (\<lambda>r. r\<lparr>rn_isActive := False\<rparr>)"

definition activate :: "string \<Rightarrow> run_row list \<Rightarrow> run_row list" where
  "activate i = update_where (\<lambda>r. rn_id r = i) (\<lambda>r. r\<lparr>rn_isActive := True\<rparr>)"

lemmas run_tables = release_def activate_def update_where_def

lemma releaseEndedRuns_eq:
  "releaseEndedRuns pid db = Return db' \<longleftrightarrow>
     distinct (activeRunKeys (release pid (db_runs db))) \<and> db' = db\<lparr>db_runs := release pid (db_runs db)\<rparr>"
  by (simp add: releaseEndedRuns_def updateRuns_tables release_def)

lemma active_or_terminal: "activeState s \<or> terminalState s"
  by (cases s) (simp_all add: activeState_def terminalState_def)

lemma active_not_terminal: "terminalState s \<Longrightarrow> \<not> activeState s"
  by (cases s) (simp_all add: activeState_def terminalState_def)

lemma map_filter_active_release:
  "map rn_pipelineId (filter rn_isActive (release pid rs)) =
     map rn_pipelineId (filter (\<lambda>r. rn_isActive r \<and> \<not> (rn_pipelineId r = pid \<and> terminalState (rn_state r))) rs)"
  by (induction rs) (auto simp: run_tables)

lemma one_active_release: "one_active rs \<Longrightarrow> one_active (release pid rs)"
  unfolding one_active_def map_filter_active_release filter_filter [symmetric]
  by (rule distinct_map_filter)

lemma activeFor_release:
  "activeFor (release pid rs) q \<longleftrightarrow>
     (\<exists>r\<in>set rs. rn_isActive r \<and> rn_pipelineId r = q \<and> (q = pid \<longrightarrow> activeState (rn_state r)))"
  using active_or_terminal active_not_terminal unfolding activeFor_def run_tables by (force simp: image_iff)

lemma activeFor_release_other: "q \<noteq> pid \<Longrightarrow> activeFor (release pid rs) q = activeFor rs q"
  unfolding activeFor_release by (auto simp: activeFor_def)

lemma waiting_release: "filter (waitingRun q) (release pid rs) = filter (waitingRun q) rs"
  by (induction rs) (auto simp: run_tables waitingRun_def terminalState_def)

lemma activeRunKeys_release: "activeRunKeys (release pid rs) = activeRunKeys rs"
  by (induction rs) (auto simp: run_tables activeRunKeys_def dest: active_not_terminal)

lemma rn_id_release [simp]: "map rn_id (release pid rs) = map rn_id rs"
  by (induction rs) (auto simp: run_tables)

lemma idle_release: "idle_not_running rs \<Longrightarrow> idle_not_running (release pid rs)"
  by (auto simp: idle_not_running_def run_tables terminalState_def)

lemma first_by_mem: "first_by key rs = Some r \<Longrightarrow> r \<in> set rs \<and> (\<forall>x\<in>set rs. key r \<le> key x)"
proof -
  assume a: "first_by key rs = Some r"
  then obtain ys where s: "sort_key key rs = r # ys" by (auto simp: first_by_def split: list.splits)
  then have "sorted (map key (r # ys))" by (metis sorted_sort_key)
  moreover have "set rs = set (r # ys)" using s by (metis set_sort)
  ultimately show ?thesis by auto
qed

lemma first_by_None_iff: "first_by key rs = None \<longleftrightarrow> rs = []"
  by (auto simp: first_by_def split: list.splits) (metis set_sort set_empty)

lemma update_where_none: "(\<And>x. x \<in> set xs \<Longrightarrow> \<not> P x) \<Longrightarrow> update_where P f xs = xs"
  by (induction xs) (auto simp: update_where_def)

lemma activate_split:
  assumes "distinct (map rn_id rs)" and "w \<in> set rs"
  obtains as bs where "rs = as @ w # bs" "activate (rn_id w) rs = as @ w\<lparr>rn_isActive := True\<rparr> # bs"
    "w \<notin> set as" "w \<notin> set bs"
proof -
  from assms(2) obtain as bs where rs: "rs = as @ w # bs" by (meson split_list)
  with assms(1) have out: "rn_id w \<notin> rn_id ` set as" "rn_id w \<notin> rn_id ` set bs" by auto
  have "activate (rn_id w) cs = cs" if "rn_id w \<notin> rn_id ` set cs" for cs
    unfolding activate_def by (rule update_where_none) (metis imageI that)
  with out have "activate (rn_id w) as = as" "activate (rn_id w) bs = bs" by simp_all
  then have "activate (rn_id w) rs = as @ w\<lparr>rn_isActive := True\<rparr> # bs"
    by (simp add: rs activate_def update_where_def)
  with rs out show thesis by (intro that) auto
qed

lemma activate_one:
  assumes "distinct (map rn_id rs)" and "one_active rs" and "w \<in> set rs" and "\<not> activeFor rs (rn_pipelineId w)"
  shows "one_active (activate (rn_id w) rs)" and "activeFor (activate (rn_id w) rs) (rn_pipelineId w)"
    and "q \<noteq> rn_pipelineId w \<Longrightarrow> activeFor (activate (rn_id w) rs) q = activeFor rs q"
proof -
  from assms(1,3) obtain as bs where rs: "rs = as @ w # bs"
    and act: "activate (rn_id w) rs = as @ w\<lparr>rn_isActive := True\<rparr> # bs" by (rule activate_split)
  from assms(2,4) show "one_active (activate (rn_id w) rs)"
    unfolding act by (auto simp: rs one_active_def activeFor_def split: if_splits)
  show "activeFor (activate (rn_id w) rs) (rn_pipelineId w)" unfolding act by (simp add: activeFor_def)
  show "q \<noteq> rn_pipelineId w \<Longrightarrow> activeFor (activate (rn_id w) rs) q = activeFor rs q"
    unfolding act by (auto simp: rs activeFor_def)
qed

lemma waiting_activate:
  assumes "distinct (map rn_id rs)" and "w \<in> set rs"
  shows "filter (waitingRun q) (activate (rn_id w) rs) = filter (\<lambda>r. waitingRun q r \<and> r \<noteq> w) rs"
proof -
  from assms obtain as bs where rs: "rs = as @ w # bs" "w \<notin> set as" "w \<notin> set bs"
    and act: "activate (rn_id w) rs = as @ w\<lparr>rn_isActive := True\<rparr> # bs" by (rule activate_split)
  have "filter (waitingRun q) cs = filter (\<lambda>r. waitingRun q r \<and> r \<noteq> w) cs" if "w \<notin> set cs" for cs
    using that by (intro filter_cong) auto
  with rs show ?thesis unfolding act by (simp add: waitingRun_def)
qed

lemma idle_activate: "idle_not_running rs \<Longrightarrow> idle_not_running (activate i rs)"
  by (auto simp: idle_not_running_def run_tables)


section \<open>Effect of the operations\<close>

lemma promoteOldestQueuedRun_Return:
  assumes "promoteOldestQueuedRun gen dbNow pid now db = Return (db', r)"
  obtains (none) "r = None" "db' = db" "filter (waitingRun pid) (db_runs db) = []"
  | (promoted) w steps es js k where
      "first_by queueOrder (filter (waitingRun pid) (db_runs db)) = Some w" "r = Some (rn_id w)"
      "db' = db\<lparr>db_runs := activate (rn_id w) (db_runs db), db_runSteps := db_runSteps db @ steps,
         db_events := db_events db @ es, db_jobs := db_jobs db @ js, db_uuids := k\<rparr>"
      "initialWork db pid (rn_id w) now steps js"
proof (cases "first_by queueOrder (filter (waitingRun pid) (db_runs db))")
  case None
  with assms show thesis by (intro none) (simp_all add: promoteOldestQueuedRun_def first_by_None_iff)
next
  case (Some w)
  from assms Some obtain db1 n where
    u: "updateRuns (\<lambda>r. rn_id r = rn_id w) (\<lambda>r. r\<lparr>rn_isActive := True\<rparr>) db = Return db1" and
    c: "createInitialSourceJobs gen dbNow pid (rn_id w) now db1 = Return (db', n)" and r: "r = Some (rn_id w)"
    by (auto simp: promoteOldestQueuedRun_def bind_res_Return_iff bind_res_pair_Return_iff)
  from u have db1: "db1 = db\<lparr>db_runs := activate (rn_id w) (db_runs db)\<rparr>"
    by (simp add: updateRuns_tables activate_def)
  from c obtain steps es js k where
    "db' = db1\<lparr>db_runSteps := db_runSteps db1 @ steps, db_events := db_events db1 @ es,
       db_jobs := db_jobs db1 @ js, db_uuids := k\<rparr>" "initialWork db1 pid (rn_id w) now steps js"
    by (rule createInitialSourceJobs_Return)
  then have "db' = db\<lparr>db_runs := activate (rn_id w) (db_runs db), db_runSteps := db_runSteps db @ steps,
         db_events := db_events db @ es, db_jobs := db_jobs db @ js, db_uuids := k\<rparr>"
    "initialWork db pid (rn_id w) now steps js"
    by (simp_all add: db1 initialWork_def)
  with Some r show thesis by (rule promoted)
qed

lemma findActiveRun_None_iff:
  "findActiveRun db pid = None \<longleftrightarrow>
     \<not> (\<exists>r\<in>set (db_runs db). rn_pipelineId r = pid \<and> rn_isActive r \<and> activeState (rn_state r))"
  by (auto simp: findActiveRun_def find_None_iff)

lemma findActiveRun_released:
  assumes "db_runs db' = release pid (db_runs db)"
  shows "findActiveRun db' pid = None \<longleftrightarrow> \<not> activeFor (db_runs db') pid"
proof -
  have "(\<exists>r\<in>set (release pid rs). rn_pipelineId r = pid \<and> rn_isActive r \<and> activeState (rn_state r)) \<longleftrightarrow>
      (\<exists>r\<in>set rs. rn_isActive r \<and> rn_pipelineId r = pid \<and> activeState (rn_state r))" for rs
    by (induction rs) (auto simp: run_tables dest: active_not_terminal)
  then show ?thesis unfolding findActiveRun_None_iff assms activeFor_release by simp
qed

lemma assertPipelineCanCreateRun_iff:
  "assertPipelineCanCreateRun st = (if st = Enabled then Return () else
     Throw (PipelineRunEnqueueConflictError ReasonNotEnabled
          ''Cannot create a run until the pipeline has been reviewed and enabled.''))"
  by (simp add: assertPipelineCanCreateRun_def enqueuePipelineRun_def assertPipelineCanRun_def
      createPipelineExecutionState_def containsRun_def throw_if_def)

lemma case_invalid_date:
  "(case t of None \<Rightarrow> Throw err | Some x \<Rightarrow> Return x) = Return e \<longleftrightarrow> t = Some e"
  by (cases t) auto

lemma createPipelineRun_Return:
  assumes "createPipelineRunInTransaction zf gen dbNow q now db = Return (db', c)"
  obtains p days db1 db2 active e db3 db4 n where
    "find (\<lambda>p. pl_id p = rq_pipelineId q) (db_pipelines db) = Some p" "pl_state p = Enabled"
    "getRunLogRetentionDays db = Return days"
    "releaseEndedRuns (rq_pipelineId q) db = Return db1"
    "(case findActiveRun db1 (rq_pipelineId q) of
        Some i \<Rightarrow> Return (db1, Some i)
      | None \<Rightarrow> promoteOldestQueuedRun gen dbNow (rq_pipelineId q) now db1) = Return (db2, active)"
    "calculateRunLogExpiry now days = Return (Some e)"
    "insertRuns [newRunRow (gen (db_uuids db2)) (active = None) q now e] (advance_uuids 1 db2) = Return db3"
    "recordOperationalEvent gen dbNow (runQueuedEvent (rq_pipelineId q) (gen (db_uuids db2)) now) db3 = Return db4"
    "(if active \<noteq> None then Return (db4, 0)
      else createInitialSourceJobs gen dbNow (rq_pipelineId q) (gen (db_uuids db2)) now db4) = Return (db', n)"
    "c = \<lparr>cp_initialJobCount = n, cp_pipelineId = rq_pipelineId q,
          cp_queuedBehindActiveRun = (active \<noteq> None), cp_runId = gen (db_uuids db2)\<rparr>"
proof (cases "find (\<lambda>p. pl_id p = rq_pipelineId q) (db_pipelines db)")
  case None
  with assms show thesis by (auto simp: createPipelineRunInTransaction_def Let_def bind_res_Return_iff)
next
  case (Some p)
  have st: "pl_state p = Enabled"
    using assms Some by (auto simp: createPipelineRunInTransaction_def Let_def bind_res_Return_iff
        assertPipelineCanCreateRun_iff split: if_splits)
  from assms show thesis
    by (simp only: createPipelineRunInTransaction_def Let_def Some option.case bind_res_Return_iff
        bind_res_pair_Return_iff map_err_Return_iff case_invalid_date split_paired_Ex prod.case
        sum.inject prod.inject)
      (elim exE conjE, hypsubst, rule that [OF Some st], (assumption | rule refl)+)
qed


section \<open>Constraints are preserved\<close>

lemma recordOperationalEvents_wf [db_preserves]:
  "db_wf db \<Longrightarrow> recordOperationalEvents gen dbNow inputs db = Return db' \<Longrightarrow> db_wf db'"
  by (drule recordOperationalEvents_Return) (auto intro: insertEventInputs_wf)

lemma createInitialSourceJobs_wf [db_preserves]:
  assumes "db_wf db" and "createInitialSourceJobs gen dbNow pid runId now db = Return (db', n)"
  shows "db_wf db'"
proof -
  from assms(2) obtain k rows db1 inputs db2 k' js where
    "insertRunSteps rows (advance_uuids k db) = Return db1"
    "recordOperationalEvents gen dbNow inputs db1 = Return db2"
    "insertJobs js (advance_uuids k' db2) = Return db'"
    unfolding createInitialSourceJobs_def Let_def bind_res_Return_iff map_err_Return_iff sum.inject prod.inject
    by blast
  then show ?thesis
    by (meson assms(1) advance_uuids_wf insertRunSteps_wf recordOperationalEvents_wf insertJobs_wf)
qed

lemma releaseEndedRuns_wf [db_preserves]:
  "db_wf db \<Longrightarrow> releaseEndedRuns pid db = Return db' \<Longrightarrow> db_wf db'"
  unfolding releaseEndedRuns_def by (drule (1) updateRuns_wf) simp_all

lemma promoteOldestQueuedRun_wf [db_preserves]:
  assumes "db_wf db" and "promoteOldestQueuedRun gen dbNow pid now db = Return (db', r)"
  shows "db_wf db'"
proof (cases "first_by queueOrder (filter (waitingRun pid) (db_runs db))")
  case None
  with assms show ?thesis by (simp add: promoteOldestQueuedRun_def)
next
  case (Some w)
  from assms(2) Some obtain db1 n where
    u: "updateRuns (\<lambda>r. rn_id r = rn_id w) (\<lambda>r. r\<lparr>rn_isActive := True\<rparr>) db = Return db1" and
    c: "createInitialSourceJobs gen dbNow pid (rn_id w) now db1 = Return (db', n)"
    by (auto simp: promoteOldestQueuedRun_def bind_res_Return_iff bind_res_pair_Return_iff)
  have "db_wf db1" by (rule updateRuns_wf [OF assms(1) u]) simp_all
  with c show ?thesis by (rule createInitialSourceJobs_wf [rotated])
qed

lemma createPipelineRunInTransaction_wf [db_preserves]:
  assumes "db_wf db" and "createPipelineRunInTransaction zf gen dbNow q now db = Return (db', c)"
  shows "db_wf db'"
proof -
  from assms(2) obtain db1 db2 active e db3 db4 n where
    r: "releaseEndedRuns (rq_pipelineId q) db = Return db1" and
    p: "(case findActiveRun db1 (rq_pipelineId q) of
        Some i \<Rightarrow> Return (db1, Some i)
      | None \<Rightarrow> promoteOldestQueuedRun gen dbNow (rq_pipelineId q) now db1) = Return (db2, active)" and
    i: "insertRuns [newRunRow (gen (db_uuids db2)) (active = None) q now e] (advance_uuids 1 db2) = Return db3" and
    v: "recordOperationalEvent gen dbNow (runQueuedEvent (rq_pipelineId q) (gen (db_uuids db2)) now) db3 = Return db4" and
    j: "(if active \<noteq> None then Return (db4, 0)
      else createInitialSourceJobs gen dbNow (rq_pipelineId q) (gen (db_uuids db2)) now db4) = Return (db', n)"
    by (rule createPipelineRun_Return)
  have wf1: "db_wf db1" by (rule releaseEndedRuns_wf [OF assms(1) r])
  have "db_wf db2"
  proof (cases "findActiveRun db1 (rq_pipelineId q)")
    case None
    with p have "promoteOldestQueuedRun gen dbNow (rq_pipelineId q) now db1 = Return (db2, active)" by simp
    with wf1 show ?thesis by (rule promoteOldestQueuedRun_wf)
  next
    case (Some i)
    with p wf1 show ?thesis by simp
  qed
  then have "db_wf db3" by (rule insertRuns_wf [OF advance_uuids_wf i])
  from insertEventInputs_wf [OF this recordOperationalEvent_Return [OF v]] have wf4: "db_wf db4" .
  show ?thesis
  proof (cases active)
    case None
    with j have "createInitialSourceJobs gen dbNow (rq_pipelineId q) (gen (db_uuids db2)) now db4 = Return (db', n)"
      by simp
    with wf4 show ?thesis by (rule createInitialSourceJobs_wf)
  next
    case (Some i)
    with j wf4 show ?thesis by simp
  qed
qed

lemma promotePipeline_wf [db_preserves]:
  assumes "db_wf db" and "promotePipeline gen dbNow now x (db, acc) = Return (db', acc')"
  shows "db_wf db'"
  using assms
  by (auto simp: promotePipeline_def Let_def bind_res_Return_iff bind_res_pair_Return_iff
      intro: promoteOldestQueuedRun_wf releaseEndedRuns_wf)

section \<open>The queue invariant is preserved\<close>

lemma queue_ok_parts:
  "queue_ok rs \<Longrightarrow> one_active rs" "queue_ok rs \<Longrightarrow> idle_not_running rs" "queue_ok rs \<Longrightarrow> held rs pid"
  by (simp_all add: queue_ok_def)

lemma db_wf_run_ids: "db_wf db \<Longrightarrow> distinct (map rn_id (db_runs db))"
  by (simp add: db_wf_def keys_ok_def)

text \<open>Everything but the pipeline at hand keeps an active run; that one is free.\<close>

definition queue_free :: "run_row list \<Rightarrow> string \<Rightarrow> bool" where
  "queue_free rs pid \<longleftrightarrow>
     one_active rs \<and> idle_not_running rs \<and> \<not> activeFor rs pid \<and> (\<forall>q. q \<noteq> pid \<longrightarrow> held rs q)"

lemma release_free:
  assumes "queue_ok rs"
  shows "activeFor (release pid rs) pid \<and> queue_ok (release pid rs) \<or> queue_free (release pid rs) pid"
proof -
  have "held (release pid rs) q" if "q \<noteq> pid" for q
    using queue_ok_parts(3) [OF assms, of q] that
    by (simp add: held_def waiting_release activeFor_release_other)
  then have "\<forall>q. q \<noteq> pid \<longrightarrow> held (release pid rs) q" by blast
  moreover from this have "\<forall>q. held (release pid rs) q" if "activeFor (release pid rs) pid"
    using that by (metis held_def)
  ultimately show ?thesis using queue_ok_parts(1,2) [OF assms]
    unfolding queue_ok_def queue_free_def by (simp add: one_active_release idle_release) blast
qed

lemma activate_free:
  assumes "queue_free rs pid" and "distinct (map rn_id rs)" and "w \<in> set rs" and "waitingRun pid w"
  shows "queue_ok (activate (rn_id w) rs)" and "activeFor (activate (rn_id w) rs) pid"
proof -
  have pid: "rn_pipelineId w = pid" using assms(4) by (simp add: waitingRun_def)
  note free = assms(1) [unfolded queue_free_def]
  have off: "\<not> activeFor rs (rn_pipelineId w)" using free pid by simp
  note one = activate_one [OF assms(2) _ assms(3) off]
  show act: "activeFor (activate (rn_id w) rs) pid" using one(2) free pid by simp
  have "held (activate (rn_id w) rs) q" for q
  proof (cases "q = pid")
    case False
    then have "activeFor (activate (rn_id w) rs) q = activeFor rs q" using one(3) free pid by simp
    moreover have "filter (waitingRun q) (activate (rn_id w) rs) = []" if "filter (waitingRun q) rs = []"
      unfolding waiting_activate [OF assms(2,3)] using that by (auto simp: filter_empty_conv)
    ultimately show ?thesis using free False by (auto simp: held_def)
  qed (simp add: held_def act)
  with one(1) free show "queue_ok (activate (rn_id w) rs)"
    by (simp add: queue_ok_def idle_activate)
qed

lemma queue_ok_append_waiting:
  assumes "queue_ok rs" and "activeFor rs (rn_pipelineId r)" and "\<not> rn_isActive r" and "rn_state r = RunQueued"
  shows "queue_ok (rs @ [r])"
  using assms by (auto simp: queue_ok_def one_active_def idle_not_running_def held_def activeFor_def waitingRun_def)

lemma queue_ok_append_active:
  assumes "queue_free rs (rn_pipelineId r)" and "rn_isActive r" and "filter (waitingRun (rn_pipelineId r)) rs = []"
  shows "queue_ok (rs @ [r])"
  using assms by (auto simp: queue_free_def queue_ok_def one_active_def idle_not_running_def held_def
      activeFor_def waitingRun_def)


lemma promote_free:
  assumes "db_wf db" and "queue_free (db_runs db) pid"
    and "promoteOldestQueuedRun gen dbNow pid now db = Return (db', r)"
  shows "if r = None then db' = db \<and> filter (waitingRun pid) (db_runs db) = []
    else queue_ok (db_runs db') \<and> activeFor (db_runs db') pid"
  using assms(3)
proof (cases rule: promoteOldestQueuedRun_Return)
  case (promoted w steps es js k)
  then have w: "w \<in> set (db_runs db)" "waitingRun pid w" using first_by_mem by fastforce+
  note act = activate_free [OF assms(2) db_wf_run_ids [OF assms(1)] w]
  with promoted show ?thesis by simp
next
  case none
  then show ?thesis by simp
qed

text \<open>A pipeline whose ended run was released waits for nothing once it was promoted.\<close>

lemma queue_ok_of_free:
  "queue_free rs pid \<Longrightarrow> filter (waitingRun pid) rs = [] \<Longrightarrow> queue_ok rs"
  by (auto simp: queue_free_def queue_ok_def held_def)

lemma newRunRow_simps [simp]:
  "rn_pipelineId (newRunRow u a q t e) = rq_pipelineId q" "rn_isActive (newRunRow u a q t e) = a"
  "rn_state (newRunRow u a q t e) = RunQueued" "rn_id (newRunRow u a q t e) = u"
  "rn_expiresAt (newRunRow u a q t e) = e" "rn_createdAt (newRunRow u a q t e) = t"
  "rn_scheduledFor (newRunRow u a q t e) = rq_scheduledFor q"
  by (simp_all add: newRunRow_def)

text \<open>The queue after the release and the promotion that precede the insertion.\<close>

lemma createPipelineRun_queue:
  assumes wf: "db_wf db" and ok: "queue_ok (db_runs db)"
    and ret: "createPipelineRunInTransaction zf gen dbNow q now db = Return (db', c)"
  obtains rs e where
    "db_runs db' = rs @ [newRunRow (cp_runId c) (\<not> cp_queuedBehindActiveRun c) q now e]"
    "queue_ok rs" "cp_queuedBehindActiveRun c \<longleftrightarrow> activeFor rs (rq_pipelineId q)"
    "\<not> cp_queuedBehindActiveRun c \<Longrightarrow> queue_free rs (rq_pipelineId q)"
    "rs = release (rq_pipelineId q) (db_runs db) \<or>
     (\<exists>w. first_by queueOrder (filter (waitingRun (rq_pipelineId q)) (db_runs db)) = Some w \<and>
        \<not> activeFor (release (rq_pipelineId q) (db_runs db)) (rq_pipelineId q) \<and>
        rs = activate (rn_id w) (release (rq_pipelineId q) (db_runs db)))"
proof -
  let ?pid = "rq_pipelineId q"
  from ret obtain db1 db2 active e db3 db4 n where
    r: "releaseEndedRuns ?pid db = Return db1" and
    p: "(case findActiveRun db1 ?pid of Some i \<Rightarrow> Return (db1, Some i)
      | None \<Rightarrow> promoteOldestQueuedRun gen dbNow ?pid now db1) = Return (db2, active)" and
    i: "insertRuns [newRunRow (gen (db_uuids db2)) (active = None) q now e] (advance_uuids 1 db2) = Return db3" and
    v: "recordOperationalEvent gen dbNow (runQueuedEvent ?pid (gen (db_uuids db2)) now) db3 = Return db4" and
    j: "(if active \<noteq> None then Return (db4, 0)
      else createInitialSourceJobs gen dbNow ?pid (gen (db_uuids db2)) now db4) = Return (db', n)" and
    c: "c = \<lparr>cp_initialJobCount = n, cp_pipelineId = ?pid, cp_queuedBehindActiveRun = (active \<noteq> None),
      cp_runId = gen (db_uuids db2)\<rparr>"
    by (rule createPipelineRun_Return)
  have wf1: "db_wf db1" by (rule releaseEndedRuns_wf [OF wf r])
  have rs1: "db_runs db1 = release ?pid (db_runs db)" using r by (simp add: releaseEndedRuns_eq)
  have "db_runs db4 = db_runs db3"
    using insertEventInputs_tables [OF recordOperationalEvent_Return [OF v]] by auto
  moreover have "db_runs db' = db_runs db4"
    using j by (auto split: if_splits elim!: createInitialSourceJobs_Return)
  ultimately have runs: "db_runs db' = db_runs db2 @ [newRunRow (cp_runId c) (\<not> cp_queuedBehindActiveRun c) q now e]"
    using insertRuns_tables [OF i] c by (simp add: advance_uuids_def)
  show thesis
  proof (cases "findActiveRun db1 ?pid")
    case (Some a)
    then have "activeFor (db_runs db1) ?pid" using findActiveRun_released [OF rs1] by simp
    with release_free [OF ok, of ?pid] have "queue_ok (db_runs db1)"
      by (auto simp: rs1 queue_free_def)
    moreover from Some p have "active = Some a" "db2 = db1" by simp_all
    ultimately show thesis
      using c runs rs1 \<open>activeFor (db_runs db1) ?pid\<close> by (intro that) simp_all
  next
    case None
    then have off: "\<not> activeFor (db_runs db1) ?pid" using findActiveRun_released [OF rs1] by simp
    with release_free [OF ok, of ?pid] have free: "queue_free (db_runs db1) ?pid" by (auto simp: rs1)
    from None p have pr: "promoteOldestQueuedRun gen dbNow ?pid now db1 = Return (db2, active)" by simp
    note f = promote_free [OF wf1 free pr]
    show thesis
    proof (cases active)
      case None
      with f have "db2 = db1" "queue_ok (db_runs db1)" by (simp_all add: queue_ok_of_free [OF free])
      with None c runs rs1 free off show thesis by (intro that) auto
    next
      case (Some a)
      with f have "queue_ok (db_runs db2)" "activeFor (db_runs db2) ?pid" by simp_all
      moreover from pr Some obtain w where
        "first_by queueOrder (filter (waitingRun ?pid) (db_runs db1)) = Some w"
        "db_runs db2 = activate (rn_id w) (db_runs db1)"
        by (auto elim!: promoteOldestQueuedRun_Return)
      ultimately show thesis using Some c runs off rs1 by (intro that) (auto simp: waiting_release)
    qed
  qed
qed

lemma createPipelineRun_queue_ok:
  assumes "db_wf db" and "queue_ok (db_runs db)"
    and "createPipelineRunInTransaction zf gen dbNow q now db = Return (db', c)"
  shows "queue_ok (db_runs db')"
  using assms
proof (rule createPipelineRun_queue)
  fix rs e
  assume rs: "db_runs db' = rs @ [newRunRow (cp_runId c) (\<not> cp_queuedBehindActiveRun c) q now e]"
    "queue_ok rs" "cp_queuedBehindActiveRun c \<longleftrightarrow> activeFor rs (rq_pipelineId q)"
    and free: "\<not> cp_queuedBehindActiveRun c \<Longrightarrow> queue_free rs (rq_pipelineId q)"
  show ?thesis
  proof (cases "cp_queuedBehindActiveRun c")
    case True
    with rs show ?thesis by (auto intro!: queue_ok_append_waiting)
  next
    case False
    with rs(2,3) have "filter (waitingRun (rq_pipelineId q)) rs = []"
      unfolding queue_ok_def held_def by blast
    with False rs(1) free show ?thesis by (auto intro!: queue_ok_append_active)
  qed
qed

lemma promotePipeline_queue_ok:
  assumes "db_wf db" and "queue_ok (db_runs db)"
    and "promotePipeline gen dbNow now x (db, acc) = Return (db', acc')"
    and "\<not> activeFor (release (rn_pipelineId x) (db_runs db)) (rn_pipelineId x)"
  shows "queue_ok (db_runs db')"
proof -
  let ?pid = "rn_pipelineId x"
  from assms(3) obtain db1 r where
    rel: "releaseEndedRuns ?pid db = Return db1" and
    pr: "promoteOldestQueuedRun gen dbNow ?pid now db1 = Return (db', r)"
    by (auto simp: promotePipeline_def Let_def bind_res_Return_iff bind_res_pair_Return_iff)
  have rs1: "db_runs db1 = release ?pid (db_runs db)" using rel by (simp add: releaseEndedRuns_eq)
  have wf1: "db_wf db1" by (rule releaseEndedRuns_wf [OF assms(1) rel])
  have free: "queue_free (db_runs db1) ?pid"
    using release_free [OF assms(2), of ?pid] assms(4) by (auto simp: rs1)
  from promote_free [OF wf1 free pr] show ?thesis
    by (cases r) (simp_all add: queue_ok_of_free [OF free])
qed

section \<open>Promotion pass\<close>

definition liveFor :: "run_row list \<Rightarrow> string \<Rightarrow> bool" where
  "liveFor rs pid \<longleftrightarrow> (\<exists>r\<in>set rs. rn_pipelineId r = pid \<and> rn_isActive r \<and> activeState (rn_state r))"

definition runsOf :: "run_row list \<Rightarrow> string \<Rightarrow> run_row list" where
  "runsOf rs pid = filter (\<lambda>r. rn_pipelineId r = pid) rs"

lemma activeFor_iff: "activeFor rs pid \<longleftrightarrow> (\<exists>r\<in>set rs. rn_isActive r \<and> rn_pipelineId r = pid)"
  by (auto simp: activeFor_def)

lemma activeFor_release_live: "activeFor (release pid rs) pid \<longleftrightarrow> liveFor rs pid"
  unfolding activeFor_release liveFor_def by blast

lemma liveFor_runsOf: "runsOf rs q = runsOf rs' q \<Longrightarrow> liveFor rs q = liveFor rs' q"
proof -
  have "liveFor xs q \<longleftrightarrow> (\<exists>r\<in>set (runsOf xs q). rn_isActive r \<and> activeState (rn_state r))" for xs
    by (auto simp: liveFor_def runsOf_def)
  then show "runsOf rs q = runsOf rs' q \<Longrightarrow> liveFor rs q = liveFor rs' q" by simp
qed

lemma waiting_runsOf:
  "runsOf rs q = runsOf rs' q \<Longrightarrow> filter (waitingRun q) rs = filter (waitingRun q) rs'"
proof -
  have "filter (waitingRun q) xs = filter (waitingRun q) (runsOf xs q)" for xs
    by (auto simp: runsOf_def waitingRun_def intro!: filter_cong)
  then show "runsOf rs q = runsOf rs' q \<Longrightarrow> filter (waitingRun q) rs = filter (waitingRun q) rs'"
    by metis
qed

lemma runsOf_release: "q \<noteq> pid \<Longrightarrow> runsOf (release pid rs) q = runsOf rs q"
  by (induction rs) (auto simp: runsOf_def run_tables)

lemma runsOf_activate:
  assumes "distinct (map rn_id rs)" and "w \<in> set rs" and "q \<noteq> rn_pipelineId w"
  shows "runsOf (activate (rn_id w) rs) q = runsOf rs q"
proof -
  from assms(1,2) obtain as bs where "rs = as @ w # bs"
    "activate (rn_id w) rs = as @ w\<lparr>rn_isActive := True\<rparr> # bs" by (rule activate_split)
  with assms(3) show ?thesis by (simp add: runsOf_def)
qed

lemma promotePipeline_effect:
  assumes "db_wf db" and "promotePipeline gen dbNow now x (db, acc) = Return (db', acc')"
    and "queue_ok (db_runs db)" and "\<not> liveFor (db_runs db) (rn_pipelineId x)"
  shows "q \<noteq> rn_pipelineId x \<Longrightarrow> runsOf (db_runs db') q = runsOf (db_runs db) q"
    and "filter (waitingRun (rn_pipelineId x)) (db_runs db') = [] \<or> liveFor (db_runs db') (rn_pipelineId x)"
    and "\<forall>r\<in>set (db_runs db'). rn_pipelineId r = rn_pipelineId x \<longrightarrow> rn_isActive r \<longrightarrow> activeState (rn_state r)"
proof -
  let ?pid = "rn_pipelineId x"
  from assms(2) obtain db1 r where
    rel: "releaseEndedRuns ?pid db = Return db1" and
    pr: "promoteOldestQueuedRun gen dbNow ?pid now db1 = Return (db', r)"
    by (auto simp: promotePipeline_def Let_def bind_res_Return_iff bind_res_pair_Return_iff)
  have rs1: "db_runs db1 = release ?pid (db_runs db)" using rel by (simp add: releaseEndedRuns_eq)
  have ids: "distinct (map rn_id (db_runs db1))"
    by (rule db_wf_run_ids [OF releaseEndedRuns_wf [OF assms(1) rel]])
  have off: "\<not> activeFor (db_runs db1) ?pid" using assms(4) by (simp add: rs1 activeFor_release_live)
  have "(q \<noteq> ?pid \<longrightarrow> runsOf (db_runs db') q = runsOf (db_runs db) q) \<and>
    (filter (waitingRun ?pid) (db_runs db') = [] \<or> liveFor (db_runs db') ?pid) \<and>
    (\<forall>r\<in>set (db_runs db'). rn_pipelineId r = ?pid \<longrightarrow> rn_isActive r \<longrightarrow> activeState (rn_state r))"
    using pr
  proof (cases rule: promoteOldestQueuedRun_Return)
    case none
    with off show ?thesis by (auto simp: rs1 runsOf_release activeFor_iff)
  next
    case (promoted w steps es js k)
    then have w: "w \<in> set (db_runs db1)" "rn_pipelineId w = ?pid" "rn_state w = RunQueued"
      using first_by_mem [OF promoted(1)] by (auto simp: waitingRun_def)
    from ids w(1) obtain as bs where rs: "db_runs db1 = as @ w # bs"
      "activate (rn_id w) (db_runs db1) = as @ w\<lparr>rn_isActive := True\<rparr> # bs" by (rule activate_split)
    have "liveFor (db_runs db') ?pid"
      using promoted(3) rs(2) w by (auto simp: liveFor_def activeState_def)
    moreover have "\<forall>r\<in>set (db_runs db'). rn_pipelineId r = ?pid \<longrightarrow> rn_isActive r \<longrightarrow> activeState (rn_state r)"
      using promoted(3) rs w off by (auto simp: activeState_def activeFor_iff)
    ultimately show ?thesis
      using promoted(3) runsOf_activate [OF ids w(1)] w(2) by (auto simp: rs1 runsOf_release)
  qed
  then show "q \<noteq> ?pid \<Longrightarrow> runsOf (db_runs db') q = runsOf (db_runs db) q"
    "filter (waitingRun ?pid) (db_runs db') = [] \<or> liveFor (db_runs db') ?pid"
    "\<forall>r\<in>set (db_runs db'). rn_pipelineId r = ?pid \<longrightarrow> rn_isActive r \<longrightarrow> activeState (rn_state r)"
    by blast+
qed

lemma promote_loop:
  assumes "for_each (promotePipeline gen dbNow now) xs (db, acc) = Return (db', acc')"
    and "db_wf db" and "queue_ok (db_runs db)" and "distinct (map rn_pipelineId xs)"
    and "\<forall>x\<in>set xs. \<not> liveFor (db_runs db) (rn_pipelineId x)"
  shows "db_wf db' \<and> queue_ok (db_runs db') \<and>
    (\<forall>q. q \<notin> rn_pipelineId ` set xs \<longrightarrow> runsOf (db_runs db') q = runsOf (db_runs db) q) \<and>
    (\<forall>q\<in>rn_pipelineId ` set xs. (filter (waitingRun q) (db_runs db') = [] \<or> liveFor (db_runs db') q) \<and>
       (\<forall>r\<in>set (runsOf (db_runs db') q). rn_isActive r \<longrightarrow> activeState (rn_state r)))"
  using assms
proof (induction xs arbitrary: db acc)
  case Nil
  then show ?case by simp
next
  case (Cons x xs)
  let ?pid = "rn_pipelineId x"
  from Cons.prems(1) obtain db1 acc1 where
    step: "promotePipeline gen dbNow now x (db, acc) = Return (db1, acc1)" and
    rest: "for_each (promotePipeline gen dbNow now) xs (db1, acc1) = Return (db', acc')"
    by (auto simp: bind_res_Return_iff)
  have dead: "\<not> liveFor (db_runs db) ?pid" using Cons.prems(5) by simp
  note eff = promotePipeline_effect [OF Cons.prems(2) step Cons.prems(3) dead]
  have wf1: "db_wf db1" by (rule promotePipeline_wf [OF Cons.prems(2) step])
  have ok1: "queue_ok (db_runs db1)"
    by (rule promotePipeline_queue_ok [OF Cons.prems(2,3) step]) (simp add: activeFor_release_live dead)
  have fresh: "?pid \<notin> rn_pipelineId ` set xs" using Cons.prems(4) by simp
  have dead1: "\<forall>y\<in>set xs. \<not> liveFor (db_runs db1) (rn_pipelineId y)"
  proof
    fix y assume y: "y \<in> set xs"
    with fresh have "rn_pipelineId y \<noteq> ?pid" by (metis imageI)
    from liveFor_runsOf [OF eff(1) [OF this]] Cons.prems(5) y
    show "\<not> liveFor (db_runs db1) (rn_pipelineId y)" by simp
  qed
  have "distinct (map rn_pipelineId xs)" using Cons.prems(4) by simp
  note loop = Cons.IH [OF rest wf1 ok1 this dead1]
  then have ih:
    "db_wf db'" "queue_ok (db_runs db')"
    "\<And>q. q \<notin> rn_pipelineId ` set xs \<Longrightarrow> runsOf (db_runs db') q = runsOf (db_runs db1) q"
    "\<And>q. q \<in> rn_pipelineId ` set xs \<Longrightarrow> (filter (waitingRun q) (db_runs db') = [] \<or> liveFor (db_runs db') q) \<and>
       (\<forall>r\<in>set (runsOf (db_runs db') q). rn_isActive r \<longrightarrow> activeState (rn_state r))"
    by blast+
  have same: "runsOf (db_runs db') ?pid = runsOf (db_runs db1) ?pid" by (rule ih(3) [OF fresh])
  have here: "(filter (waitingRun ?pid) (db_runs db') = [] \<or> liveFor (db_runs db') ?pid) \<and>
       (\<forall>r\<in>set (runsOf (db_runs db') ?pid). rn_isActive r \<longrightarrow> activeState (rn_state r))"
    using eff(2,3) unfolding liveFor_runsOf [OF same] waiting_runsOf [OF same] same
    by (auto simp: runsOf_def)
  show ?case
  proof (intro conjI ballI allI impI)
    fix q assume "q \<notin> rn_pipelineId ` set (x # xs)"
    with ih(3) [of q] eff(1) [of q] show "runsOf (db_runs db') q = runsOf (db_runs db) q" by simp
  next
    fix q assume q: "q \<in> rn_pipelineId ` set (x # xs)"
    then show "filter (waitingRun q) (db_runs db') = [] \<or> liveFor (db_runs db') q"
      using here ih(4) [of q] by (cases "q = ?pid") auto
    fix r assume "r \<in> set (runsOf (db_runs db') q)" "rn_isActive r"
    then show "activeState (rn_state r)" using q here ih(4) [of q] by (cases "q = ?pid") auto
  qed (rule ih)+
qed

lemma completedRuns_ended:
  assumes "one_active (db_runs db)"
  shows "distinct (map rn_pipelineId (completedRuns n db))"
    and "\<forall>x\<in>set (completedRuns n db). \<not> liveFor (db_runs db) (rn_pipelineId x)"
proof -
  let ?ended = "filter (\<lambda>r. rn_isActive r \<and> terminalState (rn_state r)) (db_runs db)"
  have sub: "set (completedRuns n db) \<subseteq> set ?ended"
    unfolding completedRuns_def using set_take_subset by fastforce
  have "distinct (map rn_pipelineId ?ended)"
    using distinct_map_filter [OF assms [unfolded one_active_def], of "\<lambda>r. terminalState (rn_state r)"]
    by (simp add: filter_filter)
  then have "distinct ?ended" "inj_on rn_pipelineId (set ?ended)" by (simp_all add: distinct_map)
  moreover from this have "distinct (completedRuns n db)" by (simp add: completedRuns_def)
  ultimately show "distinct (map rn_pipelineId (completedRuns n db))"
    using sub by (auto simp: distinct_map intro: inj_on_subset)
  show "\<forall>x\<in>set (completedRuns n db). \<not> liveFor (db_runs db) (rn_pipelineId x)"
  proof (intro ballI notI)
    fix x assume x: "x \<in> set (completedRuns n db)" and "liveFor (db_runs db) (rn_pipelineId x)"
    then obtain r where r: "r \<in> set (db_runs db)" "rn_pipelineId r = rn_pipelineId x" "rn_isActive r"
      "activeState (rn_state r)" by (auto simp: liveFor_def)
    from x sub have x': "x \<in> set (db_runs db)" "rn_isActive x" "terminalState (rn_state x)" by auto
    have "inj_on rn_pipelineId (set (filter rn_isActive (db_runs db)))"
      using assms by (simp add: one_active_def distinct_map)
    from inj_onD [OF this r(2)] r x' have "r = x" by simp
    with r(4) x'(3) active_not_terminal show False by blast
  qed
qed

lemma promoteQueuedPipelineRuns_effect:
  assumes "promoteQueuedPipelineRuns gen dbNow now limit db = Return (db', ps)"
    and "db_wf db" and "queue_ok (db_runs db)"
  shows "db_wf db' \<and> queue_ok (db_runs db') \<and>
    (\<forall>q. q \<notin> rn_pipelineId ` set (completedRuns (nat \<lfloor>limit\<rfloor>) db) \<longrightarrow>
       runsOf (db_runs db') q = runsOf (db_runs db) q) \<and>
    (\<forall>q\<in>rn_pipelineId ` set (completedRuns (nat \<lfloor>limit\<rfloor>) db).
       (filter (waitingRun q) (db_runs db') = [] \<or> liveFor (db_runs db') q) \<and>
       (\<forall>r\<in>set (runsOf (db_runs db') q). rn_isActive r \<longrightarrow> activeState (rn_state r)))"
proof -
  from assms(1) have "for_each (promotePipeline gen dbNow now) (completedRuns (nat \<lfloor>limit\<rfloor>) db) (db, []) =
      Return (db', ps)"
    by (simp add: promoteQueuedPipelineRuns_def bind_res_Return_iff throw_if_iff)
  from promote_loop [OF this assms(2,3) completedRuns_ended [OF queue_ok_parts(1) [OF assms(3)]]]
  show ?thesis .
qed

section \<open>The operations succeed\<close>

text \<open>Identifiers that are generated from now on are not used yet.\<close>

definition fresh_ids :: "(nat \<Rightarrow> string) \<Rightarrow> database \<Rightarrow> bool" where
  "fresh_ids gen db \<longleftrightarrow> inj gen \<and> (\<forall>n. gen n \<noteq> []) \<and>
     (\<forall>n\<ge>db_uuids db. gen n \<notin> rn_id ` set (db_runs db) \<and> gen n \<notin> rs_id ` set (db_runSteps db) \<and>
        gen n \<notin> jb_id ` set (db_jobs db) \<and> gen n \<notin> ev_id ` set (db_events db))"

lemma fresh_ids_advance: "fresh_ids gen db \<Longrightarrow> fresh_ids gen (advance_uuids n db)"
  by (simp add: fresh_ids_def advance_uuids_def)

lemma drawn_ids:
  "inj gen \<Longrightarrow> distinct (draw_uuids gen n db)"
  "set (draw_uuids gen n db) = gen ` {db_uuids db ..< db_uuids db + n}"
  "length (draw_uuids gen n db) = n"
  by (simp_all add: draw_uuids_def distinct_map inj_on_subset [OF _ subset_UNIV])

text \<open>Inserting rows under drawn identifiers succeeds when their references hold.\<close>

lemma insert_unique_fresh:
  assumes "map key rows = draw_uuids gen n db" and "inj gen"
    and "\<forall>m\<ge>db_uuids db. gen m \<notin> key ` set table"
  shows "insert_unique c key rows table = Return (table @ rows)"
proof -
  have "distinct (map key rows)" unfolding assms(1) by (rule drawn_ids(1) [OF assms(2)])
  moreover have "key r \<notin> set (map key table)" if "r \<in> set rows" for r
  proof -
    have "key r \<in> set (map key rows)" using that by simp
    then obtain m where "key r = gen m" "m \<ge> db_uuids db" unfolding assms(1) drawn_ids(2) by auto
    with assms(3) show ?thesis by simp
  qed
  ultimately show ?thesis by (simp add: insert_unique_def list_all_iff)
qed

lemma drawn_not_later:
  assumes "map key rows = draw_uuids gen n db" and "inj gen" and "m \<ge> db_uuids db + n"
  shows "gen m \<notin> key ` set rows"
proof
  assume "gen m \<in> key ` set rows"
  then have "gen m \<in> set (map key rows)" by simp
  then obtain k where "gen m = gen k" "k < db_uuids db + n" unfolding assms(1) drawn_ids(2) by auto
  with assms(2,3) show False by (simp add: inj_eq)
qed

lemma insertRunSteps_ok:
  assumes "fresh_ids gen db" and "map rs_id rows = draw_uuids gen n db"
    and "rs_runId ` set rows \<subseteq> rn_id ` set (db_runs db)"
    and "rs_componentId ` set rows \<subseteq> pc_id ` set (db_components db)"
  shows "insertRunSteps rows (advance_uuids n db) =
      Return (db\<lparr>db_runSteps := db_runSteps db @ rows, db_uuids := db_uuids db + n\<rparr>)"
    and "fresh_ids gen (db\<lparr>db_runSteps := db_runSteps db @ rows, db_uuids := db_uuids db + n\<rparr>)"
proof -
  have "insert_unique ''run_steps_pkey'' rs_id rows (db_runSteps db) = Return (db_runSteps db @ rows)"
    by (rule insert_unique_fresh [OF assms(2)]) (use assms(1) in \<open>simp_all add: fresh_ids_def\<close>)
  with assms(3,4) show "insertRunSteps rows (advance_uuids n db) =
      Return (db\<lparr>db_runSteps := db_runSteps db @ rows, db_uuids := db_uuids db + n\<rparr>)"
    by (simp add: insertRunSteps_def advance_uuids_def references_def list_all_iff image_subset_iff throw_if_def)
  show "fresh_ids gen (db\<lparr>db_runSteps := db_runSteps db @ rows, db_uuids := db_uuids db + n\<rparr>)"
    using assms(1) drawn_not_later [OF assms(2)] by (simp add: fresh_ids_def image_Un)
qed

lemma insertJobs_ok:
  assumes "fresh_ids gen db" and "map jb_id rows = draw_uuids gen n db"
    and "jb_pipelineId ` set rows \<subseteq> pl_id ` set (db_pipelines db)"
    and "jb_runId ` set rows \<subseteq> rn_id ` set (db_runs db)"
    and "jb_runStepId ` set rows \<subseteq> rs_id ` set (db_runSteps db)"
    and "jb_componentId ` set rows \<subseteq> pc_id ` set (db_components db)"
  shows "insertJobs rows (advance_uuids n db) =
      Return (db\<lparr>db_jobs := db_jobs db @ rows, db_uuids := db_uuids db + n\<rparr>)"
    and "fresh_ids gen (db\<lparr>db_jobs := db_jobs db @ rows, db_uuids := db_uuids db + n\<rparr>)"
proof -
  have "insert_unique ''jobs_pkey'' jb_id rows (db_jobs db) = Return (db_jobs db @ rows)"
    by (rule insert_unique_fresh [OF assms(2)]) (use assms(1) in \<open>simp_all add: fresh_ids_def\<close>)
  with assms(3-6) show "insertJobs rows (advance_uuids n db) =
      Return (db\<lparr>db_jobs := db_jobs db @ rows, db_uuids := db_uuids db + n\<rparr>)"
    by (simp add: insertJobs_def advance_uuids_def references_def list_all_iff image_subset_iff throw_if_def)
  show "fresh_ids gen (db\<lparr>db_jobs := db_jobs db @ rows, db_uuids := db_uuids db + n\<rparr>)"
    using assms(1) drawn_not_later [OF assms(2)] by (simp add: fresh_ids_def image_Un)
qed

text \<open>The events of the queue carry no metrics.\<close>

definition plainEvent :: "OperationalEventInput \<Rightarrow> bool" where
  "plainEvent e \<longleftrightarrow> (\<forall>(n, v)\<in>set (eventMetrics e). v = None)"

lemma plainEvent_valid: "plainEvent e \<Longrightarrow> validateOperationalEvent e = Return ()"
  by (auto simp: validateOperationalEvent_iff plainEvent_def unsafeMetric_def split: option.splits)

lemma validate_plain_events:
  "\<forall>e\<in>set es. plainEvent e \<Longrightarrow> for_each (\<lambda>input u. validateOperationalEvent input) es () = Return ()"
  by (induction es) (simp_all add: plainEvent_valid)

lemma plainEvent_row: "plainEvent e \<Longrightarrow> eventIntegersCheck (eventRow t (e, u))"
  by (simp add: plainEvent_def eventMetrics_def eventIntegersCheck_def eventRow_def)

lemma queue_events_plain [simp]:
  "plainEvent (stepQueuedEvent pid runId now s)" "plainEvent (runQueuedEvent pid runId now)"
  by (simp_all add: plainEvent_def eventMetrics_def stepQueuedEvent_def runQueuedEvent_def)

lemma queue_event_fields [simp]:
  "oe_pipelineId (stepQueuedEvent pid runId now s) = pid" "oe_runId (stepQueuedEvent pid runId now s) = runId"
  "oe_runStepId (stepQueuedEvent pid runId now s) = Some (rs_id s)"
  "oe_jobId (stepQueuedEvent pid runId now s) = None"
  "oe_pipelineId (runQueuedEvent pid runId now) = pid" "oe_runId (runQueuedEvent pid runId now) = runId"
  "oe_runStepId (runQueuedEvent pid runId now) = None" "oe_jobId (runQueuedEvent pid runId now) = None"
  by (simp_all add: stepQueuedEvent_def runQueuedEvent_def)

lemma insertEventInputs_ok:
  assumes "fresh_ids gen db" and "\<forall>e\<in>set inputs. plainEvent e"
    and "oe_pipelineId ` set inputs \<subseteq> pl_id ` set (db_pipelines db)"
    and "oe_runId ` set inputs \<subseteq> rn_id ` set (db_runs db)"
    and "\<forall>e\<in>set inputs. pred_option (\<lambda>s. s \<in> rs_id ` set (db_runSteps db)) (oe_runStepId e) \<and> oe_jobId e = None"
  shows "\<exists>es. insertEventInputs gen dbNow inputs db =
      Return (db\<lparr>db_events := db_events db @ es, db_uuids := db_uuids db + length inputs\<rparr>) \<and>
    fresh_ids gen (db\<lparr>db_events := db_events db @ es, db_uuids := db_uuids db + length inputs\<rparr>)"
proof -
  let ?us = "draw_uuids gen (length inputs) db"
  let ?rows = "map (eventRow dbNow) (zip inputs ?us)"
  have ids: "map ev_id ?rows = ?us"
    by (rule nth_equalityI) (simp_all add: drawn_ids(3) eventRow_def)
  have mem: "\<exists>e\<in>set inputs. \<exists>u. r = eventRow dbNow (e, u)" if "r \<in> set ?rows" for r
    using that by (auto dest: set_zip_leftD)
  have "insert_unique ''operational_events_pkey'' ev_id ?rows (db_events db) = Return (db_events db @ ?rows)"
    by (rule insert_unique_fresh [OF ids]) (use assms(1) in \<open>simp_all add: fresh_ids_def\<close>)
  moreover have "list_all eventIntegersCheck ?rows"
    unfolding list_all_iff using mem assms(2) plainEvent_row by blast
  moreover have "list_all (\<lambda>r. ev_pipelineId r \<in> set (map pl_id (db_pipelines db)) \<and>
      ev_runId r \<in> set (map rn_id (db_runs db)) \<and>
      pred_option (\<lambda>k. k \<in> set (map rs_id (db_runSteps db))) (ev_runStepId r) \<and> ev_jobId r = None) ?rows"
    unfolding list_all_iff
  proof
    fix r assume "r \<in> set ?rows"
    then obtain e u where e: "e \<in> set inputs" and r: "r = eventRow dbNow (e, u)" using mem by blast
    from e assms(3,4) have "oe_pipelineId e \<in> pl_id ` set (db_pipelines db)"
      "oe_runId e \<in> rn_id ` set (db_runs db)" by (auto simp: image_subset_iff)
    with e assms(5) show "ev_pipelineId r \<in> set (map pl_id (db_pipelines db)) \<and>
      ev_runId r \<in> set (map rn_id (db_runs db)) \<and>
      pred_option (\<lambda>k. k \<in> set (map rs_id (db_runSteps db))) (ev_runStepId r) \<and> ev_jobId r = None"
      by (simp add: r eventRow_def)
  qed
  ultimately have "insertEventInputs gen dbNow inputs db =
      Return (db\<lparr>db_events := db_events db @ ?rows, db_uuids := db_uuids db + length inputs\<rparr>)"
    by (simp add: insertEventInputs_def insertEvents_def advance_uuids_def references_def references_opt_def
        throw_if_def list_all_iff)
  moreover have "fresh_ids gen (db\<lparr>db_events := db_events db @ ?rows, db_uuids := db_uuids db + length inputs\<rparr>)"
    using assms(1) drawn_not_later [OF ids] by (simp add: fresh_ids_def image_Un del: set_map map_map)
  ultimately show ?thesis by blast
qed


lemma map_res_sourceJobs_ok:
  assumes "\<forall>c\<in>set cs. \<exists>v. map_get ix (pc_id c) = Some v \<and> v \<noteq> []" and "length us = length cs"
  shows "\<exists>js. map_res (sourceJobRow ix pid runId dbNow now) (zip cs us) = Return js \<and> map jb_id js = us"
  using assms
proof (induction cs arbitrary: us)
  case Nil
  then show ?case by simp
next
  case (Cons c cs)
  then obtain u us' where us: "us = u # us'" by (cases us) auto
  with Cons obtain js where "map_res (sourceJobRow ix pid runId dbNow now) (zip cs us') = Return js" "map jb_id js = us'"
    by auto
  moreover from Cons.prems(1) obtain v where "map_get ix (pc_id c) = Some v" "v \<noteq> []" by auto
  then have "\<exists>j. sourceJobRow ix pid runId dbNow now (c, u) = Return j \<and> jb_id j = u"
    by (simp add: sourceJobRow_def)
  ultimately show ?case using us by auto
qed

text \<open>What a promoted run needs: its row, its pipeline and a Source component.\<close>

definition runnable :: "database \<Rightarrow> string \<Rightarrow> bool" where
  "runnable db pid \<longleftrightarrow> pid \<in> pl_id ` set (db_pipelines db) \<and>
     (\<exists>c\<in>set (db_components db). pc_pipelineId c = pid \<and> pc_kind c = Source)"

lemma createInitialSourceJobs_ok:
  assumes fresh: "fresh_ids gen db" and run: "runId \<in> rn_id ` set (db_runs db)" and src: "runnable db pid"
  shows "\<exists>db' n. createInitialSourceJobs gen dbNow pid runId now db = Return (db', n) \<and> fresh_ids gen db'"
proof -
  let ?cs = "filter (\<lambda>c. pc_pipelineId c = pid) (db_components db)"
  let ?src = "filter (\<lambda>c. pc_kind c = Source) ?cs"
  let ?us = "draw_uuids gen (length ?cs) db"
  let ?steps = "map (runStepRow runId) (zip ?cs ?us)"
  let ?db1 = "db\<lparr>db_runSteps := db_runSteps db @ ?steps, db_uuids := db_uuids db + length ?cs\<rparr>"
  let ?ix = "map_of_entries rs_componentId rs_id ?steps"
  let ?events = "map (stepQueuedEvent pid runId now) ?steps"
  have ids: "map rs_id ?steps = ?us" by (rule nth_equalityI) (simp_all add: drawn_ids(3) runStepRow_def)
  have comps: "map rs_componentId ?steps = map pc_id ?cs"
    by (rule nth_equalityI) (simp_all add: drawn_ids(3) runStepRow_def)
  have "set (map rs_componentId ?steps) \<subseteq> pc_id ` set (db_components db)" unfolding comps by auto
  then have refs: "rs_runId ` set ?steps \<subseteq> rn_id ` set (db_runs db)"
    "rs_componentId ` set ?steps \<subseteq> pc_id ` set (db_components db)"
    using run by (auto simp: runStepRow_def)
  note steps = insertRunSteps_ok [OF fresh ids refs]
  have "\<exists>es. insertEventInputs gen dbNow ?events ?db1 =
      Return (?db1\<lparr>db_events := db_events ?db1 @ es, db_uuids := db_uuids ?db1 + length ?events\<rparr>) \<and>
    fresh_ids gen (?db1\<lparr>db_events := db_events ?db1 @ es, db_uuids := db_uuids ?db1 + length ?events\<rparr>)"
    using run src by (intro insertEventInputs_ok [OF steps(2)]) (auto simp: runnable_def)
  then obtain es db2 where
    ev: "insertEventInputs gen dbNow ?events ?db1 = Return db2" and fresh2: "fresh_ids gen db2" and
    db2: "db2 = ?db1\<lparr>db_events := db_events ?db1 @ es, db_uuids := db_uuids ?db1 + length ?events\<rparr>"
    by blast
  have valid: "for_each (\<lambda>input u. validateOperationalEvent input) ?events () = Return ()"
    by (rule validate_plain_events) auto
  have some: "?src \<noteq> []" using src by (auto simp: runnable_def filter_empty_conv)
  then have "?cs \<noteq> []" by (auto simp: filter_empty_conv)
  then have rec: "recordOperationalEvents gen dbNow ?events ?db1 = Return db2"
    using ev valid by (auto simp: recordOperationalEvents_def drawn_ids(3))
  have "\<forall>c\<in>set ?src. \<exists>v. map_get ?ix (pc_id c) = Some v \<and> v \<noteq> []"
  proof
    fix c assume "c \<in> set ?src"
    then have "pc_id c \<in> set (map rs_componentId ?steps)" unfolding comps by auto
    then obtain s where "find (\<lambda>s. rs_componentId s = pc_id c) (rev ?steps) = Some s"
      by (cases "find (\<lambda>s. rs_componentId s = pc_id c) (rev ?steps)") (auto simp: find_None_iff)
    moreover from find_rev_mem [OF this] have "rs_id s \<in> set (map rs_id ?steps)" by (metis imageI list.set_map)
    then obtain m where "rs_id s = gen m" unfolding ids drawn_ids(2) by blast
    moreover have "gen m \<noteq> []" using fresh by (simp add: fresh_ids_def)
    ultimately show "\<exists>v. map_get ?ix (pc_id c) = Some v \<and> v \<noteq> []" by (simp add: map_get_entries)
  qed
  then obtain js where js: "map_res (sourceJobRow ?ix pid runId dbNow now)
      (zip ?src (draw_uuids gen (length ?src) db2)) = Return js" "map jb_id js = draw_uuids gen (length ?src) db2"
    using map_res_sourceJobs_ok [OF _ drawn_ids(3)] by blast
  note jobs = map_res_sourceJobs [OF js(1) drawn_ids(3)]
  have "jb_runStepId ` set js \<subseteq> rs_id ` set (db_runSteps db2)"
  proof
    fix k assume "k \<in> jb_runStepId ` set js"
    with jobs obtain i where "map_get ?ix i = Some k" by auto
    then have "k \<in> rs_id ` set ?steps" unfolding map_get_entries by (auto dest: find_rev_mem)
    then show "k \<in> rs_id ` set (db_runSteps db2)" by (auto simp: db2)
  qed
  moreover have "jb_componentId ` set js \<subseteq> pc_id ` set (db_components db2)"
  proof -
    have "jb_componentId ` set js = set (map jb_componentId js)" by simp
    also have "\<dots> \<subseteq> pc_id ` set (db_components db)" using jobs by auto
    finally show ?thesis by (simp add: db2)
  qed
  moreover have "jb_pipelineId ` set js \<subseteq> pl_id ` set (db_pipelines db2)"
    "jb_runId ` set js \<subseteq> rn_id ` set (db_runs db2)"
    using jobs src run by (auto simp: db2 runnable_def)
  ultimately have fin: "insertJobs js (advance_uuids (length ?src) db2) =
      Return (db2\<lparr>db_jobs := db_jobs db2 @ js, db_uuids := db_uuids db2 + length ?src\<rparr>)"
    "fresh_ids gen (db2\<lparr>db_jobs := db_jobs db2 @ js, db_uuids := db_uuids db2 + length ?src\<rparr>)"
    using insertJobs_ok [OF fresh2 js(2)] by blast+
  have "createInitialSourceJobs gen dbNow pid runId now db =
      Return (db2\<lparr>db_jobs := db_jobs db2 @ js, db_uuids := db_uuids db2 + length ?src\<rparr>, length ?src)"
    unfolding createInitialSourceJobs_def Let_def using some
    by (simp only: steps(1) rec js(1) fin(1) bind_res_simps map_err_simps throw_if_simps length_0_conv)
  with fin(2) show ?thesis by blast
qed


lemma one_active_keys: "one_active rs \<Longrightarrow> distinct (activeRunKeys rs)"
  unfolding one_active_def activeRunKeys_def filter_filter [symmetric] by (rule distinct_map_filter)

lemma fresh_ids_runs:
  "map rn_id rs = map rn_id (db_runs db) \<Longrightarrow> fresh_ids gen (db\<lparr>db_runs := rs\<rparr>) = fresh_ids gen db"
proof -
  assume "map rn_id rs = map rn_id (db_runs db)"
  then have "rn_id ` set rs = rn_id ` set (db_runs db)" by (metis list.set_map)
  then show ?thesis by (simp add: fresh_ids_def)
qed

lemma rn_id_activate [simp]: "map rn_id (activate i rs) = map rn_id rs"
  by (induction rs) (auto simp: run_tables)

lemma promoteOldestQueuedRun_ok:
  assumes "db_wf db" and "queue_free (db_runs db) pid" and "fresh_ids gen db" and "runnable db pid"
  shows "\<exists>db' r. promoteOldestQueuedRun gen dbNow pid now db = Return (db', r) \<and> fresh_ids gen db'"
proof (cases "first_by queueOrder (filter (waitingRun pid) (db_runs db))")
  case None
  with assms(3) show ?thesis by (simp add: promoteOldestQueuedRun_def)
next
  case (Some w)
  then have w: "w \<in> set (db_runs db)" "waitingRun pid w" using first_by_mem by fastforce+
  let ?db = "db\<lparr>db_runs := activate (rn_id w) (db_runs db)\<rparr>"
  have "queue_ok (activate (rn_id w) (db_runs db))"
    by (rule activate_free(1) [OF assms(2) db_wf_run_ids [OF assms(1)] w])
  then have "distinct (activeRunKeys (activate (rn_id w) (db_runs db)))"
    by (intro one_active_keys queue_ok_parts(1))
  then have u: "updateRuns (\<lambda>r. rn_id r = rn_id w) (\<lambda>r. r\<lparr>rn_isActive := True\<rparr>) db = Return ?db"
    by (simp add: updateRuns_tables activate_def)
  have "fresh_ids gen ?db" using assms(3) by (simp add: fresh_ids_runs)
  moreover have "rn_id w \<in> rn_id ` set (db_runs ?db)"
    using w(1) by (metis database.select_convs(6) imageI list.set_map rn_id_activate database.update_convs(6)
        database.surjective)
  moreover have "runnable ?db pid" using assms(4) by (simp add: runnable_def)
  ultimately obtain db' n where "createInitialSourceJobs gen dbNow pid (rn_id w) now ?db = Return (db', n)"
    "fresh_ids gen db'" using createInitialSourceJobs_ok by blast
  with Some u show ?thesis by (simp add: promoteOldestQueuedRun_def)
qed

lemma insertRuns_ok:
  assumes "fresh_ids gen db" and "one_active (db_runs db @ [newRunRow (gen (db_uuids db)) a q now e])"
    and "rq_pipelineId q \<in> pl_id ` set (db_pipelines db)"
    and "pred_option (\<lambda>t. t \<in> tg_id ` set (db_triggers db)) (rq_triggerId q)"
  shows "insertRuns [newRunRow (gen (db_uuids db)) a q now e] (advance_uuids 1 db) =
      Return (db\<lparr>db_runs := db_runs db @ [newRunRow (gen (db_uuids db)) a q now e], db_uuids := db_uuids db + 1\<rparr>)"
    and "fresh_ids gen (db\<lparr>db_runs := db_runs db @ [newRunRow (gen (db_uuids db)) a q now e],
      db_uuids := db_uuids db + 1\<rparr>)"
proof -
  have ids: "map rn_id [newRunRow (gen (db_uuids db)) a q now e] = draw_uuids gen 1 db"
    by (simp add: draw_uuids_def)
  have "insert_unique ''runs_pkey'' rn_id [newRunRow (gen (db_uuids db)) a q now e] (db_runs db) =
      Return (db_runs db @ [newRunRow (gen (db_uuids db)) a q now e])"
    by (rule insert_unique_fresh [OF ids]) (use assms(1) in \<open>simp_all add: fresh_ids_def\<close>)
  with assms(3,4) one_active_keys [OF assms(2)]
  show "insertRuns [newRunRow (gen (db_uuids db)) a q now e] (advance_uuids 1 db) =
      Return (db\<lparr>db_runs := db_runs db @ [newRunRow (gen (db_uuids db)) a q now e], db_uuids := db_uuids db + 1\<rparr>)"
    by (simp add: insertRuns_def advance_uuids_def references_def references_opt_def throw_if_def newRunRow_def)
  show "fresh_ids gen (db\<lparr>db_runs := db_runs db @ [newRunRow (gen (db_uuids db)) a q now e],
      db_uuids := db_uuids db + 1\<rparr>)"
    using assms(1) drawn_not_later [OF ids] by (simp add: fresh_ids_def)
qed


lemma calculateRunLogExpiry_eq:
  "1 \<le> days \<Longrightarrow> calculateRunLogExpiry now days =
     Return (if \<bar>now + days * 86400000\<bar> \<le> maxDate then Some (now + days * 86400000) else None)"
  by (simp add: calculateRunLogExpiry_def resolveRunLogRetentionDays_def Let_def)

lemma createPipelineRunInTransaction_ok:
  assumes wf: "db_wf db" and ok: "queue_ok (db_runs db)" and fresh: "fresh_ids gen db"
    and uuid: "uuid_format zf (rq_pipelineId q)" and src: "runnable db (rq_pipelineId q)"
    and enabled: "\<forall>p\<in>set (db_pipelines db). pl_id p = rq_pipelineId q \<longrightarrow> pl_state p = Enabled"
    and days: "getRunLogRetentionDays db = Return days" "\<bar>now + days * 86400000\<bar> \<le> maxDate"
    and trigger: "pred_option (\<lambda>t. t \<in> tg_id ` set (db_triggers db)) (rq_triggerId q)"
  shows "\<exists>db' c. createPipelineRunInTransaction zf gen dbNow q now db = Return (db', c) \<and> fresh_ids gen db'"
proof -
  let ?pid = "rq_pipelineId q"
  obtain p where p: "find (\<lambda>p. pl_id p = ?pid) (db_pipelines db) = Some p" "pl_state p = Enabled"
  proof -
    from src have "find (\<lambda>p. pl_id p = ?pid) (db_pipelines db) \<noteq> None"
      by (auto simp: runnable_def find_None_iff)
    then obtain p where "find (\<lambda>p. pl_id p = ?pid) (db_pipelines db) = Some p" by blast
    with enabled that show thesis by (auto simp: find_Some_iff)
  qed
  let ?db1 = "db\<lparr>db_runs := release ?pid (db_runs db)\<rparr>"
  have one1: "one_active (release ?pid (db_runs db))" by (rule one_active_release [OF queue_ok_parts(1) [OF ok]])
  then have rel: "releaseEndedRuns ?pid db = Return ?db1" by (simp add: releaseEndedRuns_eq one_active_keys)
  have wf1: "db_wf ?db1" by (rule releaseEndedRuns_wf [OF wf rel])
  have fresh1: "fresh_ids gen ?db1" using fresh by (simp add: fresh_ids_runs)
  have act: "findActiveRun ?db1 ?pid = None \<longleftrightarrow> \<not> activeFor (release ?pid (db_runs db)) ?pid"
    using findActiveRun_released [of ?db1 ?pid db] by simp
  have "\<exists>db2 active. (case findActiveRun ?db1 ?pid of Some i \<Rightarrow> Return (?db1, Some i)
      | None \<Rightarrow> promoteOldestQueuedRun gen dbNow ?pid now ?db1) = Return (db2, active) \<and> fresh_ids gen db2 \<and>
      one_active (db_runs db2) \<and> (active = None \<longrightarrow> \<not> activeFor (db_runs db2) ?pid) \<and>
      db_pipelines db2 = db_pipelines db \<and> db_triggers db2 = db_triggers db \<and> db_components db2 = db_components db"
  proof (cases "findActiveRun ?db1 ?pid")
    case (Some i)
    with fresh1 one1 show ?thesis by simp
  next
    case None
    with act release_free [OF ok, of ?pid] have free: "queue_free (db_runs ?db1) ?pid" by simp
    have "runnable ?db1 ?pid" using src by (simp add: runnable_def)
    from promoteOldestQueuedRun_ok [OF wf1 free fresh1 this] obtain db2 r where
      pr: "promoteOldestQueuedRun gen dbNow ?pid now ?db1 = Return (db2, r)" "fresh_ids gen db2" by blast
    have "db_pipelines db2 = db_pipelines db \<and> db_triggers db2 = db_triggers db \<and> db_components db2 = db_components db"
      using pr(1) by (cases rule: promoteOldestQueuedRun_Return) simp_all
    moreover have "one_active (db_runs db2) \<and> (r = None \<longrightarrow> \<not> activeFor (db_runs db2) ?pid)"
      using promote_free [OF wf1 free pr(1)] free by (cases r) (auto simp: queue_free_def dest: queue_ok_parts(1))
    ultimately show ?thesis using None pr by simp
  qed
  then obtain db2 active where
    pre: "(case findActiveRun ?db1 ?pid of Some i \<Rightarrow> Return (?db1, Some i)
      | None \<Rightarrow> promoteOldestQueuedRun gen dbNow ?pid now ?db1) = Return (db2, active)" and
    fresh2: "fresh_ids gen db2" and one2: "one_active (db_runs db2)" "active = None \<longrightarrow> \<not> activeFor (db_runs db2) ?pid" and
    tables: "db_pipelines db2 = db_pipelines db" "db_triggers db2 = db_triggers db" "db_components db2 = db_components db"
    by blast
  let ?e = "now + days * 86400000"
  let ?row = "newRunRow (gen (db_uuids db2)) (active = None) q now ?e"
  let ?db3 = "db2\<lparr>db_runs := db_runs db2 @ [?row], db_uuids := db_uuids db2 + 1\<rparr>"
  have "one_active (db_runs db2 @ [?row])"
    using one2 by (auto simp: one_active_def activeFor_def)
  moreover have "?pid \<in> pl_id ` set (db_pipelines db2)" using src by (simp add: tables runnable_def)
  moreover have "pred_option (\<lambda>t. t \<in> tg_id ` set (db_triggers db2)) (rq_triggerId q)"
    using trigger by (simp add: tables)
  ultimately have ins: "insertRuns [?row] (advance_uuids 1 db2) = Return ?db3" "fresh_ids gen ?db3"
    using insertRuns_ok [OF fresh2] by blast+
  have "\<exists>es. insertEventInputs gen dbNow [runQueuedEvent ?pid (gen (db_uuids db2)) now] ?db3 =
      Return (?db3\<lparr>db_events := db_events ?db3 @ es, db_uuids := db_uuids ?db3 + length [runQueuedEvent ?pid (gen (db_uuids db2)) now]\<rparr>) \<and>
    fresh_ids gen (?db3\<lparr>db_events := db_events ?db3 @ es, db_uuids := db_uuids ?db3 + length [runQueuedEvent ?pid (gen (db_uuids db2)) now]\<rparr>)"
    by (rule insertEventInputs_ok [OF ins(2)]) (use src in \<open>simp_all add: tables runnable_def\<close>)
  then obtain es db4 where
    ev: "recordOperationalEvent gen dbNow (runQueuedEvent ?pid (gen (db_uuids db2)) now) ?db3 = Return db4" and
    fresh4: "fresh_ids gen db4" and
    db4: "db4 = ?db3\<lparr>db_events := db_events ?db3 @ es, db_uuids := db_uuids ?db3 + 1\<rparr>"
    by (auto simp: recordOperationalEvent_def plainEvent_valid)
  have "gen (db_uuids db2) \<in> rn_id ` set (db_runs db4)" by (simp add: db4)
  moreover have "runnable db4 ?pid" using src by (simp add: db4 tables runnable_def)
  ultimately obtain db5 n where
    "(if active \<noteq> None then Return (db4, 0)
      else createInitialSourceJobs gen dbNow ?pid (gen (db_uuids db2)) now db4) = Return (db5, n)" "fresh_ids gen db5"
    using createInitialSourceJobs_ok [OF fresh4] fresh4 by (cases active) (simp_all, blast)
  with uuid p days rel pre ins(1) ev show ?thesis
    by (simp add: createPipelineRunInTransaction_def Let_def assertPipelineCanCreateRun_iff
        calculateRunLogExpiry_eq [OF getRunLogRetentionDays_pos [OF days(1)]])
qed

end
