(* ===== verification/Schedule_Claims.thy ===== *)
theory Schedule_Claims
  imports Queue_Correctness
begin

text \<open>
  \<open>apps/scheduler/src/schedule-claims.ts\<close>: due schedules are claimed in one transaction, each
  advances by one cron occurrence and gets a run for the occurrence that was due. The package
  \<open>cron-parser\<close> is not part of the repository: its next occurrence after a time is the
  parameter \<open>cronNext\<close>, which may throw on a malformed expression.
\<close>

record ClaimedSchedule =
  cl_cron :: string
  cl_nextRunAt :: time
  cl_pipelineId :: string
  cl_scheduledFor :: time
  cl_run :: CreatedPipelineRun
  cl_timezone :: string
  cl_triggerId :: string

type_synonym cron_parser = "string \<Rightarrow> string \<Rightarrow> time \<Rightarrow> (string, time) result"

definition DEFAULT_SCHEDULE_CLAIM_LIMIT :: rat where
  "DEFAULT_SCHEDULE_CLAIM_LIMIT = 100"

definition calculateNextScheduleRun ::
  "cron_parser \<Rightarrow> string \<Rightarrow> string \<Rightarrow> time \<Rightarrow> (run_error, time) result" where
  "calculateNextScheduleRun cronNext cron timezone after = map_err RunError (cronNext cron timezone after)"

text \<open>The predicate of the query: an enabled schedule of an enabled pipeline that is due.\<close>

definition dueTrigger :: "database \<Rightarrow> time \<Rightarrow> trigger_row \<Rightarrow> bool" where
  "dueTrigger db now t \<longleftrightarrow>
     list_ex (\<lambda>p. tg_pipelineId t = pl_id p \<and> pl_state p = Enabled) (db_pipelines db) \<and>
     tg_type t = TriggerSchedule \<and> tg_enabled t \<and> tg_cron t \<noteq> None \<and> tg_timezone t \<noteq> None \<and>
     (case tg_nextRunAt t of None \<Rightarrow> False | Some n \<Rightarrow> n \<le> now)"

definition dueSchedules :: "nat \<Rightarrow> time \<Rightarrow> database \<Rightarrow> trigger_row list" where
  "dueSchedules limit now db =
     take limit (sort_key (\<lambda>t. (nulls_last (tg_nextRunAt t), tg_id t))
       (filter (dueTrigger db now) (db_triggers db)))"

definition claimSchedule ::
  "cron_parser \<Rightarrow> zod_formats \<Rightarrow> (nat \<Rightarrow> string) \<Rightarrow> time \<Rightarrow> time \<Rightarrow> trigger_row \<Rightarrow>
   database \<times> ClaimedSchedule list \<Rightarrow> (run_error, database \<times> ClaimedSchedule list) result" where
  "claimSchedule cronNext zf gen dbNow now dueSchedule dc = (case dc of (db, claimedSchedules) \<Rightarrow>
     (case (tg_cron dueSchedule, tg_nextRunAt dueSchedule, tg_timezone dueSchedule) of
        (Some cron, Some scheduledFor, Some timezone) \<Rightarrow>
          bind_res (calculateNextScheduleRun cronNext cron timezone scheduledFor) (\<lambda>nextRunAt.
          bind_res (map_err RunDatabaseError
            (updateTriggers (\<lambda>t. tg_id t = tg_id dueSchedule)
              (\<lambda>t. t\<lparr>tg_lastClaimedAt := Some now, tg_nextRunAt := Some nextRunAt\<rparr>) db)) (\<lambda>db.
          bind_res (createPipelineRunInTransaction zf gen dbNow
            \<lparr>rq_pipelineId = tg_pipelineId dueSchedule, rq_scheduledFor = Some scheduledFor,
             rq_triggerId = Some (tg_id dueSchedule)\<rparr> now db) (\<lambda>(db, run).
          Return (db, claimedSchedules @
            [\<lparr>cl_cron = cron, cl_nextRunAt = nextRunAt, cl_pipelineId = tg_pipelineId dueSchedule,
              cl_scheduledFor = scheduledFor, cl_run = run, cl_timezone = timezone,
              cl_triggerId = tg_id dueSchedule\<rparr>]))))
      | _ \<Rightarrow> Throw (RunError ''Due schedule is missing required scheduling fields.'')))"

definition claimDueSchedules ::
  "cron_parser \<Rightarrow> zod_formats \<Rightarrow> (nat \<Rightarrow> string) \<Rightarrow> time \<Rightarrow> time \<Rightarrow> rat \<Rightarrow> database \<Rightarrow>
   (run_error, database \<times> ClaimedSchedule list) result" where
  "claimDueSchedules cronNext zf gen dbNow now limit db =
     bind_res (throw_if (\<not> js_isSafeInteger limit \<or> limit < 1)
       (RunError ''Schedule claim limit must be a positive safe integer.'')) (\<lambda>_.
     for_each (claimSchedule cronNext zf gen dbNow now) (dueSchedules (nat \<lfloor>limit\<rfloor>) now db) (db, []))"

section \<open>Effect of a claim\<close>

lemma dueTrigger_fields:
  "dueTrigger db now t \<Longrightarrow> \<exists>cron n tz. tg_cron t = Some cron \<and> tg_nextRunAt t = Some n \<and> tg_timezone t = Some tz \<and> n \<le> now"
  by (auto simp: dueTrigger_def split: option.splits)

lemma claimSchedule_Return:
  assumes "claimSchedule cronNext zf gen dbNow now t (db, acc) = Return (db', acc')"
  obtains cron n tz upcoming db1 run where
    "tg_cron t = Some cron" "tg_nextRunAt t = Some n" "tg_timezone t = Some tz"
    "cronNext cron tz n = Return upcoming"
    "updateTriggers (\<lambda>x. tg_id x = tg_id t)
       (\<lambda>x. x\<lparr>tg_lastClaimedAt := Some now, tg_nextRunAt := Some upcoming\<rparr>) db = Return db1"
    "createPipelineRunInTransaction zf gen dbNow
       \<lparr>rq_pipelineId = tg_pipelineId t, rq_scheduledFor = Some n, rq_triggerId = Some (tg_id t)\<rparr> now db1 =
     Return (db', run)"
    "acc' = acc @ [\<lparr>cl_cron = cron, cl_nextRunAt = upcoming, cl_pipelineId = tg_pipelineId t,
              cl_scheduledFor = n, cl_run = run, cl_timezone = tz, cl_triggerId = tg_id t\<rparr>]"
proof -
  from assms obtain cron n tz where f: "tg_cron t = Some cron" "tg_nextRunAt t = Some n" "tg_timezone t = Some tz"
    by (auto simp: claimSchedule_def split: option.splits)
  from assms show thesis
    by (simp only: claimSchedule_def f prod.case option.case calculateNextScheduleRun_def bind_res_Return_iff
        bind_res_pair_Return_iff map_err_Return_iff split_paired_Ex sum.inject prod.inject)
      (elim exE conjE, rule that [OF f], (assumption | simp)+)
qed

lemma updateTriggers_tables:
  "updateTriggers P f db = Return db' \<longleftrightarrow>
     list_all triggerFieldsCheck (update_where P f (db_triggers db)) \<and>
     db' = db\<lparr>db_triggers := update_where P f (db_triggers db)\<rparr>"
  by (auto simp: updateTriggers_def Let_def bind_res_Return_iff throw_if_iff)

lemma createPipelineRun_tables:
  assumes "createPipelineRunInTransaction zf gen dbNow q now db = Return (db', c)"
  shows "db_triggers db' = db_triggers db" "db_pipelines db' = db_pipelines db"
    "db_components db' = db_components db" "db_edges db' = db_edges db"
proof -
  have "db_triggers db' = db_triggers db \<and> db_pipelines db' = db_pipelines db \<and>
      db_components db' = db_components db \<and> db_edges db' = db_edges db"
    using assms
  proof (rule createPipelineRun_Return)
    fix db1 db2 active e db3 db4 n
    assume r: "releaseEndedRuns (rq_pipelineId q) db = Return db1"
      and p: "(case findActiveRun db1 (rq_pipelineId q) of Some i \<Rightarrow> Return (db1, Some i)
        | None \<Rightarrow> promoteOldestQueuedRun gen dbNow (rq_pipelineId q) now db1) = Return (db2, active)"
      and i: "insertRuns [newRunRow (gen (db_uuids db2)) (active = None) q now e] (advance_uuids 1 db2) = Return db3"
      and v: "recordOperationalEvent gen dbNow (runQueuedEvent (rq_pipelineId q) (gen (db_uuids db2)) now) db3 = Return db4"
      and j: "(if active \<noteq> None then Return (db4, 0)
        else createInitialSourceJobs gen dbNow (rq_pipelineId q) (gen (db_uuids db2)) now db4) = Return (db', n)"
    let ?same = "\<lambda>a b. db_triggers b = db_triggers a \<and> db_pipelines b = db_pipelines a \<and>
        db_components b = db_components a \<and> db_edges b = db_edges a"
    have "?same db db1" using r by (simp add: releaseEndedRuns_eq)
    moreover have "?same db1 db2"
    proof (cases "findActiveRun db1 (rq_pipelineId q)")
      case None
      with p have "promoteOldestQueuedRun gen dbNow (rq_pipelineId q) now db1 = Return (db2, active)" by simp
      then show ?thesis by (cases rule: promoteOldestQueuedRun_Return) simp_all
    qed (use p in simp)
    moreover have "?same db2 db3" using insertRuns_tables [OF i] by (simp add: advance_uuids_def)
    moreover have "?same db3 db4" using insertEventInputs_tables [OF recordOperationalEvent_Return [OF v]] by auto
    moreover have "?same db4 db'"
    proof (cases active)
      case None
      with j have "createInitialSourceJobs gen dbNow (rq_pipelineId q) (gen (db_uuids db2)) now db4 = Return (db', n)" by simp
      then show ?thesis by (rule createInitialSourceJobs_Return) simp
    qed (use j in simp)
    ultimately show ?thesis by simp
  qed
  then show "db_triggers db' = db_triggers db" "db_pipelines db' = db_pipelines db" "db_components db' = db_components db"
    "db_edges db' = db_edges db"
    by simp_all
qed

lemma claimSchedule_wf:
  assumes "db_wf db" and "claimSchedule cronNext zf gen dbNow now t (db, acc) = Return (db', acc')"
  shows "db_wf db'"
  using assms(2)
proof (rule claimSchedule_Return)
  fix upcoming db1 n run
  assume u: "updateTriggers (\<lambda>x. tg_id x = tg_id t)
       (\<lambda>x. x\<lparr>tg_lastClaimedAt := Some now, tg_nextRunAt := Some upcoming\<rparr>) db = Return db1"
    and c: "createPipelineRunInTransaction zf gen dbNow
       \<lparr>rq_pipelineId = tg_pipelineId t, rq_scheduledFor = Some n, rq_triggerId = Some (tg_id t)\<rparr> now db1 =
     Return (db', run)"
  have "db_wf db1" by (rule updateTriggers_wf [OF assms(1) u]) simp_all
  with c show ?thesis by (rule createPipelineRunInTransaction_wf [rotated])
qed

lemma claimSchedule_queue_ok:
  assumes "db_wf db" and "queue_ok (db_runs db)"
    and "claimSchedule cronNext zf gen dbNow now t (db, acc) = Return (db', acc')"
  shows "queue_ok (db_runs db')"
  using assms(3)
proof (rule claimSchedule_Return)
  fix upcoming db1 n run
  assume u: "updateTriggers (\<lambda>x. tg_id x = tg_id t)
       (\<lambda>x. x\<lparr>tg_lastClaimedAt := Some now, tg_nextRunAt := Some upcoming\<rparr>) db = Return db1"
    and c: "createPipelineRunInTransaction zf gen dbNow
       \<lparr>rq_pipelineId = tg_pipelineId t, rq_scheduledFor = Some n, rq_triggerId = Some (tg_id t)\<rparr> now db1 =
     Return (db', run)"
  have wf: "db_wf db1" by (rule updateTriggers_wf [OF assms(1) u]) simp_all
  have ok: "queue_ok (db_runs db1)" using u assms(2) by (simp add: updateTriggers_tables)
  show ?thesis by (rule createPipelineRun_queue_ok [OF wf ok c])
qed

section \<open>Effect of a pass\<close>

text \<open>What identifies a run and never changes after its insertion.\<close>

definition runKey :: "run_row \<Rightarrow> string \<times> string \<times> string option \<times> time option" where
  "runKey r = (rn_id r, rn_pipelineId r, rn_triggerId r, rn_scheduledFor r)"

lemma runKey_release [simp]: "map runKey (release pid rs) = map runKey rs"
  by (induction rs) (auto simp: run_tables runKey_def)

lemma runKey_activate [simp]: "map runKey (activate i rs) = map runKey rs"
  by (induction rs) (auto simp: run_tables runKey_def)

lemma createPipelineRun_runKeys:
  assumes "db_wf db" and "queue_ok (db_runs db)"
    and "createPipelineRunInTransaction zf gen dbNow q now db = Return (db', c)"
  shows "map runKey (db_runs db') =
    map runKey (db_runs db) @ [(cp_runId c, rq_pipelineId q, rq_triggerId q, rq_scheduledFor q)]"
  using assms
proof (rule createPipelineRun_queue)
  fix rs e
  assume rs: "db_runs db' = rs @ [newRunRow (cp_runId c) (\<not> cp_queuedBehindActiveRun c) q now e]"
    and "rs = release (rq_pipelineId q) (db_runs db) \<or>
     (\<exists>w. first_by queueOrder (filter (waitingRun (rq_pipelineId q)) (db_runs db)) = Some w \<and>
        \<not> activeFor (release (rq_pipelineId q) (db_runs db)) (rq_pipelineId q) \<and>
        rs = activate (rn_id w) (release (rq_pipelineId q) (db_runs db)))"
  then have "map runKey rs = map runKey (db_runs db)" by (auto simp del: map_map)
  with rs show ?thesis by (simp add: runKey_def newRunRow_def)
qed

definition claimed :: "cron_parser \<Rightarrow> trigger_row \<Rightarrow> ClaimedSchedule \<Rightarrow> bool" where
  "claimed cronNext t c \<longleftrightarrow>
     cl_triggerId c = tg_id t \<and> cl_pipelineId c = tg_pipelineId t \<and>
     tg_cron t = Some (cl_cron c) \<and> tg_timezone t = Some (cl_timezone c) \<and>
     tg_nextRunAt t = Some (cl_scheduledFor c) \<and>
     cronNext (cl_cron c) (cl_timezone c) (cl_scheduledFor c) = Return (cl_nextRunAt c)"

definition advanceTrigger :: "time \<Rightarrow> ClaimedSchedule list \<Rightarrow> trigger_row \<Rightarrow> trigger_row" where
  "advanceTrigger now cs t =
     (case find (\<lambda>c. cl_triggerId c = tg_id t) cs of
        None \<Rightarrow> t
      | Some c \<Rightarrow> t\<lparr>tg_lastClaimedAt := Some now, tg_nextRunAt := Some (cl_nextRunAt c)\<rparr>)"

definition claimKey :: "ClaimedSchedule \<Rightarrow> string \<times> string \<times> string option \<times> time option" where
  "claimKey c = (cp_runId (cl_run c), cl_pipelineId c, Some (cl_triggerId c), Some (cl_scheduledFor c))"

lemma advanceTrigger_Cons:
  assumes "cl_triggerId c \<notin> cl_triggerId ` set cs"
  shows "map (advanceTrigger now cs) (update_where (\<lambda>x. tg_id x = cl_triggerId c)
      (\<lambda>x. x\<lparr>tg_lastClaimedAt := Some now, tg_nextRunAt := Some (cl_nextRunAt c)\<rparr>) ts) =
    map (advanceTrigger now (c # cs)) ts"
proof -
  have "find (\<lambda>d. cl_triggerId d = cl_triggerId c) cs = None"
    using assms by (auto simp: find_None_iff) (metis imageI)
  then show ?thesis by (induction ts) (auto simp: update_where_def advanceTrigger_def)
qed

lemma claim_loop:
  assumes "for_each (claimSchedule cronNext zf gen dbNow now) ts (db, acc) = Return (db', acc')"
    and "db_wf db" and "queue_ok (db_runs db)" and "distinct (map tg_id ts)"
  shows "db_wf db' \<and> queue_ok (db_runs db') \<and>
    (\<exists>cs. acc' = acc @ cs \<and> list_all2 (claimed cronNext) ts cs \<and>
       db_triggers db' = map (advanceTrigger now cs) (db_triggers db) \<and>
       map runKey (db_runs db') = map runKey (db_runs db) @ map claimKey cs)"
  using assms
proof (induction ts arbitrary: db acc)
  case Nil
  then show ?case by (simp add: advanceTrigger_def map_idI)
next
  case (Cons t ts)
  from Cons.prems(1) obtain db2 acc2 where
    step: "claimSchedule cronNext zf gen dbNow now t (db, acc) = Return (db2, acc2)" and
    rest: "for_each (claimSchedule cronNext zf gen dbNow now) ts (db2, acc2) = Return (db', acc')"
    by (auto simp: bind_res_Return_iff)
  have wf2: "db_wf db2" by (rule claimSchedule_wf [OF Cons.prems(2) step])
  have ok2: "queue_ok (db_runs db2)" by (rule claimSchedule_queue_ok [OF Cons.prems(2,3) step])
  have "distinct (map tg_id ts)" using Cons.prems(4) by simp
  from Cons.IH [OF rest wf2 ok2 this] obtain cs where
    cs: "acc' = acc2 @ cs" "list_all2 (claimed cronNext) ts cs"
      "db_triggers db' = map (advanceTrigger now cs) (db_triggers db2)"
      "map runKey (db_runs db') = map runKey (db_runs db2) @ map claimKey cs" and
    inv: "db_wf db'" "queue_ok (db_runs db')" by blast
  from step obtain cron n tz upcoming db1 run where
    f: "tg_cron t = Some cron" "tg_nextRunAt t = Some n" "tg_timezone t = Some tz"
      "cronNext cron tz n = Return upcoming" and
    u: "updateTriggers (\<lambda>x. tg_id x = tg_id t)
       (\<lambda>x. x\<lparr>tg_lastClaimedAt := Some now, tg_nextRunAt := Some upcoming\<rparr>) db = Return db1" and
    c: "createPipelineRunInTransaction zf gen dbNow
       \<lparr>rq_pipelineId = tg_pipelineId t, rq_scheduledFor = Some n, rq_triggerId = Some (tg_id t)\<rparr> now db1 =
     Return (db2, run)" and
    acc2: "acc2 = acc @ [\<lparr>cl_cron = cron, cl_nextRunAt = upcoming, cl_pipelineId = tg_pipelineId t,
              cl_scheduledFor = n, cl_run = run, cl_timezone = tz, cl_triggerId = tg_id t\<rparr>]"
    by (rule claimSchedule_Return)
  let ?c = "\<lparr>cl_cron = cron, cl_nextRunAt = upcoming, cl_pipelineId = tg_pipelineId t,
              cl_scheduledFor = n, cl_run = run, cl_timezone = tz, cl_triggerId = tg_id t\<rparr>"
  have "map cl_triggerId cs = map tg_id ts"
    using cs(2) by (induction rule: list_all2_induct) (auto simp: claimed_def)
  then have "cl_triggerId ` set cs = tg_id ` set ts" by (metis list.set_map)
  with Cons.prems(4) have new: "cl_triggerId ?c \<notin> cl_triggerId ` set cs" by simp
  have "db_triggers db' = map (advanceTrigger now (?c # cs)) (db_triggers db)"
    using advanceTrigger_Cons [OF new, of now "db_triggers db"] cs(3) u createPipelineRun_tables(1) [OF c]
    by (simp add: updateTriggers_tables)
  moreover have "map runKey (db_runs db') = map runKey (db_runs db) @ map claimKey (?c # cs)"
  proof -
    have "db_wf db1" by (rule updateTriggers_wf [OF Cons.prems(2) u]) simp_all
    moreover have "db_runs db1 = db_runs db" using u by (simp add: updateTriggers_tables)
    ultimately show ?thesis
      using createPipelineRun_runKeys [OF _ _ c] Cons.prems(3) cs(4) by (simp add: claimKey_def)
  qed
  moreover have "acc' = acc @ ?c # cs" "list_all2 (claimed cronNext) (t # ts) (?c # cs)"
    using acc2 cs(1,2) f by (simp_all add: claimed_def)
  ultimately show ?case using inv by blast
qed

lemma dueSchedules_distinct: "db_wf db \<Longrightarrow> distinct (map tg_id (dueSchedules n now db))"
proof -
  assume "db_wf db"
  then have "distinct (map tg_id (filter (dueTrigger db now) (db_triggers db)))"
    by (simp add: db_wf_def keys_ok_def distinct_map_filter)
  then have "distinct (map tg_id (sort_key (\<lambda>t. (nulls_last (tg_nextRunAt t), tg_id t))
      (filter (dueTrigger db now) (db_triggers db))))" by (simp add: distinct_map)
  then show ?thesis unfolding dueSchedules_def by (simp add: take_map [symmetric])
qed

lemma claimDueSchedules_effect:
  assumes "claimDueSchedules cronNext zf gen dbNow now limit db = Return (db', cs)"
    and "db_wf db" and "queue_ok (db_runs db)"
  shows "db_wf db' \<and> queue_ok (db_runs db') \<and>
    list_all2 (claimed cronNext) (dueSchedules (nat \<lfloor>limit\<rfloor>) now db) cs \<and>
    db_triggers db' = map (advanceTrigger now cs) (db_triggers db) \<and>
    map runKey (db_runs db') = map runKey (db_runs db) @ map claimKey cs"
proof -
  from assms(1) have "for_each (claimSchedule cronNext zf gen dbNow now) (dueSchedules (nat \<lfloor>limit\<rfloor>) now db) (db, []) =
      Return (db', cs)"
    by (simp add: claimDueSchedules_def bind_res_Return_iff throw_if_iff)
  from claim_loop [OF this assms(2,3) dueSchedules_distinct [OF assms(2)]] show ?thesis by auto
qed

end
