(* ===== verification/Web_Routes.thy ===== *)
theory Web_Routes
  imports Wire_Format Uploads Schedule_Claims
begin

text \<open>
  The HTTP boundary of the control plane: \<open>apps/web/src/auth/api-session.ts\<close>,
  \<open>pipelines/collection-route.ts\<close>, \<open>pipeline-api/detail.ts\<close>, \<open>pipeline-api/actions.ts\<close> and the
  client of the internal scheduler endpoint in \<open>pipeline-api/scheduler.ts\<close>, with the handlers as
  \<open>routes/api/pipelines\<close> mounts them. A handler takes the user whose session the authentication
  library resolved, and returns the database it leaves behind with its response or the exception
  that escapes it: what a committed transaction wrote stays when the handler fails afterwards.
  Header fields of responses are left out.
\<close>

section \<open>Requests and errors\<close>

text \<open>The user of a session as \<open>better-auth\<close> resolves it from the headers of a request.\<close>

record SessionUser =
  se_id :: string
  se_requiresPasswordChange :: bool

definition getApiSession :: "SessionUser option \<Rightarrow> string option" where
  "getApiSession session =
     (case session of
        None \<Rightarrow> None
      | Some user \<Rightarrow> if se_requiresPasswordChange user then None else Some (se_id user))"

text \<open>The body of a request: blank, not JSON, or a JSON document.\<close>

datatype request_body = BlankBody | MalformedBody | JsonBody json

datatype web_error =
    RepositoryFailure repository_error
  | ActionFailure action_error
  | ResponseContractFailure
  | PipelineSchedulerConflictError string
  | SchedulerFailure string

type_synonym handled = "database \<times> (web_error, response) result"

definition codeResponse :: "string \<Rightarrow> nat \<Rightarrow> response" where
  "codeResponse errorCode status = \<lparr>re_status = status, re_body = Some (JObj [(''code'', JStr errorCode)])\<rparr>"

definition unauthenticatedResponse :: response where
  "unauthenticatedResponse = \<lparr>re_status = 401, re_body = None\<rparr>"

definition notFoundResponse :: response where
  "notFoundResponse = codeResponse ''pipeline_not_found'' 404"

definition invalidRequestResponse :: response where
  "invalidRequestResponse = codeResponse ''invalid_pipeline_request'' 400"

text \<open>\<open>Response.json(schema.parse(pipeline), \<dots>)\<close>.\<close>

definition pipelineResponse :: "zod_formats \<Rightarrow> nat \<Rightarrow> Pipeline \<Rightarrow> (web_error, response) result" where
  "pipelineResponse zf status pipeline =
     (case pipelineSchema zf (pipelineJson pipeline) of
        None \<Rightarrow> Throw ResponseContractFailure
      | Some p \<Rightarrow> Return \<lparr>re_status = status, re_body = Some (pipelineJson p)\<rparr>)"

section \<open>The collection\<close>

definition readJsonObject :: "request_body \<Rightarrow> json" where
  "readJsonObject body = (case body of JsonBody (JObj kvs) \<Rightarrow> JObj kvs | _ \<Rightarrow> JNull)"

definition collectionGET :: "zod_formats \<Rightarrow> SessionUser option \<Rightarrow> database \<Rightarrow> handled" where
  "collectionGET zf session db =
     (case getApiSession session of
        None \<Rightarrow> (db, Return unauthenticatedResponse)
      | Some userId \<Rightarrow>
          (db, bind_res (map_err RepositoryFailure (listPipelinesByOwner zf db userId)) (\<lambda>pipelines.
             case pipelineListResponseSchema zf (JObj [(''pipelines'', JArr (map pipelineJson pipelines))]) of
               None \<Rightarrow> Throw ResponseContractFailure
             | Some ps \<Rightarrow> Return \<lparr>re_status = 200,
                 re_body = Some (JObj [(''pipelines'', JArr (map pipelineJson ps))])\<rparr>)))"

definition collectionPOST ::
  "zod_formats \<Rightarrow> (nat \<Rightarrow> string) \<Rightarrow> time \<Rightarrow> SessionUser option \<Rightarrow> request_body \<Rightarrow> database \<Rightarrow> handled" where
  "collectionPOST zf gen dbNow session body db =
     (case getApiSession session of
        None \<Rightarrow> (db, Return unauthenticatedResponse)
      | Some userId \<Rightarrow>
     (case pipelineCreateRequestSchema zf (readJsonObject body) of
        None \<Rightarrow> (db, Return invalidRequestResponse)
      | Some request \<Rightarrow>
     (case createPipeline zf gen dbNow userId request db of
        Inl (TopologyRejected _) \<Rightarrow> (db, Return invalidRequestResponse)
      | Inl error \<Rightarrow> (db, Throw (RepositoryFailure error))
      | Inr (db, created) \<Rightarrow>
          (claimPipelineUploads userId created db, pipelineResponse zf 201 created))))"

section \<open>One pipeline\<close>

definition parseDetailRequest :: "zod_formats \<Rightarrow> string \<Rightarrow> string option" where
  "parseDetailRequest zf pipelineId = pipelineDetailRequestSchema zf (JObj [(''pipelineId'', JStr pipelineId)])"

definition parseUpdateRequest :: "zod_formats \<Rightarrow> request_body \<Rightarrow> PipelineUpdateRequest option" where
  "parseUpdateRequest zf body =
     (case body of JsonBody j \<Rightarrow> pipelineUpdateRequestSchema zf j | _ \<Rightarrow> None)"

definition conflictResponse :: "string \<Rightarrow> response" where
  "conflictResponse errorCode = codeResponse errorCode 409"

definition updateErrorResponse :: "repository_error \<Rightarrow> (web_error, response) result" where
  "updateErrorResponse error =
     (case error of
        TopologyRejected _ \<Rightarrow> Return invalidRequestResponse
      | TransitionRejected _ \<Rightarrow> Return (conflictResponse ''pipeline_locked'')
      | _ \<Rightarrow> Throw (RepositoryFailure error))"

definition deletionErrorResponse :: "repository_error \<Rightarrow> (web_error, response) result" where
  "deletionErrorResponse error =
     (case error of
        PipelineDeletionLockedError \<Rightarrow> Return (conflictResponse ''pipeline_locked'')
      | PipelineDeletionHasRunHistoryError \<Rightarrow> Return (conflictResponse ''pipeline_has_run_history'')
      | _ \<Rightarrow> Throw (RepositoryFailure error))"

definition detailDELETE :: "zod_formats \<Rightarrow> SessionUser option \<Rightarrow> string \<Rightarrow> database \<Rightarrow> handled" where
  "detailDELETE zf session pipelineId db =
     (case getApiSession session of
        None \<Rightarrow> (db, Return unauthenticatedResponse)
      | Some userId \<Rightarrow>
     (case parseDetailRequest zf pipelineId of
        None \<Rightarrow> (db, Return invalidRequestResponse)
      | Some pipelineId \<Rightarrow>
     (case deletePipeline userId pipelineId db of
        Inl error \<Rightarrow> (db, deletionErrorResponse error)
      | Inr (db, deleted) \<Rightarrow>
          (db, Return (if deleted then \<lparr>re_status = 204, re_body = None\<rparr> else notFoundResponse)))))"

definition detailGET :: "zod_formats \<Rightarrow> SessionUser option \<Rightarrow> string \<Rightarrow> database \<Rightarrow> handled" where
  "detailGET zf session pipelineId db =
     (case getApiSession session of
        None \<Rightarrow> (db, Return unauthenticatedResponse)
      | Some userId \<Rightarrow>
     (case parseDetailRequest zf pipelineId of
        None \<Rightarrow> (db, Return invalidRequestResponse)
      | Some pipelineId \<Rightarrow>
          (db, bind_res (map_err RepositoryFailure (getPipeline zf db userId pipelineId)) (\<lambda>pipeline.
             case pipeline of None \<Rightarrow> Return notFoundResponse | Some p \<Rightarrow> pipelineResponse zf 200 p))))"

definition detailPATCH ::
  "zod_formats \<Rightarrow> (nat \<Rightarrow> string) \<Rightarrow> time \<Rightarrow> time \<Rightarrow> SessionUser option \<Rightarrow> string \<Rightarrow> request_body \<Rightarrow> database \<Rightarrow> handled" where
  "detailPATCH zf gen dbNow now session pipelineId body db =
     (case getApiSession session of
        None \<Rightarrow> (db, Return unauthenticatedResponse)
      | Some userId \<Rightarrow>
     (case (parseDetailRequest zf pipelineId, parseUpdateRequest zf body) of
        (Some pipelineId, Some update) \<Rightarrow>
          (case updatePipeline zf gen dbNow now userId pipelineId update db of
             Inl error \<Rightarrow> (db, updateErrorResponse error)
           | Inr (db, None) \<Rightarrow> (db, Return notFoundResponse)
           | Inr (db, Some pipeline) \<Rightarrow>
               (claimPipelineUploads userId pipeline db, pipelineResponse zf 200 pipeline))
      | _ \<Rightarrow> (db, Return invalidRequestResponse)))"

section \<open>The client of the scheduler\<close>

record PipelineSchedulerConfig =
  sc_internalToken :: string

fun runInteger :: "json \<Rightarrow> nat option" where
  "runInteger (JNum n) =
     (if of_int \<lfloor>n\<rfloor> = n \<and> 0 \<le> n \<and> n \<le> 9007199254740991 then Some (nat \<lfloor>n\<rfloor>) else None)"
| "runInteger _ = None"

definition pipelineRunResponseSchema :: "zod_formats \<Rightarrow> json \<Rightarrow> CreatedPipelineRun option" where
  "pipelineRunResponseSchema zf j = do {
     kvs \<leftarrow> strictObject [''initialJobCount'', ''pipelineId'', ''queuedBehindActiveRun'', ''runId''] [] j;
     n \<leftarrow> field kvs ''initialJobCount'' runInteger;
     p \<leftarrow> checked (uuid_format zf) (field kvs ''pipelineId'' asString);
     b \<leftarrow> field kvs ''queuedBehindActiveRun'' asBool;
     r \<leftarrow> checked (uuid_format zf) (field kvs ''runId'' asString);
     Some \<lparr>cp_initialJobCount = n, cp_pipelineId = p, cp_queuedBehindActiveRun = b, cp_runId = r\<rparr> }"

definition readConflictCode :: "response \<Rightarrow> string option" where
  "readConflictCode response =
     (if re_status response \<noteq> 404 \<and> re_status response \<noteq> 409 then None
      else (case re_body response of
          Some (JObj kvs) \<Rightarrow>
            (case map_of kvs ''code'' of
               Some (JStr errorCode) \<Rightarrow>
                 if errorCode \<in> {''pipeline_locked'', ''pipeline_not_enabled'', ''pipeline_not_found''} then Some errorCode else None
             | _ \<Rightarrow> None)
        | _ \<Rightarrow> None))"

text \<open>
  \<open>fetch\<close> as the function that serves the request: the service returns no response when its
  handler fails, since the listener of \<open>apps/scheduler/src/main.ts\<close> does not catch the error.
\<close>

definition schedulerService ::
  "zod_formats \<Rightarrow> (nat \<Rightarrow> string) \<Rightarrow> time \<Rightarrow> string \<Rightarrow> time \<Rightarrow> internal_request \<Rightarrow> database \<Rightarrow>
   database \<times> response option" where
  "schedulerService zf gen dbNow internalToken now request db =
     (case internalPipelineRunRoute zf gen dbNow internalToken request now db of
        (db, Inl _) \<Rightarrow> (db, None)
      | (db, Inr response) \<Rightarrow> (db, Some response))"

definition schedulerEnqueueRun ::
  "zod_formats \<Rightarrow> PipelineSchedulerConfig \<Rightarrow> string \<Rightarrow> string \<Rightarrow>
   (internal_request \<Rightarrow> database \<Rightarrow> database \<times> response option) \<Rightarrow> database \<Rightarrow>
   database \<times> (web_error, CreatedPipelineRun) result" where
  "schedulerEnqueueRun zf configuration ownerUserId pipelineId fetchImplementation db =
     (case fetchImplementation
         \<lparr>ir_method = ''POST'', ir_authorization = Some (''Bearer '' @ sc_internalToken configuration),
          ir_body = Some (JObj [(''ownerUserId'', JStr ownerUserId), (''pipelineId'', JStr pipelineId)])\<rparr> db of
        (db, None) \<Rightarrow> (db, Throw (SchedulerFailure ''fetch failed''))
      | (db, Some response) \<Rightarrow> (db,
          if 200 \<le> re_status response \<and> re_status response \<le> 299
          then (case Option.bind (re_body response) (pipelineRunResponseSchema zf) of
                  None \<Rightarrow> Throw ResponseContractFailure
                | Some run \<Rightarrow> Return run)
          else (case readConflictCode response of
                  Some errorCode \<Rightarrow> Throw (PipelineSchedulerConflictError errorCode)
                | None \<Rightarrow> Throw (SchedulerFailure ''The scheduler did not accept the pipeline run request.''))))"

section \<open>Actions\<close>

fun violationJson :: "PipelineExecutableViolation \<Rightarrow> json" where
  "violationJson MissingSource = JObj [(''kind'', JStr ''missing-source'')]"
| "violationJson (MultipleSources is) =
     JObj [(''kind'', JStr ''multiple-sources''), (''stepIds'', JArr (map JStr is))]"
| "violationJson MissingExport = JObj [(''kind'', JStr ''missing-export'')]"
| "violationJson (MultipleExports is) =
     JObj [(''kind'', JStr ''multiple-exports''), (''stepIds'', JArr (map JStr is))]"
| "violationJson (BranchingStep i) = JObj [(''kind'', JStr ''branching-step''), (''stepId'', JStr i)]"
| "violationJson (DisconnectedStep i) = JObj [(''kind'', JStr ''disconnected-step''), (''stepId'', JStr i)]"
| "violationJson (UnavailableComponent i t v) =
     JObj [(''kind'', JStr ''unavailable-component''), (''stepId'', JStr i), (''componentType'', JStr t),
       (''componentVersion'', JStr v)]"
| "violationJson (MissingConfigValue i k) =
     JObj [(''kind'', JStr ''missing-config-value''), (''stepId'', JStr i), (''configKey'', JStr k)]"
| "violationJson (MissingSecretBinding i k) =
     JObj [(''kind'', JStr ''missing-secret-binding''), (''stepId'', JStr i), (''configKey'', JStr k)]"
| "violationJson (IncompatibleAdjacentSteps a b r) =
     JObj [(''kind'', JStr ''incompatible-adjacent-steps''), (''upstreamStepId'', JStr a),
       (''downstreamStepId'', JStr b), (''reason'', JStr r)]"

definition pipelineActionConflictResponse ::
  "PipelineActionConflictReason \<Rightarrow> PipelineExecutableViolation list option \<Rightarrow> response" where
  "pipelineActionConflictResponse reason violations =
     (if reason = ActNotFound then notFoundResponse
      else if reason = ActNotExecutable
      then \<lparr>re_status = 409, re_body = Some (JObj [(''code'', JStr ''pipeline_not_executable''),
        (''violations'', JArr (map violationJson (case violations of None \<Rightarrow> [] | Some vs \<Rightarrow> vs)))])\<rparr>
      else codeResponse (if reason = ActLocked then ''pipeline_locked'' else ''pipeline_not_enabled'') 409)"

definition schedulerConflictResponse :: "string \<Rightarrow> response" where
  "schedulerConflictResponse errorCode =
     (if errorCode = ''pipeline_not_found'' then notFoundResponse else codeResponse errorCode 409)"

definition webActionErrorResponse :: "web_error \<Rightarrow> (web_error, response) result" where
  "webActionErrorResponse error =
     (case error of
        ActionFailure (PipelineActionConflictError reason m violations) \<Rightarrow>
          Return (pipelineActionConflictResponse reason violations)
      | PipelineSchedulerConflictError errorCode \<Rightarrow> Return (schedulerConflictResponse errorCode)
      | _ \<Rightarrow> Throw error)"

definition stateActionResponse ::
  "zod_formats \<Rightarrow> SessionUser option \<Rightarrow> string \<Rightarrow>
   (string \<Rightarrow> string \<Rightarrow> database \<Rightarrow> (action_error, database \<times> PipelineStateActionResult) result) \<Rightarrow> database \<Rightarrow> handled" where
  "stateActionResponse zf session pipelineId action db =
     (case getApiSession session of
        None \<Rightarrow> (db, Return unauthenticatedResponse)
      | Some userId \<Rightarrow>
     (case parseDetailRequest zf pipelineId of
        None \<Rightarrow> (db, Return invalidRequestResponse)
      | Some pipelineId \<Rightarrow>
     (case action userId pipelineId db of
        Inl error \<Rightarrow> (db, webActionErrorResponse (ActionFailure error))
      | Inr (db, _) \<Rightarrow>
          (db, catch_res
             (bind_res (map_err RepositoryFailure (getPipeline zf db userId pipelineId)) (\<lambda>pipeline.
                case pipeline of None \<Rightarrow> Return notFoundResponse | Some p \<Rightarrow> pipelineResponse zf 200 p))
             webActionErrorResponse))))"

definition actionENABLE ::
  "zod_formats \<Rightarrow> ComponentMetadata list \<Rightarrow> time \<Rightarrow> SessionUser option \<Rightarrow> string \<Rightarrow> database \<Rightarrow> handled" where
  "actionENABLE zf availableComponents now session pipelineId =
     stateActionResponse zf session pipelineId
       (\<lambda>ownerUserId pipelineId. enablePipelineForOwner zf ownerUserId pipelineId availableComponents now)"

definition actionDISABLE :: "zod_formats \<Rightarrow> time \<Rightarrow> SessionUser option \<Rightarrow> string \<Rightarrow> database \<Rightarrow> handled" where
  "actionDISABLE zf now session pipelineId =
     stateActionResponse zf session pipelineId
       (\<lambda>ownerUserId pipelineId. disablePipelineForOwner zf ownerUserId pipelineId now)"

definition readOptionalJsonObject :: "request_body \<Rightarrow> (string \<times> json) list option" where
  "readOptionalJsonObject body =
     (case body of BlankBody \<Rightarrow> Some [] | JsonBody (JObj kvs) \<Rightarrow> Some kvs | _ \<Rightarrow> None)"

definition parseDuplicateRequest :: "zod_formats \<Rightarrow> string \<Rightarrow> request_body \<Rightarrow> (string option \<times> string) option" where
  "parseDuplicateRequest zf pipelineId body = do {
     kvs \<leftarrow> readOptionalJsonObject body;
     name \<leftarrow> pipelineDuplicateBodyRequestSchema (JObj kvs);
     pipelineDuplicateRequestSchema zf (JObj (optionalEntry ''name'' JStr name @ [(''pipelineId'', JStr pipelineId)])) }"

definition actionDUPLICATE ::
  "zod_formats \<Rightarrow> (nat \<Rightarrow> string) \<Rightarrow> (nat \<Rightarrow> string) \<Rightarrow> time \<Rightarrow> SessionUser option \<Rightarrow> string \<Rightarrow> request_body \<Rightarrow>
   database \<Rightarrow> handled" where
  "actionDUPLICATE zf gen createComponentId dbNow session pipelineId body db =
     (case getApiSession session of
        None \<Rightarrow> (db, Return unauthenticatedResponse)
      | Some userId \<Rightarrow>
     (case parseDuplicateRequest zf pipelineId body of
        None \<Rightarrow> (db, Return invalidRequestResponse)
      | Some (name, pipelineId) \<Rightarrow>
     (case duplicatePipeline zf gen createComponentId dbNow userId pipelineId name db of
        Inl error \<Rightarrow> (db, Throw (RepositoryFailure error))
      | Inr (db, None) \<Rightarrow> (db, Return notFoundResponse)
      | Inr (db, Some pipeline) \<Rightarrow> (db, pipelineResponse zf 201 pipeline))))"

definition executionStateJson :: "ActiveRunSummary option \<Rightarrow> json" where
  "executionStateJson activeRun = JObj (optionalEntry ''activeRun'' (\<lambda>r. JObj
     [(''id'', JStr (rm_id r)), (''state'', JStr (case rm_state r of PhaseQueued \<Rightarrow> ''queued'' | PhaseRunning \<Rightarrow> ''running''))]) activeRun)"

definition pipelineExecutionStateResponseSchema :: "zod_formats \<Rightarrow> json \<Rightarrow> ActiveRunSummary option option" where
  "pipelineExecutionStateResponseSchema zf j = do {
     kvs \<leftarrow> strictObject [] [''activeRun''] j;
     optionalField kvs ''activeRun'' (\<lambda>r. do {
       kvs \<leftarrow> strictObject [''id'', ''state''] [] r;
       i \<leftarrow> checked (uuid_format zf) (field kvs ''id'' asString);
       s \<leftarrow> field kvs ''state'' (asLiteral [(''queued'', PhaseQueued), (''running'', PhaseRunning)]);
       Some \<lparr>rm_id = i, rm_state = s\<rparr> }) }"

definition actionEXECUTION_STATE :: "zod_formats \<Rightarrow> SessionUser option \<Rightarrow> string \<Rightarrow> database \<Rightarrow> handled" where
  "actionEXECUTION_STATE zf session pipelineId db =
     (case getApiSession session of
        None \<Rightarrow> (db, Return unauthenticatedResponse)
      | Some userId \<Rightarrow>
     (case parseDetailRequest zf pipelineId of
        None \<Rightarrow> (db, Return invalidRequestResponse)
      | Some pipelineId \<Rightarrow>
          (db, bind_res (map_err RepositoryFailure (getPipeline zf db userId pipelineId)) (\<lambda>pipeline.
             case pipeline of
               None \<Rightarrow> Return notFoundResponse
             | Some p \<Rightarrow>
                 (case pipelineExecutionStateResponseSchema zf (executionStateJson (getActiveRunForPipeline db (p_id p))) of
                    None \<Rightarrow> Throw ResponseContractFailure
                  | Some activeRun \<Rightarrow> Return \<lparr>re_status = 200, re_body = Some (executionStateJson activeRun)\<rparr>)))))"

definition actionRUN ::
  "zod_formats \<Rightarrow> (string \<Rightarrow> string \<Rightarrow> database \<Rightarrow> database \<times> (web_error, CreatedPipelineRun) result) \<Rightarrow>
   SessionUser option \<Rightarrow> string \<Rightarrow> database \<Rightarrow> handled" where
  "actionRUN zf enqueueRun session pipelineId db =
     (case getApiSession session of
        None \<Rightarrow> (db, Return unauthenticatedResponse)
      | Some userId \<Rightarrow>
     (case parseDetailRequest zf pipelineId of
        None \<Rightarrow> (db, Return invalidRequestResponse)
      | Some pipelineId \<Rightarrow>
     (case enqueueRun userId pipelineId db of
        (db, Inl error) \<Rightarrow> (db, webActionErrorResponse error)
      | (db, Inr run) \<Rightarrow>
          (db, if pipelineRunResponseSchema_ok zf run then Return (runResponse run)
               else webActionErrorResponse ResponseContractFailure))))"

section \<open>The mounted routes\<close>

datatype web_op =
    WebList
  | WebCreate request_body
  | WebGet string
  | WebUpdate string request_body
  | WebDelete string
  | WebEnable string
  | WebDisable string
  | WebDuplicate string request_body "nat \<Rightarrow> string"
  | WebExecutionState string
  | WebRun string

text \<open>A call has the session of its headers, the database clock and the clock of the process.\<close>

record web_call =
  wc_session :: "SessionUser option"
  wc_dbNow :: time
  wc_now :: time
  wc_op :: web_op

text \<open>The deployment: the catalog, the token of the web application and that of the scheduler.\<close>

record deployment =
  dp_availableComponents :: "ComponentMetadata list"
  dp_scheduler :: PipelineSchedulerConfig
  dp_internalToken :: string

definition web_handle :: "zod_formats \<Rightarrow> (nat \<Rightarrow> string) \<Rightarrow> deployment \<Rightarrow> web_call \<Rightarrow> database \<Rightarrow> handled" where
  "web_handle zf gen dp c =
     (let session = wc_session c; dbNow = wc_dbNow c; now = wc_now c in
      case wc_op c of
        WebList \<Rightarrow> collectionGET zf session
      | WebCreate body \<Rightarrow> collectionPOST zf gen dbNow session body
      | WebGet pipelineId \<Rightarrow> detailGET zf session pipelineId
      | WebUpdate pipelineId body \<Rightarrow> detailPATCH zf gen dbNow now session pipelineId body
      | WebDelete pipelineId \<Rightarrow> detailDELETE zf session pipelineId
      | WebEnable pipelineId \<Rightarrow> actionENABLE zf (dp_availableComponents dp) now session pipelineId
      | WebDisable pipelineId \<Rightarrow> actionDISABLE zf now session pipelineId
      | WebDuplicate pipelineId body ids \<Rightarrow> actionDUPLICATE zf gen ids dbNow session pipelineId body
      | WebExecutionState pipelineId \<Rightarrow> actionEXECUTION_STATE zf session pipelineId
      | WebRun pipelineId \<Rightarrow> actionRUN zf
          (\<lambda>owner pipelineId. schedulerEnqueueRun zf (dp_scheduler dp) owner pipelineId
             (schedulerService zf gen dbNow (dp_internalToken dp) now)) session pipelineId)"

end
