(* ===== verification/Queue_Refinement.thy ===== *)
theory Queue_Refinement
  imports Queue_Correctness
begin

text \<open>
  The persisted queue of a pipeline refines the execution state machine of
  \<open>packages/pipeline/src/state-machine.ts\<close>: the rows of a pipeline represent an execution
  state, creating a run is enqueuing it and promoting after an ended run is completing it.
\<close>

section \<open>Refinement of the execution state machine\<close>

definition domainRun :: "run_row \<Rightarrow> ActivePipelineRun" where
  "domainRun r =
     \<lparr>ar_id = rn_id r, ar_state = (if rn_state r = RunRunning then PhaseRunning else PhaseQueued),
      ar_cancellationRequested = (rn_cancellationRequestedAt r \<noteq> None)\<rparr>"

text \<open>The execution state that the rows of a pipeline represent.\<close>

definition executionOf :: "PipelineState \<Rightarrow> run_row list \<Rightarrow> string \<Rightarrow> PipelineExecutionState" where
  "executionOf st rs pid =
     \<lparr>es_pipelineState = st,
      es_activeRun = map_option domainRun (find (\<lambda>r. rn_pipelineId r = pid \<and> rn_isActive r) rs),
      es_queuedRunIds = map rn_id (sort_key queueOrder (filter (waitingRun pid) rs))\<rparr>"

lemma sort_key_append_greatest:
  assumes "\<forall>x\<in>set xs. key x \<le> key y"
  shows "sort_key key (xs @ [y]) = sort_key key xs @ [y]"
proof -
  have snoc: "insort_key key x (zs @ [y]) = insort_key key x zs @ [y]" if "key x \<le> key y" for x zs
    using that by (induction zs) auto
  show ?thesis using assms by (induction xs) (simp_all add: snoc)
qed

lemma sort_key_remove_first:
  assumes "first_by key xs = Some w" and "distinct xs"
  shows "sort_key key xs = w # sort_key key (filter (\<lambda>x. x \<noteq> w) xs)"
proof -
  from assms(1) obtain ys where ys: "sort_key key xs = w # ys" by (auto simp: first_by_def split: list.splits)
  have "distinct (w # ys)" using assms(2) ys by (metis distinct_sort)
  moreover have "sort_key key (filter (\<lambda>x. x \<noteq> w) xs) = filter (\<lambda>x. x \<noteq> w) (w # ys)"
    by (simp add: filter_sort [symmetric] ys)
  ultimately show ?thesis using ys by (simp add: filter_id_conv) (metis (mono_tags, lifting) filter_True)
qed

lemma release_same:
  assumes "\<forall>r\<in>set rs. rn_pipelineId r = pid \<longrightarrow> rn_isActive r \<longrightarrow> activeState (rn_state r)"
  shows "release pid rs = rs"
  unfolding release_def by (rule update_where_none) (use assms active_not_terminal in blast)

lemma activeFor_find: "activeFor rs pid \<longleftrightarrow> find (\<lambda>r. rn_pipelineId r = pid \<and> rn_isActive r) rs \<noteq> None"
  by (auto simp: activeFor_iff find_None_iff)

lemma createPipelineRun_refines:
  assumes wf: "db_wf db" and ok: "queue_ok (db_runs db)"
    and ret: "createPipelineRunInTransaction zf gen dbNow q now db = Return (db', c)"
    and live: "\<forall>r\<in>set (db_runs db). rn_pipelineId r = rq_pipelineId q \<longrightarrow> rn_isActive r \<longrightarrow> activeState (rn_state r)"
    and last: "\<forall>r\<in>set (db_runs db). waitingRun (rq_pipelineId q) r \<longrightarrow>
      queueOrder r \<le> queueOrder (last (db_runs db'))"
    and nonempty: "cp_runId c \<noteq> []"
  shows "enqueuePipelineRun (executionOf Enabled (db_runs db) (rq_pipelineId q)) (cp_runId c) =
    Return (executionOf Enabled (db_runs db') (rq_pipelineId q))"
proof -
  let ?pid = "rq_pipelineId q"
  let ?s = "executionOf Enabled (db_runs db) ?pid"
  have same: "release ?pid (db_runs db) = db_runs db" by (rule release_same [OF live])
  from wf ok ret obtain rs e where
    rs: "db_runs db' = rs @ [newRunRow (cp_runId c) (\<not> cp_queuedBehindActiveRun c) q now e]" and
    behind: "cp_queuedBehindActiveRun c \<longleftrightarrow> activeFor rs ?pid" and ok': "queue_ok rs" and
    eq: "rs = db_runs db \<or> (\<exists>w. first_by queueOrder (filter (waitingRun ?pid) (db_runs db)) = Some w \<and>
        \<not> activeFor (db_runs db) ?pid \<and> rs = activate (rn_id w) (db_runs db))"
    by (rule createPipelineRun_queue) (simp add: same)
  have "filter (waitingRun ?pid) (db_runs db) = []" if "\<not> activeFor (db_runs db) ?pid"
    using queue_ok_parts(3) [OF ok, of ?pid] that by (simp add: held_def)
  with eq have rs': "rs = db_runs db" by (auto simp: first_by_def)
  let ?row = "newRunRow (cp_runId c) (\<not> cp_queuedBehindActiveRun c) q now e"
  have "cp_runId c \<notin> rn_id ` set (db_runs db)"
    using db_wf_run_ids [OF createPipelineRunInTransaction_wf [OF wf ret]] by (simp add: rs rs')
  then have fresh: "\<forall>r\<in>set (db_runs db). rn_id r \<noteq> cp_runId c" by (metis imageI)
  have contains: "\<not> containsRun ?s (cp_runId c)"
    using fresh by (auto simp: containsRun_def executionOf_def domainRun_def dest!: find_mem split: option.splits)
  have can: "assertPipelineCanRun ?s = Return ()"
    by (simp add: assertPipelineCanRun_def executionOf_def throw_if_def)
  show ?thesis
  proof (cases "activeFor (db_runs db) ?pid")
    case True
    then obtain a where a: "find (\<lambda>r. rn_pipelineId r = ?pid \<and> rn_isActive r) (db_runs db) = Some a"
      by (auto simp: activeFor_find)
    have "sort_key queueOrder (filter (waitingRun ?pid) (db_runs db) @ [?row]) =
        sort_key queueOrder (filter (waitingRun ?pid) (db_runs db)) @ [?row]"
      by (rule sort_key_append_greatest) (use last in \<open>auto simp: rs\<close>)
    moreover have "\<not> rn_isActive ?row" "waitingRun ?pid ?row" using True behind by (simp_all add: rs' waitingRun_def)
    ultimately have new: "executionOf Enabled (db_runs db') ?pid = ?s\<lparr>es_queuedRunIds := es_queuedRunIds ?s @ [cp_runId c]\<rparr>"
      by (simp add: executionOf_def rs rs' find_append a)
    have "es_activeRun ?s = Some (domainRun a)" by (simp add: executionOf_def a)
    with nonempty contains can show ?thesis unfolding new by (simp add: enqueuePipelineRun_def)
  next
    case False
    then have none: "find (\<lambda>r. rn_pipelineId r = ?pid \<and> rn_isActive r) (db_runs db) = None"
      by (simp add: activeFor_find)
    have "rn_isActive ?row" "\<not> waitingRun ?pid ?row" using False behind by (simp_all add: rs' waitingRun_def)
    then have new: "executionOf Enabled (db_runs db') ?pid = ?s\<lparr>es_activeRun := Some (freshActiveRun (cp_runId c))\<rparr>"
      by (simp add: executionOf_def rs rs' find_append none domainRun_def freshActiveRun_def)
        (simp add: newRunRow_def)
    have "es_activeRun ?s = None" by (simp add: executionOf_def none)
    with nonempty contains can show ?thesis unfolding new by (simp add: enqueuePipelineRun_def)
  qed
qed

lemma promotePipeline_refines:
  assumes wf: "db_wf db" and ok: "queue_ok (db_runs db)"
    and x: "x \<in> set (db_runs db)" "rn_isActive x" "terminalState (rn_state x)"
    and ret: "promotePipeline gen dbNow now x (db, acc) = Return (db', acc')"
    and plain: "\<forall>r\<in>set (db_runs db). waitingRun (rn_pipelineId x) r \<longrightarrow>
      rn_cancellationRequestedAt r = None \<and> rn_id r \<noteq> []"
  shows "completeActiveRun (executionOf st (db_runs db) (rn_pipelineId x)) (rn_state x) =
    Return (executionOf st (db_runs db') (rn_pipelineId x))"
proof -
  let ?pid = "rn_pipelineId x"
  let ?s = "executionOf st (db_runs db) ?pid"
  from ret obtain db1 r where
    rel: "releaseEndedRuns ?pid db = Return db1" and
    pr: "promoteOldestQueuedRun gen dbNow ?pid now db1 = Return (db', r)"
    by (auto simp: promotePipeline_def Let_def bind_res_Return_iff bind_res_pair_Return_iff)
  have rs1: "db_runs db1 = release ?pid (db_runs db)" using rel by (simp add: releaseEndedRuns_eq)
  have ids: "distinct (map rn_id (db_runs db1))" by (rule db_wf_run_ids [OF releaseEndedRuns_wf [OF wf rel]])
  have "\<not> liveFor (db_runs db) ?pid"
  proof
    assume "liveFor (db_runs db) ?pid"
    then obtain r where "r \<in> set (db_runs db)" "rn_pipelineId r = ?pid" "rn_isActive r" "activeState (rn_state r)"
      by (auto simp: liveFor_def)
    moreover have "inj_on rn_pipelineId (set (filter rn_isActive (db_runs db)))"
      using queue_ok_parts(1) [OF ok] by (simp add: one_active_def distinct_map)
    ultimately have "r = x" using x by (auto dest: inj_onD)
    with \<open>activeState (rn_state r)\<close> x(3) active_not_terminal show False by blast
  qed
  then have off: "\<not> activeFor (db_runs db1) ?pid" by (simp add: rs1 activeFor_release_live)
  obtain a where act: "es_activeRun ?s = Some a"
    using x activeFor_find [of "db_runs db" ?pid] by (auto simp: executionOf_def activeFor_iff)
  have ended: "isTerminalRunState (rn_state x)" using x(3) by (auto simp: isTerminalRunState_def terminalState_def)
  have none: "find (\<lambda>r. rn_pipelineId r = ?pid \<and> rn_isActive r) (db_runs db1) = None"
    using off activeFor_find by blast
  show ?thesis
    using pr
  proof (cases rule: promoteOldestQueuedRun_Return)
    case none1: none
    then have "executionOf st (db_runs db') ?pid = ?s\<lparr>es_activeRun := None, es_queuedRunIds := []\<rparr>"
      "es_queuedRunIds ?s = []"
      using none by (simp_all add: executionOf_def rs1 waiting_release)
    with act ended show ?thesis by (simp add: completeActiveRun_def requireActiveRun_def)
  next
    case (promoted w steps es js k)
    have w: "w \<in> set (db_runs db1)" "waitingRun ?pid w" using first_by_mem [OF promoted(1)] by auto
    have "set (filter (waitingRun ?pid) (db_runs db1)) = set (filter (waitingRun ?pid) (db_runs db))"
      by (simp only: rs1 waiting_release)
    with w have w': "w \<in> set (filter (waitingRun ?pid) (db_runs db))" by auto
    have waiting: "sort_key queueOrder (filter (waitingRun ?pid) (db_runs db)) =
        w # sort_key queueOrder (filter (waitingRun ?pid) (db_runs db'))"
    proof -
      have "distinct (filter (waitingRun ?pid) (db_runs db1))" using ids by (simp add: distinct_map)
      note rest = sort_key_remove_first [OF promoted(1) this]
      have "filter (waitingRun ?pid) (db_runs db') =
          filter (\<lambda>r. r \<noteq> w) (filter (waitingRun ?pid) (db_runs db1))"
        using waiting_activate [OF ids w(1), of ?pid] promoted(3) by simp
      with rest show ?thesis by (simp only: rs1 waiting_release)
    qed
    from ids w(1) obtain as bs where split: "db_runs db1 = as @ w # bs"
      "activate (rn_id w) (db_runs db1) = as @ w\<lparr>rn_isActive := True\<rparr> # bs" by (rule activate_split)
    have "find (\<lambda>r. rn_pipelineId r = ?pid \<and> rn_isActive r) as = None"
      using none unfolding split(1) by (simp add: find_append split: option.splits)
    with w(2) promoted(3) split(2) have
      "find (\<lambda>r. rn_pipelineId r = ?pid \<and> rn_isActive r) (db_runs db') = Some (w\<lparr>rn_isActive := True\<rparr>)"
      by (simp add: find_append waitingRun_def)
    moreover have "domainRun (w\<lparr>rn_isActive := True\<rparr>) = freshActiveRun (rn_id w)"
      using plain w' by (auto simp: domainRun_def freshActiveRun_def waitingRun_def)
    ultimately have "executionOf st (db_runs db') ?pid = ?s\<lparr>es_activeRun := Some (freshActiveRun (rn_id w)),
        es_queuedRunIds := map rn_id (sort_key queueOrder (filter (waitingRun ?pid) (db_runs db')))\<rparr>"
      by (simp add: executionOf_def)
    moreover have "rn_id w \<noteq> []" using plain w' by auto
    moreover have "es_queuedRunIds ?s = rn_id w # map rn_id (sort_key queueOrder (filter (waitingRun ?pid) (db_runs db')))"
      by (simp add: executionOf_def waiting)
    ultimately show ?thesis using act ended by (simp add: completeActiveRun_def requireActiveRun_def)
  qed
qed

end
