(* ===== verification/Scheduler_Correctness.thy ===== *)
theory Scheduler_Correctness
  imports Queue_Refinement Schedule_Claims Pipeline_Actions
begin

text \<open>
  The scheduler as a machine: manual and scheduled runs are created, ended runs are released and
  the backlog is promoted, in any order and interleaved with what workers report. The queue
  invariant holds throughout, the persisted queue refines the execution state machine, due
  schedules advance by one occurrence, and creation and promotion succeed when they can.
\<close>

section \<open>Eligibility\<close>

text \<open>\<open>apps/scheduler/src/pipeline-eligibility.ts\<close>, \<open>pipeline-state-reader.ts\<close> and
  \<open>runtime.ts\<close>.\<close>

datatype PipelineSchedulingEligibility = Eligible | Ineligible | Invalid | Missing

definition findState :: "database \<Rightarrow> string \<Rightarrow> PipelineState option" where
  "findState db pipelineId = map_option pl_state (find (\<lambda>p. pl_id p = pipelineId) (db_pipelines db))"

text \<open>The state column is an enumeration, so a persisted state always parses.\<close>

definition getPipelineSchedulingEligibility :: "PipelineState \<Rightarrow> PipelineSchedulingEligibility" where
  "getPipelineSchedulingEligibility state =
     (if es_pipelineState (createPipelineExecutionState state) = Enabled then Eligible else Ineligible)"

definition getPipelineSchedulingStatus :: "database \<Rightarrow> string \<Rightarrow> PipelineSchedulingEligibility" where
  "getPipelineSchedulingStatus db pipelineId =
     (case findState db pipelineId of
        None \<Rightarrow> Missing | Some state \<Rightarrow> getPipelineSchedulingEligibility state)"

section \<open>The machine\<close>

text \<open>
  Workers are Python programs outside this development. They report a state for an active run, and
  may cancel one that waits; they never touch the flag that marks the active run.
\<close>

definition reportState :: "RunState \<Rightarrow> time option \<Rightarrow> run_row \<Rightarrow> run_row" where
  "reportState state completedAt r = r\<lparr>rn_state := state, rn_completedAt := completedAt\<rparr>"

definition workerReport :: "string \<Rightarrow> RunState \<Rightarrow> time option \<Rightarrow> database \<Rightarrow> (run_error, database) result" where
  "workerReport runId state completedAt db =
     bind_res (throw_if (\<not> list_all (\<lambda>r. rn_id r = runId \<longrightarrow> rn_isActive r \<or> terminalState state) (db_runs db))
       (RunError ''The run waits.'')) (\<lambda>_.
     map_err RunDatabaseError (updateRuns (\<lambda>r. rn_id r = runId) (reportState state completedAt) db))"

datatype scheduler_op =
    CreateRun PipelineRunRequest time time
  | PromoteRuns time time rat
  | ClaimSchedules time time rat
  | WorkerReports string RunState "time option"

fun scheduler_step ::
  "cron_parser \<Rightarrow> zod_formats \<Rightarrow> (nat \<Rightarrow> string) \<Rightarrow> database \<Rightarrow> scheduler_op \<Rightarrow> (run_error, database) result" where
  "scheduler_step cronNext zf gen db (CreateRun q dbNow now) =
     bind_res (createPipelineRun zf gen dbNow q now db) (\<lambda>(db, c). Return db)"
| "scheduler_step cronNext zf gen db (PromoteRuns dbNow now limit) =
     bind_res (promoteQueuedPipelineRuns gen dbNow now limit db) (\<lambda>(db, ps). Return db)"
| "scheduler_step cronNext zf gen db (ClaimSchedules dbNow now limit) =
     bind_res (claimDueSchedules cronNext zf gen dbNow now limit db) (\<lambda>(db, cs). Return db)"
| "scheduler_step cronNext zf gen db (WorkerReports runId state completedAt) =
     workerReport runId state completedAt db"

definition scheduler_inv :: "database \<Rightarrow> bool" where
  "scheduler_inv db \<longleftrightarrow> db_wf db \<and> queue_ok (db_runs db)"

lemma reportState_simps [simp]:
  "rn_id (reportState st t r) = rn_id r" "rn_pipelineId (reportState st t r) = rn_pipelineId r"
  "rn_isActive (reportState st t r) = rn_isActive r" "rn_state (reportState st t r) = st"
  "rn_completedAt (reportState st t r) = t"
  "rn_triggerId (reportState st t r) = rn_triggerId r"
  "rn_cancellationRequestedByUserId (reportState st t r) = rn_cancellationRequestedByUserId r"
  by (simp_all add: reportState_def)

lemma reported_active:
  "map rn_pipelineId (filter rn_isActive (update_where P (reportState st t) rs)) =
   map rn_pipelineId (filter rn_isActive rs)"
  by (induction rs) (simp_all add: update_where_def)

lemma reported_idle:
  assumes "\<forall>r\<in>set rs. P r \<longrightarrow> rn_isActive r \<or> terminalState st"
  shows "idle_not_running rs \<Longrightarrow> idle_not_running (update_where P (reportState st t) rs)"
  using assms by (induction rs) (auto simp: update_where_def idle_not_running_def terminalState_def)

lemma reported_waiting:
  assumes "\<forall>r\<in>set rs. P r \<longrightarrow> rn_isActive r \<or> terminalState st"
  shows "filter (waitingRun pid) rs = [] \<Longrightarrow> filter (waitingRun pid) (update_where P (reportState st t) rs) = []"
  using assms unfolding filter_empty_conv update_where_def
  by (auto simp: waitingRun_def terminalState_def)

lemma workerReport_inv:
  assumes "scheduler_inv db" and "workerReport i st t db = Return db'"
  shows "scheduler_inv db'"
proof -
  let ?rs = "update_where (\<lambda>r. rn_id r = i) (reportState st t) (db_runs db)"
  from assms(2) have guard: "\<forall>r\<in>set (db_runs db). rn_id r = i \<longrightarrow> rn_isActive r \<or> terminalState st"
    and u: "updateRuns (\<lambda>r. rn_id r = i) (reportState st t) db = Return db'"
    by (auto simp: workerReport_def bind_res_Return_iff throw_if_iff list_all_iff)
  have "db_wf db'" using assms(1) by (intro updateRuns_wf [OF _ u]) (simp_all add: scheduler_inv_def)
  moreover have "queue_ok ?rs"
  proof -
    have "activeFor ?rs pid = activeFor (db_runs db) pid" for pid
      unfolding activeFor_def using reported_active by (metis list.set_map)
    moreover have "held (db_runs db) pid" for pid using assms(1) by (simp add: scheduler_inv_def queue_ok_def)
    ultimately have "held ?rs pid" for pid unfolding held_def using reported_waiting [OF guard] by metis
    moreover have "one_active ?rs" "idle_not_running ?rs"
      using assms(1) reported_idle [OF guard]
      by (simp_all add: scheduler_inv_def queue_ok_def one_active_def reported_active)
    ultimately show ?thesis by (simp add: queue_ok_def)
  qed
  ultimately show ?thesis using u by (simp add: scheduler_inv_def updateRuns_tables)
qed

lemma scheduler_step_inv:
  assumes "scheduler_inv db" and "scheduler_step cronNext zf gen db ev = Return db'"
  shows "scheduler_inv db'"
proof (cases ev)
  case (CreateRun q dbNow now)
  with assms(2) obtain c where
    "createPipelineRunInTransaction zf gen dbNow q now db = Return (db', c)"
    by (auto simp: bind_res_pair_Return_iff createPipelineRun_def bind_res_Return_iff)
  with assms(1) show ?thesis
    using createPipelineRunInTransaction_wf createPipelineRun_queue_ok unfolding scheduler_inv_def by blast
next
  case (PromoteRuns dbNow now limit)
  with assms(2) obtain ps where "promoteQueuedPipelineRuns gen dbNow now limit db = Return (db', ps)"
    by (auto simp: bind_res_pair_Return_iff)
  from promoteQueuedPipelineRuns_effect [OF this] assms(1) show ?thesis by (simp add: scheduler_inv_def)
next
  case (ClaimSchedules dbNow now limit)
  with assms(2) obtain cs where "claimDueSchedules cronNext zf gen dbNow now limit db = Return (db', cs)"
    by (auto simp: bind_res_pair_Return_iff)
  from claimDueSchedules_effect [OF this] assms(1) show ?thesis by (simp add: scheduler_inv_def)
next
  case (WorkerReports i st t)
  with assms show ?thesis using workerReport_inv by simp
qed

interpretation scheduler: invariant_machine "scheduler_step cronNext zf gen" scheduler_inv
  for cronNext zf gen
  by unfold_locales (rule scheduler_step_inv)

end
