(* ===== verification/Scheduler_Properties.thy ===== *)
theory Scheduler_Properties
  imports Scheduler_Correctness
begin

text \<open>
  The properties of the scheduler: its invariant over every interleaving, progress of run creation
  and of the promotion pass, refinement of the execution state machine, and what claiming due
  schedules does and does not do.
\<close>

section \<open>The promotion pass succeeds\<close>

lemma promotePipeline_ok:
  assumes "db_wf db" and "queue_ok (db_runs db)" and "\<not> liveFor (db_runs db) (rn_pipelineId x)"
    and "fresh_ids gen db" and "runnable db (rn_pipelineId x)"
  shows "\<exists>db' acc'. promotePipeline gen dbNow now x (db, acc) = Return (db', acc') \<and> fresh_ids gen db' \<and>
    (\<forall>q. runnable db' q = runnable db q)"
proof -
  let ?pid = "rn_pipelineId x"
  let ?db1 = "db\<lparr>db_runs := release ?pid (db_runs db)\<rparr>"
  have "one_active (release ?pid (db_runs db))" by (rule one_active_release [OF queue_ok_parts(1) [OF assms(2)]])
  then have rel: "releaseEndedRuns ?pid db = Return ?db1" by (simp add: releaseEndedRuns_eq one_active_keys)
  have wf1: "db_wf ?db1" by (rule releaseEndedRuns_wf [OF assms(1) rel])
  have free: "queue_free (db_runs ?db1) ?pid"
    using release_free [OF assms(2), of ?pid] assms(3) by (auto simp: activeFor_release_live)
  have fresh1: "fresh_ids gen ?db1" using assms(4) by (simp add: fresh_ids_runs)
  have run1: "runnable ?db1 ?pid" using assms(5) by (simp add: runnable_def)
  obtain db' r where pr: "promoteOldestQueuedRun gen dbNow ?pid now ?db1 = Return (db', r)" "fresh_ids gen db'"
    using promoteOldestQueuedRun_ok [OF wf1 free fresh1 run1] by blast
  from pr(1) have "db_pipelines db' = db_pipelines db \<and> db_components db' = db_components db"
    by (cases rule: promoteOldestQueuedRun_Return) simp_all
  with pr rel show ?thesis by (simp add: promotePipeline_def Let_def runnable_def)
qed

lemma promote_loop_ok:
  assumes "db_wf db" and "queue_ok (db_runs db)" and "distinct (map rn_pipelineId xs)"
    and "\<forall>x\<in>set xs. \<not> liveFor (db_runs db) (rn_pipelineId x)"
    and "fresh_ids gen db" and "\<forall>x\<in>set xs. runnable db (rn_pipelineId x)"
  shows "\<exists>db' acc'. for_each (promotePipeline gen dbNow now) xs (db, acc) = Return (db', acc')"
  using assms
proof (induction xs arbitrary: db acc)
  case Nil
  then show ?case by simp
next
  case (Cons x xs)
  have dead: "\<not> liveFor (db_runs db) (rn_pipelineId x)" and run: "runnable db (rn_pipelineId x)"
    using Cons.prems(4,6) by simp_all
  from promotePipeline_ok [OF Cons.prems(1,2) dead Cons.prems(5) run] obtain db1 acc1 where
    step: "promotePipeline gen dbNow now x (db, acc) = Return (db1, acc1)" and
    fresh1: "fresh_ids gen db1" and run1: "\<forall>q. runnable db1 q = runnable db q" by blast
  have wf1: "db_wf db1" by (rule promotePipeline_wf [OF Cons.prems(1) step])
  have ok1: "queue_ok (db_runs db1)"
    by (rule promotePipeline_queue_ok [OF Cons.prems(1,2) step]) (simp add: activeFor_release_live dead)
  have other: "\<forall>y\<in>set xs. rn_pipelineId y \<noteq> rn_pipelineId x" using Cons.prems(3) by (metis distinct.simps(2) imageI list.set_map list.simps(9))
  have dead1: "\<forall>y\<in>set xs. \<not> liveFor (db_runs db1) (rn_pipelineId y)"
  proof
    fix y assume y: "y \<in> set xs"
    with other have "runsOf (db_runs db1) (rn_pipelineId y) = runsOf (db_runs db) (rn_pipelineId y)"
      by (intro promotePipeline_effect(1) [OF Cons.prems(1) step Cons.prems(2) dead]) blast
    from liveFor_runsOf [OF this] Cons.prems(4) y show "\<not> liveFor (db_runs db1) (rn_pipelineId y)" by simp
  qed
  have "distinct (map rn_pipelineId xs)" using Cons.prems(3) by simp
  from Cons.IH [OF wf1 ok1 this dead1 fresh1] run1 Cons.prems(6) step show ?case by simp
qed

lemma promotion_returns:
  assumes "db_wf db" and "queue_ok (db_runs db)" and "fresh_ids gen db"
    and "js_isSafeInteger limit" and "1 \<le> limit"
    and "\<forall>r\<in>set (db_runs db). rn_isActive r \<and> terminalState (rn_state r) \<longrightarrow> runnable db (rn_pipelineId r)"
  shows "\<exists>db' ps. promoteQueuedPipelineRuns gen dbNow now limit db = Return (db', ps)"
proof -
  have "\<forall>x\<in>set (completedRuns (nat \<lfloor>limit\<rfloor>) db). runnable db (rn_pipelineId x)"
    using assms(6) by (auto simp: completedRuns_def dest!: in_set_takeD)
  from promote_loop_ok [OF assms(1,2) completedRuns_ended [OF queue_ok_parts(1) [OF assms(2)]] assms(3) this]
  show ?thesis using assms(4,5) by (simp add: promoteQueuedPipelineRuns_def throw_if_def)
qed

section \<open>Triggers the repository writes\<close>

text \<open>No trigger has a next occurrence.\<close>

definition dormant :: "database \<Rightarrow> bool" where
  "dormant db \<longleftrightarrow> (\<forall>t\<in>set (db_triggers db). tg_nextRunAt t = None)"

lemma triggerRows_dormant: "t \<in> set (triggerRows gen pid now ts db) \<Longrightarrow> tg_nextRunAt t = None"
  by (auto simp: triggerRows_def triggerRow_def split: WritablePipelineTrigger.splits)

lemma insert_triggers_of:
  "insertPipelines ps db = Return db' \<Longrightarrow> db_triggers db' = db_triggers db"
  "insertComponents cs db = Return db' \<Longrightarrow> db_triggers db' = db_triggers db"
  "insertEdgeRows es db = Return db' \<Longrightarrow> db_triggers db' = db_triggers db"
  "insertTriggerRows ts db = Return db' \<Longrightarrow> db_triggers db' = db_triggers db @ ts"
  "deleteComponents P db = Return db' \<Longrightarrow> db_triggers db' = db_triggers db"
  by (auto simp: insertPipelines_def insertComponents_def insertEdgeRows_def insertTriggerRows_def
      deleteComponents_def Let_def bind_res_Return_iff insert_unique_Return)

lemma createPipeline_dormant:
  assumes "dormant db" and "createPipeline zf gen now owner r db = Return (db', p)"
  shows "dormant db'"
  using assms(2)
proof (rule createPipeline_Return)
  fix db1 db2 db3
  assume "insertPipelines [\<lparr>pl_id = gen (db_uuids db), pl_ownerUserId = owner,
        pl_contractVersion = cr_contractVersion r, pl_name = cr_name r, pl_state = Draft,
        pl_createdAt = now, pl_updatedAt = now\<rparr>] (advance_uuids 1 db) = Return db1"
    "insertComponents (map (componentRow (gen (db_uuids db))) (cr_steps r)) db1 = Return db2"
    "insertEdgeRows (map (edgeRow (gen (db_uuids db))) (cr_edges r)) db2 = Return db3"
    "insertTriggerRows (triggerRows gen (gen (db_uuids db)) now (cr_triggers r) db3)
        (advance_uuids (length (triggerRows gen (gen (db_uuids db)) now (cr_triggers r) db3)) db3) =
      Return db'"
  then have "db_triggers db' = db_triggers db @ triggerRows gen (gen (db_uuids db)) now (cr_triggers r) db3"
    by (simp add: insert_triggers_of advance_uuids_def)
  with assms(1) show ?thesis by (auto simp: dormant_def dest: triggerRows_dormant)
qed

lemma replaceTriggers_dormant:
  assumes "dormant db" and "replaceTriggers gen now pid r db = Return (db', ts)"
  shows "dormant db'"
proof -
  have "dormant (deleteTriggers (\<lambda>t. tg_pipelineId t = pid) db)"
    using assms(1) by (auto simp: dormant_def deleteTriggers_def delete_where_def)
  with assms(2) show ?thesis
    by (auto simp: replaceTriggers_def Let_def bind_res_Return_iff dormant_def advance_uuids_def
        dest!: insert_triggers_of(4) dest: triggerRows_dormant split: if_splits)
qed

lemma replaceGraphRecords_dormant:
  assumes "dormant db" and "replaceGraphRecords gen now pl r u db = Return (db', g)"
  shows "dormant db'"
  using assms(2)
proof (rule replaceGraphRecords_Return)
  fix db0 db1 cs db2 es ts
  assume "db0 = (if ur_steps u \<noteq> None \<or> ur_edges u \<noteq> None
       then deleteEdges (\<lambda>e. eg_pipelineId e = pl_id pl) db else db)"
    and "(if ur_steps u \<noteq> None then replaceComponents (pl_id pl) r db0
      else Return (db0, filter (\<lambda>c. pc_pipelineId c = pl_id pl) (db_components db0))) = Return (db1, cs)"
    and "(if ur_steps u \<noteq> None \<or> ur_edges u \<noteq> None then insertEdges (pl_id pl) r db1
      else Return (db1, filter (\<lambda>e. eg_pipelineId e = pl_id pl) (db_edges db1))) = Return (db2, es)"
    and last: "(if ur_triggers u \<noteq> None then replaceTriggers gen now (pl_id pl) r db2
      else Return (db2, filter (\<lambda>t. tg_pipelineId t = pl_id pl) (db_triggers db2))) = Return (db', ts)"
  then have "db_triggers db2 = db_triggers db"
    by (auto simp: deleteEdges_def replaceComponents_def insertEdges_def Let_def bind_res_Return_iff
        dest!: insert_triggers_of split: if_splits)
  then have "dormant db2" using assms(1) by (simp add: dormant_def)
  with last show ?thesis by (auto split: if_splits intro: replaceTriggers_dormant)
qed

lemma updatePipeline_dormant:
  assumes "dormant db" and "updatePipeline zf gen dbNow now owner pid u db = Return (db', p)"
  shows "dormant db'"
proof (cases p)
  case None
  with assms show ?thesis using updatePipeline_none by blast
next
  case (Some p')
  with assms(2) have "updatePipeline zf gen dbNow now owner pid u db = Return (db', Some p')" by simp
  then show ?thesis
    by (rule updatePipeline_Return) (rule replaceGraphRecords_dormant, use assms(1) in \<open>simp_all add: dormant_def\<close>)
qed

lemma deletePipeline_dormant:
  assumes "dormant db" and "deletePipeline owner pid db = Return (db', b)"
  shows "dormant db'"
proof -
  have "set (db_triggers db') \<subseteq> set (db_triggers db)"
    using assms(2)
    by (auto simp: deletePipeline_def deletePipelines_def deleteTriggers_def Let_def bind_res_Return_iff
        delete_where_def dest!: insert_triggers_of(5) split: option.splits)
  with assms(1) show ?thesis by (auto simp: dormant_def)
qed

lemma duplicatePipeline_dormant:
  assumes "dormant db" and "duplicatePipeline zf gen ids now owner pid name db = Return (db', p)"
  shows "dormant db'"
proof (cases p)
  case None
  with assms show ?thesis using duplicatePipeline_none by blast
next
  case (Some p')
  with assms(2) have "duplicatePipeline zf gen ids now owner pid name db = Return (db', Some p')" by simp
  then show ?thesis by (rule duplicatePipeline_Return) (rule createPipeline_dormant [OF assms(1)])
qed

lemma repository_step_dormant:
  assumes "dormant db" and "repository_step zf gen db op' = Return db'"
  shows "dormant db'"
  using assms
  by (cases op') (auto simp: bind_res_pair_Return_iff intro: createPipeline_dormant updatePipeline_dormant
      deletePipeline_dormant duplicatePipeline_dormant)

interpretation dormancy: invariant_machine "repository_step zf gen" dormant for zf gen
  by unfold_locales (rule repository_step_dormant)

lemma dormant_not_due: "dormant db \<Longrightarrow> dueSchedules n now db = []"
  by (auto simp: dueSchedules_def dormant_def dueTrigger_def filter_empty_conv)

lemma find_unique_key:
  "distinct (map key xs) \<Longrightarrow> x \<in> set xs \<Longrightarrow> find (\<lambda>y. key y = key x) xs = Some x"
  by (induction xs) auto

section \<open>Sample queue\<close>

definition unaryGen :: "nat \<Rightarrow> string" where
  "unaryGen n = replicate (Suc n) (CHR ''x'')"

definition sampleRun :: "string \<Rightarrow> RunState \<Rightarrow> bool \<Rightarrow> run_row" where
  "sampleRun i st active =
     (newRunRow i active \<lparr>rq_pipelineId = ''g0'', rq_scheduledFor = None, rq_triggerId = None\<rparr> 0 31536000000)
       \<lparr>rn_state := st\<rparr>"

text \<open>The sample pipeline, enabled, with the given runs and the next occurrence of its schedule.\<close>

definition queueDb :: "run_row list \<Rightarrow> time option \<Rightarrow> database" where
  "queueDb rs upcoming = sampleDb
     \<lparr>db_pipelines := [samplePipelineRow\<lparr>pl_state := Enabled\<rparr>],
      db_triggers := map (\<lambda>t. t\<lparr>tg_nextRunAt := upcoming\<rparr>) (db_triggers sampleDb),
      db_runs := rs\<rparr>"

definition sampleBacklog :: "run_row list" where
  "sampleBacklog = [sampleRun ''a'' RunSucceeded True, sampleRun ''b'' RunQueued False]"

definition sampleQuery :: PipelineRunRequest where
  "sampleQuery = \<lparr>rq_pipelineId = ''g0'', rq_scheduledFor = None, rq_triggerId = None\<rparr>"

lemmas sample_queue_defs = queueDb_def sampleRun_def newRunRow_def sampleDb_def emptyDb_def samplePipelineRow_def
  sampleUser_def componentRow_def edgeRow_def sample_defs

lemma queueDb_wf: "db_wf (queueDb [] upcoming)" "db_wf (queueDb sampleBacklog upcoming)"
    "db_wf (queueDb [sampleRun ''a'' RunRunning True] upcoming)"
  by (simp_all add: db_wf_defs sample_queue_defs sampleBacklog_def nullable_def activeRunKeys_def
      edgeKeyOf_def edgeFromRef_def edgeToRef_def componentRef_def triggerFieldsCheck_def)

lemma sampleQueue_ok: "queue_ok []" "queue_ok sampleBacklog" "queue_ok [sampleRun ''a'' RunRunning True]"
  by (auto simp: queue_ok_def one_active_def idle_not_running_def held_def activeFor_def waitingRun_def
      sampleBacklog_def sampleRun_def newRunRow_def)

lemma queueDb_inv: "scheduler_inv (queueDb [] upcoming)" "scheduler_inv (queueDb sampleBacklog upcoming)"
    "scheduler_inv (queueDb [sampleRun ''a'' RunRunning True] upcoming)"
  using queueDb_wf sampleQueue_ok by (simp_all add: scheduler_inv_def queueDb_def)

lemma queueDb_fresh: "fresh_ids unaryGen (queueDb [] upcoming)" "fresh_ids unaryGen (queueDb sampleBacklog upcoming)"
  by (auto simp: fresh_ids_def inj_def unaryGen_def sample_queue_defs sampleBacklog_def)

lemma queueDb_runnable: "runnable (queueDb rs upcoming) ''g0''"
  by (simp add: runnable_def sample_queue_defs)

lemma sampleCreation_ok:
  "returnsWith (\<lambda>(db, c). cp_runId c \<noteq> []) (createPipelineRunInTransaction sampleZf unaryGen 0 sampleQuery 0
     (queueDb [sampleRun ''a'' RunRunning True] None))"
  by code_simp

lemma samplePromotion_ok:
  "returnsWith (\<lambda>_. True) (promotePipeline unaryGen 0 0 (sampleRun ''a'' RunSucceeded True)
     (queueDb sampleBacklog None, []))"
  by code_simp

lemma sampleClaim_ok:
  "returnsWith (\<lambda>(db, cs). length cs = 1) (claimDueSchedules (\<lambda>_ _ t. Return (t + 3600000)) sampleZf unaryGen 0 5 100
     (queueDb [] (Some 0)))"
  by code_simp

section \<open>Properties\<close>





text \<open>
  Property C11: a promotion pass whose limit covers the ended active runs always succeeds, when the
  pipelines concerned still have a Source. Afterwards no active run has ended, and every pipeline
  with waiting runs has a run that is queued or running as its active one.
\<close>

theorem promotion_starts_the_backlog:
  assumes "scheduler_inv db" and "fresh_ids gen db" and "js_isSafeInteger limit" and "1 \<le> limit"
    and "\<forall>r\<in>set (db_runs db). rn_isActive r \<and> terminalState (rn_state r) \<longrightarrow> runnable db (rn_pipelineId r)"
    and "of_nat (length (filter (\<lambda>r. rn_isActive r \<and> terminalState (rn_state r)) (db_runs db))) \<le> limit"
  shows "\<exists>db' ps. promoteQueuedPipelineRuns gen dbNow now limit db = Return (db', ps) \<and> scheduler_inv db' \<and>
    (\<forall>r\<in>set (db_runs db'). rn_isActive r \<longrightarrow> activeState (rn_state r)) \<and>
    (\<forall>r\<in>set (db_runs db'). waitingRun (rn_pipelineId r) r \<longrightarrow> liveFor (db_runs db') (rn_pipelineId r))"
proof -
  let ?ended = "filter (\<lambda>r. rn_isActive r \<and> terminalState (rn_state r)) (db_runs db)"
  let ?done = "completedRuns (nat \<lfloor>limit\<rfloor>) db"
  have wf: "db_wf db" and ok: "queue_ok (db_runs db)" using assms(1) by (simp_all add: scheduler_inv_def)
  obtain db' ps where ret: "promoteQueuedPipelineRuns gen dbNow now limit db = Return (db', ps)"
    using promotion_returns [OF wf ok assms(2-5)] by blast
  note eff = promoteQueuedPipelineRuns_effect [OF ret wf ok]
  have "int (length ?ended) \<le> \<lfloor>limit\<rfloor>" using assms(6) by (simp add: le_floor_iff)
  then have all: "set ?done = set ?ended" by (simp add: completedRuns_def)
  have live: "activeState (rn_state r)" if r: "r \<in> set (db_runs db')" "rn_isActive r" for r
  proof (cases "rn_pipelineId r \<in> rn_pipelineId ` set ?done")
    case True
    with eff r show ?thesis by (auto simp: runsOf_def)
  next
    case False
    with eff have "runsOf (db_runs db') (rn_pipelineId r) = runsOf (db_runs db) (rn_pipelineId r)" by blast
    moreover have "r \<in> set (runsOf (db_runs db') (rn_pipelineId r))" using r by (simp add: runsOf_def)
    ultimately have "r \<in> set (db_runs db)" by (simp add: runsOf_def)
    with r(2) False all have "\<not> terminalState (rn_state r)" by auto
    then show ?thesis by (cases "rn_state r") (simp_all add: terminalState_def activeState_def)
  qed
  have "liveFor (db_runs db') (rn_pipelineId r)" if r: "r \<in> set (db_runs db')" "waitingRun (rn_pipelineId r) r" for r
  proof -
    have "held (db_runs db') (rn_pipelineId r)" using eff queue_ok_parts(3) by blast
    with r have "activeFor (db_runs db') (rn_pipelineId r)" by (auto simp: held_def filter_empty_conv)
    with live show ?thesis by (auto simp: activeFor_iff liveFor_def)
  qed
  with live ret eff show ?thesis by (auto simp: scheduler_inv_def)
qed

theorem promotion_starts_the_backlog_witness:
  "\<exists>db' ps. promoteQueuedPipelineRuns unaryGen 0 0 100 (queueDb sampleBacklog None) = Return (db', ps) \<and>
    (\<forall>r\<in>set (db_runs db'). rn_isActive r \<longrightarrow> activeState (rn_state r))"
proof -
  let ?db = "queueDb sampleBacklog None"
  have "\<forall>r\<in>set (db_runs ?db). rn_isActive r \<and> terminalState (rn_state r) \<longrightarrow> runnable ?db (rn_pipelineId r)"
    using queueDb_runnable [of sampleBacklog None]
    by (simp add: queueDb_def sampleBacklog_def sampleRun_def newRunRow_def)
  moreover have "length (filter (\<lambda>r. rn_isActive r \<and> terminalState (rn_state r)) (db_runs ?db)) = 1"
    by (simp add: queueDb_def sampleBacklog_def sampleRun_def newRunRow_def terminalState_def)
  ultimately show ?thesis
    using promotion_starts_the_backlog [OF queueDb_inv(2) queueDb_fresh(2), of 100 None 0 0]
    by (simp add: js_isSafeInteger_def) blast
qed



text \<open>
  Property C9: promoting after an ended run refines completing it. The ended run leaves the
  execution state, and the first waiting run, if there is one, becomes the active one.
\<close>

theorem promotion_refines_completion:
  assumes "scheduler_inv db" and "x \<in> set (db_runs db)" and "rn_isActive x" and "terminalState (rn_state x)"
    and "promotePipeline gen dbNow now x (db, acc) = Return (db', acc')"
    and "\<forall>r\<in>set (db_runs db). waitingRun (rn_pipelineId x) r \<longrightarrow>
      rn_cancellationRequestedAt r = None \<and> rn_id r \<noteq> []"
  shows "completeActiveRun (executionOf st (db_runs db) (rn_pipelineId x)) (rn_state x) =
    Return (executionOf st (db_runs db') (rn_pipelineId x))"
  using promotePipeline_refines [OF _ _ assms(2-6)] assms(1) by (simp add: scheduler_inv_def)

theorem promotion_refines_completion_witness:
  "\<exists>db' ps. promotePipeline unaryGen 0 0 (sampleRun ''a'' RunSucceeded True) (queueDb sampleBacklog None, []) =
      Return (db', ps) \<and>
    completeActiveRun (executionOf Enabled sampleBacklog ''g0'') RunSucceeded =
      Return (executionOf Enabled (db_runs db') ''g0'')"
proof -
  from returnsWithE [OF samplePromotion_ok] obtain db' ps where
    ret: "promotePipeline unaryGen 0 0 (sampleRun ''a'' RunSucceeded True) (queueDb sampleBacklog None, []) =
      Return (db', ps)" by auto
  have "completeActiveRun (executionOf Enabled (db_runs (queueDb sampleBacklog None))
        (rn_pipelineId (sampleRun ''a'' RunSucceeded True))) (rn_state (sampleRun ''a'' RunSucceeded True)) =
      Return (executionOf Enabled (db_runs db') (rn_pipelineId (sampleRun ''a'' RunSucceeded True)))"
    by (rule promotion_refines_completion [OF queueDb_inv(2) _ _ _ ret])
      (simp_all add: queueDb_def sampleBacklog_def sampleRun_def newRunRow_def terminalState_def)
  moreover have "db_runs (queueDb sampleBacklog None) = sampleBacklog"
    "rn_pipelineId (sampleRun ''a'' RunSucceeded True) = ''g0''" "rn_state (sampleRun ''a'' RunSucceeded True) = RunSucceeded"
    by (simp_all add: queueDb_def sampleRun_def newRunRow_def)
  ultimately show ?thesis using ret by auto
qed

text \<open>
  A claim pass that succeeds claims the earliest due schedules up to the limit and no
  others. Each claimed schedule advances to the occurrence after the one that was due, whatever
  the delay, and gets exactly one run for the occurrence that was due; no other trigger changes and
  no earlier run changes its identity.
\<close>

theorem claims_advance_one_occurrence:
  assumes "scheduler_inv db" and "claimDueSchedules cronNext zf gen dbNow now limit db = Return (db', cs)"
  shows "map cl_triggerId cs = map tg_id (dueSchedules (nat \<lfloor>limit\<rfloor>) now db) \<and>
    (\<forall>(t, c)\<in>set (zip (dueSchedules (nat \<lfloor>limit\<rfloor>) now db) cs).
       tg_nextRunAt t = Some (cl_scheduledFor c) \<and> cl_scheduledFor c \<le> now \<and>
       cronNext (cl_cron c) (cl_timezone c) (cl_scheduledFor c) = Return (cl_nextRunAt c)) \<and>
    (\<forall>t\<in>set (db_triggers db). \<forall>c\<in>set cs. cl_triggerId c = tg_id t \<longrightarrow>
       t\<lparr>tg_lastClaimedAt := Some now, tg_nextRunAt := Some (cl_nextRunAt c)\<rparr> \<in> set (db_triggers db')) \<and>
    (\<forall>t\<in>set (db_triggers db). tg_id t \<notin> cl_triggerId ` set cs \<longrightarrow> t \<in> set (db_triggers db')) \<and>
    map runKey (db_runs db') = map runKey (db_runs db) @
      map (\<lambda>c. (cp_runId (cl_run c), cl_pipelineId c, Some (cl_triggerId c), Some (cl_scheduledFor c))) cs"
proof -
  let ?due = "dueSchedules (nat \<lfloor>limit\<rfloor>) now db"
  have wf: "db_wf db" and ok: "queue_ok (db_runs db)" using assms(1) by (simp_all add: scheduler_inv_def)
  note eff = claimDueSchedules_effect [OF assms(2) wf ok]
  then have rel: "list_all2 (claimed cronNext) ?due cs" by blast
  have ids: "map cl_triggerId cs = map tg_id ?due"
    using rel by (induction rule: list_all2_induct) (simp_all add: claimed_def)
  have due: "\<forall>t\<in>set ?due. dueTrigger db now t"
    by (auto simp: dueSchedules_def dest!: in_set_takeD)
  have pairs: "tg_nextRunAt t = Some (cl_scheduledFor c) \<and> cl_scheduledFor c \<le> now \<and>
       cronNext (cl_cron c) (cl_timezone c) (cl_scheduledFor c) = Return (cl_nextRunAt c)"
    if "(t, c) \<in> set (zip ?due cs)" for t c
  proof -
    have "claimed cronNext t c" "t \<in> set ?due"
      using rel that by (auto simp: list_all2_iff dest: set_zip_leftD)
    with due dueTrigger_fields [of db now t] show ?thesis by (auto simp: claimed_def)
  qed
  have dist: "distinct (map cl_triggerId cs)" unfolding ids by (rule dueSchedules_distinct [OF wf])
  have found: "find (\<lambda>x. cl_triggerId x = cl_triggerId c) cs = Some c" if "c \<in> set cs" for c
    by (rule find_unique_key [OF dist that])
  have trig: "db_triggers db' = map (advanceTrigger now cs) (db_triggers db)" using eff by blast
  have hit: "advanceTrigger now cs t = t\<lparr>tg_lastClaimedAt := Some now, tg_nextRunAt := Some (cl_nextRunAt c)\<rparr>"
    if "c \<in> set cs" "cl_triggerId c = tg_id t" for t c
    using found [OF that(1)] that(2) by (simp add: advanceTrigger_def)
  have miss: "advanceTrigger now cs t = t" if "tg_id t \<notin> cl_triggerId ` set cs" for t
  proof -
    have "find (\<lambda>x. cl_triggerId x = tg_id t) cs = None" using that by (simp add: find_None_iff) (metis imageI)
    then show ?thesis by (simp add: advanceTrigger_def)
  qed
  have "map runKey (db_runs db') = map runKey (db_runs db) @
      map (\<lambda>c. (cp_runId (cl_run c), cl_pipelineId c, Some (cl_triggerId c), Some (cl_scheduledFor c))) cs"
    using eff by (simp add: claimKey_def cong: map_cong)
  with ids pairs hit miss show ?thesis by (auto simp: trig) (metis imageI)+
qed

theorem claims_advance_one_occurrence_witness:
  "\<exists>db' cs. claimDueSchedules (\<lambda>_ _ t. Return (t + 3600000)) sampleZf unaryGen 0 5 100 (queueDb [] (Some 0)) =
    Return (db', cs) \<and> length cs = 1 \<and>
    map runKey (db_runs db') = map (\<lambda>c. (cp_runId (cl_run c), cl_pipelineId c, Some (cl_triggerId c), Some (cl_scheduledFor c))) cs"
proof -
  from returnsWithE [OF sampleClaim_ok] obtain db' cs where
    ret: "claimDueSchedules (\<lambda>_ _ t. Return (t + 3600000)) sampleZf unaryGen 0 5 100 (queueDb [] (Some 0)) =
      Return (db', cs)" "length cs = 1" by auto
  from claims_advance_one_occurrence [OF queueDb_inv(1) ret(1)] ret show ?thesis by (simp add: queueDb_def)
qed

text \<open>
  Property C32: the repository never gives a trigger a next occurrence. From a database whose
  triggers have none, after any sequence of creations, updates, deletions and duplications a claim
  pass claims nothing and changes nothing, however long a schedule has been enabled.
\<close>

theorem schedules_never_become_due:
  assumes "\<forall>t\<in>set (db_triggers db). tg_nextRunAt t = None" and "js_isSafeInteger limit" and "1 \<le> limit"
  shows "claimDueSchedules cronNext zf gen dbNow now limit (run_steps (repository_step zf gen) db ops) =
    Return (run_steps (repository_step zf gen) db ops, [])"
proof -
  have "dormant (run_steps (repository_step zf gen) db ops)"
    by (rule dormancy.run_inv) (simp add: dormant_def assms(1))
  with assms(2,3) show ?thesis by (simp add: claimDueSchedules_def throw_if_def dormant_not_due)
qed

theorem schedules_never_become_due_witness:
  "claimDueSchedules (\<lambda>_ _ t. Return (t + 3600000)) sampleZf sampleGen 0 1000000 100
     (run_steps (repository_step sampleZf sampleGen) emptyDb [OpCreate ''u1'' 0 sampleRequest]) =
   Return (run_steps (repository_step sampleZf sampleGen) emptyDb [OpCreate ''u1'' 0 sampleRequest], [])"
  by (rule schedules_never_become_due) (simp_all add: emptyDb_def js_isSafeInteger_def)

text \<open>
  A run of a schedule precedes every manual run that waits for the same pipeline, whichever was
  created first: the queue orders by the scheduled time, and a manual run has none.
\<close>

lemma scheduled_runs_overtake_manual_runs:
  "rn_scheduledFor scheduled = Some t \<Longrightarrow> rn_scheduledFor manual = None \<Longrightarrow>
     queueOrder scheduled < queueOrder manual"
  by (simp add: queueOrder_def nulls_last_def)

end
