(* ===== verification/Web_Correctness.thy ===== *)
theory Web_Correctness
  imports Web_Routes Scheduler_Properties
begin

text \<open>
  What the HTTP boundary guarantees. Every request is reduced to its effect on the database: nothing,
  one operation of the repository (with the release of the uploads a saved pipeline reads), one change
  of state, or one run. On these effects the boundary is a machine that keeps the invariants of the
  database, of the stored graphs and of the run queue, and that isolates owners; a manual run is
  followed through the internal endpoint of the scheduler.
\<close>

section \<open>Runs that the repository keeps\<close>

definition forgetTrigger :: "run_row \<Rightarrow> run_row" where
  "forgetTrigger r = r\<lparr>rn_triggerId := None\<rparr>"

definition sameRuns :: "database \<Rightarrow> database \<Rightarrow> bool" where
  "sameRuns db db' \<longleftrightarrow> map forgetTrigger (db_runs db') = map forgetTrigger (db_runs db)"

lemma forgetTrigger_simps [simp]:
  "rn_id (forgetTrigger r) = rn_id r" "rn_pipelineId (forgetTrigger r) = rn_pipelineId r"
  "rn_isActive (forgetTrigger r) = rn_isActive r" "rn_state (forgetTrigger r) = rn_state r"
  "waitingRun pid (forgetTrigger r) = waitingRun pid r"
  by (simp_all add: forgetTrigger_def waitingRun_def)

lemma sameRuns_refl [simp]: "sameRuns db db"
  by (simp add: sameRuns_def)

lemma sameRuns_runs: "db_runs db' = db_runs db \<Longrightarrow> sameRuns db db'"
  by (simp add: sameRuns_def)

lemma sameRuns_trans [trans]: "sameRuns db db' \<Longrightarrow> sameRuns db' db'' \<Longrightarrow> sameRuns db db''"
  by (simp add: sameRuns_def)

lemma queue_ok_forget: "queue_ok (map forgetTrigger rs) \<longleftrightarrow> queue_ok rs"
  by (simp add: queue_ok_def one_active_def idle_not_running_def held_def activeFor_def filter_map comp_def image_image)

lemma queue_ok_sameRuns: "sameRuns db db' \<Longrightarrow> queue_ok (db_runs db') = queue_ok (db_runs db)"
  by (metis queue_ok_forget sameRuns_def)

lemma find_map_forget:
  "(\<And>r. P (forgetTrigger r) = P r) \<Longrightarrow> find P (map forgetTrigger rs) = map_option forgetTrigger (find P rs)"
  by (induction rs) auto

lemma activeRun_forget:
  "getActiveRunForPipeline db pid =
     map_option (\<lambda>r. \<lparr>rm_id = rn_id r, rm_state = (if rn_state r = RunRunning then PhaseRunning else PhaseQueued)\<rparr>)
       (find (\<lambda>r. rn_pipelineId r = pid \<and> activeState (rn_state r)) (map forgetTrigger (db_runs db)))"
  by (simp add: getActiveRunForPipeline_def find_map_forget option.map_comp comp_def)

lemma activeRun_sameRuns: "sameRuns db db' \<Longrightarrow> getActiveRunForPipeline db' pid = getActiveRunForPipeline db pid"
  by (simp only: activeRun_forget sameRuns_def)

lemma clearRunTriggers_forget: "map forgetTrigger (clearRunTriggers gone rs) = map forgetTrigger rs"
  by (simp add: clearRunTriggers_def update_where_def forgetTrigger_def)

lemma deleteTriggers_runs: "sameRuns db (deleteTriggers P db)"
  by (simp add: sameRuns_def deleteTriggers_def clearRunTriggers_forget)

lemma insertTriggerRows_runs: "insertTriggerRows rows db = Return db' \<Longrightarrow> db_runs db' = db_runs db"
  by (auto simp: insertTriggerRows_def Let_def bind_res_Return_iff insert_unique_Return)

lemma createPipeline_runs:
  assumes "createPipeline zf gen now owner r db = Return (db', p)"
  shows "sameRuns db db'"
  using assms
proof (rule createPipeline_Return)
  fix db1 db2 db3
  assume i: "insertPipelines [\<lparr>pl_id = gen (db_uuids db), pl_ownerUserId = owner,
        pl_contractVersion = cr_contractVersion r, pl_name = cr_name r, pl_state = Draft,
        pl_createdAt = now, pl_updatedAt = now\<rparr>] (advance_uuids 1 db) = Return db1"
    "insertComponents (map (componentRow (gen (db_uuids db))) (cr_steps r)) db1 = Return db2"
    "insertEdgeRows (map (edgeRow (gen (db_uuids db))) (cr_edges r)) db2 = Return db3"
    "insertTriggerRows (triggerRows gen (gen (db_uuids db)) now (cr_triggers r) db3)
        (advance_uuids (length (triggerRows gen (gen (db_uuids db)) now (cr_triggers r) db3)) db3) = Return db'"
  have "db_runs db1 = db_runs db"
    using i(1) by (auto simp: insertPipelines_def bind_res_Return_iff insert_unique_Return advance_uuids_def)
  moreover have "db_runs db2 = db_runs db1"
    using i(2) by (auto simp: insertComponents_def bind_res_Return_iff insert_unique_Return)
  moreover have "db_runs db3 = db_runs db2"
    using i(3) by (auto simp: insertEdgeRows_def bind_res_Return_iff insert_unique_Return)
  moreover have "db_runs db' = db_runs db3"
    using insertTriggerRows_runs [OF i(4)] by (simp add: advance_uuids_def)
  ultimately show ?thesis by (intro sameRuns_runs) simp
qed

lemma replaceTriggers_runs: "replaceTriggers gen now pid r db = Return (db', rows) \<Longrightarrow> sameRuns db db'"
  using deleteTriggers_runs [of db "\<lambda>t. tg_pipelineId t = pid"]
  by (auto simp: replaceTriggers_def Let_def bind_res_Return_iff sameRuns_def advance_uuids_def
      split: if_splits dest!: insertTriggerRows_runs)

lemma replaceGraphRecords_runs:
  assumes "replaceGraphRecords gen now pl r u db = Return (db', g)"
  shows "sameRuns db db'"
  using assms unfolding replaceGraphRecords_def Let_def
  by (auto simp: bind_res_pair_Return_iff deleteEdges_def sameRuns_def split: if_splits
      dest!: replaceComponents_tables(7) insertEdges_tables(7) replaceTriggers_runs)

lemma duplicatePipeline_runs:
  assumes "duplicatePipeline zf gen ids now owner pid name db = Return (db', p)"
  shows "sameRuns db db'"
  using assms duplicatePipeline_none [of zf gen ids now owner pid name db db']
  by (cases p) (auto elim!: duplicatePipeline_Return intro: createPipeline_runs)

lemma updatePipeline_runs:
  assumes "updatePipeline zf gen dbNow now owner pid u db = Return (db', p)"
  shows "sameRuns db db'"
proof (cases p)
  case None
  with assms updatePipeline_none show ?thesis by fastforce
next
  case (Some x)
  with assms have "updatePipeline zf gen dbNow now owner pid u db = Return (db', Some x)" by simp
  then show ?thesis by (rule updatePipeline_Return) (drule replaceGraphRecords_runs, simp add: sameRuns_def)
qed

lemma deletePipeline_runs:
  assumes "deletePipeline owner pid db = Return (db', b)"
  shows "sameRuns db db'"
proof -
  have "sameRuns db x" if "deletePipelines P db = Return x" for P x
  proof -
    from that obtain d Q where "deleteComponents Q db = Return d" and x: "map forgetTrigger (db_runs x) = map forgetTrigger (db_runs d)"
      by (auto simp: deletePipelines_def Let_def bind_res_Return_iff deleteTriggers_def clearRunTriggers_forget)
    then have "db_runs d = db_runs db" by (simp add: deleteComponents_Return)
    with x show ?thesis by (simp add: sameRuns_def)
  qed
  with assms show ?thesis
    by (auto simp: deletePipeline_def Let_def bind_res_Return_iff split: option.splits)
qed

section \<open>What a request changes\<close>

inductive web_effect ::
  "zod_formats \<Rightarrow> (nat \<Rightarrow> string) \<Rightarrow> time \<Rightarrow> string \<Rightarrow> database \<Rightarrow> database \<Rightarrow> bool"
  for zf gen now user db where
  nothing: "web_effect zf gen now user db db"
| repository: "repository_step zf gen db operation = Return db' \<Longrightarrow> op_owner operation = user \<Longrightarrow>
    web_effect zf gen now user db db'"
| repository_claim: "repository_step zf gen db operation = Return db' \<Longrightarrow> op_owner operation = user \<Longrightarrow>
    web_effect zf gen now user db (claimPipelineUploads user pipeline db')"
| state: "setPipelineStateForOwner zf user pid st now cs db = Return (db', r) \<Longrightarrow> web_effect zf gen now user db db'"
| run: "enqueuePipelineRunForOwner zf gen dbNow user pid now db = Return (db', run) \<Longrightarrow> web_effect zf gen now user db db'"

lemmas handler_defs = collectionGET_def collectionPOST_def detailGET_def detailPATCH_def detailDELETE_def
  actionENABLE_def actionDISABLE_def actionDUPLICATE_def actionEXECUTION_STATE_def actionRUN_def stateActionResponse_def

text \<open>A request without a usable session gets status 401 and changes nothing.\<close>

lemma web_handle_unauthenticated:
  "getApiSession (wc_session c) = None \<Longrightarrow> web_handle zf gen dp c db = (db, Return unauthenticatedResponse)"
  by (cases "wc_op c") (simp_all add: web_handle_def Let_def handler_defs)

lemma create_effect:
  "createPipeline zf gen dbNow user r db = Return (db', p) \<Longrightarrow> web_effect zf gen now user db (claimPipelineUploads user q db')"
  by (rule web_effect.repository_claim [where operation = "OpCreate user dbNow r"]) simp_all

lemma update_effect:
  assumes "updatePipeline zf gen dbNow now' user pid u db = Return (db', p)"
  shows "web_effect zf gen now user db (claimPipelineUploads user q db')" "web_effect zf gen now user db db'"
  using assms web_effect.repository_claim [where operation = "OpUpdate user dbNow now' pid u"]
    web_effect.repository [where operation = "OpUpdate user dbNow now' pid u"] by simp_all

lemma delete_effect: "deletePipeline user pid db = Return (db', b) \<Longrightarrow> web_effect zf gen now user db db'"
  by (rule web_effect.repository [where operation = "OpDelete user pid"]) simp_all

lemma duplicate_effect:
  "duplicatePipeline zf gen ids dbNow user pid n db = Return (db', p) \<Longrightarrow> web_effect zf gen now user db db'"
  by (rule web_effect.repository [where operation = "OpDuplicate user dbNow pid n ids"]) simp_all

lemmas effects = web_effect.nothing web_effect.state web_effect.run create_effect update_effect delete_effect duplicate_effect

lemma collectionPOST_effect:
  "getApiSession session = Some user \<Longrightarrow> web_effect zf gen now user db (fst (collectionPOST zf gen dbNow session body db))"
  by (auto simp: collectionPOST_def intro: effects split: option.splits sum.splits repository_error.splits)

lemma detailPATCH_effect:
  "getApiSession session = Some user \<Longrightarrow> web_effect zf gen now user db (fst (detailPATCH zf gen dbNow now' session pid body db))"
  by (auto simp: detailPATCH_def intro: effects split: option.splits sum.splits)

lemma detailDELETE_effect:
  "getApiSession session = Some user \<Longrightarrow> web_effect zf gen now user db (fst (detailDELETE zf session pid db))"
  by (auto simp: detailDELETE_def intro: effects split: option.splits sum.splits)

lemma actionDUPLICATE_effect:
  "getApiSession session = Some user \<Longrightarrow>
     web_effect zf gen now user db (fst (actionDUPLICATE zf gen ids dbNow session pid body db))"
  by (auto simp: actionDUPLICATE_def intro: effects split: option.splits sum.splits)

lemma stateAction_effect:
  "getApiSession session = Some user \<Longrightarrow>
     web_effect zf gen now user db (fst (actionENABLE zf cs now session pid db)) \<and>
     web_effect zf gen now user db (fst (actionDISABLE zf now session pid db))"
  by (auto simp: actionENABLE_def actionDISABLE_def stateActionResponse_def enablePipelineForOwner_def
      disablePipelineForOwner_def intro: web_effect.nothing web_effect.state split: option.splits sum.splits)

lemma internalRoute_effect:
  assumes "ir_body request = Some (JObj [(''ownerUserId'', JStr user), (''pipelineId'', JStr pid)])"
  shows "web_effect zf gen now user db (fst (internalPipelineRunRoute zf gen dbNow token request now db))"
proof -
  have "parseInternalInput zf (ir_body request) = Some (o', p') \<Longrightarrow> o' = user" for o' p'
    using assms by (auto simp: parseInternalInput_def map_get_def map_keys_def split: if_splits)
  then show ?thesis
    by (auto simp: internalPipelineRunRoute_def intro: web_effect.nothing web_effect.run split: option.splits sum.splits)
qed

lemma actionRUN_effect:
  assumes "getApiSession session = Some user"
  shows "web_effect zf gen now user db (fst (actionRUN zf (\<lambda>owner pipelineId. schedulerEnqueueRun zf cfg owner pipelineId
    (schedulerService zf gen dbNow token now)) session pid db))"
proof -
  have "fst (schedulerEnqueueRun zf cfg user p (schedulerService zf gen dbNow token now) db) =
      fst (internalPipelineRunRoute zf gen dbNow token \<lparr>ir_method = ''POST'',
        ir_authorization = Some (''Bearer '' @ sc_internalToken cfg),
        ir_body = Some (JObj [(''ownerUserId'', JStr user), (''pipelineId'', JStr p)])\<rparr> now db)" for p
    by (auto simp: schedulerEnqueueRun_def schedulerService_def split: prod.splits sum.splits)
  then have e: "web_effect zf gen now user db (fst (schedulerEnqueueRun zf cfg user p
      (schedulerService zf gen dbNow token now) db))" for p
    by (simp add: internalRoute_effect)
  show ?thesis
    using assms e by (auto simp: actionRUN_def intro: web_effect.nothing split: option.splits prod.splits sum.splits)
      (metis fst_conv)+
qed

lemma web_handle_effect:
  "getApiSession (wc_session c) = Some user \<Longrightarrow> web_effect zf gen (wc_now c) user db (fst (web_handle zf gen dp c db))"
  by (cases "wc_op c")
    (simp_all add: web_handle_def collectionPOST_effect detailPATCH_effect detailDELETE_effect actionDUPLICATE_effect
      stateAction_effect actionRUN_effect,
     simp_all add: handler_defs web_effect.nothing split: option.splits)

section \<open>What the requests of others leave alone\<close>

definition ownedRows :: "database \<Rightarrow> string \<Rightarrow> pipeline_row list" where
  "ownedRows db owner = filter (\<lambda>p. pl_ownerUserId p = owner) (db_pipelines db)"

lemma filter_update_where_unselected:
  "(\<And>x. x \<in> set xs \<Longrightarrow> Q x \<Longrightarrow> \<not> P x \<and> \<not> P (f x)) \<Longrightarrow> filter P (update_where Q f xs) = filter P xs"
  by (induction xs) (auto simp: update_where_def)

lemma filter_delete_where_other:
  "(\<And>x. x \<in> set xs \<Longrightarrow> Q x \<Longrightarrow> \<not> P x) \<Longrightarrow> filter P (delete_where Q xs) = filter P xs"
  by (induction xs) (auto simp: delete_where_def)

lemma owned_by_other:
  assumes "db_wf db" and "find (andOwnerAndPipelineId user pid) (db_pipelines db) = Some row" and "user \<noteq> owner"
    and "p \<in> set (db_pipelines db)" and "pl_id p = pid"
  shows "pl_ownerUserId p \<noteq> owner"
  using find_owner_mem [OF assms(2)] unique_pipeline_row [OF assms(1,4), of row] assms(3,5) by auto

lemma create_ownedRows:
  assumes "db_wf db" and "createPipeline zf gen now user r db = Return (db', p)" and "user \<noteq> owner"
  shows "ownedRows db' owner = ownedRows db owner"
  using createPipeline_tables(2) [OF assms(1,2)] assms(3) by (auto simp: ownedRows_def)

lemma updatePipeline_rows:
  assumes "updatePipeline zf gen dbNow now owner pid u db = Return (db', Some x)"
  shows "\<exists>row f. find (andOwnerAndPipelineId owner pid) (db_pipelines db) = Some row \<and>
    db_pipelines db' = update_where (\<lambda>p. pl_id p = pid) f (db_pipelines db) \<and>
    (\<forall>p. pl_ownerUserId (f p) = pl_ownerUserId p)"
  using assms
proof (rule updatePipeline_Return)
  fix row :: pipeline_row and existing g
  let ?f = "\<lambda>p. p\<lparr>pl_name := cr_name (mergeUpdate existing u),
      pl_state := (case ur_state u of None \<Rightarrow> pl_state row | Some s \<Rightarrow> s), pl_updatedAt := now\<rparr>"
  assume "find (andOwnerAndPipelineId owner pid) (db_pipelines db) = Some row"
    and "replaceGraphRecords gen dbNow (?f row) (mergeUpdate existing u) u
      (db\<lparr>db_pipelines := update_where (\<lambda>p. pl_id p = pid) ?f (db_pipelines db)\<rparr>) = Return (db', g)"
  then show ?thesis
    by (intro exI [of _ row] exI [of _ ?f]) (simp add: replaceGraphRecords_tables(3))
qed

lemma update_ownedRows:
  assumes "db_wf db" and "updatePipeline zf gen dbNow now user pid u db = Return (db', p)" and "user \<noteq> owner"
  shows "ownedRows db' owner = ownedRows db owner"
proof (cases p)
  case None
  with assms(2) updatePipeline_none show ?thesis by blast
next
  case (Some x)
  from updatePipeline_rows [OF assms(2) [unfolded Some]] obtain row f where
    row: "find (andOwnerAndPipelineId user pid) (db_pipelines db) = Some row"
    and rows: "db_pipelines db' = update_where (\<lambda>p. pl_id p = pid) f (db_pipelines db)"
    and f: "\<forall>p. pl_ownerUserId (f p) = pl_ownerUserId p" by blast
  show ?thesis
    unfolding ownedRows_def rows
    by (rule filter_update_where_unselected) (use owned_by_other [OF assms(1) row assms(3)] f in auto)
qed

lemma delete_ownedRows:
  assumes "db_wf db" and "deletePipeline user pid db = Return (db', b)" and "user \<noteq> owner"
  shows "ownedRows db' owner = ownedRows db owner"
  unfolding ownedRows_def deletePipeline_tables(4) [OF assms(1,2)]
  by (rule filter_delete_where_other) (use assms(3) in \<open>auto simp: andOwnerAndPipelineId_def\<close>)

lemma duplicate_ownedRows:
  assumes "db_wf db" and "duplicatePipeline zf gen ids now user pid name db = Return (db', p)" and "user \<noteq> owner"
  shows "ownedRows db' owner = ownedRows db owner"
  using assms duplicatePipeline_none [of zf gen ids now user pid name db db']
  by (cases p) (auto elim!: duplicatePipeline_Return intro: create_ownedRows)

lemma repository_ownedRows:
  assumes "db_wf db" and "repository_step zf gen db operation = Return db'" and "op_owner operation \<noteq> owner"
  shows "ownedRows db' owner = ownedRows db owner"
  using assms(2,3)
  by (cases operation) (auto simp: bind_res_pair_Return_iff intro: create_ownedRows [OF assms(1)]
      update_ownedRows [OF assms(1)] delete_ownedRows [OF assms(1)] duplicate_ownedRows [OF assms(1)])

lemma repository_runs: "repository_step zf gen db operation = Return db' \<Longrightarrow> sameRuns db db'"
  by (cases operation) (auto simp: bind_res_pair_Return_iff dest: createPipeline_runs updatePipeline_runs deletePipeline_runs
      duplicatePipeline_runs)

text \<open>Everything the API shows an owner: the rows of the pipelines, their graphs, and the runs that lock them.\<close>

definition ownerView :: "zod_formats \<Rightarrow> database \<Rightarrow> string \<Rightarrow>
    pipeline_row list \<times> (string \<Rightarrow> (repository_error, Pipeline option) result \<times> ActiveRunSummary option)" where
  "ownerView zf db owner =
     (ownedRows db owner,
      \<lambda>pid. (getPipeline zf db owner pid,
        if pid \<in> pl_id ` set (ownedRows db owner) then getActiveRunForPipeline db pid else None))"

definition web_inv :: "zod_formats \<Rightarrow> database \<Rightarrow> bool" where
  "web_inv zf db \<longleftrightarrow> repository_inv zf db \<and> queue_ok (db_runs db)"

lemma ownerViewI:
  "ownedRows db' owner = ownedRows db owner \<Longrightarrow> (\<And>pid. getPipeline zf db' owner pid = getPipeline zf db owner pid) \<Longrightarrow>
     (\<And>pid. pid \<in> pl_id ` set (ownedRows db owner) \<Longrightarrow> getActiveRunForPipeline db' pid = getActiveRunForPipeline db pid) \<Longrightarrow>
     ownerView zf db' owner = ownerView zf db owner"
  by (auto simp: ownerView_def)

lemma repository_view:
  assumes "repository_inv zf db" and "repository_step zf gen db operation = Return db'" and "op_owner operation \<noteq> owner"
  shows "ownerView zf db' owner = ownerView zf db owner"
proof (rule ownerViewI)
  show "ownedRows db' owner = ownedRows db owner"
    using repository_ownedRows [OF _ assms(2,3)] assms(1) by (simp add: repository_inv_def)
  show "getPipeline zf db' owner pid = getPipeline zf db owner pid" for pid
    using repository_step_isolated [OF assms] by (simp add: readable_def fun_eq_iff)
  show "getActiveRunForPipeline db' pid = getActiveRunForPipeline db pid" for pid
    by (rule activeRun_sameRuns [OF repository_runs [OF assms(2)]])
qed

text \<open>Two databases with the same pipeline tables read the same.\<close>

lemma getPipeline_tables:
  assumes "db_pipelines db' = db_pipelines db" and "db_components db' = db_components db"
    and "db_edges db' = db_edges db" and "db_triggers db' = db_triggers db"
  shows "getPipeline zf db' owner pid = getPipeline zf db owner pid"
proof -
  have g: "readPipelineGraph db' row = readPipelineGraph db row" for row by (simp add: readPipelineGraph_def assms)
  show ?thesis by (simp only: getPipeline_def assms g)
qed

lemma claim_tables:
  "db_pipelines (claimPipelineUploads user p db) = db_pipelines db"
  "db_components (claimPipelineUploads user p db) = db_components db"
  "db_edges (claimPipelineUploads user p db) = db_edges db"
  "db_triggers (claimPipelineUploads user p db) = db_triggers db"
  "db_runs (claimPipelineUploads user p db) = db_runs db"
  by (subst claimPipelineUploads_rows(2), simp)+

lemma claim_view: "ownerView zf (claimPipelineUploads user pipeline db) owner = ownerView zf db owner"
  by (rule ownerViewI, simp add: ownedRows_def claim_tables, rule getPipeline_tables)
    (simp_all add: claim_tables getActiveRunForPipeline_def)

lemma claim_inv: "web_inv zf db \<Longrightarrow> web_inv zf (claimPipelineUploads user pipeline db)"
  by (auto simp: web_inv_def repository_inv_def claimPipelineUploads_wf graphs_ok_def claim_tables storedSteps_def
      storedEdges_def componentsOf_def edgesOf_def)

lemma state_inv:
  assumes "web_inv zf db" and "setPipelineStateForOwner zf user pid st now cs db = Return (db', r)"
  shows "web_inv zf db'"
proof -
  from assms(2) have db': "db' = db\<lparr>db_pipelines := update_where (\<lambda>p. pl_id p = pid \<and> pl_ownerUserId p = user)
        (\<lambda>p. p\<lparr>pl_state := st, pl_updatedAt := now\<rparr>) (db_pipelines db)\<rparr>"
    by (rule setPipelineStateForOwner_Return)
  have "graphs_ok db'" if "graphs_ok db"
    using that unfolding graphs_ok_def by (auto simp: db' update_where_def storedSteps_def storedEdges_def)
  with assms stateUpdate_wf show ?thesis by (auto simp: web_inv_def repository_inv_def db')
qed

lemma state_view:
  assumes "db_wf db" and "setPipelineStateForOwner zf user pid st now cs db = Return (db', r)" and "user \<noteq> owner"
  shows "ownerView zf db' owner = ownerView zf db owner"
proof -
  let ?set = "\<lambda>p. p\<lparr>pl_state := st, pl_updatedAt := now\<rparr>"
  from assms(2) have db': "db' = db\<lparr>db_pipelines := update_where (\<lambda>p. pl_id p = pid \<and> pl_ownerUserId p = user)
      ?set (db_pipelines db)\<rparr>" by (rule setPipelineStateForOwner_Return)
  have found: "find (andOwnerAndPipelineId owner q) (db_pipelines db') = find (andOwnerAndPipelineId owner q) (db_pipelines db)" for q
    using assms(3) find_owner_mem [of owner q "db_pipelines db"] unfolding db'
    by (cases "find (andOwnerAndPipelineId owner q) (db_pipelines db)")
      (auto simp: find_update_where andOwnerAndPipelineId_def)
  have graph: "readPipelineGraph db' row = readPipelineGraph db row" for row by (simp add: readPipelineGraph_def db')
  show ?thesis
  proof (rule ownerViewI)
    show "ownedRows db' owner = ownedRows db owner"
      using assms(3) unfolding ownedRows_def db' by simp (rule filter_update_where_unselected, auto)
    show "getPipeline zf db' owner q = getPipeline zf db owner q" for q by (simp only: getPipeline_def found graph)
    show "getActiveRunForPipeline db' q = getActiveRunForPipeline db q" for q by (simp add: getActiveRunForPipeline_def db')
  qed
qed

lemma enqueue_Return:
  assumes "enqueuePipelineRunForOwner zf gen dbNow user pid now db = Return (db', run)"
  shows "\<exists>p\<in>set (db_pipelines db). pl_id p = pid \<and> pl_ownerUserId p = user"
    and "createPipelineRunInTransaction zf gen dbNow \<lparr>rq_pipelineId = pid, rq_scheduledFor = None, rq_triggerId = None\<rparr> now db =
      Return (db', run)"
proof -
  from assms obtain p where f: "find (\<lambda>p. pl_id p = pid \<and> pl_ownerUserId p = user) (db_pipelines db) = Some p"
    by (auto simp: enqueuePipelineRunForOwner_def runPipelineForOwner_def findOwnedPipeline_def bind_res_Return_iff
        split: option.splits)
  then show "\<exists>p\<in>set (db_pipelines db). pl_id p = pid \<and> pl_ownerUserId p = user" by (auto simp: find_Some_iff)
  show "createPipelineRunInTransaction zf gen dbNow \<lparr>rq_pipelineId = pid, rq_scheduledFor = None, rq_triggerId = None\<rparr> now db =
      Return (db', run)"
    using assms f
    by (auto simp: enqueuePipelineRunForOwner_def runPipelineForOwner_def findOwnedPipeline_def bind_res_Return_iff
        catch_res_def createPipelineRun_def split: sum.splits if_splits action_error.splits)
qed

lemma activeRun_runsOf:
  "getActiveRunForPipeline db pid =
     map_option (\<lambda>r. \<lparr>rm_id = rn_id r, rm_state = (if rn_state r = RunRunning then PhaseRunning else PhaseQueued)\<rparr>)
       (find (\<lambda>r. activeState (rn_state r)) (runsOf (db_runs db) pid))"
proof -
  have "find (\<lambda>r. rn_pipelineId r = pid \<and> activeState (rn_state r)) rs = find (\<lambda>r. activeState (rn_state r)) (runsOf rs pid)" for rs
    by (induction rs) (auto simp: runsOf_def)
  then show ?thesis by (simp add: getActiveRunForPipeline_def)
qed

lemma createPipelineRun_other_runs:
  assumes "db_wf db" and "queue_ok (db_runs db)"
    and "createPipelineRunInTransaction zf gen dbNow q now db = Return (db', c)" and "pid \<noteq> rq_pipelineId q"
  shows "runsOf (db_runs db') pid = runsOf (db_runs db) pid"
  using assms(1-3)
proof (rule createPipelineRun_queue)
  fix rs e
  let ?r = "newRunRow (cp_runId c) (\<not> cp_queuedBehindActiveRun c) q now e"
  let ?released = "release (rq_pipelineId q) (db_runs db)"
  assume rs: "db_runs db' = rs @ [?r]" and cases: "rs = ?released \<or>
     (\<exists>w. first_by queueOrder (filter (waitingRun (rq_pipelineId q)) (db_runs db)) = Some w \<and>
        \<not> activeFor ?released (rq_pipelineId q) \<and> rs = activate (rn_id w) ?released)"
  have new: "runsOf (xs @ [?r]) pid = runsOf xs pid" for xs
    using assms(4) by (simp add: runsOf_def newRunRow_def)
  have "runsOf (activate (rn_id w) ?released) pid = runsOf ?released pid"
    if "first_by queueOrder (filter (waitingRun (rq_pipelineId q)) (db_runs db)) = Some w" for w
  proof -
    from first_by_mem [OF that] have w: "w \<in> set (filter (waitingRun (rq_pipelineId q)) ?released)"
      by (simp add: waiting_release)
    have "distinct (map rn_id ?released)"
      using db_wf_run_ids [OF assms(1)] by (simp add: release_def update_where_def comp_def if_distrib cong: if_cong)
    from runsOf_activate [OF this] w assms(4) show ?thesis by (simp add: waitingRun_def)
  qed
  with cases show ?thesis
    unfolding rs new by (auto simp: runsOf_release [OF assms(4)])
qed

lemma web_run_inv:
  assumes "web_inv zf db" and "enqueuePipelineRunForOwner zf gen dbNow user pid now db = Return (db', run)"
  shows "web_inv zf db'"
proof -
  have wf: "db_wf db" and ok: "queue_ok (db_runs db)" using assms(1) by (simp_all add: web_inv_def repository_inv_def)
  note ret = enqueue_Return(2) [OF assms(2)]
  have "graphs_ok db'" if "graphs_ok db"
    using that by (simp add: graphs_ok_def storedSteps_def storedEdges_def componentsOf_def edgesOf_def
        createPipelineRun_tables [OF ret])
  with createPipelineRunInTransaction_wf [OF wf ret] createPipelineRun_queue_ok [OF wf ok ret] assms(1)
  show ?thesis by (simp add: web_inv_def repository_inv_def)
qed

lemma run_view:
  assumes "web_inv zf db" and "enqueuePipelineRunForOwner zf gen dbNow user pid now db = Return (db', run)" and "user \<noteq> owner"
  shows "ownerView zf db' owner = ownerView zf db owner"
proof (rule ownerViewI)
  have wf: "db_wf db" and ok: "queue_ok (db_runs db)" using assms(1) by (simp_all add: web_inv_def repository_inv_def)
  note ret = enqueue_Return(2) [OF assms(2)]
  show "ownedRows db' owner = ownedRows db owner" by (simp add: ownedRows_def createPipelineRun_tables [OF ret])
  show "getPipeline zf db' owner q = getPipeline zf db owner q" for q
    by (rule getPipeline_tables) (rule createPipelineRun_tables [OF ret])+
  show "getActiveRunForPipeline db' q = getActiveRunForPipeline db q" if "q \<in> pl_id ` set (ownedRows db owner)" for q
  proof -
    from enqueue_Return(1) [OF assms(2)] obtain p where p: "p \<in> set (db_pipelines db)" "pl_id p = pid" "pl_ownerUserId p = user"
      by blast
    from that obtain x where "x \<in> set (db_pipelines db)" "pl_id x = q" "pl_ownerUserId x = owner" by (auto simp: ownedRows_def)
    with p unique_pipeline_row [OF wf, of x p] assms(3) have "q \<noteq> pid" by auto
    with createPipelineRun_other_runs [OF wf ok ret, of q] show ?thesis by (simp add: activeRun_runsOf)
  qed
qed

section \<open>The boundary as a machine\<close>

definition web_step :: "zod_formats \<Rightarrow> (nat \<Rightarrow> string) \<Rightarrow> deployment \<Rightarrow> database \<Rightarrow> web_call \<Rightarrow> (unit, database) result" where
  "web_step zf gen dp db c = Return (fst (web_handle zf gen dp c db))"

definition web_actor :: "web_call \<Rightarrow> string option" where
  "web_actor c = getApiSession (wc_session c)"

lemma effect_inv: "web_effect zf gen now user db db' \<Longrightarrow> web_inv zf db \<Longrightarrow> web_inv zf db'"
proof (induction rule: web_effect.induct)
  case (repository operation db')
  then show ?case using repository_step_inv queue_ok_sameRuns [OF repository_runs] by (auto simp: web_inv_def)
next
  case (repository_claim operation db' pipeline)
  then have "web_inv zf db'" using repository_step_inv queue_ok_sameRuns [OF repository_runs] by (auto simp: web_inv_def)
  then show ?case by (rule claim_inv)
qed (auto intro: state_inv web_run_inv)

lemma effect_view:
  "web_effect zf gen now user db db' \<Longrightarrow> web_inv zf db \<Longrightarrow> user \<noteq> owner \<Longrightarrow> ownerView zf db' owner = ownerView zf db owner"
proof (induction rule: web_effect.induct)
  case (state pid st cs db' r)
  then show ?case by (auto intro: state_view simp: web_inv_def repository_inv_def)
qed (auto simp: claim_view web_inv_def intro: repository_view run_view)

lemma web_step_inv: "web_inv zf db \<Longrightarrow> web_step zf gen dp db c = Return db' \<Longrightarrow> web_inv zf db'"
  using effect_inv [OF web_handle_effect] web_handle_unauthenticated
  by (cases "getApiSession (wc_session c)") (auto simp: web_step_def)

interpretation web: isolated_machine "web_step zf gen dp" "web_inv zf" web_actor
  "\<lambda>db actor. map_option (ownerView zf db) actor" for zf gen dp
proof unfold_locales
  fix db c db' other
  assume inv: "web_inv zf db" and step: "web_step zf gen dp db c = Return db'"
  show "web_inv zf db'" by (rule web_step_inv [OF inv step])
  assume "web_actor c \<noteq> other"
  with step effect_view [OF web_handle_effect _, of c] web_handle_unauthenticated [of c] inv
  show "map_option (ownerView zf db') other = map_option (ownerView zf db) other"
    by (cases other; cases "getApiSession (wc_session c)") (auto simp: web_step_def web_actor_def)
qed

text \<open>The three reads of the API depend on nothing but that view.\<close>

lemma reads_of_view:
  assumes "db_wf db" and "db_wf db'" and "ownerView zf db' user = ownerView zf db user" and "getApiSession session = Some user"
  shows "snd (collectionGET zf session db') = snd (collectionGET zf session db)"
    and "snd (detailGET zf session pid db') = snd (detailGET zf session pid db)"
    and "snd (actionEXECUTION_STATE zf session pid db') = snd (actionEXECUTION_STATE zf session pid db)"
proof -
  have rows: "ownedRows db' user = ownedRows db user"
    and get: "getPipeline zf db' user = getPipeline zf db user"
    and active: "q \<in> pl_id ` set (ownedRows db user) \<Longrightarrow> getActiveRunForPipeline db' q = getActiveRunForPipeline db q" for q
    using assms(3) by (auto simp: ownerView_def fun_eq_iff split: if_splits)
  show "snd (collectionGET zf session db') = snd (collectionGET zf session db)"
    using rows by (simp add: collectionGET_def assms(4) listPipelines_by_reads [OF assms(1)] listPipelines_by_reads [OF assms(2)]
        get ownedRows_def)
  show "snd (detailGET zf session pid db') = snd (detailGET zf session pid db)"
    by (simp add: detailGET_def assms(4) get split: option.split)
  have "getActiveRunForPipeline db' (p_id p) = getActiveRunForPipeline db (p_id p)"
    if "getPipeline zf db user q = Return (Some p)" for q p
    using that
  proof (rule getPipeline_Some)
    fix row
    assume "find (andOwnerAndPipelineId user q) (db_pipelines db) = Some row" "pl_id row = q" "p_id p = q"
    then have "p_id p \<in> pl_id ` set (ownedRows db user)"
      using find_owner_mem [of user q "db_pipelines db" row] by (auto simp: ownedRows_def intro!: image_eqI [of _ _ row])
    then show ?thesis by (rule active)
  qed
  then show "snd (actionEXECUTION_STATE zf session pid db') = snd (actionEXECUTION_STATE zf session pid db)"
    by (auto simp: actionEXECUTION_STATE_def assms(4) get bind_res_def map_err_def split: option.splits sum.splits)
qed

section \<open>A manual run from end to end\<close>

lemma runResponse_roundtrip:
  "pipelineRunResponseSchema_ok zf run \<Longrightarrow> Option.bind (re_body (runResponse run)) (pipelineRunResponseSchema zf) = Some run"
proof -
  assume ok: "pipelineRunResponseSchema_ok zf run"
  have "runInteger (JNum (of_nat n)) = Some n" if "n \<le> 9007199254740991" for n
    using that by simp
  with ok show ?thesis
    by (simp add: runResponse_def pipelineRunResponseSchema_def pipelineRunResponseSchema_ok_def shape_defs)
qed

lemma enqueue_conflicts:
  assumes "enqueuePipelineRunForOwner zf gen dbNow user pid now db = Throw (PipelineActionConflictError reason m vs)"
  shows "reason = ActNotFound \<or> reason = ActNotEnabled"
  using assms
  by (auto simp: enqueuePipelineRunForOwner_def runPipelineForOwner_def parseActionInput_def assertActionCanRun_def
      notFoundConflict_def notEnabledConflict_def catch_res_def map_err_def bind_res_def throw_if_def
      split: option.splits sum.splits if_splits action_error.splits)

lemma schedulerService_post:
  assumes "uuid_format zf user" and "uuid_format zf pid"
  shows "schedulerService zf gen dbNow token now \<lparr>ir_method = ''POST'', ir_authorization = Some (''Bearer '' @ sent),
      ir_body = Some (JObj [(''ownerUserId'', JStr user), (''pipelineId'', JStr pid)])\<rparr> db =
    (if sent \<noteq> token then (db, Some \<lparr>re_status = 401, re_body = None\<rparr>)
     else case enqueuePipelineRunForOwner zf gen dbNow user pid now db of
       Inl (PipelineActionConflictError reason m vs) \<Rightarrow>
         (db, Some \<lparr>re_status = (if reason = ActNotFound then 404 else 409), re_body = Some (JObj [(''code'', JStr
            (if reason = ActLocked then ''pipeline_locked'' else if reason = ActNotEnabled then ''pipeline_not_enabled''
             else ''pipeline_not_found''))])\<rparr>)
     | Inl _ \<Rightarrow> (db, None)
     | Inr (db', run) \<Rightarrow> (db', if pipelineRunResponseSchema_ok zf run then Some (runResponse run) else None))"
  using assms
  by (auto simp: schedulerService_def internalPipelineRunRoute_def hasValidInternalToken_iff parseInternalInput_def
      map_get_def map_keys_def actionErrorResponse_def Let_def split: sum.splits action_error.splits)

lemma schedulerEnqueueRun_outcome:
  assumes "uuid_format zf user" and "uuid_format zf pid"
    and "enqueuePipelineRunForOwner zf gen dbNow user pid now db = outcome"
  shows "schedulerEnqueueRun zf cfg user pid (schedulerService zf gen dbNow token now) db =
    (if sc_internalToken cfg \<noteq> token
     then (db, Throw (SchedulerFailure ''The scheduler did not accept the pipeline run request.''))
     else case outcome of
       Inl (PipelineActionConflictError reason m vs) \<Rightarrow> (db, Throw (PipelineSchedulerConflictError
         (if reason = ActNotEnabled then ''pipeline_not_enabled'' else ''pipeline_not_found'')))
     | Inl _ \<Rightarrow> (db, Throw (SchedulerFailure ''fetch failed''))
     | Inr (db', run) \<Rightarrow> (db', if pipelineRunResponseSchema_ok zf run then Return run
         else Throw (SchedulerFailure ''fetch failed'')))"
proof (cases outcome)
  case (Inl e)
  with enqueue_conflicts [of zf gen dbNow user pid now db] assms(3) show ?thesis
    unfolding schedulerEnqueueRun_def schedulerService_post [OF assms(1,2)] assms(3)
    by (cases e) (auto simp: readConflictCode_def)
next
  case (Inr r)
  have ok: "re_status (runResponse x) = 200" for x by (simp add: runResponse_def)
  from Inr show ?thesis
    unfolding schedulerEnqueueRun_def schedulerService_post [OF assms(1,2)] assms(3)
    by (cases r) (simp add: readConflictCode_def ok runResponse_roundtrip)
qed

section \<open>Properties\<close>

text \<open>
  Property C1: whatever requests arrive, from whichever users and in whichever order, accepted or
  refused, the database keeps every declared constraint, every stored graph stays valid and the queue
  of runs stays consistent. Requests without a session, or with the session of an account that still
  has to change its password, are all answered with status 401 and change nothing.
\<close>

theorem web_requests_keep_invariant:
  assumes "web_inv zf db"
  shows "web_inv zf (run_steps (web_step zf gen dp) db calls) \<and>
    ((\<forall>c\<in>set calls. getApiSession (wc_session c) = None) \<longrightarrow>
      run_steps (web_step zf gen dp) db calls = db \<and>
      (\<forall>c\<in>set calls. snd (web_handle zf gen dp c db) = Return \<lparr>re_status = 401, re_body = None\<rparr>))"
proof (intro conjI impI)
  show "web_inv zf (run_steps (web_step zf gen dp) db calls)" using assms by (rule web.run_inv)
  assume none: "\<forall>c\<in>set calls. getApiSession (wc_session c) = None"
  then show "run_steps (web_step zf gen dp) db calls = db"
    by (induction calls) (simp_all add: web_step_def web_handle_unauthenticated)
  from none show "\<forall>c\<in>set calls. snd (web_handle zf gen dp c db) = Return \<lparr>re_status = 401, re_body = None\<rparr>"
    by (simp add: web_handle_unauthenticated unauthenticatedResponse_def)
qed

definition sampleDeployment :: deployment where
  "sampleDeployment = \<lparr>dp_availableComponents = sampleCatalog, dp_scheduler = \<lparr>sc_internalToken = ''token''\<rparr>,
     dp_internalToken = ''token''\<rparr>"

definition sampleCall :: "string \<Rightarrow> web_op \<Rightarrow> web_call" where
  "sampleCall user operation = \<lparr>wc_session = Some \<lparr>se_id = user, se_requiresPasswordChange = False\<rparr>,
     wc_dbNow = 3, wc_now = 4, wc_op = operation\<rparr>"

lemma emptyDb_web_inv: "web_inv zf emptyDb"
proof -
  have "db_runs emptyDb = []" by (simp add: emptyDb_def)
  then show ?thesis by (simp add: web_inv_def emptyDb_inv queue_ok_def one_active_def idle_not_running_def held_def)
qed

theorem web_requests_keep_invariant_witness:
  "web_inv sampleZf (run_steps (web_step sampleZf sampleGen sampleDeployment) emptyDb
     [sampleCall ''u1'' (WebCreate (JsonBody (createRequestJson sampleRequest))), sampleCall ''u1'' (WebRun ''g0'')])"
  using web_requests_keep_invariant [OF emptyDb_web_inv] by blast

text \<open>
  Property C3: owners are isolated at the boundary. Whatever other users (and visitors without a
  session) request, the list of pipelines, every single pipeline and every execution state that the
  API returns to an owner stay what they were.
\<close>

theorem web_owners_are_isolated:
  assumes "web_inv zf db" and "getApiSession session = Some owner"
    and "\<forall>c\<in>set calls. getApiSession (wc_session c) \<noteq> Some owner"
    and "db' = run_steps (web_step zf gen dp) db calls"
  shows "snd (collectionGET zf session db') = snd (collectionGET zf session db) \<and>
    snd (detailGET zf session pid db') = snd (detailGET zf session pid db) \<and>
    snd (actionEXECUTION_STATE zf session pid db') = snd (actionEXECUTION_STATE zf session pid db)"
proof -
  have "map_option (ownerView zf db') (Some owner) = map_option (ownerView zf db) (Some owner)"
    unfolding assms(4) using assms(1,3) by (intro web.run_isolated) (auto simp: web_actor_def)
  moreover have "web_inv zf db'" unfolding assms(4) using assms(1) by (rule web.run_inv)
  ultimately show ?thesis
    using reads_of_view [of db db'] assms(1,2) by (auto simp: web_inv_def repository_inv_def)
qed

theorem web_owners_are_isolated_witness:
  "snd (collectionGET sampleZf (Some \<lparr>se_id = ''u2'', se_requiresPasswordChange = False\<rparr>)
     (run_steps (web_step sampleZf sampleGen sampleDeployment) emptyDb
       [sampleCall ''u1'' (WebCreate (JsonBody (createRequestJson sampleRequest)))])) =
   snd (collectionGET sampleZf (Some \<lparr>se_id = ''u2'', se_requiresPasswordChange = False\<rparr>) emptyDb)"
  using web_owners_are_isolated [OF emptyDb_web_inv, of "Some \<lparr>se_id = ''u2'', se_requiresPasswordChange = False\<rparr>" "''u2''"
      "[sampleCall ''u1'' (WebCreate (JsonBody (createRequestJson sampleRequest)))]" _ sampleZf sampleGen sampleDeployment]
  by (simp add: getApiSession_def sampleCall_def)

text \<open>
  Property C4: a manual run from the browser to the queue. With the token that the scheduler
  expects, the request creates the run that the scheduler creates for the session's user and answers
  with exactly that run; a pipeline that is not the user's own is answered with 404 and one that is
  not enabled with 409, without a change. With any other token no run is created and the request
  fails.
\<close>

theorem run_request_end_to_end:
  assumes "getApiSession (wc_session c) = Some user" and "wc_op c = WebRun pid"
    and "uuid_format zf user" and "uuid_format zf pid"
    and "enqueuePipelineRunForOwner zf gen (wc_dbNow c) user pid (wc_now c) db = outcome"
  shows "(sc_internalToken (dp_scheduler dp) = dp_internalToken dp \<longrightarrow> web_handle zf gen dp c db =
      (case outcome of
         Inr (db', run) \<Rightarrow> (db', if pipelineRunResponseSchema_ok zf run then Return (runResponse run)
           else Throw (SchedulerFailure ''fetch failed''))
       | Inl (PipelineActionConflictError reason m vs) \<Rightarrow>
           (db, Return (if reason = ActNotFound then codeResponse ''pipeline_not_found'' 404
              else codeResponse ''pipeline_not_enabled'' 409))
       | Inl _ \<Rightarrow> (db, Throw (SchedulerFailure ''fetch failed'')))) \<and>
    (sc_internalToken (dp_scheduler dp) \<noteq> dp_internalToken dp \<longrightarrow> web_handle zf gen dp c db =
      (db, Throw (SchedulerFailure ''The scheduler did not accept the pipeline run request.'')))"
proof -
  let ?out = "schedulerEnqueueRun zf (dp_scheduler dp) user pid (schedulerService zf gen (wc_dbNow c) (dp_internalToken dp) (wc_now c)) db"
  have "parseDetailRequest zf pid = Some pid"
    using assms(4) by (simp add: parseDetailRequest_def pipelineDetailRequestSchema_path)
  then have handle: "web_handle zf gen dp c db = (case ?out of (db, Inl error) \<Rightarrow> (db, webActionErrorResponse error)
      | (db, Inr run) \<Rightarrow> (db, if pipelineRunResponseSchema_ok zf run then Return (runResponse run)
          else webActionErrorResponse ResponseContractFailure))"
    using assms(1,2) by (simp add: web_handle_def actionRUN_def)
  note out = schedulerEnqueueRun_outcome [OF assms(3-5), of "dp_scheduler dp" "dp_internalToken dp"]
  show ?thesis
  proof (cases outcome)
    case (Inl e)
    with enqueue_conflicts [of zf gen "wc_dbNow c" user pid "wc_now c" db] assms(5) show ?thesis
      unfolding handle out
      by (cases e) (auto simp: webActionErrorResponse_def schedulerConflictResponse_def notFoundResponse_def)
  next
    case (Inr r)
    then show ?thesis unfolding handle out by (cases r) (simp add: webActionErrorResponse_def)
  qed
qed

lemma sampleEnabled_run:
  "returnsWith (\<lambda>(db, run). cp_initialJobCount run = 0 \<and> uuid_format sampleZf (cp_pipelineId run) \<and>
     uuid_format sampleZf (cp_runId run)) (enqueuePipelineRunForOwner sampleZf unaryGen 3 ''u1'' ''g0'' 4
     (queueDb [sampleRun ''a'' RunRunning True] None))"
  by code_simp

theorem run_request_end_to_end_witness:
  "\<exists>db' run. web_handle sampleZf unaryGen sampleDeployment (sampleCall ''u1'' (WebRun ''g0''))
     (queueDb [sampleRun ''a'' RunRunning True] None) = (db', Return (runResponse run))"
proof -
  let ?db = "queueDb [sampleRun ''a'' RunRunning True] None"
  from returnsWithE [OF sampleEnabled_run] obtain db' run where
    r: "enqueuePipelineRunForOwner sampleZf unaryGen 3 ''u1'' ''g0'' 4 ?db = Return (db', run)"
    and ok: "pipelineRunResponseSchema_ok sampleZf run" by (auto simp: pipelineRunResponseSchema_ok_def)
  have c: "getApiSession (wc_session (sampleCall ''u1'' (WebRun ''g0''))) = Some ''u1''"
    "wc_op (sampleCall ''u1'' (WebRun ''g0'')) = WebRun ''g0''" "wc_dbNow (sampleCall ''u1'' (WebRun ''g0'')) = 3"
    "wc_now (sampleCall ''u1'' (WebRun ''g0'')) = 4" "uuid_format sampleZf ''u1''" "uuid_format sampleZf ''g0''"
    by (simp_all add: sampleCall_def getApiSession_def sampleZf_def)
  have "web_handle sampleZf unaryGen sampleDeployment (sampleCall ''u1'' (WebRun ''g0'')) ?db = (db', Return (runResponse run))"
    using run_request_end_to_end [OF c(1,2,5,6), of unaryGen ?db "Return (db', run)" sampleDeployment] r ok
    by (simp add: c(3,4) sampleDeployment_def)
  then show ?thesis by blast
qed

end
