(* ===== verification/Web_Client.thy ===== *)
theory Web_Client
  imports Web_Correctness
begin

text \<open>
  The browser's client of the pipeline API, \<open>apps/web/src/data/pipelines/api.ts\<close> and
  \<open>actions.ts\<close>, with the choice of message in \<open>components/pipeline/pipeline-mutation-feedback.ts\<close>,
  and its composition with the mounted routes. \<open>fetch\<close> is a parameter of the client; a response
  that cannot be had is \<open>None\<close>. A path is the list of its decoded segments.
\<close>

section \<open>The client\<close>

record api_request =
  aq_method :: string
  aq_path :: "string list"
  aq_body :: request_body

type_synonym api_fetch = "api_request \<Rightarrow> database \<Rightarrow> database \<times> response option"

datatype api_error = PipelineApiError string "nat option"

text \<open>\<open>parseErrorCode\<close> of both modules: they differ in the codes they pass on.\<close>

definition documentedCode :: "string list \<Rightarrow> response \<Rightarrow> string" where
  "documentedCode documented response =
     (if re_status response = 401 then ''unauthenticated''
      else (case re_body response of
          Some (JObj kvs) \<Rightarrow>
            (case map_of kvs ''code'' of
               Some (JStr s) \<Rightarrow> if s \<in> set documented then s else ''unknown_error''
             | _ \<Rightarrow> ''unknown_error'')
        | _ \<Rightarrow> ''unknown_error''))"

definition parseErrorCode :: "response \<Rightarrow> string" where
  "parseErrorCode = documentedCode
     [''invalid_pipeline_request'', ''pipeline_has_run_history'', ''pipeline_locked'', ''pipeline_not_enabled'',
      ''pipeline_not_executable'', ''pipeline_not_found'']"

definition parseActionErrorCode :: "response \<Rightarrow> string" where
  "parseActionErrorCode = documentedCode [''pipeline_locked'', ''pipeline_not_enabled'', ''pipeline_not_found'']"

definition sendRequest ::
  "(response \<Rightarrow> string) \<Rightarrow> api_fetch \<Rightarrow> api_request \<Rightarrow> database \<Rightarrow> database \<times> (api_error, response) result" where
  "sendRequest errorCode requestFetch request db =
     (case requestFetch request db of
        (db, None) \<Rightarrow> (db, Throw (PipelineApiError ''network_error'' None))
      | (db, Some response) \<Rightarrow>
          (db, if 200 \<le> re_status response \<and> re_status response \<le> 299 then Return response
               else Throw (PipelineApiError (errorCode response) (Some (re_status response)))))"

definition requestJson ::
  "(response \<Rightarrow> string) \<Rightarrow> api_fetch \<Rightarrow> (json \<Rightarrow> 'a option) \<Rightarrow> api_request \<Rightarrow> database \<Rightarrow>
   database \<times> (api_error, 'a) result" where
  "requestJson errorCode requestFetch responseSchema request db =
     (case sendRequest errorCode requestFetch request db of
        (db, Inl error) \<Rightarrow> (db, Throw error)
      | (db, Inr response) \<Rightarrow>
          (db, case Option.bind (re_body response) responseSchema of
             None \<Rightarrow> Throw (PipelineApiError ''invalid_response'' (Some (re_status response)))
           | Some x \<Rightarrow> Return x))"

definition requestEmpty :: "api_fetch \<Rightarrow> api_request \<Rightarrow> database \<Rightarrow> database \<times> (api_error, unit) result" where
  "requestEmpty requestFetch request db =
     (case sendRequest parseErrorCode requestFetch request db of
        (db, Inl error) \<Rightarrow> (db, Throw error)
      | (db, Inr response) \<Rightarrow> (db, Return ()))"

text \<open>\<open>parseRequest\<close> rejects a value before anything is sent.\<close>

definition withParsed :: "bool \<Rightarrow> (database \<Rightarrow> database \<times> (api_error, 'a) result) \<Rightarrow> database \<Rightarrow> database \<times> (api_error, 'a) result" where
  "withParsed valid send db =
     (if valid then send db else (db, Throw (PipelineApiError ''invalid_pipeline_request'' None)))"

definition pipelinesPath :: "string list" where
  "pipelinesPath = [''api'', ''pipelines'']"

definition clientCreate :: "zod_formats \<Rightarrow> api_fetch \<Rightarrow> PipelineCreateRequest \<Rightarrow> database \<Rightarrow> database \<times> (api_error, Pipeline) result" where
  "clientCreate zf requestFetch request =
     withParsed (pipelineCreateRequestSchema_ok zf request)
       (requestJson parseErrorCode requestFetch (pipelineSchema zf)
          \<lparr>aq_method = ''POST'', aq_path = pipelinesPath, aq_body = JsonBody (createRequestJson request)\<rparr>)"

definition clientDelete :: "zod_formats \<Rightarrow> api_fetch \<Rightarrow> string \<Rightarrow> database \<Rightarrow> database \<times> (api_error, unit) result" where
  "clientDelete zf requestFetch pipelineId =
     withParsed (uuid_format zf pipelineId)
       (requestEmpty requestFetch \<lparr>aq_method = ''DELETE'', aq_path = pipelinesPath @ [pipelineId], aq_body = BlankBody\<rparr>)"

definition clientGet :: "zod_formats \<Rightarrow> api_fetch \<Rightarrow> string \<Rightarrow> database \<Rightarrow> database \<times> (api_error, Pipeline) result" where
  "clientGet zf requestFetch pipelineId =
     withParsed (uuid_format zf pipelineId)
       (requestJson parseErrorCode requestFetch (pipelineSchema zf)
          \<lparr>aq_method = ''GET'', aq_path = pipelinesPath @ [pipelineId], aq_body = BlankBody\<rparr>)"

definition clientList :: "zod_formats \<Rightarrow> api_fetch \<Rightarrow> database \<Rightarrow> database \<times> (api_error, Pipeline list) result" where
  "clientList zf requestFetch =
     requestJson parseErrorCode requestFetch (pipelineListResponseSchema zf)
       \<lparr>aq_method = ''GET'', aq_path = pipelinesPath, aq_body = BlankBody\<rparr>"

definition clientUpdate ::
  "zod_formats \<Rightarrow> api_fetch \<Rightarrow> string \<Rightarrow> PipelineUpdateRequest \<Rightarrow> database \<Rightarrow> database \<times> (api_error, Pipeline) result" where
  "clientUpdate zf requestFetch pipelineId update =
     withParsed (uuid_format zf pipelineId)
       (withParsed (pipelineUpdateRequestSchema_ok zf update)
          (requestJson parseErrorCode requestFetch (pipelineSchema zf)
             \<lparr>aq_method = ''PATCH'', aq_path = pipelinesPath @ [pipelineId], aq_body = JsonBody (updateRequestJson update)\<rparr>))"

definition requestPipelineAction ::
  "zod_formats \<Rightarrow> api_fetch \<Rightarrow> string \<Rightarrow> string \<Rightarrow> database \<Rightarrow> database \<times> (api_error, Pipeline) result" where
  "requestPipelineAction zf requestFetch pipelineId action =
     withParsed (uuid_format zf pipelineId)
       (requestJson parseActionErrorCode requestFetch (pipelineSchema zf)
          \<lparr>aq_method = ''POST'', aq_path = pipelinesPath @ [pipelineId, action], aq_body = BlankBody\<rparr>)"

definition clientDisable :: "zod_formats \<Rightarrow> api_fetch \<Rightarrow> string \<Rightarrow> database \<Rightarrow> database \<times> (api_error, Pipeline) result" where
  "clientDisable zf requestFetch pipelineId = requestPipelineAction zf requestFetch pipelineId ''disable''"

definition clientEnable :: "zod_formats \<Rightarrow> api_fetch \<Rightarrow> string \<Rightarrow> database \<Rightarrow> database \<times> (api_error, Pipeline) result" where
  "clientEnable zf requestFetch pipelineId = requestPipelineAction zf requestFetch pipelineId ''enable''"

definition clientDuplicate ::
  "zod_formats \<Rightarrow> api_fetch \<Rightarrow> string \<Rightarrow> string option \<Rightarrow> database \<Rightarrow> database \<times> (api_error, Pipeline) result" where
  "clientDuplicate zf requestFetch pipelineId name =
     withParsed (uuid_format zf pipelineId \<and> pred_option (\<lambda>n. n \<noteq> []) name)
       (requestJson parseActionErrorCode requestFetch (pipelineSchema zf)
          \<lparr>aq_method = ''POST'', aq_path = pipelinesPath @ [pipelineId, ''duplicate''],
           aq_body = JsonBody (JObj (optionalEntry ''name'' JStr name))\<rparr>)"

definition clientGetExecutionState ::
  "zod_formats \<Rightarrow> api_fetch \<Rightarrow> string \<Rightarrow> database \<Rightarrow> database \<times> (api_error, ActiveRunSummary option) result" where
  "clientGetExecutionState zf requestFetch pipelineId =
     withParsed (uuid_format zf pipelineId)
       (requestJson parseActionErrorCode requestFetch (pipelineExecutionStateResponseSchema zf)
          \<lparr>aq_method = ''GET'', aq_path = pipelinesPath @ [pipelineId, ''execution-state''], aq_body = BlankBody\<rparr>)"

definition clientRun :: "zod_formats \<Rightarrow> api_fetch \<Rightarrow> string \<Rightarrow> database \<Rightarrow> database \<times> (api_error, CreatedPipelineRun) result" where
  "clientRun zf requestFetch pipelineId =
     withParsed (uuid_format zf pipelineId)
       (requestJson parseActionErrorCode requestFetch (pipelineRunResponseSchema zf)
          \<lparr>aq_method = ''POST'', aq_path = pipelinesPath @ [pipelineId, ''run''], aq_body = BlankBody\<rparr>)"

text \<open>The translation key of the message that the interface shows for a failed mutation.\<close>

datatype mutation_failure = ApiFailure api_error | OtherFailure

definition getPipelineMutationErrorMessage :: "mutation_failure option \<Rightarrow> string option" where
  "getPipelineMutationErrorMessage error =
     (case error of
        None \<Rightarrow> None
      | Some OtherFailure \<Rightarrow> Some ''pipeline.mutation.failed''
      | Some (ApiFailure (PipelineApiError c status)) \<Rightarrow>
          Some (if c = ''pipeline_locked'' then ''pipeline.mutation.locked''
                else if c = ''pipeline_has_run_history'' then ''pipeline.mutation.hasRunHistory''
                else if c = ''pipeline_not_executable'' then ''pipeline.mutation.notExecutable''
                else if c = ''unauthenticated'' then ''pipeline.mutation.unauthenticated''
                else if c = ''network_error'' then ''pipeline.mutation.network''
                else ''pipeline.mutation.failed''))"

section \<open>The client on the mounted routes\<close>

definition mountedRoute :: "(nat \<Rightarrow> string) \<Rightarrow> api_request \<Rightarrow> web_op option" where
  "mountedRoute ids request =
     (let is = (\<lambda>m. aq_method request = m); body = aq_body request in
      if take 2 (aq_path request) \<noteq> pipelinesPath then None
      else (case drop 2 (aq_path request) of
          [] \<Rightarrow> if is ''GET'' then Some WebList else if is ''POST'' then Some (WebCreate body) else None
        | [pipelineId] \<Rightarrow>
            if is ''GET'' then Some (WebGet pipelineId)
            else if is ''PATCH'' then Some (WebUpdate pipelineId body)
            else if is ''DELETE'' then Some (WebDelete pipelineId) else None
        | [pipelineId, action] \<Rightarrow>
            if is ''POST'' \<and> action = ''enable'' then Some (WebEnable pipelineId)
            else if is ''POST'' \<and> action = ''disable'' then Some (WebDisable pipelineId)
            else if is ''POST'' \<and> action = ''duplicate'' then Some (WebDuplicate pipelineId body ids)
            else if is ''GET'' \<and> action = ''execution-state'' then Some (WebExecutionState pipelineId)
            else if is ''POST'' \<and> action = ''run'' then Some (WebRun pipelineId) else None
        | _ \<Rightarrow> None))"

text \<open>
  The server of the framework around the routes: the body it sends for a failed handler and for a
  path that is not mounted is the framework's own, \<open>failureBody\<close>.
\<close>

record web_context =
  wx_formats :: zod_formats
  wx_gen :: "nat \<Rightarrow> string"
  wx_deployment :: deployment
  wx_session :: "SessionUser option"
  wx_dbNow :: time
  wx_now :: time
  wx_componentIds :: "nat \<Rightarrow> string"
  wx_failureBody :: "json option"

definition webFetch :: "web_context \<Rightarrow> api_fetch" where
  "webFetch x request db =
     (case mountedRoute (wx_componentIds x) request of
        None \<Rightarrow> (db, Some \<lparr>re_status = 404, re_body = wx_failureBody x\<rparr>)
      | Some operation \<Rightarrow>
          (case web_handle (wx_formats x) (wx_gen x) (wx_deployment x)
              \<lparr>wc_session = wx_session x, wc_dbNow = wx_dbNow x, wc_now = wx_now x, wc_op = operation\<rparr> db of
             (db, Inl _) \<Rightarrow> (db, Some \<lparr>re_status = 500, re_body = wx_failureBody x\<rparr>)
           | (db, Inr response) \<Rightarrow> (db, Some response)))"

definition serverFailure :: "(response \<Rightarrow> string) \<Rightarrow> web_context \<Rightarrow> api_error" where
  "serverFailure errorCode x =
     PipelineApiError (errorCode \<lparr>re_status = 500, re_body = wx_failureBody x\<rparr>) (Some 500)"

lemma mountedRoute_simps [simp]:
  "mountedRoute ids \<lparr>aq_method = ''GET'', aq_path = pipelinesPath, aq_body = b\<rparr> = Some WebList"
  "mountedRoute ids \<lparr>aq_method = ''POST'', aq_path = pipelinesPath, aq_body = b\<rparr> = Some (WebCreate b)"
  "mountedRoute ids \<lparr>aq_method = ''GET'', aq_path = pipelinesPath @ [pid], aq_body = b\<rparr> = Some (WebGet pid)"
  "mountedRoute ids \<lparr>aq_method = ''PATCH'', aq_path = pipelinesPath @ [pid], aq_body = b\<rparr> = Some (WebUpdate pid b)"
  "mountedRoute ids \<lparr>aq_method = ''DELETE'', aq_path = pipelinesPath @ [pid], aq_body = b\<rparr> = Some (WebDelete pid)"
  "mountedRoute ids \<lparr>aq_method = ''POST'', aq_path = pipelinesPath @ [pid, ''enable''], aq_body = b\<rparr> = Some (WebEnable pid)"
  "mountedRoute ids \<lparr>aq_method = ''POST'', aq_path = pipelinesPath @ [pid, ''disable''], aq_body = b\<rparr> = Some (WebDisable pid)"
  "mountedRoute ids \<lparr>aq_method = ''POST'', aq_path = pipelinesPath @ [pid, ''duplicate''], aq_body = b\<rparr> = Some (WebDuplicate pid b ids)"
  "mountedRoute ids \<lparr>aq_method = ''GET'', aq_path = pipelinesPath @ [pid, ''execution-state''], aq_body = b\<rparr> = Some (WebExecutionState pid)"
  "mountedRoute ids \<lparr>aq_method = ''POST'', aq_path = pipelinesPath @ [pid, ''run''], aq_body = b\<rparr> = Some (WebRun pid)"
  by (simp_all add: mountedRoute_def pipelinesPath_def Let_def)

text \<open>What the client makes of the outcome of a handler.\<close>

definition received :: "(response \<Rightarrow> string) \<Rightarrow> web_context \<Rightarrow> (json \<Rightarrow> 'a option) \<Rightarrow> handled \<Rightarrow> database \<times> (api_error, 'a) result" where
  "received errorCode x schema h =
     (fst h, case snd h of
        Inl _ \<Rightarrow> Throw (serverFailure errorCode x)
      | Inr response \<Rightarrow>
          if 200 \<le> re_status response \<and> re_status response \<le> 299
          then (case Option.bind (re_body response) schema of
              None \<Rightarrow> Throw (PipelineApiError ''invalid_response'' (Some (re_status response)))
            | Some v \<Rightarrow> Return v)
          else Throw (PipelineApiError (errorCode response) (Some (re_status response))))"

lemma requestJson_webFetch:
  assumes "mountedRoute (wx_componentIds x) request = Some operation"
  shows "requestJson errorCode (webFetch x) schema request db =
    received errorCode x schema (web_handle (wx_formats x) (wx_gen x) (wx_deployment x)
      \<lparr>wc_session = wx_session x, wc_dbNow = wx_dbNow x, wc_now = wx_now x, wc_op = operation\<rparr> db)"
  by (auto simp: requestJson_def sendRequest_def webFetch_def assms received_def serverFailure_def
      split: prod.splits sum.splits option.splits)

lemma received_pipeline:
  "pipelineSchema_ok zf p \<Longrightarrow> 200 \<le> status \<Longrightarrow> status \<le> 299 \<Longrightarrow>
     received errorCode x (pipelineSchema zf) (db, pipelineResponse zf status p) = (db, Return p)"
  by (simp add: received_def pipelineResponse_def)

lemma received_code:
  "status > 299 \<Longrightarrow> received errorCode x schema (db, Return (codeResponse c status)) =
     (db, Throw (PipelineApiError (errorCode (codeResponse c status)) (Some status)))"
  by (simp add: received_def codeResponse_def)

lemma received_throw: "received errorCode x schema (db, Throw e) = (db, Throw (serverFailure errorCode x))"
  by (simp add: received_def)

lemma documentedCode_code:
  "status \<noteq> 401 \<Longrightarrow> documentedCode cs (codeResponse c status) = (if c \<in> set cs then c else ''unknown_error'')"
  by (simp add: documentedCode_def codeResponse_def)

section \<open>The operations of the client\<close>

lemmas client_defs = withParsed_def requestJson_webFetch web_handle_def Let_def

lemma hydrated_schema_ok:
  assumes "hydratePipeline zf g = Return p"
  shows "pipelineSchema_ok zf p"
  using assms by (auto simp: hydratePipeline_def Let_def bind_res_Return_iff throw_if_iff)

lemma created_schema_ok: "createPipeline zf gen now owner r db = Return (db', p) \<Longrightarrow> pipelineSchema_ok zf p"
  by (auto simp: createPipeline_def Let_def bind_res_Return_iff intro: hydrated_schema_ok)

lemma read_schema_ok: "getPipeline zf db owner pid = Return (Some p) \<Longrightarrow> pipelineSchema_ok zf p"
  by (auto simp: getPipeline_def bind_res_Return_iff split: option.splits intro: hydrated_schema_ok)

lemma updated_schema_ok: "updatePipeline zf gen dbNow now owner pid u db = Return (db', Some p) \<Longrightarrow> pipelineSchema_ok zf p"
  by (erule updatePipeline_Return) (rule hydrated_schema_ok)

lemma map_res_all: "map_res f xs = Return ys \<Longrightarrow> (\<And>x y. f x = Return y \<Longrightarrow> P y) \<Longrightarrow> list_all P ys"
  by (induction xs arbitrary: ys) (auto simp: bind_res_Return_iff)

lemma map_res_mem: "map_res f xs = Return ys \<Longrightarrow> x \<in> set xs \<Longrightarrow> \<exists>y\<in>set ys. f x = Return y"
  by (induction xs arbitrary: ys) (auto simp: bind_res_Return_iff)

lemma listed_schema_ok: "listPipelinesByOwner zf db owner = Return ps \<Longrightarrow> list_all (pipelineSchema_ok zf) ps"
  by (auto simp: listPipelinesByOwner_def Let_def split: if_splits elim: map_res_all intro: hydrated_schema_ok)

lemma listed_has_read:
  assumes "db_wf db" and "listPipelinesByOwner zf db owner = Return ps" and "row \<in> set (db_pipelines db)"
    and "pl_ownerUserId row = owner" and "getPipeline zf db owner (pl_id row) = Return (Some p)"
  shows "p \<in> set ps"
proof -
  from assms(2) obtain qs where qs: "map_res (\<lambda>row. getPipeline zf db owner (pl_id row))
      (sort_key (\<lambda>p. (pl_createdAt p, pl_id p)) (filter (\<lambda>p. pl_ownerUserId p = owner) (db_pipelines db))) = Return qs"
    and ps: "ps = map the qs"
    by (auto simp: listPipelines_by_reads [OF assms(1)] bind_res_Return_iff)
  have "Some p \<in> set qs" using map_res_mem [OF qs, of row] assms(3-5) by auto
  then show ?thesis unfolding ps set_map by (rule rev_image_eqI) simp
qed

lemma parseDetail: "uuid_format zf pid \<Longrightarrow> parseDetailRequest zf pid = Some pid"
  by (simp add: parseDetailRequest_def pipelineDetailRequestSchema_path)

lemma clientCreate_outcome:
  assumes "getApiSession (wx_session x) = Some user" and "wx_formats x = zf" and "pipelineCreateRequestSchema_ok zf r"
  shows "clientCreate zf (webFetch x) r db =
    (case createPipeline zf (wx_gen x) (wx_dbNow x) user r db of
       Inr (db', p) \<Rightarrow> (claimPipelineUploads user p db', Return p)
     | Inl (TopologyRejected _) \<Rightarrow> (db, Throw (PipelineApiError ''invalid_pipeline_request'' (Some 400)))
     | Inl _ \<Rightarrow> (db, Throw (serverFailure parseErrorCode x)))"
proof -
  have parsed: "pipelineCreateRequestSchema zf (readJsonObject (JsonBody (createRequestJson r))) = Some r"
    using assms(3) by (simp add: readJsonObject_def createRequestJson_def)
      (simp add: createRequestJson_def [symmetric] schema_defs checked_def)
  show ?thesis
    using assms parsed created_schema_ok [of zf "wx_gen x" "wx_dbNow x" user r db]
    by (auto simp: clientCreate_def client_defs collectionPOST_def received_pipeline received_throw received_code
        invalidRequestResponse_def parseErrorCode_def documentedCode_code split: sum.splits repository_error.splits)
qed

lemma clientGet_outcome:
  assumes "getApiSession (wx_session x) = Some user" and "wx_formats x = zf" and "uuid_format zf pid"
  shows "clientGet zf (webFetch x) pid db =
    (db, case getPipeline zf db user pid of
       Inl _ \<Rightarrow> Throw (serverFailure parseErrorCode x)
     | Inr None \<Rightarrow> Throw (PipelineApiError ''pipeline_not_found'' (Some 404))
     | Inr (Some p) \<Rightarrow> Return p)"
  using assms parseDetail [OF assms(3)] read_schema_ok [of zf db user pid]
  by (auto simp: clientGet_def client_defs detailGET_def received_pipeline received_throw received_code notFoundResponse_def
      parseErrorCode_def documentedCode_code split: sum.splits option.splits)

lemma clientList_outcome:
  assumes "getApiSession (wx_session x) = Some user" and "wx_formats x = zf"
  shows "clientList zf (webFetch x) db =
    (db, case listPipelinesByOwner zf db user of
       Inl _ \<Rightarrow> Throw (serverFailure parseErrorCode x) | Inr ps \<Rightarrow> Return ps)"
  using assms pipelineListResponseSchema_inverse [OF listed_schema_ok [of zf db user]]
  by (auto simp: clientList_def client_defs collectionGET_def received_throw received_def split: sum.splits)

lemma clientUpdate_outcome:
  assumes "getApiSession (wx_session x) = Some user" and "wx_formats x = zf" and "uuid_format zf pid"
    and "pipelineUpdateRequestSchema_ok zf u"
  shows "clientUpdate zf (webFetch x) pid u db =
    (case updatePipeline zf (wx_gen x) (wx_dbNow x) (wx_now x) user pid u db of
       Inr (db', Some p) \<Rightarrow> (claimPipelineUploads user p db', Return p)
     | Inr (db', None) \<Rightarrow> (db', Throw (PipelineApiError ''pipeline_not_found'' (Some 404)))
     | Inl (TopologyRejected _) \<Rightarrow> (db, Throw (PipelineApiError ''invalid_pipeline_request'' (Some 400)))
     | Inl (TransitionRejected _) \<Rightarrow> (db, Throw (PipelineApiError ''pipeline_locked'' (Some 409)))
     | Inl _ \<Rightarrow> (db, Throw (serverFailure parseErrorCode x)))"
proof -
  have parsed: "parseUpdateRequest zf (JsonBody (updateRequestJson u)) = Some u"
    using assms(4) by (simp add: parseUpdateRequest_def schema_defs checked_def)
  show ?thesis
    using assms parseDetail [OF assms(3)] parsed updated_schema_ok [of zf "wx_gen x" "wx_dbNow x" "wx_now x" user pid u db]
    by (auto simp: clientUpdate_def client_defs detailPATCH_def received_pipeline received_throw received_code
        invalidRequestResponse_def notFoundResponse_def conflictResponse_def updateErrorResponse_def
        parseErrorCode_def documentedCode_code split: sum.splits repository_error.splits option.splits)
qed

lemma clientDelete_outcome:
  assumes "getApiSession (wx_session x) = Some user" and "wx_formats x = zf" and "uuid_format zf pid"
  shows "clientDelete zf (webFetch x) pid db =
    (case deletePipeline user pid db of
       Inr (db', True) \<Rightarrow> (db', Return ())
     | Inr (db', False) \<Rightarrow> (db', Throw (PipelineApiError ''pipeline_not_found'' (Some 404)))
     | Inl PipelineDeletionLockedError \<Rightarrow> (db, Throw (PipelineApiError ''pipeline_locked'' (Some 409)))
     | Inl PipelineDeletionHasRunHistoryError \<Rightarrow> (db, Throw (PipelineApiError ''pipeline_has_run_history'' (Some 409)))
     | Inl _ \<Rightarrow> (db, Throw (serverFailure parseErrorCode x)))"
  using assms parseDetail [OF assms(3)]
  by (auto simp: clientDelete_def withParsed_def requestEmpty_def sendRequest_def webFetch_def web_handle_def detailDELETE_def
      notFoundResponse_def conflictResponse_def deletionErrorResponse_def codeResponse_def serverFailure_def
      parseErrorCode_def documentedCode_def split: sum.splits repository_error.splits bool.splits)

section \<open>Properties\<close>


text \<open>
  Property C23: the client implements the repository. For the signed-in user, reading, updating and
  deleting a pipeline in the browser have exactly the effect and the result of the repository's
  operations, and each of its refusals arrives as one documented error: a pipeline that is absent or
  someone else's, a graph that is not valid, a pipeline that a run locks, and one with a run history.
\<close>

theorem browser_refines_repository:
  assumes "getApiSession (wx_session x) = Some user" and "wx_formats x = zf" and "uuid_format zf pid"
    and "pipelineUpdateRequestSchema_ok zf u"
  shows "clientGet zf (webFetch x) pid db =
      (db, case getPipeline zf db user pid of
         Inl _ \<Rightarrow> Throw (serverFailure parseErrorCode x)
       | Inr None \<Rightarrow> Throw (PipelineApiError ''pipeline_not_found'' (Some 404))
       | Inr (Some p) \<Rightarrow> Return p) \<and>
    clientUpdate zf (webFetch x) pid u db =
      (case updatePipeline zf (wx_gen x) (wx_dbNow x) (wx_now x) user pid u db of
         Inr (db', Some p) \<Rightarrow> (claimPipelineUploads user p db', Return p)
       | Inr (db', None) \<Rightarrow> (db', Throw (PipelineApiError ''pipeline_not_found'' (Some 404)))
       | Inl (TopologyRejected _) \<Rightarrow> (db, Throw (PipelineApiError ''invalid_pipeline_request'' (Some 400)))
       | Inl (TransitionRejected _) \<Rightarrow> (db, Throw (PipelineApiError ''pipeline_locked'' (Some 409)))
       | Inl _ \<Rightarrow> (db, Throw (serverFailure parseErrorCode x))) \<and>
    clientDelete zf (webFetch x) pid db =
      (case deletePipeline user pid db of
         Inr (db', True) \<Rightarrow> (db', Return ())
       | Inr (db', False) \<Rightarrow> (db', Throw (PipelineApiError ''pipeline_not_found'' (Some 404)))
       | Inl PipelineDeletionLockedError \<Rightarrow> (db, Throw (PipelineApiError ''pipeline_locked'' (Some 409)))
       | Inl PipelineDeletionHasRunHistoryError \<Rightarrow> (db, Throw (PipelineApiError ''pipeline_has_run_history'' (Some 409)))
       | Inl _ \<Rightarrow> (db, Throw (serverFailure parseErrorCode x)))"
  using clientGet_outcome [OF assms(1-3)] clientUpdate_outcome [OF assms] clientDelete_outcome [OF assms(1-3)] by blast

text \<open>
  Why a pipeline cannot be enabled never reaches the user. When enabling fails because
  the graph is not executable, the response carries the code \<open>pipeline_not_executable\<close> and the
  client for plain requests would pass it on, but the action client does not know this code: the error
  becomes \<open>unknown_error\<close>, and the interface shows the general message instead of the one written
  for this case.
\<close>

theorem enabling_failures_lose_their_reason:
  assumes "getApiSession (wx_session x) = Some user" and "wx_formats x = zf" and "uuid_format zf pid"
    and "enablePipelineForOwner zf user pid (dp_availableComponents (wx_deployment x)) (wx_now x) db =
      Throw (PipelineActionConflictError ActNotExecutable m violations)"
    and "response = pipelineActionConflictResponse ActNotExecutable violations"
  shows "clientEnable zf (webFetch x) pid db = (db, Throw (PipelineApiError ''unknown_error'' (Some 409))) \<and>
    parseErrorCode response = ''pipeline_not_executable'' \<and>
    getPipelineMutationErrorMessage (Some (ApiFailure (PipelineApiError ''unknown_error'' (Some 409)))) =
      Some ''pipeline.mutation.failed'' \<and>
    getPipelineMutationErrorMessage (Some (ApiFailure (PipelineApiError (parseErrorCode response) (Some 409)))) =
      Some ''pipeline.mutation.notExecutable''"
proof -
  have handle: "web_handle zf (wx_gen x) (wx_deployment x) \<lparr>wc_session = wx_session x, wc_dbNow = wx_dbNow x,
      wc_now = wx_now x, wc_op = WebEnable pid\<rparr> db = (db, Return response)"
    using assms parseDetail [OF assms(3)]
    by (simp add: web_handle_def actionENABLE_def stateActionResponse_def webActionErrorResponse_def)
  have r: "re_status response = 409" "parseActionErrorCode response = ''unknown_error''"
    "parseErrorCode response = ''pipeline_not_executable''"
    unfolding assms(5) by (simp_all add: pipelineActionConflictResponse_def parseActionErrorCode_def parseErrorCode_def
        documentedCode_def)
  have "clientEnable zf (webFetch x) pid db = (db, Throw (PipelineApiError ''unknown_error'' (Some 409)))"
    using assms(2,3) r
    by (simp add: clientEnable_def requestPipelineAction_def withParsed_def requestJson_webFetch handle received_def)
  with r show ?thesis by (simp add: getPipelineMutationErrorMessage_def)
qed

section \<open>Witnesses\<close>

definition sampleContext :: "string \<Rightarrow> ComponentMetadata list \<Rightarrow> web_context" where
  "sampleContext user catalog =
     \<lparr>wx_formats = sampleZf, wx_gen = sampleGen, wx_deployment = sampleDeployment\<lparr>dp_availableComponents := catalog\<rparr>,
      wx_session = Some \<lparr>se_id = user, se_requiresPasswordChange = False\<rparr>, wx_dbNow = 3, wx_now = 4,
      wx_componentIds = sampleGen, wx_failureBody = None\<rparr>"

lemma sampleContext_simps [simp]:
  "getApiSession (wx_session (sampleContext user catalog)) = Some user" "wx_formats (sampleContext user catalog) = sampleZf"
  "wx_gen (sampleContext user catalog) = sampleGen" "wx_dbNow (sampleContext user catalog) = 3"
  "wx_now (sampleContext user catalog) = 4" "dp_availableComponents (wx_deployment (sampleContext user catalog)) = catalog"
  by (simp_all add: sampleContext_def getApiSession_def)

lemma sampleCreate_ok:
  "returnsWith (\<lambda>_. True) (snd (clientCreate sampleZf (webFetch (sampleContext ''u1'' sampleCatalog)) sampleRequest emptyDb))"
  by code_simp


theorem browser_refines_repository_witness:
  "clientDelete sampleZf (webFetch (sampleContext ''u2'' [])) ''g0'' sampleDb =
     (sampleDb, Throw (PipelineApiError ''pipeline_not_found'' (Some 404)))"
proof -
  have "deletePipeline ''u2'' ''g0'' sampleDb = Return (sampleDb, False)"
    by (simp add: deletePipeline_def sampleDb_def samplePipelineRow_def)
  moreover have "pipelineUpdateRequestSchema_ok sampleZf sampleRename" by code_simp
  moreover have "uuid_format sampleZf ''g0''" by code_simp
  ultimately show ?thesis
    using browser_refines_repository [of "sampleContext ''u2'' []" "''u2''" sampleZf "''g0''" sampleRename sampleDb] by simp
qed

definition failsWith :: "('e \<Rightarrow> bool) \<Rightarrow> ('e, 'a) result \<Rightarrow> bool" where
  "failsWith P m = (case m of Inl e \<Rightarrow> P e | Inr _ \<Rightarrow> False)"

lemma sampleEnable_fails:
  "failsWith (\<lambda>e. case e of PipelineActionConflictError reason m vs \<Rightarrow> reason = ActNotExecutable | _ \<Rightarrow> False)
     (enablePipelineForOwner sampleZf ''u1'' ''g0'' [] 4 sampleDb)"
  by code_simp

theorem enabling_failures_lose_their_reason_witness:
  "clientEnable sampleZf (webFetch (sampleContext ''u1'' [])) ''g0'' sampleDb =
     (sampleDb, Throw (PipelineApiError ''unknown_error'' (Some 409)))"
proof -
  from sampleEnable_fails obtain m vs where
    e: "enablePipelineForOwner sampleZf ''u1'' ''g0'' [] 4 sampleDb = Throw (PipelineActionConflictError ActNotExecutable m vs)"
    by (auto simp: failsWith_def split: sum.splits action_error.splits)
  have "uuid_format sampleZf ''g0''" by code_simp
  with enabling_failures_lose_their_reason [of "sampleContext ''u1'' []" "''u1''" sampleZf "''g0''" sampleDb m vs] e
  show ?thesis by simp
qed

end
