(* ===== verification/Pipeline_Builder.thy ===== *)
theory Pipeline_Builder
  imports Linear_Chain Compatibility "HOL-Library.Multiset"
begin

text \<open>
  The pipeline builder of the browser, \<open>apps/web/src/components/pipeline\<close>: the editing state
  (\<open>pipeline-builder-draft.ts\<close>), its conversion to a graph (\<open>pipeline-builder-graph.ts\<close>) and
  to requests and back (\<open>pipeline-builder-persistence.ts\<close>), the compatibility of the picker
  (\<open>pipeline-builder-compatibility.ts\<close>), the values that the configuration form lets through
  (\<open>component-configuration-form.tsx\<close>) and the wizard (\<open>pipeline-builder-wizard.tsx\<close>) as a
  state machine of edits and saves. An identifier that the code draws with \<open>createId\<close> is an
  argument, and a partial change of a draft is the function that sets its fields.
\<close>

section \<open>The draft\<close>

record PipelineBuilderComponentSelection =
  bs_id :: string
  bs_metadata :: ComponentMetadata
  bs_secretBindings :: "SecretBinding list"
  bs_values :: "(string \<times> json) list"

datatype PipelineBuilderStep = StepSource | StepTransforms | StepExport

definition PIPELINE_BUILDER_STEPS :: "PipelineBuilderStep list" where
  "PIPELINE_BUILDER_STEPS = [StepSource, StepTransforms, StepExport]"

record PipelineBuilderDraft =
  bd_dirty :: bool
  bd_export :: "PipelineBuilderComponentSelection option"
  bd_name :: string
  bd_source :: "PipelineBuilderComponentSelection option"
  bd_transforms :: "PipelineBuilderComponentSelection list"

definition createEmptyPipelineBuilderDraft :: PipelineBuilderDraft where
  "createEmptyPipelineBuilderDraft =
     \<lparr>bd_dirty = False, bd_export = None, bd_name = [], bd_source = None, bd_transforms = []\<rparr>"

definition updatePipelineBuilderDraft ::
  "PipelineBuilderDraft \<Rightarrow> (PipelineBuilderDraft \<Rightarrow> PipelineBuilderDraft) \<Rightarrow> PipelineBuilderDraft" where
  "updatePipelineBuilderDraft draft changes = (changes draft)\<lparr>bd_dirty := True\<rparr>"

text \<open>\<open>xs.findIndex(p)\<close> and \<open>xs.indexOf(x)\<close>, with -1 for an absent element.\<close>

fun js_findIndex :: "('a \<Rightarrow> bool) \<Rightarrow> 'a list \<Rightarrow> int" where
  "js_findIndex P [] = -1"
| "js_findIndex P (x # xs) = (if P x then 0 else (let i = js_findIndex P xs in if i = -1 then -1 else i + 1))"

text \<open>\<open>xs[i]\<close>.\<close>

definition js_at :: "'a list \<Rightarrow> int \<Rightarrow> 'a option" where
  "js_at xs i = (if 0 \<le> i \<and> nat i < length xs then Some (xs ! nat i) else None)"

definition nextPipelineBuilderStep :: "PipelineBuilderStep \<Rightarrow> PipelineBuilderStep option" where
  "nextPipelineBuilderStep step =
     js_at PIPELINE_BUILDER_STEPS (js_findIndex (\<lambda>s. s = step) PIPELINE_BUILDER_STEPS + 1)"

definition previousPipelineBuilderStep :: "PipelineBuilderStep \<Rightarrow> PipelineBuilderStep option" where
  "previousPipelineBuilderStep step =
     (let index = js_findIndex (\<lambda>s. s = step) PIPELINE_BUILDER_STEPS
      in if index \<le> 0 then None else js_at PIPELINE_BUILDER_STEPS (index - 1))"

definition nextPipelineBuilderComponentSelection ::
  "PipelineBuilderComponentSelection option \<Rightarrow> ComponentMetadata \<Rightarrow> string \<Rightarrow> PipelineBuilderComponentSelection" where
  "nextPipelineBuilderComponentSelection current metadata newId =
     (case current of
        Some c \<Rightarrow>
          if cm_type (bs_metadata c) = cm_type metadata \<and> cm_version (bs_metadata c) = cm_version metadata
          then c\<lparr>bs_metadata := metadata\<rparr>
          else \<lparr>bs_id = bs_id c, bs_metadata = metadata, bs_secretBindings = [], bs_values = []\<rparr>
      | None \<Rightarrow> \<lparr>bs_id = newId, bs_metadata = metadata, bs_secretBindings = [], bs_values = []\<rparr>)"

definition setPipelineBuilderSource ::
  "PipelineBuilderDraft \<Rightarrow> ComponentMetadata \<Rightarrow> string \<Rightarrow> PipelineBuilderDraft" where
  "setPipelineBuilderSource draft metadata newId =
     updatePipelineBuilderDraft draft
       (bd_source_update (\<lambda>_. Some (nextPipelineBuilderComponentSelection (bd_source draft) metadata newId)))"

definition setPipelineBuilderSourceValues ::
  "PipelineBuilderDraft \<Rightarrow> (string \<times> json) list \<Rightarrow> PipelineBuilderDraft" where
  "setPipelineBuilderSourceValues draft values =
     (case bd_source draft of None \<Rightarrow> draft
      | Some source \<Rightarrow> updatePipelineBuilderDraft draft (bd_source_update (\<lambda>_. Some (source\<lparr>bs_values := values\<rparr>))))"

definition setPipelineBuilderExport ::
  "PipelineBuilderDraft \<Rightarrow> ComponentMetadata \<Rightarrow> string \<Rightarrow> PipelineBuilderDraft" where
  "setPipelineBuilderExport draft metadata newId =
     updatePipelineBuilderDraft draft
       (bd_export_update (\<lambda>_. Some (nextPipelineBuilderComponentSelection (bd_export draft) metadata newId)))"

definition setPipelineBuilderExportValues ::
  "PipelineBuilderDraft \<Rightarrow> (string \<times> json) list \<Rightarrow> PipelineBuilderDraft" where
  "setPipelineBuilderExportValues draft values =
     (case bd_export draft of None \<Rightarrow> draft
      | Some export \<Rightarrow> updatePipelineBuilderDraft draft (bd_export_update (\<lambda>_. Some (export\<lparr>bs_values := values\<rparr>))))"

definition isPipelineBuilderDraftComplete :: "PipelineBuilderDraft \<Rightarrow> bool" where
  "isPipelineBuilderDraftComplete draft \<longleftrightarrow> bd_source draft \<noteq> None \<and> bd_export draft \<noteq> None"

definition pipelineBuilderChainTail :: "PipelineBuilderDraft \<Rightarrow> ComponentMetadata option" where
  "pipelineBuilderChainTail draft =
     (case rev (bd_transforms draft) of
        t # _ \<Rightarrow> Some (bs_metadata t)
      | [] \<Rightarrow> map_option bs_metadata (bd_source draft))"

definition markPipelineBuilderDraftSaved :: "PipelineBuilderDraft \<Rightarrow> PipelineBuilderDraft" where
  "markPipelineBuilderDraftSaved draft = draft\<lparr>bd_dirty := False\<rparr>"

definition addPipelineBuilderTransform ::
  "PipelineBuilderDraft \<Rightarrow> ComponentMetadata \<Rightarrow> string \<Rightarrow> PipelineBuilderDraft" where
  "addPipelineBuilderTransform draft metadata newId =
     updatePipelineBuilderDraft draft (bd_transforms_update (\<lambda>ts. ts @
       [\<lparr>bs_id = newId, bs_metadata = metadata, bs_secretBindings = [], bs_values = []\<rparr>]))"

definition setPipelineBuilderTransformValues ::
  "PipelineBuilderDraft \<Rightarrow> string \<Rightarrow> (string \<times> json) list \<Rightarrow> PipelineBuilderDraft" where
  "setPipelineBuilderTransformValues draft i values =
     updatePipelineBuilderDraft draft (bd_transforms_update
       (map (\<lambda>transform. if bs_id transform = i then transform\<lparr>bs_values := values\<rparr> else transform)))"

definition removePipelineBuilderTransform :: "PipelineBuilderDraft \<Rightarrow> string \<Rightarrow> PipelineBuilderDraft" where
  "removePipelineBuilderTransform draft i =
     updatePipelineBuilderDraft draft (bd_transforms_update (filter (\<lambda>transform. bs_id transform \<noteq> i)))"

datatype move_direction = MoveUp | MoveDown

definition movePipelineBuilderTransform ::
  "PipelineBuilderDraft \<Rightarrow> string \<Rightarrow> move_direction \<Rightarrow> PipelineBuilderDraft" where
  "movePipelineBuilderTransform draft i direction =
     (let transforms = bd_transforms draft;
          index = js_findIndex (\<lambda>transform. bs_id transform = i) transforms;
          targetIndex = (if direction = MoveUp then index - 1 else index + 1)
      in if index = -1 \<or> targetIndex < 0 \<or> int (length transforms) \<le> targetIndex then draft
         else (case (js_at transforms index, js_at transforms targetIndex) of
            (Some moved, Some displaced) \<Rightarrow>
              updatePipelineBuilderDraft draft (bd_transforms_update (\<lambda>_.
                map (\<lambda>(position, transform).
                  if int position = index then displaced
                  else if int position = targetIndex then moved else transform) (enumerate 0 transforms)))
          | _ \<Rightarrow> draft))"

section \<open>The graph of a draft\<close>

definition pipelineStepFromSelection :: "PipelineBuilderComponentSelection \<Rightarrow> PipelineStep" where
  "pipelineStepFromSelection selection =
     \<lparr>ps_id = bs_id selection, ps_kind = cm_kind (bs_metadata selection),
      ps_componentType = cm_type (bs_metadata selection), ps_componentVersion = cm_version (bs_metadata selection),
      ps_configuration = \<lparr>cc_values = bs_values selection, cc_secretBindings = bs_secretBindings selection\<rparr>\<rparr>"

definition draftSelections :: "PipelineBuilderDraft \<Rightarrow> PipelineBuilderComponentSelection list" where
  "draftSelections draft =
     List.map_filter (\<lambda>selection. selection) (bd_source draft # map Some (bd_transforms draft) @ [bd_export draft])"

definition derivePipelineBuilderSteps :: "PipelineBuilderDraft \<Rightarrow> PipelineStep list" where
  "derivePipelineBuilderSteps draft = map pipelineStepFromSelection (draftSelections draft)"

definition derivePipelineBuilderEdges :: "PipelineStep list \<Rightarrow> PipelineEdge list" where
  "derivePipelineBuilderEdges steps =
     map (\<lambda>(index, step). \<lparr>pe_fromStepId = ps_id (steps ! index), pe_toStepId = ps_id step\<rparr>)
       (enumerate 0 (drop 1 steps))"

definition derivePipelineBuilderGraph :: "PipelineBuilderDraft \<Rightarrow> PipelineStep list \<times> PipelineEdge list" where
  "derivePipelineBuilderGraph draft =
     (let steps = derivePipelineBuilderSteps draft in (steps, derivePipelineBuilderEdges steps))"

section \<open>Requests\<close>

definition isPipelineBuilderDraftPersistable :: "PipelineBuilderDraft \<Rightarrow> bool" where
  "isPipelineBuilderDraftPersistable draft \<longleftrightarrow>
     length (js_trim (bd_name draft)) > 0 \<and>
     (bd_source draft \<noteq> None \<or> length (bd_transforms draft) > 0 \<or> bd_export draft \<noteq> None)"

definition createPipelineCreateRequestFromDraft :: "PipelineBuilderDraft \<Rightarrow> PipelineCreateRequest" where
  "createPipelineCreateRequestFromDraft draft =
     (case derivePipelineBuilderGraph draft of (steps, edges) \<Rightarrow>
       \<lparr>cr_contractVersion = ''v1'', cr_edges = edges, cr_name = js_trim (bd_name draft), cr_steps = steps,
        cr_triggers = [WritableManual False]\<rparr>)"

definition createPipelineUpdateRequestFromDraft :: "PipelineBuilderDraft \<Rightarrow> PipelineUpdateRequest" where
  "createPipelineUpdateRequestFromDraft draft =
     (case derivePipelineBuilderGraph draft of (steps, edges) \<Rightarrow>
       \<lparr>ur_edges = Some edges, ur_name = Some (js_trim (bd_name draft)), ur_state = None, ur_steps = Some steps,
        ur_triggers = None\<rparr>)"

section \<open>Resuming a saved pipeline\<close>

text \<open>The loop follows edges without remembering the steps it passed; \<open>None\<close> is a loop that never ends.\<close>

partial_function (option) orderLoop ::
  "(string, PipelineStep) js_map \<Rightarrow> (string, string) js_map \<Rightarrow> PipelineStep option \<Rightarrow> PipelineStep list \<Rightarrow>
   PipelineStep list option" where
  "orderLoop stepById nextIdByStepId current ordered =
     (case current of
        None \<Rightarrow> Some ordered
      | Some step \<Rightarrow>
          orderLoop stepById nextIdByStepId
            (case map_get nextIdByStepId (ps_id step) of None \<Rightarrow> None | Some nextId \<Rightarrow> map_get stepById nextId)
            (ordered @ [step]))"

definition orderStepsByEdges :: "PipelineStep list \<Rightarrow> PipelineEdge list \<Rightarrow> PipelineStep list option" where
  "orderStepsByEdges steps edges =
     (if length steps = 0 then Some steps
      else
        (let stepById = map_of_entries ps_id (\<lambda>s. s) steps;
             nextIdByStepId = map_of_entries pe_fromStepId pe_toStepId edges;
             targetIds = set_of_list (map pe_toStepId edges)
         in case find (\<lambda>step. ps_id step \<notin> set targetIds) steps of
              None \<Rightarrow> Some steps
            | Some head \<Rightarrow> orderLoop stepById nextIdByStepId (Some head) []))"

fun resolveSelections ::
  "(PipelineStep \<Rightarrow> ComponentMetadata option) \<Rightarrow> PipelineStep list \<Rightarrow> PipelineBuilderComponentSelection list option" where
  "resolveSelections resolveMetadata [] = Some []"
| "resolveSelections resolveMetadata (step # steps) =
     (case resolveMetadata step of
        None \<Rightarrow> None
      | Some metadata \<Rightarrow>
          map_option (\<lambda>rest. \<lparr>bs_id = ps_id step, bs_metadata = metadata,
            bs_secretBindings = cc_secretBindings (ps_configuration step),
            bs_values = cc_values (ps_configuration step)\<rparr> # rest) (resolveSelections resolveMetadata steps))"

text \<open>The outer option is whether the loop ends, the inner one whether every component is known.\<close>

definition createPipelineBuilderDraftFromPipeline ::
  "Pipeline \<Rightarrow> (PipelineStep \<Rightarrow> ComponentMetadata option) \<Rightarrow> PipelineBuilderDraft option option" where
  "createPipelineBuilderDraftFromPipeline pipeline resolveMetadata =
     map_option (\<lambda>orderedSteps.
       map_option (\<lambda>selections.
         \<lparr>bd_dirty = False,
          bd_export = find (\<lambda>s. cm_kind (bs_metadata s) = Export) selections,
          bd_name = p_name pipeline,
          bd_source = find (\<lambda>s. cm_kind (bs_metadata s) = Source) selections,
          bd_transforms = filter (\<lambda>s. cm_kind (bs_metadata s) = Transform) selections\<rparr>)
         (resolveSelections resolveMetadata orderedSteps))
       (orderStepsByEdges (p_steps pipeline) (p_edges pipeline))"

definition createPipelineBuilderMetadataResolver ::
  "(ComponentKind \<Rightarrow> ComponentMetadata list option) \<Rightarrow> PipelineStep \<Rightarrow> ComponentMetadata option" where
  "createPipelineBuilderMetadataResolver capabilitiesByKind step =
     (case capabilitiesByKind (ps_kind step) of
        None \<Rightarrow> None
      | Some components \<Rightarrow>
          find (\<lambda>c. cm_type c = ps_componentType step \<and> cm_version c = ps_componentVersion step) components)"

section \<open>Picker and configuration form\<close>

record ComponentPickerOptionState =
  po_disabled :: bool
  po_reason :: "string option"

definition createPipelineBuilderCompatibilityResolver ::
  "ComponentMetadata option \<Rightarrow> string \<Rightarrow> ComponentMetadata \<Rightarrow> ComponentPickerOptionState" where
  "createPipelineBuilderCompatibilityResolver chainTail incompatibleReason component =
     (case chainTail of
        None \<Rightarrow> \<lparr>po_disabled = False, po_reason = None\<rparr>
      | Some tail \<Rightarrow>
          if ccr_compatible (checkComponentCompatibility tail component) then \<lparr>po_disabled = False, po_reason = None\<rparr>
          else \<lparr>po_disabled = True, po_reason = Some incompatibleReason\<rparr>)"

definition sanitizeNonSecretConfigurationValues ::
  "ComponentMetadata \<Rightarrow> (string \<times> json) list \<Rightarrow> (string \<times> json) list" where
  "sanitizeNonSecretConfigurationValues metadata values =
     (let permittedKeys = set_of_list (map cf_key (filter (\<lambda>field. \<not> cf_secret field) (cm_configFields metadata)))
      in filter (\<lambda>(key, _). key \<in> set permittedKeys) values)"

definition formUpdateValue ::
  "ComponentMetadata \<Rightarrow> (string \<times> json) list \<Rightarrow> string \<Rightarrow> json option \<Rightarrow> (string \<times> json) list" where
  "formUpdateValue metadata values key value =
     (let visibleValues = sanitizeNonSecretConfigurationValues metadata values;
          nextValues = filter (\<lambda>(existingKey, _). existingKey \<noteq> key) visibleValues;
          nextValues = (case value of None \<Rightarrow> nextValues | Some v \<Rightarrow> map_put key v nextValues)
      in sanitizeNonSecretConfigurationValues metadata nextValues)"

definition optionalStringValue :: "string \<Rightarrow> string option" where
  "optionalStringValue value = (if length value = 0 then None else Some value)"

definition configFieldWidth :: "ConfigField \<Rightarrow> ConfigFieldWidth" where
  "configFieldWidth field =
     (case cf_width field of
        Some w \<Rightarrow> w
      | None \<Rightarrow> if cf_type field = TextareaField \<or> cf_type field = JsonField then FullWidth else MediumWidth)"

section \<open>The wizard\<close>

text \<open>
  A save is asynchronous: the request is computed from the draft of the moment it starts, edits go on
  while it waits for its answer, and its end is an event of its own. The requests without an answer
  are listed in the order in which they were sent.
\<close>

datatype save_request = SaveCreate PipelineCreateRequest | SaveUpdate string PipelineUpdateRequest

record wizard =
  wz_draft :: PipelineBuilderDraft
  wz_step :: PipelineBuilderStep
  wz_pipelineId :: "string option"
  wz_saveInFlight :: bool
  wz_pending :: "save_request list"

definition openWizard :: "PipelineBuilderDraft option \<Rightarrow> string option \<Rightarrow> PipelineBuilderStep option \<Rightarrow> wizard" where
  "openWizard initialDraft initialPipelineId initialStep =
     \<lparr>wz_draft = (case initialDraft of None \<Rightarrow> createEmptyPipelineBuilderDraft | Some d \<Rightarrow> d),
      wz_step = (case initialStep of None \<Rightarrow> hd PIPELINE_BUILDER_STEPS | Some s \<Rightarrow> s),
      wz_pipelineId = initialPipelineId, wz_saveInFlight = False, wz_pending = []\<rparr>"

text \<open>The callbacks of the wizard are optional; here they are given as their presence.\<close>

definition canSave :: "bool \<Rightarrow> bool \<Rightarrow> wizard \<Rightarrow> bool" where
  "canSave onCreate onUpdate w \<longleftrightarrow> isPipelineBuilderDraftPersistable (wz_draft w) \<and>
     (if wz_pipelineId w = None then onCreate else onUpdate)"

definition startSave :: "bool \<Rightarrow> bool \<Rightarrow> bool \<Rightarrow> wizard \<Rightarrow> wizard" where
  "startSave onCreate onUpdate isSaving w =
     (if \<not> canSave onCreate onUpdate w \<or> isSaving \<or> wz_saveInFlight w then w
      else w\<lparr>wz_saveInFlight := True, wz_pending := wz_pending w @
        [case wz_pipelineId w of
           None \<Rightarrow> SaveCreate (createPipelineCreateRequestFromDraft (wz_draft w))
         | Some pipelineId \<Rightarrow> SaveUpdate pipelineId (createPipelineUpdateRequestFromDraft (wz_draft w))]\<rparr>)"

text \<open>The answer to the \<open>n\<close>-th pending request: the identifier of the saved pipeline, or a failure.\<close>

definition finishSave :: "nat \<Rightarrow> string option \<Rightarrow> wizard \<Rightarrow> wizard" where
  "finishSave n result w =
     (if length (wz_pending w) \<le> n then w
      else
        let w = w\<lparr>wz_saveInFlight := False, wz_pending := take n (wz_pending w) @ drop (Suc n) (wz_pending w)\<rparr>
        in (case result of
              None \<Rightarrow> w
            | Some pipelineId \<Rightarrow> w\<lparr>wz_pipelineId := Some pipelineId, wz_draft := markPipelineBuilderDraftSaved (wz_draft w)\<rparr>))"

definition goNext :: "wizard \<Rightarrow> wizard" where
  "goNext w = (case nextPipelineBuilderStep (wz_step w) of None \<Rightarrow> w | Some s \<Rightarrow> w\<lparr>wz_step := s\<rparr>)"

definition goBack :: "wizard \<Rightarrow> wizard" where
  "goBack w = (case previousPipelineBuilderStep (wz_step w) of None \<Rightarrow> w | Some s \<Rightarrow> w\<lparr>wz_step := s\<rparr>)"


text \<open>
  The edits that the stages of the wizard offer: each picker lists the components of its kind, and a
  new slot gets a fresh identifier.
\<close>

definition draftIds :: "PipelineBuilderDraft \<Rightarrow> string list" where
  "draftIds d = map bs_id (draftSelections d)"

definition offered :: "ComponentMetadata list \<Rightarrow> ComponentKind \<Rightarrow> ComponentMetadata \<Rightarrow> bool" where
  "offered catalog k m \<longleftrightarrow> m \<in> set (filterComponentCapabilities catalog (Some k))"

inductive draft_edit :: "ComponentMetadata list \<Rightarrow> PipelineBuilderDraft \<Rightarrow> PipelineBuilderDraft \<Rightarrow> bool"
  for catalog where
  changeName: "draft_edit catalog d (updatePipelineBuilderDraft d (bd_name_update (\<lambda>_. name)))"
| changeSource: "offered catalog Source m \<Longrightarrow> i \<notin> set (draftIds d) \<Longrightarrow> draft_edit catalog d (setPipelineBuilderSource d m i)"
| changeSourceValues: "draft_edit catalog d (setPipelineBuilderSourceValues d vs)"
| addTransform: "offered catalog Transform m \<Longrightarrow> i \<notin> set (draftIds d) \<Longrightarrow> draft_edit catalog d (addPipelineBuilderTransform d m i)"
| changeTransformValues: "draft_edit catalog d (setPipelineBuilderTransformValues d i vs)"
| removeTransform: "draft_edit catalog d (removePipelineBuilderTransform d i)"
| moveTransform: "draft_edit catalog d (movePipelineBuilderTransform d i direction)"
| changeExport: "offered catalog Export m \<Longrightarrow> i \<notin> set (draftIds d) \<Longrightarrow> draft_edit catalog d (setPipelineBuilderExport d m i)"
| changeExportValues: "draft_edit catalog d (setPipelineBuilderExportValues d vs)"

text \<open>A run of the wizard, with the saves that succeeded in order.\<close>

inductive wizard_run :: "ComponentMetadata list \<Rightarrow> wizard \<Rightarrow> save_request list \<Rightarrow> wizard \<Rightarrow> bool"
  for catalog w0 where
  opened: "wizard_run catalog w0 [] w0"
| edited: "wizard_run catalog w0 saved w \<Longrightarrow> draft_edit catalog (wz_draft w) d \<Longrightarrow> wizard_run catalog w0 saved (w\<lparr>wz_draft := d\<rparr>)"
| moved: "wizard_run catalog w0 saved w \<Longrightarrow> w' \<in> {goNext w, goBack w} \<Longrightarrow> wizard_run catalog w0 saved w'"
| started: "wizard_run catalog w0 saved w \<Longrightarrow> wizard_run catalog w0 saved (startSave onCreate onUpdate isSaving w)"
| failed: "wizard_run catalog w0 saved w \<Longrightarrow> wizard_run catalog w0 saved (finishSave n None w)"
| succeeded: "wizard_run catalog w0 saved w \<Longrightarrow> n < length (wz_pending w) \<Longrightarrow>
    wizard_run catalog w0 (saved @ [wz_pending w ! n]) (finishSave n (Some i) w)"

section \<open>What holds of every draft\<close>

lemmas draft_defs = updatePipelineBuilderDraft_def setPipelineBuilderSource_def setPipelineBuilderSourceValues_def
  setPipelineBuilderExport_def setPipelineBuilderExportValues_def addPipelineBuilderTransform_def
  setPipelineBuilderTransformValues_def removePipelineBuilderTransform_def nextPipelineBuilderComponentSelection_def
  markPipelineBuilderDraftSaved_def

definition draft_ok :: "PipelineBuilderDraft \<Rightarrow> bool" where
  "draft_ok d \<longleftrightarrow>
     distinct (draftIds d) \<and>
     pred_option (\<lambda>s. cm_kind (bs_metadata s) = Source) (bd_source d) \<and>
     list_all (\<lambda>s. cm_kind (bs_metadata s) = Transform) (bd_transforms d) \<and>
     pred_option (\<lambda>s. cm_kind (bs_metadata s) = Export) (bd_export d)"

lemma draftSelections_eq:
  "draftSelections d = (case bd_source d of None \<Rightarrow> [] | Some s \<Rightarrow> [s]) @ bd_transforms d @
     (case bd_export d of None \<Rightarrow> [] | Some s \<Rightarrow> [s])"
proof -
  have "List.map_filter (\<lambda>x. x) (map Some ts @ [e]) = ts @ (case e of None \<Rightarrow> [] | Some s \<Rightarrow> [s])"
    for ts :: "PipelineBuilderComponentSelection list" and e
    by (induction ts) (auto simp: List.map_filter_simps split: option.splits)
  then show ?thesis by (simp add: draftSelections_def List.map_filter_simps split: option.splits)
qed

lemma draftIds_eq:
  "draftIds d = (case bd_source d of None \<Rightarrow> [] | Some s \<Rightarrow> [bs_id s]) @ map bs_id (bd_transforms d) @
     (case bd_export d of None \<Rightarrow> [] | Some s \<Rightarrow> [bs_id s])"
  by (simp add: draftIds_def draftSelections_eq split: option.splits)

lemma empty_draft_ok: "draft_ok createEmptyPipelineBuilderDraft"
  by (simp add: draft_ok_def draftIds_eq createEmptyPipelineBuilderDraft_def)

lemma findIndex_bounds: "js_findIndex P xs = -1 \<or> (0 \<le> js_findIndex P xs \<and> js_findIndex P xs < int (length xs))"
  by (induction xs) (auto simp: Let_def)

text \<open>A move exchanges two neighbours, so it permutes the transforms.\<close>

lemma swap_map:
  assumes "i < length xs" and "j < length xs"
  shows "map (\<lambda>(k, x). if int k = int i then xs ! j else if int k = int j then xs ! i else x) (enumerate 0 xs) =
    xs[i := xs ! j, j := xs ! i]"
  using assms by (intro nth_equalityI) (auto simp: nth_enumerate_eq nth_list_update)

lemma movePipelineBuilderTransform_cases:
  "movePipelineBuilderTransform d i direction = d \<or>
   (\<exists>a b. a < length (bd_transforms d) \<and> b < length (bd_transforms d) \<and>
      movePipelineBuilderTransform d i direction =
        d\<lparr>bd_transforms := (bd_transforms d)[a := bd_transforms d ! b, b := bd_transforms d ! a], bd_dirty := True\<rparr>)"
proof -
  let ?index = "js_findIndex (\<lambda>t. bs_id t = i) (bd_transforms d)"
  let ?target = "if direction = MoveUp then ?index - 1 else ?index + 1"
  show ?thesis
  proof (cases "?index = -1 \<or> ?target < 0 \<or> int (length (bd_transforms d)) \<le> ?target")
    case True
    then show ?thesis by (auto simp: movePipelineBuilderTransform_def Let_def)
  next
    case False
    have b: "0 \<le> ?index" "?index < int (length (bd_transforms d))"
      using False findIndex_bounds [of "\<lambda>t. bs_id t = i" "bd_transforms d"] by auto
    define a where "a = nat ?index"
    define t where "t = nat ?target"
    have at: "int a = ?index" "int t = ?target" "a < length (bd_transforms d)" "t < length (bd_transforms d)"
      using b False by (auto simp: a_def t_def)
    have "js_at (bd_transforms d) ?index = Some (bd_transforms d ! a)" "js_at (bd_transforms d) ?target = Some (bd_transforms d ! t)"
      using at b False by (auto simp: js_at_def a_def t_def)
    with False have "movePipelineBuilderTransform d i direction =
        d\<lparr>bd_transforms := (bd_transforms d)[a := bd_transforms d ! t, t := bd_transforms d ! a], bd_dirty := True\<rparr>"
      unfolding swap_map [OF at(3,4), symmetric] at(1,2)
      by (simp add: movePipelineBuilderTransform_def Let_def updatePipelineBuilderDraft_def)
    with at(3,4) show ?thesis by blast
  qed
qed

lemma mset_ok:
  assumes "draft_ok d" and "bd_source d' = bd_source d" and "bd_export d' = bd_export d"
    and "mset (bd_transforms d') = mset (bd_transforms d)"
  shows "draft_ok d'"
proof -
  have "mset (draftIds d') = mset (draftIds d)"
    using assms(2-4) by (auto simp: draftIds_eq split: option.splits)
  then have "distinct (draftIds d') = distinct (draftIds d)" by (metis mset_eq_imp_distinct_iff)
  moreover have "set (bd_transforms d') = set (bd_transforms d)" using assms(4) by (metis set_mset_mset)
  ultimately show ?thesis using assms(1-3) by (simp add: draft_ok_def list_all_iff)
qed

lemma draft_edit_ok: "draft_edit catalog d d' \<Longrightarrow> draft_ok d \<Longrightarrow> draft_ok d'"
proof (induction rule: draft_edit.induct)
  case (moveTransform d i direction)
  then show ?case
    using movePipelineBuilderTransform_cases [of d i direction] mset_ok [of d]
    by (auto simp: mset_swap)
next
  case (changeTransformValues d i vs)
  then show ?case by (auto simp: draft_ok_def draftIds_eq draft_defs list_all_iff comp_def if_distrib cong: if_cong)
next
  case (removeTransform d i)
  then show ?case
    by (auto simp: draft_ok_def draftIds_eq draft_defs list_all_iff distinct_map_filter split: option.splits)
qed (auto simp: draft_ok_def draftIds_eq draft_defs offered_def filterComponentCapabilities_def split: option.splits)


lemma draft_ok_saved [simp]: "draft_ok (markPipelineBuilderDraftSaved d) = draft_ok d"
  by (simp add: draft_ok_def draftIds_eq markPipelineBuilderDraftSaved_def)

lemma wizard_drafts [simp]:
  "wz_draft (startSave onCreate onUpdate isSaving w) = wz_draft w" "wz_draft (goNext w) = wz_draft w" "wz_draft (goBack w) = wz_draft w"
  "draft_ok (wz_draft (finishSave n r w)) = draft_ok (wz_draft w)"
  by (auto simp: startSave_def goNext_def goBack_def finishSave_def Let_def split: option.splits)

lemma wizard_run_ok:
  "wizard_run catalog w0 saved w \<Longrightarrow> draft_ok (wz_draft w0) \<Longrightarrow> draft_ok (wz_draft w)"
proof (induction rule: wizard_run.induct)
  case (edited saved w d)
  then show ?case by (simp add: draft_edit_ok)
qed auto

section \<open>Chains\<close>

lemma zip_tl_nth: "(a, b) \<in> set (zip xs (tl xs)) \<Longrightarrow> \<exists>i. Suc i < length xs \<and> a = xs ! i \<and> b = xs ! Suc i"
proof -
  assume "(a, b) \<in> set (zip xs (tl xs))"
  then obtain n where "n < length (tl xs)" "a = xs ! n" "b = tl xs ! n" by (auto simp: in_set_zip)
  then show ?thesis by (intro exI [of _ n]) (simp add: nth_tl less_diff_conv)
qed

lemma chain_reaches:
  "i \<le> j \<Longrightarrow> j < length xs \<Longrightarrow> (xs ! i, xs ! j) \<in> (set (zip xs (tl xs)))\<^sup>*"
proof (induction j)
  case (Suc j)
  show ?case
  proof (cases "i = Suc j")
    case False
    with Suc have "(xs ! i, xs ! j) \<in> (set (zip xs (tl xs)))\<^sup>*" by simp
    moreover have "(xs ! j, xs ! Suc j) \<in> set (zip xs (tl xs))"
      using Suc.prems(2) by (auto simp: in_set_zip nth_tl intro!: exI [of _ j])
    ultimately show ?thesis by (rule rtrancl.rtrancl_into_rtrancl)
  qed simp
qed simp

lemma chain_acyclic: "distinct xs \<Longrightarrow> acyclic (set (zip xs (tl xs)))"
proof (induction xs)
  case (Cons a ys)
  show ?case
  proof (cases ys)
    case (Cons b zs)
    have "(b, a) \<notin> (set (zip ys (tl ys)))\<^sup>*"
    proof
      assume "(b, a) \<in> (set (zip ys (tl ys)))\<^sup>*"
      moreover have "b \<noteq> a" using Cons.prems Cons by auto
      ultimately have "a \<in> Range (set (zip ys (tl ys)))" by (auto elim: rtranclE)
      then have "a \<in> set ys" by (auto dest: set_zip_rightD list.set_sel(2) [rotated] simp: Cons)
      with Cons.prems show False by simp
    qed
    with Cons.IH Cons.prems Cons show ?thesis by (simp add: acyclic_insert)
  qed (simp add: acyclic_def)
qed (simp add: acyclic_def)

lemma derived_edges:
  "derivePipelineBuilderEdges ss = map (\<lambda>(a, b). \<lparr>pe_fromStepId = a, pe_toStepId = b\<rparr>) (zip (map ps_id ss) (tl (map ps_id ss)))"
  by (rule nth_equalityI) (auto simp: derivePipelineBuilderEdges_def nth_enumerate_eq nth_tl)

lemma derived_relation: "stepRelation (derivePipelineBuilderEdges ss) = set (zip (map ps_id ss) (tl (map ps_id ss)))"
  by (force simp: stepRelation_def derived_edges)

lemma zip_tl_distinct: "distinct xs \<Longrightarrow> distinct (zip xs (tl xs))"
  by (simp add: distinct_zipI1)

text \<open>A chain from one source to one export through transforms is a valid graph.\<close>

lemma chain_valid:
  assumes "ss = src # ts @ [ex]" and "ps_kind src = Source" and "ps_kind ex = Export"
    and "\<forall>t\<in>set ts. ps_kind t = Transform" and "distinct (map ps_id ss)"
  shows "valid_graph ss (derivePipelineBuilderEdges ss)"
proof -
  let ?ids = "map ps_id ss" and ?R = "set (zip (map ps_id ss) (tl (map ps_id ss)))"
  have ne: "?ids \<noteq> []" "0 < length ?ids" using assms(1) by simp_all
  have kinds: "kindIds Source ss = {hd ?ids}" "kindIds Export ss = {last ?ids}"
    using assms(1-4) by (auto simp: kindIds_def)
  have first: "(hd ?ids, x) \<in> ?R\<^sup>*" and final: "(x, last ?ids) \<in> ?R\<^sup>*" if "x \<in> ps_id ` set ss" for x
  proof -
    from that obtain i where i: "i < length ?ids" "x = ?ids ! i" by (auto simp: in_set_conv_nth)
    with chain_reaches [of 0 i ?ids] chain_reaches [of i "length ?ids - 1" ?ids]
    show "(hd ?ids, x) \<in> ?R\<^sup>*" "(x, last ?ids) \<in> ?R\<^sup>*"
      using ne by (simp_all add: hd_conv_nth last_conv_nth)
  qed
  have ends: "a \<in> set ?ids \<and> b \<in> set ?ids \<and> a \<noteq> last ?ids \<and> b \<noteq> hd ?ids" if "(a, b) \<in> ?R" for a b
  proof -
    from zip_tl_nth [OF that] obtain i where i: "Suc i < length ?ids" "a = ?ids ! i" "b = ?ids ! Suc i" by blast
    then have "a \<noteq> ?ids ! (length ?ids - 1)" "b \<noteq> ?ids ! 0"
      using nth_eq_iff_index_eq [OF assms(5), of i "length ?ids - 1"] nth_eq_iff_index_eq [OF assms(5), of "Suc i" 0]
      by (simp_all del: nth_map) (cases ss; simp)
    moreover have "a \<in> set ?ids" "b \<in> set ?ids" using i by (simp_all only: nth_mem Suc_lessD)
    ultimately show ?thesis using ne by (simp add: hd_conv_nth last_conv_nth)
  qed
  have edge: "(pe_fromStepId e, pe_toStepId e) \<in> ?R" if "e \<in> set (derivePipelineBuilderEdges ss)" for e
    using that by (auto simp: derived_edges)
  have "distinct (derivePipelineBuilderEdges ss)"
    unfolding derived_edges by (auto simp: distinct_map zip_tl_distinct [OF assms(5)] inj_on_def)
  moreover have "acyclic (stepRelation (derivePipelineBuilderEdges ss))"
    unfolding derived_relation by (rule chain_acyclic [OF assms(5)])
  ultimately show ?thesis
    unfolding valid_graph_def kinds using assms(5) first final ends [OF edge] by (auto simp: derived_relation)
qed

text \<open>The graph of a draft is valid exactly when the draft is complete.\<close>

lemma selection_step [simp]:
  "ps_id (pipelineStepFromSelection s) = bs_id s"
  "ps_kind (pipelineStepFromSelection s) = cm_kind (bs_metadata s)"
  by (simp_all add: pipelineStepFromSelection_def)

lemma derived_kindIds:
  "kindIds k (derivePipelineBuilderSteps d) = bs_id ` {s \<in> set (draftSelections d). cm_kind (bs_metadata s) = k}"
  by (force simp: kindIds_def derivePipelineBuilderSteps_def)

lemma derived_kinds:
  assumes "draft_ok d"
  shows "kindIds Source (derivePipelineBuilderSteps d) = {} \<longleftrightarrow> bd_source d = None"
    and "kindIds Export (derivePipelineBuilderSteps d) = {} \<longleftrightarrow> bd_export d = None"
  using assms
  by (cases "bd_source d"; cases "bd_export d";
      auto simp: derived_kindIds draftSelections_eq draft_ok_def list_all_iff)+

lemma derived_valid_iff:
  assumes "draft_ok d" and "derivePipelineBuilderGraph d = (steps, edges)"
  shows "valid_graph steps edges \<longleftrightarrow> isPipelineBuilderDraftComplete d"
proof
  have eq: "steps = derivePipelineBuilderSteps d" "edges = derivePipelineBuilderEdges steps"
    using assms(2) by (auto simp: derivePipelineBuilderGraph_def Let_def)
  {
    assume "valid_graph steps edges"
    then show "isPipelineBuilderDraftComplete d"
      using derived_kinds [OF assms(1)] by (simp add: valid_graph_def isPipelineBuilderDraftComplete_def eq(1))
  next
    assume "isPipelineBuilderDraftComplete d"
    then obtain src ex where s: "bd_source d = Some src" "bd_export d = Some ex"
      by (auto simp: isPipelineBuilderDraftComplete_def)
    then have steps: "steps = pipelineStepFromSelection src # map pipelineStepFromSelection (bd_transforms d) @ [pipelineStepFromSelection ex]"
      by (simp add: eq derivePipelineBuilderSteps_def draftSelections_eq)
    have "map ps_id steps = draftIds d" by (simp add: eq derivePipelineBuilderSteps_def draftIds_def)
    with assms(1) s show "valid_graph steps edges"
      unfolding eq(2) by (intro chain_valid [OF steps]) (auto simp: draft_ok_def list_all_iff)
  }
qed


section \<open>Resuming\<close>

declare orderLoop.simps [code]

lemma orderLoop_None [simp]: "orderLoop m n None acc = Some acc"
  by (subst orderLoop.simps) simp

lemma orderLoop_Some:
  "orderLoop m n (Some s) acc =
     orderLoop m n (case map_get n (ps_id s) of None \<Rightarrow> None | Some i \<Rightarrow> map_get m i) (acc @ [s])"
  by (subst orderLoop.simps) simp

lemma next_edge:
  assumes "map_get (map_of_entries pe_fromStepId pe_toStepId es) a = Some b"
  shows "(a, b) \<in> stepRelation es"
proof -
  from assms obtain e where "find (\<lambda>e. pe_fromStepId e = a) (rev es) = Some e" "b = pe_toStepId e"
    unfolding map_of_entries_def js_index.get_fold_put_empty by auto
  with find_mem [of "\<lambda>e. pe_fromStepId e = a" "rev es" e] show ?thesis by (auto simp: stepRelation_def)
qed

lemma step_of_id:
  assumes "map_get (map_of_entries ps_id (\<lambda>s. s) ss) a = Some s"
  shows "s \<in> set ss \<and> ps_id s = a"
proof -
  from assms obtain t where "find (\<lambda>t. ps_id t = a) (rev ss) = Some t" "s = t"
    unfolding map_of_entries_def js_index.get_fold_put_empty by auto
  with find_mem [of "\<lambda>t. ps_id t = a" "rev ss" t] show ?thesis by auto
qed

text \<open>On an acyclic graph the loop ends, with steps of the pipeline that each follow an edge.\<close>

lemma orderLoop_ends:
  assumes "acyclic (stepRelation es)"
  shows "\<exists>ordered. orderLoop (map_of_entries ps_id (\<lambda>s. s) ss) (map_of_entries pe_fromStepId pe_toStepId es) (Some s) acc =
    Some (acc @ s # ordered) \<and> set ordered \<subseteq> set ss"
proof -
  have "finite (stepRelation es)" by (simp add: stepRelation_def)
  then have "wf ((stepRelation es)\<inverse>)" using assms by (simp add: finite_acyclic_wf_converse)
  then show ?thesis
  proof (induction "ps_id s" arbitrary: s acc rule: wf_induct_rule)
    case less
    show ?case
    proof (cases "map_get (map_of_entries pe_fromStepId pe_toStepId es) (ps_id s)")
      case None
      then show ?thesis by (simp add: orderLoop_Some)
    next
      case (Some i)
      show ?thesis
      proof (cases "map_get (map_of_entries ps_id (\<lambda>s. s) ss) i")
        case None
        with Some show ?thesis by (simp add: orderLoop_Some)
      next
        case next': (Some t)
        have "(ps_id t, ps_id s) \<in> (stepRelation es)\<inverse>" using next_edge [OF Some] step_of_id [OF next'] by simp
        from less [OF this, of "acc @ [s]"] step_of_id [OF next'] Some next' show ?thesis
          by (subst orderLoop_Some) fastforce
      qed
    qed
  qed
qed

lemma orderStepsByEdges_ends:
  assumes "acyclic (stepRelation es)"
  shows "\<exists>ordered. orderStepsByEdges ss es = Some ordered \<and> set ordered \<subseteq> set ss"
proof (cases "find (\<lambda>step. ps_id step \<notin> set (set_of_list (map pe_toStepId es))) ss")
  case None
  then show ?thesis by (simp add: orderStepsByEdges_def Let_def)
next
  case (Some s)
  then have "s \<in> set ss" using find_mem by fast
  with Some orderLoop_ends [OF assms, of ss s "[]"] show ?thesis by (auto simp: orderStepsByEdges_def Let_def)
qed


text \<open>On a chain the loop visits the steps in order.\<close>

lemma orderLoop_chain:
  assumes "distinct (map ps_id (acc @ s # rest))"
    and "\<And>t. t \<in> set (acc @ s # rest) \<Longrightarrow> map_get m (ps_id t) = Some t"
    and "\<And>a b. (a, b) \<in> set (zip (map ps_id (s # rest)) (map ps_id rest)) \<Longrightarrow> map_get n a = Some b"
    and "map_get n (ps_id (last (s # rest))) = None"
  shows "orderLoop m n (Some s) acc = Some (acc @ s # rest)"
  using assms
proof (induction rest arbitrary: s acc)
  case Nil
  then show ?case by (simp add: orderLoop_Some)
next
  case (Cons t rest)
  have "map_get n (ps_id s) = Some (ps_id t)" "map_get m (ps_id t) = Some t"
    using Cons.prems(2,3) by auto
  moreover have "orderLoop m n (Some t) (acc @ [s]) = Some ((acc @ [s]) @ t # rest)"
    by (rule Cons.IH) (use Cons.prems in auto)
  ultimately show ?case by (simp add: orderLoop_Some)
qed

lemma get_entries_functional:
  assumes "e \<in> set es" and "\<And>e'. e' \<in> set es \<Longrightarrow> k e' = k e \<Longrightarrow> v e' = v e"
  shows "map_get (map_of_entries k v es) (k e) = Some (v e)"
proof -
  have "find (\<lambda>x. k x = k e) (rev es) \<noteq> None" using assms(1) by (auto simp: find_None_iff)
  then obtain e' where e': "find (\<lambda>x. k x = k e) (rev es) = Some e'" by auto
  with find_mem [OF e'] assms(2) have "v e' = v e" by auto
  with e' show ?thesis unfolding map_of_entries_def js_index.get_fold_put_empty by simp
qed

lemma get_entries_absent:
  "a \<notin> k ` set es \<Longrightarrow> map_get (map_of_entries k v es) a = None"
  unfolding map_of_entries_def js_index.get_fold_put_empty by (auto simp: find_None_iff)

text \<open>A pipeline whose edges are the neighbours of a listing of its steps is read back in that order.\<close>

lemma orderStepsByEdges_chain:
  assumes "set chain = set ss" and "distinct (map ps_id chain)" and "distinct (map ps_id ss)"
    and "stepRelation es = set (zip (map ps_id chain) (tl (map ps_id chain)))" and "ss \<noteq> []"
  shows "orderStepsByEdges ss es = Some chain"
proof -
  obtain s rest where c: "chain = s # rest" using assms(1,5) by (cases chain) auto
  let ?R = "set (zip (map ps_id chain) (tl (map ps_id chain)))"
  have edge: "(pe_fromStepId e, pe_toStepId e) \<in> ?R" if "e \<in> set es" for e
    using that assms(4) by (auto simp: stepRelation_def)
  have pos: "\<exists>i. Suc i < length chain \<and> a = ps_id (chain ! i) \<and> b = ps_id (chain ! Suc i)" if "(a, b) \<in> ?R" for a b
    using zip_tl_nth [OF that] by auto
  have inj: "i = j" if "i < length chain" "j < length chain" "ps_id (chain ! i) = ps_id (chain ! j)" for i j
    using nth_eq_iff_index_eq [OF assms(2), of i j] that by simp
  have targets: "pe_toStepId ` set es = set (map ps_id rest)"
  proof -
    have "snd ` ?R = set (map ps_id rest)" by (simp add: c flip: set_map add: map_snd_zip_take)
    moreover have "pe_toStepId ` set es = snd ` stepRelation es" by (force simp: stepRelation_def)
    ultimately show ?thesis by (simp add: assms(4))
  qed
  have s: "s \<in> set ss" "ps_id s \<notin> set (map ps_id rest)" using assms(1,2) c by auto
  have "find (\<lambda>step. ps_id step \<notin> set (set_of_list (map pe_toStepId es))) ss = Some s"
  proof (cases "find (\<lambda>step. ps_id step \<notin> set (set_of_list (map pe_toStepId es))) ss")
    case None
    with s targets show ?thesis by (auto simp: find_None_iff)
  next
    case (Some t)
    from find_mem [OF Some] targets assms(1) c have "t = s" by auto
    with Some show ?thesis by simp
  qed
  moreover have "orderLoop (map_of_entries ps_id (\<lambda>s. s) ss) (map_of_entries pe_fromStepId pe_toStepId es) (Some s) [] =
      Some ([] @ s # rest)"
  proof (rule orderLoop_chain)
    show "distinct (map ps_id ([] @ s # rest))" using assms(2) c by simp
    show "map_get (map_of_entries ps_id (\<lambda>s. s) ss) (ps_id t) = Some t" if "t \<in> set ([] @ s # rest)" for t
      using that assms(1,3) c by (intro get_entries_functional) (auto simp: distinct_map inj_on_def)
    show "map_get (map_of_entries pe_fromStepId pe_toStepId es) a = Some b"
      if "(a, b) \<in> set (zip (map ps_id (s # rest)) (map ps_id rest))" for a b
    proof -
      have "(a, b) \<in> stepRelation es" using that by (simp add: assms(4) c)
      then obtain e where e: "e \<in> set es" "a = pe_fromStepId e" "b = pe_toStepId e"
        by (auto simp: stepRelation_def)
      have same: "pe_toStepId e' = pe_toStepId e" if "e' \<in> set es" "pe_fromStepId e' = pe_fromStepId e" for e'
      proof -
        from pos [OF edge [OF that(1)]] obtain i where i: "Suc i < length chain"
          "pe_fromStepId e' = ps_id (chain ! i)" "pe_toStepId e' = ps_id (chain ! Suc i)" by blast
        from pos [OF edge [OF e(1)]] obtain j where j: "Suc j < length chain"
          "pe_fromStepId e = ps_id (chain ! j)" "pe_toStepId e = ps_id (chain ! Suc j)" by blast
        have "i = j" using i j that(2) by (intro inj) simp_all
        with i(3) j(3) show ?thesis by simp
      qed
      have "map_get (map_of_entries pe_fromStepId pe_toStepId es) (pe_fromStepId e) = Some (pe_toStepId e)"
        by (rule get_entries_functional [where k = pe_fromStepId and v = pe_toStepId and e = e, OF e(1)]) (rule same)
      with e(2,3) show ?thesis by simp
    qed
    show "map_get (map_of_entries pe_fromStepId pe_toStepId es) (ps_id (last (s # rest))) = None"
    proof (rule get_entries_absent)
      show "ps_id (last (s # rest)) \<notin> pe_fromStepId ` set es"
      proof
        assume "ps_id (last (s # rest)) \<in> pe_fromStepId ` set es"
        then obtain e where e: "e \<in> set es" "pe_fromStepId e = ps_id (last chain)" using c by auto
        have "last chain = chain ! (length chain - 1)" using c by (intro last_conv_nth) simp
        with pos [OF edge [OF e(1)]] e(2) obtain i where "Suc i < length chain" "ps_id (chain ! i) = ps_id (chain ! (length chain - 1))"
          by auto
        with inj [of i "length chain - 1"] show False by (cases chain) auto
      qed
    qed
  qed
  ultimately show ?thesis using assms(5) c by (simp add: orderStepsByEdges_def Let_def)
qed

section \<open>From a draft to a pipeline and back\<close>

definition selectionOf :: "ComponentMetadata \<Rightarrow> PipelineStep \<Rightarrow> PipelineBuilderComponentSelection" where
  "selectionOf m step =
     \<lparr>bs_id = ps_id step, bs_metadata = m, bs_secretBindings = cc_secretBindings (ps_configuration step),
      bs_values = cc_values (ps_configuration step)\<rparr>"

lemma resolveSelections_Some:
  "resolveSelections resolve ss = Some sels \<longleftrightarrow> list_all2 (\<lambda>s x. \<exists>m. resolve s = Some m \<and> x = selectionOf m s) ss sels"
  by (induction ss arbitrary: sels) (auto simp: list_all2_Cons1 selectionOf_def split: option.splits)

lemma selection_of_step: "selectionOf (bs_metadata s) (pipelineStepFromSelection s) = s"
  by (simp add: selectionOf_def pipelineStepFromSelection_def)

text \<open>A component that a step resolves to has its kind, type and version.\<close>

definition resolves_faithfully :: "(PipelineStep \<Rightarrow> ComponentMetadata option) \<Rightarrow> bool" where
  "resolves_faithfully resolve \<longleftrightarrow>
     (\<forall>s m. resolve s = Some m \<longrightarrow>
        cm_kind m = ps_kind s \<and> cm_type m = ps_componentType s \<and> cm_version m = ps_componentVersion s)"

lemma step_of_selection:
  "resolves_faithfully resolve \<Longrightarrow> resolve s = Some m \<Longrightarrow> pipelineStepFromSelection (selectionOf m s) = s"
  by (simp add: resolves_faithfully_def selectionOf_def pipelineStepFromSelection_def)

lemma metadata_resolver_faithful:
  "resolves_faithfully (createPipelineBuilderMetadataResolver (\<lambda>k. map_option (\<lambda>c. filterComponentCapabilities c (Some k)) (available k)))"
  unfolding resolves_faithfully_def
proof (intro allI impI)
  fix s m
  assume "createPipelineBuilderMetadataResolver (\<lambda>k. map_option (\<lambda>c. filterComponentCapabilities c (Some k)) (available k)) s = Some m"
  then obtain cs where "find (\<lambda>c. cm_type c = ps_componentType s \<and> cm_version c = ps_componentVersion s)
      (filterComponentCapabilities cs (Some (ps_kind s))) = Some m"
    by (auto simp: createPipelineBuilderMetadataResolver_def split: option.splits)
  from find_mem [OF this] show "cm_kind m = ps_kind s \<and> cm_type m = ps_componentType s \<and> cm_version m = ps_componentVersion s"
    by (simp add: filterComponentCapabilities_def)
qed

lemma selections_by_kind:
  assumes "sels = src # ts @ [ex]" and "cm_kind (bs_metadata src) = Source" and "cm_kind (bs_metadata ex) = Export"
    and "\<forall>t\<in>set ts. cm_kind (bs_metadata t) = Transform"
  shows "find (\<lambda>s. cm_kind (bs_metadata s) = Source) sels = Some src"
    and "find (\<lambda>s. cm_kind (bs_metadata s) = Export) sels = Some ex"
    and "filter (\<lambda>s. cm_kind (bs_metadata s) = Transform) sels = ts"
proof -
  have "find (\<lambda>s. cm_kind (bs_metadata s) = Export) ts = None" using assms(4) by (auto simp: find_None_iff)
  then show "find (\<lambda>s. cm_kind (bs_metadata s) = Source) sels = Some src"
    "find (\<lambda>s. cm_kind (bs_metadata s) = Export) sels = Some ex"
    using assms(1-3) by (simp_all add: find_append)
  show "filter (\<lambda>s. cm_kind (bs_metadata s) = Transform) sels = ts" using assms by simp
qed

section \<open>Samples\<close>

definition sampleDraft :: PipelineBuilderDraft where
  "sampleDraft =
     setPipelineBuilderExport (setPipelineBuilderSource
       (updatePipelineBuilderDraft createEmptyPipelineBuilderDraft (bd_name_update (\<lambda>_. '' Load '')))
       sampleSourceComponent ''s1'') sampleExportComponent ''s2''"

lemma sampleDraft_run: "wizard_run sampleCatalog (openWizard None None None) [] ((openWizard None None None)\<lparr>wz_draft := sampleDraft\<rparr>)"
proof -
  let ?w = "openWizard None None None"
  let ?a = "updatePipelineBuilderDraft createEmptyPipelineBuilderDraft (bd_name_update (\<lambda>_. '' Load ''))"
  let ?b = "setPipelineBuilderSource ?a sampleSourceComponent ''s1''"
  have w: "wz_draft ?w = createEmptyPipelineBuilderDraft" by (simp add: openWizard_def)
  have "wizard_run sampleCatalog ?w [] (?w\<lparr>wz_draft := ?a\<rparr>)"
    by (rule wizard_run.edited [OF wizard_run.opened]) (simp only: w draft_edit.changeName)
  then have "wizard_run sampleCatalog ?w [] (?w\<lparr>wz_draft := ?a\<rparr>\<lparr>wz_draft := ?b\<rparr>)"
  proof (rule wizard_run.edited)
    have "offered sampleCatalog Source sampleSourceComponent" "''s1'' \<notin> set (draftIds ?a)" by code_simp+
    then show "draft_edit sampleCatalog (wz_draft (?w\<lparr>wz_draft := ?a\<rparr>)) ?b" by (simp add: draft_edit.changeSource)
  qed
  then have "wizard_run sampleCatalog ?w [] (?w\<lparr>wz_draft := ?a\<rparr>\<lparr>wz_draft := ?b\<rparr>\<lparr>wz_draft := sampleDraft\<rparr>)"
  proof (rule wizard_run.edited)
    have "offered sampleCatalog Export sampleExportComponent" "''s2'' \<notin> set (draftIds ?b)" by code_simp+
    then show "draft_edit sampleCatalog (wz_draft (?w\<lparr>wz_draft := ?a\<rparr>\<lparr>wz_draft := ?b\<rparr>)) sampleDraft"
      unfolding sampleDraft_def by (simp add: draft_edit.changeExport)
  qed
  then show ?thesis by simp
qed

section \<open>Properties\<close>

text \<open>
  Property C25: however a draft was edited in the wizard, the graph check of the repository accepts the
  creation request built from it exactly when the draft is complete, that is when a Source and an
  Export are chosen. So an incomplete draft, which the wizard offers to save, is never accepted.
\<close>

theorem builder_requests_are_valid_iff_complete:
  assumes "wizard_run catalog (openWizard None pid stage) saved w"
    and "graph_ids_ok (derivePipelineBuilderSteps (wz_draft w))"
  shows "validatePipelineGraph (createPipelineCreateRequestFromDraft (wz_draft w)) = Return () \<longleftrightarrow>
    isPipelineBuilderDraftComplete (wz_draft w)"
proof -
  have ok: "draft_ok (wz_draft w)"
    by (rule wizard_run_ok [OF assms(1)]) (simp add: openWizard_def empty_draft_ok)
  have graph: "derivePipelineBuilderGraph (wz_draft w) = (cr_steps (createPipelineCreateRequestFromDraft (wz_draft w)),
      cr_edges (createPipelineCreateRequestFromDraft (wz_draft w)))"
    and steps: "cr_steps (createPipelineCreateRequestFromDraft (wz_draft w)) = derivePipelineBuilderSteps (wz_draft w)"
    by (simp_all add: createPipelineCreateRequestFromDraft_def derivePipelineBuilderGraph_def Let_def)
  show ?thesis
    using valid_graph_of_check [of "createPipelineCreateRequestFromDraft (wz_draft w)"] derived_valid_iff [OF ok graph]
      assms(2) by (simp add: steps)
qed

theorem builder_requests_are_valid_iff_complete_witness:
  "validatePipelineGraph (createPipelineCreateRequestFromDraft sampleDraft) = Return ()"
proof -
  have "graph_ids_ok (derivePipelineBuilderSteps sampleDraft)"
    by (simp add: graph_ids_ok_def sampleDraft_def derivePipelineBuilderSteps_def draftSelections_eq draft_defs
        createEmptyPipelineBuilderDraft_def pipelineStepFromSelection_def)
  moreover have "isPipelineBuilderDraftComplete sampleDraft" by code_simp
  ultimately show ?thesis
    using builder_requests_are_valid_iff_complete [OF sampleDraft_run] by simp
qed

lemma derived_steps_ids: "map ps_id (derivePipelineBuilderSteps d) = draftIds d"
  by (simp add: derivePipelineBuilderSteps_def draftIds_def)

text \<open>
  Property C26: a saved draft is resumed unchanged. When the pipeline carries the graph of a complete
  draft and every component of the draft is what its step resolves to, reading the pipeline back
  terminates and gives the same selections in the same order, with their configuration.
\<close>

theorem saved_drafts_resume_unchanged:
  assumes "draft_ok d" and "isPipelineBuilderDraftComplete d"
    and "p_steps p = fst (derivePipelineBuilderGraph d)" and "p_edges p = snd (derivePipelineBuilderGraph d)"
    and "\<forall>s\<in>set (draftSelections d). resolve (pipelineStepFromSelection s) = Some (bs_metadata s)"
  shows "createPipelineBuilderDraftFromPipeline p resolve =
    Some (Some (d\<lparr>bd_dirty := False, bd_name := p_name p\<rparr>))"
proof -
  from assms(2) obtain src ex where s: "bd_source d = Some src" "bd_export d = Some ex"
    by (auto simp: isPipelineBuilderDraftComplete_def)
  have sels: "draftSelections d = src # bd_transforms d @ [ex]" by (simp add: draftSelections_eq s)
  have steps: "p_steps p = derivePipelineBuilderSteps d" "p_edges p = derivePipelineBuilderEdges (derivePipelineBuilderSteps d)"
    by (simp_all add: assms(3,4) derivePipelineBuilderGraph_def Let_def)
  have ids: "distinct (map ps_id (derivePipelineBuilderSteps d))"
    using assms(1) by (simp add: derived_steps_ids draft_ok_def)
  have "orderStepsByEdges (p_steps p) (p_edges p) = Some (derivePipelineBuilderSteps d)"
    unfolding steps
    by (rule orderStepsByEdges_chain [OF refl ids ids derived_relation]) (simp add: derivePipelineBuilderSteps_def sels)
  moreover have "resolveSelections resolve (derivePipelineBuilderSteps d) = Some (draftSelections d)"
    unfolding resolveSelections_Some derivePipelineBuilderSteps_def
    using assms(5) by (auto simp: list_all2_conv_all_nth selection_of_step)
  moreover have "find (\<lambda>s. cm_kind (bs_metadata s) = Source) (draftSelections d) = Some src"
    "find (\<lambda>s. cm_kind (bs_metadata s) = Export) (draftSelections d) = Some ex"
    "filter (\<lambda>s. cm_kind (bs_metadata s) = Transform) (draftSelections d) = bd_transforms d"
    using assms(1) s by (intro selections_by_kind [OF sels]; auto simp: draft_ok_def list_all_iff)+
  ultimately show ?thesis using s by (simp add: createPipelineBuilderDraftFromPipeline_def)
qed

definition sampleSaved :: Pipeline where
  "sampleSaved = samplePipeline\<lparr>p_name := ''Load'', p_steps := derivePipelineBuilderSteps sampleDraft,
     p_edges := derivePipelineBuilderEdges (derivePipelineBuilderSteps sampleDraft)\<rparr>"

definition sampleResolver :: "PipelineStep \<Rightarrow> ComponentMetadata option" where
  "sampleResolver = createPipelineBuilderMetadataResolver (\<lambda>k. Some (filterComponentCapabilities sampleCatalog (Some k)))"

theorem saved_drafts_resume_unchanged_witness:
  "createPipelineBuilderDraftFromPipeline sampleSaved sampleResolver =
     Some (Some (sampleDraft\<lparr>bd_dirty := False, bd_name := ''Load''\<rparr>))"
proof -
  have "draft_ok sampleDraft"
    using wizard_run_ok [OF sampleDraft_run] by (simp add: openWizard_def empty_draft_ok)
  moreover have "isPipelineBuilderDraftComplete sampleDraft" by code_simp
  moreover have "\<forall>s\<in>set (draftSelections sampleDraft). sampleResolver (pipelineStepFromSelection s) = Some (bs_metadata s)"
    by code_simp
  ultimately show ?thesis
    using saved_drafts_resume_unchanged [of sampleDraft sampleSaved sampleResolver]
    by (simp add: sampleSaved_def derivePipelineBuilderGraph_def Let_def)
qed

text \<open>Steps listed along a chain of their identifiers, with the ends told by their kinds.\<close>

lemma steps_along:
  assumes "distinct (map ps_id steps)" and "set chain = ps_id ` set steps"
  obtains ss where "map ps_id ss = chain" and "set ss = set steps"
proof
  let ?ss = "map (inv_into (set steps) ps_id) chain"
  have inj: "inj_on ps_id (set steps)" using assms(1) by (simp add: distinct_map)
  show "map ps_id ?ss = chain" using assms(2) by (auto simp: comp_def f_inv_into_f intro: map_idI)
  show "set ?ss = set steps" using inv_into_image_cancel [OF inj, of "set steps"] assms(2) by simp
qed

lemma ends_by_kind:
  assumes "distinct (map ps_id ss)" and "ss \<noteq> []"
    and "kindIds Source ss = {ps_id (hd ss)}" and "kindIds Export ss = {ps_id (last ss)}"
  obtains src ts ex where "ss = src # ts @ [ex]" "ps_kind src = Source" "ps_kind ex = Export"
    "\<forall>t\<in>set ts. ps_kind t = Transform"
proof -
  have uniq: "s = t" if "s \<in> set ss" "t \<in> set ss" "ps_id s = ps_id t" for s t
    using assms(1) that by (auto simp: distinct_map inj_on_def)
  have kind: "s \<in> set ss \<Longrightarrow> ps_kind s = k \<longleftrightarrow> ps_id s \<in> kindIds k ss" for s k
    using uniq by (auto simp: kindIds_def)
  have ends: "ps_kind (hd ss) = Source" "ps_kind (last ss) = Export"
    using kind [of "hd ss" Source] kind [of "last ss" Export] assms(2-4) by simp_all
  obtain src rest where r: "ss = src # rest" using assms(2) by (cases ss) auto
  with ends have "rest \<noteq> []" by auto
  then obtain ts ex where t: "rest = ts @ [ex]" by (metis append_butlast_last_id)
  have "ps_kind t = Transform" if "t \<in> set ts" for t
  proof -
    have "t \<noteq> src" "t \<noteq> ex" using that assms(1) r t by auto
    then have "ps_kind t \<noteq> Source" "ps_kind t \<noteq> Export"
      using kind [of t Source] kind [of t Export] uniq [of t src] uniq [of t ex] that assms(3,4) r t by auto
    then show ?thesis by (cases "ps_kind t") auto
  qed
  with r t ends that show thesis by simp
qed

text \<open>A chain that was resumed is the chain of the draft.\<close>

lemma resumed_chain:
  assumes "resolves_faithfully resolve" and "ss = src # ts @ [ex]" and "ps_kind src = Source"
    and "ps_kind ex = Export" and "\<forall>t\<in>set ts. ps_kind t = Transform"
    and "orderStepsByEdges (p_steps p) (p_edges p) = Some ss"
    and "createPipelineBuilderDraftFromPipeline p resolve = Some (Some d)"
  shows "derivePipelineBuilderSteps d = ss"
proof -
  from assms(6,7) obtain sels where
    sels: "resolveSelections resolve ss = Some sels" and
    d: "d = \<lparr>bd_dirty = False, bd_export = find (\<lambda>s. cm_kind (bs_metadata s) = Export) sels, bd_name = p_name p,
          bd_source = find (\<lambda>s. cm_kind (bs_metadata s) = Source) sels,
          bd_transforms = filter (\<lambda>s. cm_kind (bs_metadata s) = Transform) sels\<rparr>"
    by (auto simp: createPipelineBuilderDraftFromPipeline_def)
  note all2 = sels [unfolded resolveSelections_Some]
  have steps: "map pipelineStepFromSelection sels = ss"
    using all2 step_of_selection [OF assms(1)] by (induction rule: list_all2_induct) auto
  with assms(2) obtain x ys z where x: "sels = x # ys @ [z]" "pipelineStepFromSelection x = src"
    "map pipelineStepFromSelection ys = ts" "pipelineStepFromSelection z = ex"
    by (auto simp: map_eq_Cons_conv map_eq_append_conv)
  have k: "cm_kind (bs_metadata x) = Source" "cm_kind (bs_metadata z) = Export"
    using assms(3,4) x(2,4) selection_step(2) by metis+
  have k': "\<forall>y\<in>set ys. cm_kind (bs_metadata y) = Transform"
    using assms(5) x(3) selection_step(2) by (metis imageI list.set_map)
  have "draftSelections d = sels"
    using selections_by_kind [OF x(1) k k'] by (simp add: d draftSelections_eq x(1))
  with steps show ?thesis by (simp add: derivePipelineBuilderSteps_def)
qed

text \<open>
  Resuming any pipeline whose graph passed the write check terminates. When the graph is
  one chain, as it is for every executable pipeline, the resumed draft has all of its steps, so saving
  it again sends the same steps and the same connections.
\<close>

theorem resuming_terminates_and_keeps_chains:
  assumes "valid_graph (p_steps p) (p_edges p)" and "resolves_faithfully resolve"
  shows "createPipelineBuilderDraftFromPipeline p resolve \<noteq> None \<and>
    (executable_pipeline \<lparr>ti_steps = p_steps p, ti_edges = p_edges p\<rparr> cs \<and>
       createPipelineBuilderDraftFromPipeline p resolve = Some (Some d) \<longrightarrow>
     set (derivePipelineBuilderSteps d) = set (p_steps p) \<and>
     stepRelation (derivePipelineBuilderEdges (derivePipelineBuilderSteps d)) = stepRelation (p_edges p))"
proof (rule conjI, goal_cases)
  case 1
  have "acyclic (stepRelation (p_edges p))" using assms(1) by (simp add: valid_graph_def)
  from orderStepsByEdges_ends [OF this, of "p_steps p"] show ?case
    by (auto simp: createPipelineBuilderDraftFromPipeline_def)
next
  case 2
  show ?case
  proof (rule impI, elim conjE)
    assume exec: "executable_pipeline \<lparr>ti_steps = p_steps p, ti_edges = p_edges p\<rparr> cs"
      and d: "createPipelineBuilderDraftFromPipeline p resolve = Some (Some d)"
    have ids: "distinct (map ps_id (p_steps p))" using assms(1) by (simp add: valid_graph_def)
    from executable_valid_chain [OF assms(1) exec] obtain chain where
      c: "chain \<noteq> []" "distinct chain" "set chain = ps_id ` set (p_steps p)"
        "stepRelation (p_edges p) = set (zip chain (tl chain))"
        "kindIds Source (p_steps p) = {hd chain}" "kindIds Export (p_steps p) = {last chain}"
      by (elim exE conjE) (rule that)
    obtain ss where ss: "map ps_id ss = chain" "set ss = set (p_steps p)" using steps_along [OF ids c(3)] by blast
    have ne: "ss \<noteq> []" using c(1) ss(1) by auto
    have "kindIds k ss = kindIds k (p_steps p)" for k using ss(2) by (simp add: kindIds_def)
    moreover have "hd chain = ps_id (hd ss)" "last chain = ps_id (last ss)"
      unfolding ss(1) [symmetric] using ne by (simp_all add: hd_map last_map)
    ultimately have kinds: "kindIds Source ss = {ps_id (hd ss)}" "kindIds Export ss = {ps_id (last ss)}"
      using c(5,6) by simp_all
    have dist: "distinct (map ps_id ss)" using c(2) ss(1) by simp
    have rel: "stepRelation (p_edges p) = set (zip (map ps_id ss) (tl (map ps_id ss)))" using c(4) ss(1) by simp
    obtain src ts ex where e: "ss = src # ts @ [ex]" "ps_kind src = Source" "ps_kind ex = Export"
      "\<forall>t\<in>set ts. ps_kind t = Transform"
      using ends_by_kind [OF dist ne kinds] by blast
    have "orderStepsByEdges (p_steps p) (p_edges p) = Some ss"
      by (rule orderStepsByEdges_chain [OF ss(2) dist ids rel]) (use ne ss(2) in auto)
    from resumed_chain [OF assms(2) e this d] show "set (derivePipelineBuilderSteps d) = set (p_steps p) \<and>
      stepRelation (derivePipelineBuilderEdges (derivePipelineBuilderSteps d)) = stepRelation (p_edges p)"
      using ss(2) rel by (simp add: derived_relation)
  qed
qed

lemma sampleSaved_valid: "valid_graph (p_steps sampleSaved) (p_edges sampleSaved)"
proof -
  have "draft_ok sampleDraft"
    using wizard_run_ok [OF sampleDraft_run] by (simp add: openWizard_def empty_draft_ok)
  moreover have "isPipelineBuilderDraftComplete sampleDraft" by code_simp
  ultimately show ?thesis
    using derived_valid_iff [of sampleDraft] by (simp add: sampleSaved_def derivePipelineBuilderGraph_def Let_def)
qed

lemma sampleResolver_faithful: "resolves_faithfully sampleResolver"
  using metadata_resolver_faithful [of "\<lambda>_. Some sampleCatalog"] by (simp add: sampleResolver_def)

theorem resuming_terminates_and_keeps_chains_witness:
  "createPipelineBuilderDraftFromPipeline sampleSaved sampleResolver \<noteq> None"
  using resuming_terminates_and_keeps_chains [OF sampleSaved_valid sampleResolver_faithful] by blast

text \<open>A pipeline with two parallel transforms between its Source and its Export.\<close>

definition sampleTransformComponent :: ComponentMetadata where
  "sampleTransformComponent = sampleExportComponent\<lparr>cm_kind := Transform, cm_type := ''map'', cm_outputFamilies := [FamilyTabular]\<rparr>"

definition branchPipeline :: Pipeline where
  "branchPipeline =
     (let step = (\<lambda>i m. pipelineStepFromSelection \<lparr>bs_id = i, bs_metadata = m, bs_secretBindings = [], bs_values = []\<rparr>);
          edge = (\<lambda>a b. \<lparr>pe_fromStepId = a, pe_toStepId = b\<rparr>)
      in samplePipeline
        \<lparr>p_steps := [step ''s1'' sampleSourceComponent, step ''t1'' sampleTransformComponent,
           step ''t2'' sampleTransformComponent, step ''s2'' sampleExportComponent],
         p_edges := [edge ''s1'' ''t1'', edge ''s1'' ''t2'', edge ''t1'' ''s2'', edge ''t2'' ''s2'']\<rparr>)"

definition branchRequest :: PipelineCreateRequest where
  "branchRequest = \<lparr>cr_contractVersion = ''v1'', cr_edges = p_edges branchPipeline, cr_name = ''Load'',
     cr_steps = p_steps branchPipeline, cr_triggers = []\<rparr>"

definition branchResolver :: "PipelineStep \<Rightarrow> ComponentMetadata option" where
  "branchResolver = createPipelineBuilderMetadataResolver
     (\<lambda>k. Some (filterComponentCapabilities (sampleTransformComponent # sampleCatalog) (Some k)))"

lemma branch_valid: "valid_graph (p_steps branchPipeline) (p_edges branchPipeline)"
proof -
  have "graph_ids_ok (cr_steps branchRequest)"
    by (simp add: graph_ids_ok_def branchRequest_def branchPipeline_def Let_def pipelineStepFromSelection_def)
  moreover have "validatePipelineGraph branchRequest = Return ()" by code_simp
  ultimately show ?thesis using valid_graph_of_check [of branchRequest] by (simp add: branchRequest_def)
qed

lemma branch_resumed:
  "case createPipelineBuilderDraftFromPipeline branchPipeline branchResolver of
     Some (Some d) \<Rightarrow> map bs_id (draftSelections d) = [''s1'', ''t2'', ''s2''] | _ \<Rightarrow> False"
  by code_simp

text \<open>
  Resuming is not faithful for every stored pipeline. There is a valid graph, with two
  parallel transforms, that resumes to a draft without one of its steps, so saving the draft deletes it.
\<close>

theorem resuming_drops_branches:
  "\<exists>p resolve d s. valid_graph (p_steps p) (p_edges p) \<and> resolves_faithfully resolve \<and>
     createPipelineBuilderDraftFromPipeline p resolve = Some (Some d) \<and>
     s \<in> set (p_steps p) \<and> s \<notin> set (derivePipelineBuilderSteps d)"
proof -
  obtain d where d: "createPipelineBuilderDraftFromPipeline branchPipeline branchResolver = Some (Some d)"
    "map bs_id (draftSelections d) = [''s1'', ''t2'', ''s2'']"
    using branch_resumed by (auto split: option.splits)
  let ?s = "p_steps branchPipeline ! 1"
  have "?s \<in> set (p_steps branchPipeline)" "ps_id ?s = ''t1''"
    by (simp_all add: branchPipeline_def Let_def pipelineStepFromSelection_def)
  moreover have "ps_id ` set (derivePipelineBuilderSteps d) = {''s1'', ''t2'', ''s2''}"
    using arg_cong [OF d(2), of set] by (simp add: derivePipelineBuilderSteps_def image_image)
  then have "''t1'' \<notin> ps_id ` set (derivePipelineBuilderSteps d)" by simp
  ultimately have "?s \<in> set (p_steps branchPipeline) \<and> ?s \<notin> set (derivePipelineBuilderSteps d)" by (metis imageI)
  moreover have "resolves_faithfully branchResolver"
    using metadata_resolver_faithful [of "\<lambda>_. Some (sampleTransformComponent # sampleCatalog)"] by (simp add: branchResolver_def)
  ultimately show ?thesis using branch_valid d(1) by blast
qed

text \<open>The wizard knows whether its pipeline exists: a creation is only in flight while it does not.\<close>

definition isCreation :: "save_request \<Rightarrow> bool" where
  "isCreation r = (case r of SaveCreate _ \<Rightarrow> True | SaveUpdate _ _ \<Rightarrow> False)"

definition creations :: "save_request list \<Rightarrow> nat" where
  "creations saved = length (filter isCreation saved)"

lemma wizard_creations:
  "wizard_run catalog w0 saved w \<Longrightarrow> wz_pending w0 = [] \<Longrightarrow> \<not> wz_saveInFlight w0 \<Longrightarrow>
     creations saved + of_bool (wz_pipelineId w0 \<noteq> None) \<le> of_bool (wz_pipelineId w \<noteq> None) \<and>
     length (wz_pending w) = of_bool (wz_saveInFlight w) \<and>
     list_all (\<lambda>r. isCreation r \<longleftrightarrow> wz_pipelineId w = None) (wz_pending w)"
proof (induction rule: wizard_run.induct)
  case (moved saved w w')
  then show ?case by (auto simp: goNext_def goBack_def split: option.splits)
next
  case (started saved w onCreate onUpdate isSaving)
  then show ?case by (auto simp: startSave_def isCreation_def split: option.splits)
next
  case (failed saved w n)
  then show ?case by (cases "wz_pending w"; cases n) (auto simp: finishSave_def Let_def of_bool_def split: if_splits)
next
  case (succeeded saved w n i)
  then show ?case
    by (cases "wz_pending w"; cases n) (auto simp: finishSave_def Let_def creations_def of_bool_def split: if_splits)
qed (auto simp: creations_def)

text \<open>
  Property C27: however edits, stage changes and saves interleave in the wizard, at most one creation
  succeeds, and none does when the wizard was opened for an existing pipeline. There is never more than
  one request without an answer, and none that would create a second pipeline.
\<close>

theorem wizard_creates_at_most_once:
  assumes "wizard_run catalog (openWizard d0 pid0 stage) saved w"
  shows "creations saved \<le> (if pid0 = None then 1 else 0) \<and> length (wz_pending w) \<le> 1 \<and>
    (creations saved = 1 \<longrightarrow> wz_pipelineId w \<noteq> None \<and> (\<forall>r\<in>set (wz_pending w). \<not> isCreation r))"
  using wizard_creations [OF assms]
  by (cases "wz_pipelineId w"; cases pid0) (auto simp: openWizard_def list_all_iff of_bool_def)

theorem wizard_creates_at_most_once_witness:
  "\<exists>saved w. wizard_run sampleCatalog (openWizard None None None) saved w \<and> creations saved = 1 \<and>
     wz_pipelineId w \<noteq> None"
proof -
  let ?w = "(openWizard None None None)\<lparr>wz_draft := sampleDraft\<rparr>"
  let ?r = "SaveCreate (createPipelineCreateRequestFromDraft sampleDraft)"
  let ?s = "startSave True True False ?w"
  have "isPipelineBuilderDraftPersistable sampleDraft" by code_simp
  then have pending: "wz_pending ?s = [?r]" by (simp add: startSave_def canSave_def openWizard_def)
  then have "0 < length (wz_pending ?s)" by simp
  then have run: "wizard_run sampleCatalog (openWizard None None None) ([] @ [wz_pending ?s ! 0]) (finishSave 0 (Some ''g0'') ?s)"
    by (rule wizard_run.succeeded [OF wizard_run.started [OF sampleDraft_run]])
  moreover have "creations ([] @ [wz_pending ?s ! 0]) = 1" by (simp add: pending creations_def isCreation_def)
  ultimately show ?thesis using wizard_creates_at_most_once [OF run] by blast
qed

end
