(* ===== verification/Builder_Catalog.thy ===== *)
theory Builder_Catalog
  imports Web_Client Pipeline_Builder
begin

text \<open>
  What the builder reads and supplies besides the draft: the component catalog
  (\<open>apps/web/src/capabilities/collection-route.ts\<close> and \<open>data/components/api.ts\<close>, with the documents
  of component metadata), the upload client and its control (\<open>data/uploads/api.ts\<close>,
  \<open>component-source-file-field.tsx\<close>), and the write-only secret fields
  (\<open>component-secret-binding-fields.tsx\<close>). The catalog compiled into a release and the parsed query
  of a URL are arguments, and so is the service that stores a secret.
\<close>

section \<open>Documents of component metadata\<close>

fun familyName :: "DataFamily \<Rightarrow> string" where
  "familyName FamilyAny = ''any''"
| "familyName FamilyDocument = ''document''"
| "familyName FamilyTabular = ''tabular''"
| "familyName FamilyFile = ''file''"

fun fieldTypeName :: "ConfigFieldType \<Rightarrow> string" where
  "fieldTypeName TextField = ''text''"
| "fieldTypeName TextareaField = ''textarea''"
| "fieldTypeName NumberField = ''number''"
| "fieldTypeName BooleanField = ''boolean''"
| "fieldTypeName SelectField = ''select''"
| "fieldTypeName JsonField = ''json''"
| "fieldTypeName FileField = ''file''"

fun widthName :: "ConfigFieldWidth \<Rightarrow> string" where
  "widthName ShortWidth = ''short''"
| "widthName MediumWidth = ''medium''"
| "widthName FullWidth = ''full''"

definition optionJson :: "ConfigOption \<Rightarrow> json" where
  "optionJson x = JObj [(''value'', JStr (co_value x)), (''labelKey'', JStr (co_labelKey x))]"

definition configFieldJson :: "ConfigField \<Rightarrow> json" where
  "configFieldJson f = JObj
     ([(''key'', JStr (cf_key f)), (''type'', JStr (fieldTypeName (cf_type f))), (''labelKey'', JStr (cf_labelKey f))] @
      optionalEntry ''descriptionKey'' JStr (cf_descriptionKey f) @
      optionalEntry ''placeholderKey'' JStr (cf_placeholderKey f) @
      [(''required'', JBool (cf_required f)), (''secret'', JBool (cf_secret f))] @
      optionalEntry ''width'' (\<lambda>w. JStr (widthName w)) (cf_width f) @
      optionalEntry ''defaultValue'' id (cf_defaultValue f) @
      optionalEntry ''options'' (\<lambda>xs. JArr (map optionJson xs)) (cf_options f))"

definition metadataJson :: "ComponentMetadata \<Rightarrow> json" where
  "metadataJson m = JObj
     [(''kind'', JStr (kindName (cm_kind m))), (''type'', JStr (cm_type m)), (''version'', JStr (cm_version m)),
      (''displayNameKey'', JStr (cm_displayNameKey m)), (''descriptionKey'', JStr (cm_descriptionKey m)),
      (''configFields'', JArr (map configFieldJson (cm_configFields m))),
      (''inputFamilies'', JArr (map (\<lambda>f. JStr (familyName f)) (cm_inputFamilies m))),
      (''outputFamilies'', JArr (map (\<lambda>f. JStr (familyName f)) (cm_outputFamilies m)))]"

definition decodeFamily :: "json \<Rightarrow> DataFamily option" where
  "decodeFamily = asLiteral [(''any'', FamilyAny), (''document'', FamilyDocument), (''tabular'', FamilyTabular), (''file'', FamilyFile)]"

definition decodeFieldType :: "json \<Rightarrow> ConfigFieldType option" where
  "decodeFieldType = asLiteral [(''text'', TextField), (''textarea'', TextareaField), (''number'', NumberField),
     (''boolean'', BooleanField), (''select'', SelectField), (''json'', JsonField), (''file'', FileField)]"

definition decodeWidth :: "json \<Rightarrow> ConfigFieldWidth option" where
  "decodeWidth = asLiteral [(''short'', ShortWidth), (''medium'', MediumWidth), (''full'', FullWidth)]"

fun decodeDefault :: "json \<Rightarrow> json option" where
  "decodeDefault (JStr s) = Some (JStr s)"
| "decodeDefault (JNum x) = Some (JNum x)"
| "decodeDefault (JBool b) = Some (JBool b)"
| "decodeDefault _ = None"

definition decodeOption :: "json \<Rightarrow> ConfigOption option" where
  "decodeOption j = do {
     kvs \<leftarrow> strictObject [''value'', ''labelKey''] [] j;
     v \<leftarrow> field kvs ''value'' asString;
     l \<leftarrow> field kvs ''labelKey'' asString;
     Some \<lparr>co_value = v, co_labelKey = l\<rparr> }"

definition decodeConfigField :: "json \<Rightarrow> ConfigField option" where
  "decodeConfigField j = do {
     kvs \<leftarrow> strictObject [''key'', ''type'', ''labelKey'', ''required'', ''secret'']
       [''descriptionKey'', ''placeholderKey'', ''width'', ''defaultValue'', ''options''] j;
     k \<leftarrow> field kvs ''key'' asString;
     t \<leftarrow> field kvs ''type'' decodeFieldType;
     l \<leftarrow> field kvs ''labelKey'' asString;
     d \<leftarrow> optionalField kvs ''descriptionKey'' asString;
     p \<leftarrow> optionalField kvs ''placeholderKey'' asString;
     r \<leftarrow> field kvs ''required'' asBool;
     s \<leftarrow> field kvs ''secret'' asBool;
     w \<leftarrow> optionalField kvs ''width'' decodeWidth;
     v \<leftarrow> optionalField kvs ''defaultValue'' decodeDefault;
     xs \<leftarrow> optionalField kvs ''options'' (asArray decodeOption);
     Some \<lparr>cf_key = k, cf_type = t, cf_labelKey = l, cf_descriptionKey = d, cf_placeholderKey = p, cf_required = r,
       cf_secret = s, cf_width = w, cf_defaultValue = v, cf_options = xs\<rparr> }"

definition decodeMetadata :: "json \<Rightarrow> ComponentMetadata option" where
  "decodeMetadata j = do {
     kvs \<leftarrow> strictObject [''kind'', ''type'', ''version'', ''displayNameKey'', ''descriptionKey'', ''configFields'',
       ''inputFamilies'', ''outputFamilies''] [] j;
     k \<leftarrow> field kvs ''kind'' decodeKind;
     t \<leftarrow> field kvs ''type'' asString;
     v \<leftarrow> field kvs ''version'' asString;
     n \<leftarrow> field kvs ''displayNameKey'' asString;
     d \<leftarrow> field kvs ''descriptionKey'' asString;
     fs \<leftarrow> field kvs ''configFields'' (asArray decodeConfigField);
     ins \<leftarrow> field kvs ''inputFamilies'' (asArray decodeFamily);
     outs \<leftarrow> field kvs ''outputFamilies'' (asArray decodeFamily);
     Some \<lparr>cm_kind = k, cm_type = t, cm_version = v, cm_displayNameKey = n, cm_descriptionKey = d, cm_configFields = fs,
       cm_inputFamilies = ins, cm_outputFamilies = outs\<rparr> }"

text \<open>The pattern of a field key and the constraints of the canonical schema.\<close>

definition fieldKey_ok :: "string \<Rightarrow> bool" where
  "fieldKey_ok s = (case s of [] \<Rightarrow> False
     | c # cs \<Rightarrow> is_lower c \<and> list_all (\<lambda>c. is_lower c \<or> is_upper c \<or> is_digit c \<or> c = CHR ''_'') cs)"

fun defaultValue_ok :: "json \<Rightarrow> bool" where
  "defaultValue_ok (JStr _) = True"
| "defaultValue_ok (JNum _) = True"
| "defaultValue_ok (JBool _) = True"
| "defaultValue_ok _ = False"

definition configFieldSchema_ok :: "ConfigField \<Rightarrow> bool" where
  "configFieldSchema_ok f \<longleftrightarrow>
     fieldKey_ok (cf_key f) \<and> cf_labelKey f \<noteq> [] \<and> pred_option (\<lambda>s. s \<noteq> []) (cf_descriptionKey f) \<and>
     pred_option (\<lambda>s. s \<noteq> []) (cf_placeholderKey f) \<and> pred_option defaultValue_ok (cf_defaultValue f) \<and>
     pred_option (list_all (\<lambda>x. co_value x \<noteq> [] \<and> co_labelKey x \<noteq> [])) (cf_options f)"

definition componentMetadataSchema_ok :: "ComponentMetadata \<Rightarrow> bool" where
  "componentMetadataSchema_ok m \<longleftrightarrow>
     componentTypeSchema_ok (cm_type m) \<and> versionSchema_ok (cm_version m) \<and> cm_displayNameKey m \<noteq> [] \<and>
     cm_descriptionKey m \<noteq> [] \<and> list_all configFieldSchema_ok (cm_configFields m)"

definition componentMetadataSchema :: "json \<Rightarrow> ComponentMetadata option" where
  "componentMetadataSchema j = checked componentMetadataSchema_ok (decodeMetadata j)"

definition componentCapabilityListRequestSchema :: "json \<Rightarrow> ComponentKind option option" where
  "componentCapabilityListRequestSchema j =
     Option.bind (strictObject [] [''kind''] j) (\<lambda>kvs. optionalField kvs ''kind'' decodeKind)"

definition componentCapabilityListResponseSchema :: "json \<Rightarrow> ComponentMetadata list option" where
  "componentCapabilityListResponseSchema j =
     Option.bind (strictObject [''components''] [] j) (\<lambda>kvs. field kvs ''components'' (asArray componentMetadataSchema))"

section \<open>The catalog route\<close>

type_synonym query = "(string \<times> string) list"

definition readCapabilityRequest :: "query \<Rightarrow> json" where
  "readCapabilityRequest search =
     (if list_ex (\<lambda>key. key \<noteq> ''kind'') (map fst search) \<or> length (filter (\<lambda>(key, _). key = ''kind'') search) > 1 then JNull
      else (case map_of search ''kind'' of None \<Rightarrow> JObj [] | Some kind \<Rightarrow> JObj [(''kind'', JStr kind)]))"

definition invalidCapabilityRequestResponse :: response where
  "invalidCapabilityRequestResponse = codeResponse ''invalid_component_capability_request'' 400"

definition capabilityGET ::
  "ComponentMetadata list \<Rightarrow> SessionUser option \<Rightarrow> query \<Rightarrow> (web_error, response) result" where
  "capabilityGET builtInComponentCapabilities session search =
     (case getApiSession session of
        None \<Rightarrow> Return \<lparr>re_status = 401, re_body = None\<rparr>
      | Some _ \<Rightarrow>
          (case componentCapabilityListRequestSchema (readCapabilityRequest search) of
             None \<Rightarrow> Return invalidCapabilityRequestResponse
           | Some kind \<Rightarrow>
               (let components = filterComponentCapabilities builtInComponentCapabilities kind
                in if list_all componentMetadataSchema_ok components
                   then Return \<lparr>re_status = 200, re_body = Some (JObj [(''components'', JArr (map metadataJson components))])\<rparr>
                   else Throw ResponseContractFailure)))"

section \<open>The catalog client\<close>

datatype capability_error = ComponentCapabilityApiError string "nat option"

definition capabilityErrorCode :: "response \<Rightarrow> string" where
  "capabilityErrorCode response =
     (if re_status response = 401 then ''unauthenticated''
      else (case re_body response of
          Some (JObj kvs) \<Rightarrow>
            if map_of kvs ''code'' = Some (JStr ''invalid_component_capability_request'')
            then ''invalid_component_capability_request'' else ''unknown_error''
        | _ \<Rightarrow> ''unknown_error''))"

definition capabilityList ::
  "(query \<Rightarrow> response option) \<Rightarrow> ComponentKind option \<Rightarrow> (capability_error, ComponentMetadata list) result" where
  "capabilityList requestFetch kind =
     (case requestFetch (case kind of None \<Rightarrow> [] | Some k \<Rightarrow> [(''kind'', kindName k)]) of
        None \<Rightarrow> Throw (ComponentCapabilityApiError ''network_error'' None)
      | Some response \<Rightarrow>
          if 200 \<le> re_status response \<and> re_status response \<le> 299
          then (case Option.bind (re_body response) componentCapabilityListResponseSchema of
                  None \<Rightarrow> Throw (ComponentCapabilityApiError ''invalid_response'' (Some (re_status response)))
                | Some components \<Rightarrow> Return components)
          else Throw (ComponentCapabilityApiError (capabilityErrorCode response) (Some (re_status response))))"

text \<open>The route behind \<open>fetch\<close>; a handler that throws is answered with status 500.\<close>

definition catalogFetch :: "ComponentMetadata list \<Rightarrow> SessionUser option \<Rightarrow> query \<Rightarrow> response option" where
  "catalogFetch catalog session search =
     Some (case capabilityGET catalog session search of Inl _ \<Rightarrow> \<lparr>re_status = 500, re_body = None\<rparr> | Inr response \<Rightarrow> response)"

section \<open>The upload client and its control\<close>

record SourceUploadResponse =
  sr_sourcePath :: string
  sr_fileName :: string
  sr_byteSize :: int
  sr_expiresAt :: string

fun asInteger :: "json \<Rightarrow> int option" where
  "asInteger (JNum x) = (if js_isInteger x then Some \<lfloor>x\<rfloor> else None)"
| "asInteger _ = None"

definition sourceUploadResponseSchema :: "zod_formats \<Rightarrow> json \<Rightarrow> SourceUploadResponse option" where
  "sourceUploadResponseSchema zf j =
     checked (\<lambda>r. sourceUploadResponseSchema_ok zf (sr_sourcePath r) (sr_fileName r) (sr_byteSize r) (sr_expiresAt r))
       (do {
          kvs \<leftarrow> strictObject [''sourcePath'', ''fileName'', ''byteSize'', ''expiresAt''] [] j;
          p \<leftarrow> field kvs ''sourcePath'' asString;
          n \<leftarrow> field kvs ''fileName'' asString;
          b \<leftarrow> field kvs ''byteSize'' asInteger;
          e \<leftarrow> field kvs ''expiresAt'' asString;
          Some \<lparr>sr_sourcePath = p, sr_fileName = n, sr_byteSize = b, sr_expiresAt = e\<rparr> })"

datatype source_upload_error = SourceUploadApiError string "nat option"

definition uploadErrorCode :: "nat \<Rightarrow> string" where
  "uploadErrorCode status =
     (if status = 401 then ''unauthenticated'' else if status = 413 then ''upload_too_large''
      else if status = 415 then ''unsupported_upload_type'' else if status = 503 then ''upload_storage_unavailable''
      else ''unknown_error'')"

definition clientUpload :: "zod_formats \<Rightarrow> response option \<Rightarrow> (source_upload_error, SourceUploadResponse) result" where
  "clientUpload zf fetched =
     (case fetched of
        None \<Rightarrow> Throw (SourceUploadApiError ''network_error'' None)
      | Some response \<Rightarrow>
          if \<not> (200 \<le> re_status response \<and> re_status response \<le> 299)
          then Throw (SourceUploadApiError (uploadErrorCode (re_status response)) (Some (re_status response)))
          else (case Option.bind (re_body response) (sourceUploadResponseSchema zf) of
                  None \<Rightarrow> Throw (SourceUploadApiError ''invalid_response'' (Some (re_status response)))
                | Some staged \<Rightarrow> Return staged))"

definition UPLOAD_ERROR_KEYS :: "(string \<times> string) list" where
  "UPLOAD_ERROR_KEYS =
     [(''invalid_response'', ''component.form.upload.error.unknown''),
      (''network_error'', ''component.form.upload.error.network''),
      (''unauthenticated'', ''component.form.upload.error.unauthenticated''),
      (''unknown_error'', ''component.form.upload.error.unknown''),
      (''unsupported_upload_type'', ''component.form.upload.error.unsupportedType''),
      (''upload_storage_unavailable'', ''component.form.upload.error.storageUnavailable''),
      (''upload_too_large'', ''component.form.upload.error.tooLarge'')]"

text \<open>The state of the control beside the values of the surrounding form.\<close>

record file_field =
  ff_uploading :: bool
  ff_statusKey :: "string option"
  ff_failed :: bool

type_synonym form_values = "(string \<times> json) list"

definition startUpload :: "file_field \<Rightarrow> file_field" where
  "startUpload f = f\<lparr>ff_uploading := True, ff_statusKey := None, ff_failed := False\<rparr>"

text \<open>
  \<open>onChange\<close> of the control is \<open>updateValue\<close> of the form for the key of the field. An upload that
  completes calls the function of the rendering in which it was started, so that \<open>startValues\<close> are the
  values of the form at that moment.
\<close>

definition finishUpload ::
  "ComponentMetadata \<Rightarrow> string \<Rightarrow> form_values \<Rightarrow> (source_upload_error, SourceUploadResponse) result \<Rightarrow>
   file_field \<times> form_values \<Rightarrow> file_field \<times> form_values" where
  "finishUpload metadata key startValues outcome fv = (case fv of (f, values) \<Rightarrow>
     (case outcome of
        Inr staged \<Rightarrow>
          (f\<lparr>ff_statusKey := Some ''component.form.upload.succeeded'', ff_uploading := False\<rparr>,
           formUpdateValue metadata startValues key (Some (JStr (sr_sourcePath staged))))
      | Inl (SourceUploadApiError errorCode _) \<Rightarrow>
          (f\<lparr>ff_failed := True, ff_statusKey := map_of UPLOAD_ERROR_KEYS errorCode, ff_uploading := False\<rparr>, values)))"

definition changePath :: "ComponentMetadata \<Rightarrow> string \<Rightarrow> string \<Rightarrow> form_values \<Rightarrow> form_values" where
  "changePath metadata key text values =
     formUpdateValue metadata values key (if length text = 0 then None else Some (JStr text))"

section \<open>Write-only secrets\<close>

definition replaceSecretBinding :: "SecretBinding list \<Rightarrow> SecretBinding \<Rightarrow> SecretBinding list" where
  "replaceSecretBinding bindings replacement =
     filter (\<lambda>b. sb_key b \<noteq> sb_key replacement) bindings @ [replacement]"

record secret_field =
  sf_value :: string
  sf_error :: "string option"
  sf_isSaving :: bool

record SecretReplacementRequest =
  sq_existingBinding :: "string option"
  sq_key :: string
  sq_value :: string

text \<open>
  \<open>submit\<close> up to the request, and its continuation with the answer of the secret service. The
  continuation replaces a binding in the list that was rendered when the secret was submitted.
\<close>

definition submitSecret ::
  "bool \<Rightarrow> string \<Rightarrow> SecretBinding list \<Rightarrow> secret_field \<Rightarrow> secret_field \<times> SecretReplacementRequest option" where
  "submitSecret disabled fieldKey secretBindings f =
     (if length (sf_value f) = 0 \<or> disabled \<or> sf_isSaving f
      then (if length (sf_value f) = 0 then f\<lparr>sf_error := Some ''component.secret.required''\<rparr> else f, None)
      else (f\<lparr>sf_error := None, sf_isSaving := True\<rparr>,
        Some \<lparr>sq_existingBinding = map_option sb_binding (find (\<lambda>b. sb_key b = fieldKey) secretBindings),
          sq_key = fieldKey, sq_value = sf_value f\<rparr>))"

definition finishSecret ::
  "SecretBinding list \<Rightarrow> SecretBinding option \<Rightarrow> secret_field \<times> SecretBinding list \<Rightarrow> secret_field \<times> SecretBinding list" where
  "finishSecret submittedBindings answer fb = (case fb of (f, secretBindings) \<Rightarrow>
     (case answer of
        Some nextBinding \<Rightarrow> (f\<lparr>sf_value := [], sf_isSaving := False\<rparr>, replaceSecretBinding submittedBindings nextBinding)
      | None \<Rightarrow> (f\<lparr>sf_error := Some ''component.secret.saveError'', sf_isSaving := False\<rparr>, secretBindings)))"

section \<open>Lemmas\<close>

lemma decodeFamily_inverse [simp]: "decodeFamily (JStr (familyName f)) = Some f"
  by (cases f) (simp_all add: decodeFamily_def asLiteral_def)

lemma decodeFieldType_inverse [simp]: "decodeFieldType (JStr (fieldTypeName t)) = Some t"
  by (cases t) (simp_all add: decodeFieldType_def asLiteral_def)

lemma decodeWidth_inverse [simp]: "decodeWidth (JStr (widthName w)) = Some w"
  by (cases w) (simp_all add: decodeWidth_def asLiteral_def)

lemma decodeDefault_inverse: "decodeDefault j = (if defaultValue_ok j then Some j else None)"
  by (cases j) simp_all

lemma decodeOption_inverse [simp]: "decodeOption (optionJson x) = Some x"
  by (simp add: decodeOption_def optionJson_def shape_defs)

lemma decodeConfigField_inverse:
  assumes "configFieldSchema_ok f"
  shows "decodeConfigField (configFieldJson f) = Some f"
proof -
  have "pred_option defaultValue_ok (cf_defaultValue f)" using assms by (simp add: configFieldSchema_ok_def)
  then show ?thesis
    by (cases "cf_descriptionKey f"; cases "cf_placeholderKey f"; cases "cf_width f"; cases "cf_defaultValue f"; cases "cf_options f")
      (simp_all add: decodeConfigField_def configFieldJson_def optionalEntry_def shape_defs asArray_map decodeDefault_inverse)
qed

lemma asArray_map_ok: "(\<And>x. x \<in> set xs \<Longrightarrow> dec (enc x) = Some x) \<Longrightarrow> asArray dec (JArr (map enc xs)) = Some xs"
  by (induction xs) (auto simp: asArray_def)

lemma componentMetadataSchema_inverse:
  assumes "componentMetadataSchema_ok m"
  shows "componentMetadataSchema (metadataJson m) = Some m"
proof -
  have "asArray decodeConfigField (JArr (map configFieldJson (cm_configFields m))) = Some (cm_configFields m)"
    using assms by (intro asArray_map_ok decodeConfigField_inverse) (auto simp: componentMetadataSchema_ok_def list_all_iff)
  then have "decodeMetadata (metadataJson m) = Some m"
    by (simp add: decodeMetadata_def metadataJson_def shape_defs asArray_map)
  with assms show ?thesis by (simp add: componentMetadataSchema_def checked_Some)
qed

lemma capability_request: "componentCapabilityListRequestSchema
    (readCapabilityRequest (case kind of None \<Rightarrow> [] | Some k \<Rightarrow> [(''kind'', kindName k)])) = Some kind"
  by (cases kind) (simp_all add: componentCapabilityListRequestSchema_def readCapabilityRequest_def shape_defs)

lemma map_of_filter_keys: "map_of (filter (\<lambda>(k, _). P k) kvs) x = (if P x then map_of kvs x else None)"
  by (induction kvs) auto

lemma sanitize_lookup:
  "map_of (sanitizeNonSecretConfigurationValues metadata values) k =
     (if k \<in> cf_key ` {f \<in> set (cm_configFields metadata). \<not> cf_secret f} then map_of values k else None)"
  by (auto simp: sanitizeNonSecretConfigurationValues_def Let_def map_of_filter_keys)

lemma formUpdateValue_lookup:
  "map_of (formUpdateValue metadata values key v) k =
     (if k \<in> cf_key ` {f \<in> set (cm_configFields metadata). \<not> cf_secret f}
      then if k = key then v else map_of values k else None)"
  unfolding formUpdateValue_def Let_def
  by (cases v) (simp_all add: sanitize_lookup map_of_filter_keys map_put_def update_conv)

lemma replaceSecretBinding_keys:
  "distinct (map sb_key bindings) \<Longrightarrow> distinct (map sb_key (replaceSecretBinding bindings b))"
  by (auto simp: replaceSecretBinding_def distinct_map_filter)

lemma replaceSecretBinding_find:
  "find (\<lambda>x. sb_key x = k) (replaceSecretBinding bindings b) =
     (if k = sb_key b then Some b else find (\<lambda>x. sb_key x = k) bindings)"
  by (induction bindings) (auto simp: replaceSecretBinding_def)

lemma uploadSchema_inverse:
  "sourceUploadResponseSchema zf (JObj [(''sourcePath'', JStr p), (''fileName'', JStr n), (''byteSize'', JNum (of_int b)),
     (''expiresAt'', JStr e)]) =
   (if sourceUploadResponseSchema_ok zf p n b e
    then Some \<lparr>sr_sourcePath = p, sr_fileName = n, sr_byteSize = b, sr_expiresAt = e\<rparr> else None)"
  by (simp add: sourceUploadResponseSchema_def shape_defs)

lemma accepted_upload_schema:
  assumes "sourceUploadRoute zf denied R uuid gen dbNow session (Some upload) now (fs, db) = ((fs', db'), Return r)"
    and "re_status r = 201" and "re_body r = Some (JObj [(''sourcePath'', JStr p), (''fileName'', JStr (uf_name upload)),
      (''byteSize'', JNum (of_int (uf_byteLength upload))), (''expiresAt'', JStr e)])"
  shows "sourceUploadResponseSchema_ok zf p (uf_name upload) (uf_byteLength upload) e"
  using assms
  by (auto simp: sourceUploadRoute_def uploadRejectedResponse_def Let_def split: option.splits if_splits prod.splits sum.splits)

lemma rejected_status:
  assumes "sourceUploadRoute zf denied R uuid gen dbNow session form now (fs, db) = ((fs', db'), Return r)"
    and "re_status r \<noteq> 201"
  shows "re_status r \<in> {400, 401, 413, 415, 503}"
  using assms
  by (auto simp: sourceUploadRoute_def uploadRejectedResponse_def Let_def split: option.splits if_splits prod.splits sum.splits)

section \<open>Properties\<close>

text \<open>
  The builder offers exactly the catalog of the release. With a usable session the client
  receives the components of the requested kind, every field of their metadata included; without one
  it reports that the user is not signed in. A query that is not a single known kind is refused.
\<close>

theorem catalog_reaches_the_builder:
  assumes "list_all componentMetadataSchema_ok catalog"
  shows "capabilityList (catalogFetch catalog session) kind =
      (if getApiSession session = None then Throw (ComponentCapabilityApiError ''unauthenticated'' (Some 401))
       else Return (filterComponentCapabilities catalog kind)) \<and>
    (getApiSession session \<noteq> None \<and> componentCapabilityListRequestSchema (readCapabilityRequest search) = None \<longrightarrow>
      capabilityGET catalog session search = Return (codeResponse ''invalid_component_capability_request'' 400))"
proof -
  let ?cs = "filterComponentCapabilities catalog kind"
  have ok: "list_all componentMetadataSchema_ok ?cs"
    using assms by (auto simp: filterComponentCapabilities_def list_all_iff split: option.splits)
  then have "asArray componentMetadataSchema (JArr (map metadataJson ?cs)) = Some ?cs"
    by (intro asArray_map_ok componentMetadataSchema_inverse) (auto simp: list_all_iff)
  then have "componentCapabilityListResponseSchema (JObj [(''components'', JArr (map metadataJson ?cs))]) = Some ?cs"
    by (simp add: componentCapabilityListResponseSchema_def shape_defs)
  with ok have "capabilityList (catalogFetch catalog session) kind =
      (if getApiSession session = None then Throw (ComponentCapabilityApiError ''unauthenticated'' (Some 401)) else Return ?cs)"
    by (cases "getApiSession session")
      (simp_all add: capabilityList_def catalogFetch_def capabilityGET_def capability_request Let_def capabilityErrorCode_def)
  moreover have "capabilityGET catalog session search = Return (codeResponse ''invalid_component_capability_request'' 400)"
    if "getApiSession session \<noteq> None \<and> componentCapabilityListRequestSchema (readCapabilityRequest search) = None"
    using that by (auto simp: capabilityGET_def invalidCapabilityRequestResponse_def)
  ultimately show ?thesis by blast
qed


text \<open>
  Saving secrets. Submitting an entered secret sends it with the reference that its field
  has, and disables the control until the answer. Saved one after the other, the control is empty
  afterwards, every secret has the reference of its last save, every other reference is kept and no
  field has two. When two fields are saved at the same time, the reference answered first is lost.
\<close>

theorem secret_saves:
  assumes "distinct (map sb_key bindings)" and "sb_key a \<noteq> sb_key b"
    and "submitSecret False (sb_key a) bindings f = (f1, Some request)"
    and "finishSecret bindings (Some a) (f1, bindings) = (f2, bindings1)"
    and "finishSecret bindings1 (Some b) (g, bindings1) = (g1, bindings2)"
    and "finishSecret bindings (Some b) (g, bindings1) = (g2, overlapping)"
  shows "sq_value request = sf_value f \<and> sq_key request = sb_key a \<and>
    sq_existingBinding request = map_option sb_binding (find (\<lambda>x. sb_key x = sb_key a) bindings) \<and>
    submitSecret False (sb_key a) bindings f1 = (f1, None) \<and> sf_value f2 = [] \<and> \<not> sf_isSaving f2 \<and>
    distinct (map sb_key bindings2) \<and>
    (\<forall>k. find (\<lambda>x. sb_key x = k) bindings2 =
       (if k = sb_key b then Some b else if k = sb_key a then Some a else find (\<lambda>x. sb_key x = k) bindings)) \<and>
    find (\<lambda>x. sb_key x = sb_key a) overlapping = find (\<lambda>x. sb_key x = sb_key a) bindings"
proof -
  have b1: "bindings1 = replaceSecretBinding bindings a" and b2: "bindings2 = replaceSecretBinding bindings1 b"
    and ov: "overlapping = replaceSecretBinding bindings b" and f2: "sf_value f2 = []" "\<not> sf_isSaving f2"
    using assms(4-6) by (auto simp: finishSecret_def)
  have "sf_value f \<noteq> []" and f1: "f1 = f\<lparr>sf_error := None, sf_isSaving := True\<rparr>"
    and r: "request = \<lparr>sq_existingBinding = map_option sb_binding (find (\<lambda>x. sb_key x = sb_key a) bindings),
      sq_key = sb_key a, sq_value = sf_value f\<rparr>"
    using assms(3) by (auto simp: submitSecret_def split: if_splits)
  then have "submitSecret False (sb_key a) bindings f1 = (f1, None)" by (simp add: submitSecret_def)
  moreover have "distinct (map sb_key bindings2)"
    unfolding b1 b2 using assms(1) by (intro replaceSecretBinding_keys)
  ultimately show ?thesis using assms(2) f2 by (simp add: r b1 b2 ov replaceSecretBinding_find)
qed

section \<open>Witnesses\<close>

lemma sampleCatalog_ok: "list_all componentMetadataSchema_ok sampleCatalog"
  by code_simp

theorem catalog_reaches_the_builder_witness:
  "capabilityList (catalogFetch sampleCatalog (Some \<lparr>se_id = ''u1'', se_requiresPasswordChange = False\<rparr>)) (Some Source) =
     Return (filterComponentCapabilities sampleCatalog (Some Source))"
  using catalog_reaches_the_builder [OF sampleCatalog_ok, of "Some \<lparr>se_id = ''u1'', se_requiresPasswordChange = False\<rparr>" "Some Source"]
  by (simp add: getApiSession_def)

definition emptyFileField :: file_field where
  "emptyFileField = \<lparr>ff_uploading = False, ff_statusKey = None, ff_failed = False\<rparr>"


definition enteredSecret :: secret_field where
  "enteredSecret = \<lparr>sf_value = ''s3cret'', sf_error = None, sf_isSaving = False\<rparr>"

definition dsnBinding :: SecretBinding where
  "dsnBinding = \<lparr>sb_key = ''dsn'', sb_binding = ''ref-1''\<rparr>"

definition tokenBinding :: SecretBinding where
  "tokenBinding = \<lparr>sb_key = ''token'', sb_binding = ''ref-2''\<rparr>"

theorem secret_saves_witness:
  "find (\<lambda>x. sb_key x = ''dsn'') (snd (finishSecret [] (Some tokenBinding) (enteredSecret, [dsnBinding]))) = None"
proof -
  have r: "submitSecret False (sb_key dsnBinding) [] enteredSecret =
      (enteredSecret\<lparr>sf_isSaving := True\<rparr>, Some \<lparr>sq_existingBinding = None, sq_key = ''dsn'', sq_value = ''s3cret''\<rparr>)"
    by code_simp
  have f: "finishSecret [] (Some dsnBinding) (enteredSecret\<lparr>sf_isSaving := True\<rparr>, []) =
      (enteredSecret\<lparr>sf_value := [], sf_isSaving := False\<rparr>, [dsnBinding])" by code_simp
  have d: "distinct (map sb_key [])" "sb_key dsnBinding \<noteq> sb_key tokenBinding" by code_simp+
  have k: "sb_key dsnBinding = ''dsn''" by (simp add: dsnBinding_def)
  show ?thesis
    using secret_saves [OF d r f surjective_pairing surjective_pairing] unfolding k by simp
qed

end
