(* ===== verification/Trigger_Draft.thy ===== *)
theory Trigger_Draft
  imports Repository_Correctness
begin

text \<open>
  The trigger editor of the browser: the draft of \<open>pipeline-trigger-draft.ts\<close> with its friendly
  form of cron expressions, and the change of frequency of \<open>pipeline-trigger-editor.tsx\<close>. The
  identifiers that \<open>createId\<close> draws and the browser's time zone are arguments.
\<close>

section \<open>Friendly schedules\<close>

datatype PipelineFriendlySchedule =
    Hourly (fs_minute: nat)
  | Daily (fs_hour: nat) (fs_minute: nat)
  | Weekly (fs_dayOfWeek: nat) (fs_hour: nat) (fs_minute: nat)
  | CustomCron (fs_cron: string)

datatype PipelineScheduleFrequency = FreqHourly | FreqDaily | FreqWeekly | FreqCustom

fun frequencyOf :: "PipelineFriendlySchedule \<Rightarrow> PipelineScheduleFrequency" where
  "frequencyOf (Hourly m) = FreqHourly"
| "frequencyOf (Daily h m) = FreqDaily"
| "frequencyOf (Weekly d h m) = FreqWeekly"
| "frequencyOf (CustomCron c) = FreqCustom"

text \<open>\<open>\d{1,2}\<close> and \<open>\d\<close>; the fields of the patterns are separated by single spaces.\<close>

definition twoDigits :: "string \<Rightarrow> bool" where
  "twoDigits s \<longleftrightarrow> (length s = 1 \<or> length s = 2) \<and> list_all is_digit s"

definition oneDigit :: "string \<Rightarrow> bool" where
  "oneDigit s \<longleftrightarrow> length s = 1 \<and> list_all is_digit s"

definition HOURLY_PATTERN :: "string \<Rightarrow> string option" where
  "HOURLY_PATTERN cron =
     (case js_split (CHR '' '') cron of
        [m, a, b, c, d] \<Rightarrow> if twoDigits m \<and> a = ''*'' \<and> b = ''*'' \<and> c = ''*'' \<and> d = ''*'' then Some m else None
      | _ \<Rightarrow> None)"

definition DAILY_PATTERN :: "string \<Rightarrow> (string \<times> string) option" where
  "DAILY_PATTERN cron =
     (case js_split (CHR '' '') cron of
        [m, h, b, c, d] \<Rightarrow> if twoDigits m \<and> twoDigits h \<and> b = ''*'' \<and> c = ''*'' \<and> d = ''*'' then Some (m, h) else None
      | _ \<Rightarrow> None)"

definition WEEKLY_PATTERN :: "string \<Rightarrow> (string \<times> string \<times> string) option" where
  "WEEKLY_PATTERN cron =
     (case js_split (CHR '' '') cron of
        [m, h, b, c, d] \<Rightarrow> if twoDigits m \<and> twoDigits h \<and> b = ''*'' \<and> c = ''*'' \<and> oneDigit d then Some (m, h, d) else None
      | _ \<Rightarrow> None)"

definition friendlyScheduleFromCron :: "string \<Rightarrow> PipelineFriendlySchedule" where
  "friendlyScheduleFromCron cron =
     (case HOURLY_PATTERN cron of
        Some m \<Rightarrow> Hourly (js_digits_value m)
      | None \<Rightarrow>
     (case WEEKLY_PATTERN cron of
        Some (m, h, d) \<Rightarrow> Weekly (js_digits_value d) (js_digits_value h) (js_digits_value m)
      | None \<Rightarrow>
     (case DAILY_PATTERN cron of
        Some (m, h) \<Rightarrow> Daily (js_digits_value h) (js_digits_value m)
      | None \<Rightarrow> CustomCron cron)))"

fun cronFromFriendlySchedule :: "PipelineFriendlySchedule \<Rightarrow> string" where
  "cronFromFriendlySchedule (Hourly m) = js_decimal m @ '' * * * *''"
| "cronFromFriendlySchedule (Daily h m) = js_decimal m @ '' '' @ js_decimal h @ '' * * *''"
| "cronFromFriendlySchedule (Weekly d h m) = js_decimal m @ '' '' @ js_decimal h @ '' * * '' @ js_decimal d"
| "cronFromFriendlySchedule (CustomCron cron) = cron"

section \<open>The draft\<close>

record PipelineScheduleTriggerDraft =
  st_cron :: string
  st_enabled :: bool
  st_localId :: string
  st_timezone :: string

record PipelineTriggerDraft =
  td_manualEnabled :: bool
  td_schedules :: "PipelineScheduleTriggerDraft list"

definition createPipelineTriggerDraft :: "(nat \<Rightarrow> string) \<Rightarrow> Trigger list \<Rightarrow> PipelineTriggerDraft" where
  "createPipelineTriggerDraft ids triggers =
     \<lparr>td_manualEnabled = (case find is_ManualTrigger triggers of None \<Rightarrow> False | Some t \<Rightarrow> tr_enabled t),
      td_schedules = map (\<lambda>(n, t). \<lparr>st_cron = tr_cron t, st_enabled = tr_enabled t, st_localId = ids n,
          st_timezone = tr_timezone t\<rparr>) (enumerate 0 (filter (\<lambda>t. \<not> is_ManualTrigger t) triggers))\<rparr>"

definition addPipelineScheduleTrigger :: "PipelineTriggerDraft \<Rightarrow> string \<Rightarrow> string \<Rightarrow> PipelineTriggerDraft" where
  "addPipelineScheduleTrigger draft newId detectedTimezone =
     draft\<lparr>td_schedules := td_schedules draft @
       [\<lparr>st_cron = cronFromFriendlySchedule (Daily 0 0), st_enabled = True, st_localId = newId,
         st_timezone = detectedTimezone\<rparr>]\<rparr>"

definition removePipelineScheduleTrigger :: "PipelineTriggerDraft \<Rightarrow> string \<Rightarrow> PipelineTriggerDraft" where
  "removePipelineScheduleTrigger draft localId =
     draft\<lparr>td_schedules := filter (\<lambda>schedule. st_localId schedule \<noteq> localId) (td_schedules draft)\<rparr>"

definition updatePipelineScheduleTrigger ::
  "PipelineTriggerDraft \<Rightarrow> string \<Rightarrow> (PipelineScheduleTriggerDraft \<Rightarrow> PipelineScheduleTriggerDraft) \<Rightarrow> PipelineTriggerDraft" where
  "updatePipelineScheduleTrigger draft localId changes =
     draft\<lparr>td_schedules := map (\<lambda>schedule. if st_localId schedule = localId then changes schedule else schedule)
       (td_schedules draft)\<rparr>"

definition setPipelineManualTriggerEnabled :: "PipelineTriggerDraft \<Rightarrow> bool \<Rightarrow> PipelineTriggerDraft" where
  "setPipelineManualTriggerEnabled draft enabled = draft\<lparr>td_manualEnabled := enabled\<rparr>"

definition writablePipelineTriggersFromDraft :: "PipelineTriggerDraft \<Rightarrow> WritablePipelineTrigger list" where
  "writablePipelineTriggersFromDraft draft =
     WritableManual (td_manualEnabled draft) #
     map (\<lambda>schedule. WritableSchedule (st_enabled schedule) (st_cron schedule) (st_timezone schedule)) (td_schedules draft)"

text \<open>The frequency selector of one schedule, as a change of its cron expression.\<close>

definition changeFrequency :: "PipelineScheduleFrequency \<Rightarrow> PipelineScheduleTriggerDraft \<Rightarrow> PipelineScheduleTriggerDraft" where
  "changeFrequency frequency schedule =
     schedule\<lparr>st_cron := cronFromFriendlySchedule
       (case frequency of
          FreqCustom \<Rightarrow> CustomCron (st_cron schedule)
        | FreqHourly \<Rightarrow> Hourly 0
        | FreqDaily \<Rightarrow> Daily 0 0
        | FreqWeekly \<Rightarrow> Weekly 1 0 0)\<rparr>"

text \<open>What the selector shows for a schedule.\<close>

definition shownFrequency :: "PipelineScheduleTriggerDraft \<Rightarrow> PipelineScheduleFrequency" where
  "shownFrequency schedule = frequencyOf (friendlyScheduleFromCron (st_cron schedule))"

section \<open>Lemmas\<close>

lemma digits_no_space: "list_all is_digit s \<Longrightarrow> CHR '' '' \<notin> set s"
  by (auto simp: list_all_iff is_digit_def code_def)

lemma digits_not_star: "list_all is_digit s \<Longrightarrow> s \<noteq> ''*''"
  by (auto simp: is_digit_def code_def)

lemma decimal_twoDigits: "n < 100 \<Longrightarrow> twoDigits (js_decimal n)"
  using decimal_length(2) [of n] decimal_digits [of n] by (auto simp: twoDigits_def)

lemma decimal_oneDigit: "n < 10 \<Longrightarrow> oneDigit (js_decimal n)"
  using decimal_length(1) [of n] decimal_digits [of n] by (simp add: oneDigit_def)

definition friendly_range :: "PipelineFriendlySchedule \<Rightarrow> bool" where
  "friendly_range s \<longleftrightarrow>
     (case s of Hourly m \<Rightarrow> m < 100 | Daily h m \<Rightarrow> h < 100 \<and> m < 100
      | Weekly d h m \<Rightarrow> d < 10 \<and> h < 100 \<and> m < 100 | CustomCron c \<Rightarrow> friendlyScheduleFromCron c = CustomCron c)"

lemma split_fields:
  "\<forall>f\<in>set fs. CHR '' '' \<notin> set f \<Longrightarrow> fs \<noteq> [] \<Longrightarrow> js_split (CHR '' '') (js_join '' '' fs) = fs"
  by (rule split_join) auto

lemma cron_split:
  "js_split (CHR '' '') (cronFromFriendlySchedule (Hourly m)) = [js_decimal m, ''*'', ''*'', ''*'', ''*'']"
  "js_split (CHR '' '') (cronFromFriendlySchedule (Daily h m)) = [js_decimal m, js_decimal h, ''*'', ''*'', ''*'']"
  "js_split (CHR '' '') (cronFromFriendlySchedule (Weekly d h m)) = [js_decimal m, js_decimal h, ''*'', ''*'', js_decimal d]"
  using split_fields [of "[js_decimal m, ''*'', ''*'', ''*'', ''*'']"]
    split_fields [of "[js_decimal m, js_decimal h, ''*'', ''*'', ''*'']"]
    split_fields [of "[js_decimal m, js_decimal h, ''*'', ''*'', js_decimal d]"]
    digits_no_space [OF decimal_digits]
  by simp_all

lemma star_not_digits: "\<not> twoDigits ''*''" "\<not> oneDigit ''*''"
  by (simp_all add: twoDigits_def oneDigit_def is_digit_def code_def)

lemma friendly_of_cron: "friendly_range s \<Longrightarrow> friendlyScheduleFromCron (cronFromFriendlySchedule s) = s"
proof (cases s)
  case (CustomCron c)
  then show "friendly_range s \<Longrightarrow> ?thesis" by (simp add: friendly_range_def)
qed (use star_not_digits digits_not_star [OF decimal_digits] in \<open>auto simp: friendly_range_def friendlyScheduleFromCron_def
      HOURLY_PATTERN_def DAILY_PATTERN_def WEEKLY_PATTERN_def cron_split decimal_value decimal_twoDigits decimal_oneDigit
      simp del: cronFromFriendlySchedule.simps\<close>)

lemma digits_value_bound: "list_all is_digit s \<Longrightarrow> js_digits_value s < 10 ^ length s"
proof -
  have "list_all is_digit s \<Longrightarrow> foldl (\<lambda>n c. 10 * n + (code c - 48)) k s < (k + 1) * 10 ^ length s" for k
  proof (induction s arbitrary: k)
    case (Cons c s)
    then have "10 * k + (code c - 48) + 1 \<le> (k + 1) * 10" by (auto simp: is_digit_def)
    then have le: "(10 * k + (code c - 48) + 1) * 10 ^ length s \<le> (k + 1) * 10 * 10 ^ length s" by (rule mult_right_mono) simp
    have "foldl (\<lambda>n c. 10 * n + (code c - 48)) (10 * k + (code c - 48)) s < (10 * k + (code c - 48) + 1) * 10 ^ length s"
      using Cons.IH Cons.prems by simp
    from less_le_trans [OF this le] show ?case by (simp add: algebra_simps)
  qed simp
  from this [of 0] show "list_all is_digit s \<Longrightarrow> ?thesis" by (simp add: js_digits_value_def)
qed

lemma digits_bound:
  "twoDigits s \<Longrightarrow> js_digits_value s < 100"
  "oneDigit s \<Longrightarrow> js_digits_value s < 10"
  using digits_value_bound [of s] by (auto simp: twoDigits_def oneDigit_def)

lemma friendly_range_of_cron: "friendly_range (friendlyScheduleFromCron cron)"
proof (cases "friendlyScheduleFromCron cron")
  case (CustomCron c)
  then have "c = cron" by (auto simp: friendlyScheduleFromCron_def split: option.splits prod.splits)
  with CustomCron show ?thesis by (simp add: friendly_range_def)
qed (auto simp: friendly_range_def friendlyScheduleFromCron_def HOURLY_PATTERN_def DAILY_PATTERN_def WEEKLY_PATTERN_def
      split: list.splits if_splits option.splits dest!: digits_bound)

lemma schedules_of_writable:
  "map (\<lambda>t. (tr_enabled t, tr_cron t, tr_timezone t)) (filter (\<lambda>t. \<not> is_ManualTrigger t) ts) =
   map (\<lambda>w. (wt_enabled w, wt_cron w, wt_timezone w)) (filter (\<lambda>w. \<not> is_WritableManual w) (map toWritableTrigger ts))"
proof (induction ts)
  case (Cons t ts)
  then show ?case by (cases t) auto
qed simp

lemma writable_schedules:
  "filter (\<lambda>w. \<not> is_WritableManual w) (writablePipelineTriggersFromDraft d) =
     map (\<lambda>s. WritableSchedule (st_enabled s) (st_cron s) (st_timezone s)) (td_schedules d)"
  by (auto simp: writablePipelineTriggersFromDraft_def filter_map comp_def)

section \<open>Properties\<close>

text \<open>
  The friendly form of a schedule and its cron expression agree. A schedule in the range
  of its fields is read back from its expression, and for every expression, whatever it is, rendering
  the friendly form and reading it again changes nothing.
\<close>

theorem friendly_schedules_roundtrip:
  "(friendly_range s \<longrightarrow> friendlyScheduleFromCron (cronFromFriendlySchedule s) = s) \<and>
   friendlyScheduleFromCron (cronFromFriendlySchedule (friendlyScheduleFromCron cron)) = friendlyScheduleFromCron cron"
  using friendly_of_cron friendly_range_of_cron by blast

theorem friendly_schedules_roundtrip_witness:
  "friendlyScheduleFromCron ''30 7 * * 5'' = Weekly 5 7 30 \<and> friendlyScheduleFromCron ''05 * * * *'' = Hourly 5"
proof -
  have "friendly_range (Weekly 5 7 30)" by (simp add: friendly_range_def)
  then have "friendlyScheduleFromCron (cronFromFriendlySchedule (Weekly 5 7 30)) = Weekly 5 7 30"
    using friendly_schedules_roundtrip by blast
  moreover have "cronFromFriendlySchedule (Weekly 5 7 30) = ''30 7 * * 5''" by code_simp
  moreover have "friendlyScheduleFromCron ''05 * * * *'' = Hourly 5" by code_simp
  ultimately show ?thesis by simp
qed

text \<open>
  The frequency selector works for the friendly frequencies but cannot choose raw cron
  editing. Choosing a friendly frequency shows that frequency afterwards; choosing the custom one
  leaves the schedule exactly as it was, so a schedule shown with a friendly frequency stays so.
\<close>

theorem custom_frequency_cannot_be_chosen:
  "(f \<noteq> FreqCustom \<longrightarrow> shownFrequency (changeFrequency f schedule) = f) \<and>
   changeFrequency FreqCustom schedule = schedule"
proof (intro conjI impI)
  assume "f \<noteq> FreqCustom"
  moreover have "friendlyScheduleFromCron (cronFromFriendlySchedule (Hourly 0)) = Hourly 0"
    "friendlyScheduleFromCron (cronFromFriendlySchedule (Daily 0 0)) = Daily 0 0"
    "friendlyScheduleFromCron (cronFromFriendlySchedule (Weekly 1 0 0)) = Weekly 1 0 0"
    by (rule friendly_of_cron; simp add: friendly_range_def)+
  ultimately show "shownFrequency (changeFrequency f schedule) = f"
    by (cases f) (simp_all add: shownFrequency_def changeFrequency_def del: cronFromFriendlySchedule.simps)
qed (simp add: changeFrequency_def)

theorem custom_frequency_cannot_be_chosen_witness:
  "shownFrequency (changeFrequency FreqCustom
     \<lparr>st_cron = ''0 0 * * *'', st_enabled = True, st_localId = ''a'', st_timezone = ''UTC''\<rparr>) = FreqDaily"
proof -
  let ?s = "\<lparr>st_cron = ''0 0 * * *'', st_enabled = True, st_localId = ''a'', st_timezone = ''UTC''\<rparr>"
  have "shownFrequency ?s = FreqDaily" by code_simp
  with custom_frequency_cannot_be_chosen [of FreqHourly ?s] show ?thesis by simp
qed

text \<open>
  Triggers survive a save. When the repository stores what the editor sends, reopening
  the editor gives the same manual setting and the same schedules in the same order; only the local
  identifiers are new, and they are the ones drawn for the positions.
\<close>

theorem trigger_drafts_roundtrip:
  assumes "map toWritableTrigger triggers = writablePipelineTriggersFromDraft d"
  shows "createPipelineTriggerDraft ids triggers =
    d\<lparr>td_schedules := map (\<lambda>(n, s). s\<lparr>st_localId := ids n\<rparr>) (enumerate 0 (td_schedules d))\<rparr>"
proof -
  let ?ss = "filter (\<lambda>t. \<not> is_ManualTrigger t) triggers"
  obtain t ts where "triggers = t # ts" and t: "toWritableTrigger t = WritableManual (td_manualEnabled d)"
    using assms by (auto simp: writablePipelineTriggersFromDraft_def)
  moreover from t have "is_ManualTrigger t \<and> tr_enabled t = td_manualEnabled d" by (cases t) simp_all
  ultimately have manual: "(case find is_ManualTrigger triggers of None \<Rightarrow> False | Some t \<Rightarrow> tr_enabled t) = td_manualEnabled d"
    by simp
  have tuples: "map (\<lambda>t. (tr_enabled t, tr_cron t, tr_timezone t)) ?ss =
      map (\<lambda>s. (st_enabled s, st_cron s, st_timezone s)) (td_schedules d)"
    unfolding schedules_of_writable assms writable_schedules by simp
  from arg_cong [OF this, of length] have len: "length ?ss = length (td_schedules d)" by simp
  have "(tr_enabled (?ss ! n), tr_cron (?ss ! n), tr_timezone (?ss ! n)) =
      (st_enabled (td_schedules d ! n), st_cron (td_schedules d ! n), st_timezone (td_schedules d ! n))"
    if "n < length (td_schedules d)" for n
    using arg_cong [OF tuples, of "\<lambda>xs. xs ! n"] that len by simp
  then have "map (\<lambda>(n, t). \<lparr>st_cron = tr_cron t, st_enabled = tr_enabled t, st_localId = ids n,
      st_timezone = tr_timezone t\<rparr>) (enumerate 0 ?ss) =
    map (\<lambda>(n, s). s\<lparr>st_localId := ids n\<rparr>) (enumerate 0 (td_schedules d))"
    by (intro nth_equalityI) (auto simp: len nth_enumerate_eq)
  with manual show ?thesis by (simp add: createPipelineTriggerDraft_def)
qed

theorem trigger_drafts_roundtrip_witness:
  "createPipelineTriggerDraft js_decimal [ManualTrigger ''m'' ''p'' True, ScheduleTrigger ''t'' ''p'' False ''0 0 * * *'' ''UTC''] =
     \<lparr>td_manualEnabled = True, td_schedules = [\<lparr>st_cron = ''0 0 * * *'', st_enabled = False, st_localId = ''0'', st_timezone = ''UTC''\<rparr>]\<rparr>"
proof -
  let ?d = "\<lparr>td_manualEnabled = True, td_schedules = [\<lparr>st_cron = ''0 0 * * *'', st_enabled = False, st_localId = ''old'', st_timezone = ''UTC''\<rparr>]\<rparr>"
  have "map toWritableTrigger [ManualTrigger ''m'' ''p'' True, ScheduleTrigger ''t'' ''p'' False ''0 0 * * *'' ''UTC''] =
      writablePipelineTriggersFromDraft ?d"
    by (simp add: writablePipelineTriggersFromDraft_def)
  moreover have "js_decimal 0 = ''0''" by code_simp
  ultimately show ?thesis using trigger_drafts_roundtrip [of _ ?d js_decimal] by simp
qed

end
