(* ===== verification/Pipeline_Workspace.thy ===== *)
theory Pipeline_Workspace
  imports Builder_Catalog Trigger_Draft "HOL-Library.Sublist"
begin

text \<open>
  The workspace of \<open>apps/web/src/components/pipeline-workspace.tsx\<close>: the editor of a stored pipeline
  (\<open>pipeline/pipeline-editor.tsx\<close>), the decision whether it may be edited
  (\<open>lib/pipeline-boundary.ts\<close>) and what the mutations do to the cached queries
  (\<open>data/pipelines/keys.ts\<close>, \<open>mutations.ts\<close>, \<open>action-mutations.ts\<close>). The client of TanStack Query is a
  parameter, with its documented behaviour as the hypothesis \<open>query_client_laws\<close>.
\<close>

section \<open>The editor\<close>

record editor =
  ed_draftName :: string
  ed_submitted :: bool
  ed_graphDraft :: "PipelineBuilderDraft option"
  ed_triggerDraft :: PipelineTriggerDraft

definition openEditor :: "(nat \<Rightarrow> string) \<Rightarrow> Pipeline \<Rightarrow> editor" where
  "openEditor ids pipeline =
     \<lparr>ed_draftName = p_name pipeline, ed_submitted = False, ed_graphDraft = None,
      ed_triggerDraft = createPipelineTriggerDraft ids (p_triggers pipeline)\<rparr>"

text \<open>The effects of the component: a changed pipeline, and the arrival of the catalog.\<close>

definition pipelineChanged :: "(nat \<Rightarrow> string) \<Rightarrow> Pipeline \<Rightarrow> editor \<Rightarrow> editor" where
  "pipelineChanged ids pipeline e =
     e\<lparr>ed_draftName := p_name pipeline, ed_submitted := False,
       ed_triggerDraft := createPipelineTriggerDraft ids (p_triggers pipeline)\<rparr>"

definition capabilitiesReady :: "(PipelineStep \<Rightarrow> ComponentMetadata option) \<Rightarrow> Pipeline \<Rightarrow> editor \<Rightarrow> editor option" where
  "capabilitiesReady resolveMetadata pipeline e =
     map_option (\<lambda>draft. e\<lparr>ed_graphDraft := draft\<rparr>) (createPipelineBuilderDraftFromPipeline pipeline resolveMetadata)"

definition updateGraphDraft :: "(PipelineBuilderDraft \<Rightarrow> PipelineBuilderDraft) \<Rightarrow> editor \<Rightarrow> editor" where
  "updateGraphDraft updater e = e\<lparr>ed_graphDraft := map_option updater (ed_graphDraft e)\<rparr>"

definition updateTriggerDraft :: "(PipelineTriggerDraft \<Rightarrow> PipelineTriggerDraft) \<Rightarrow> editor \<Rightarrow> editor" where
  "updateTriggerDraft updater e = e\<lparr>ed_triggerDraft := updater (ed_triggerDraft e)\<rparr>"

definition nameError :: "editor \<Rightarrow> string option" where
  "nameError e = (if ed_submitted e \<and> length (js_trim (ed_draftName e)) = 0 then Some ''pipeline.nameRequired'' else None)"

definition saveDraft :: "bool \<Rightarrow> editor \<Rightarrow> editor \<times> PipelineUpdateRequest option" where
  "saveDraft editable e =
     (e\<lparr>ed_submitted := True\<rparr>,
      if \<not> editable \<or> length (js_trim (ed_draftName e)) = 0 then None
      else
        let graphUpdate = (case (if editable then ed_graphDraft e else None) of
              Some draft \<Rightarrow> createPipelineUpdateRequestFromDraft draft
            | None \<Rightarrow> \<lparr>ur_edges = None, ur_name = None, ur_state = None, ur_steps = None, ur_triggers = None\<rparr>)
        in Some (graphUpdate\<lparr>ur_name := Some (js_trim (ed_draftName e)),
             ur_triggers := Some (writablePipelineTriggersFromDraft (ed_triggerDraft e))\<rparr>))"

text \<open>What the panels of the editor let a user change.\<close>

inductive editor_edit :: "ComponentMetadata list \<Rightarrow> editor \<Rightarrow> editor \<Rightarrow> bool"
  for catalog where
  renamed: "editor_edit catalog e (e\<lparr>ed_draftName := name\<rparr>)"
| regraphed: "ed_graphDraft e = Some d \<Longrightarrow> draft_edit catalog d (f d) \<Longrightarrow> editor_edit catalog e (updateGraphDraft f e)"
| retriggered: "editor_edit catalog e (updateTriggerDraft f e)"
| submitted: "editor_edit catalog e (fst (saveDraft editable e))"

section \<open>Whether a pipeline may be edited\<close>

definition parsePipeline :: "zod_formats \<Rightarrow> json \<Rightarrow> (string, Pipeline) result" where
  "parsePipeline zf v = (case pipelineSchema zf v of None \<Rightarrow> Throw ''ZodError'' | Some p \<Rightarrow> Return p)"

text \<open>The second argument is the answer of the execution-state endpoint, \<open>None\<close> while it is loading.\<close>

definition getPipelineExecutionState ::
  "zod_formats \<Rightarrow> json \<Rightarrow> ActiveRunSummary option option \<Rightarrow> (string, PipelineExecutionState) result" where
  "getPipelineExecutionState zf v executionState =
     bind_res (parsePipeline zf v) (\<lambda>p.
     let activeRun = (case executionState of
           Some (Some run) \<Rightarrow> Some \<lparr>ar_id = rm_id run, ar_state = rm_state run, ar_cancellationRequested = False\<rparr>
         | _ \<Rightarrow> None)
     in Return ((createPipelineExecutionState (p_state p))\<lparr>es_activeRun := activeRun\<rparr>))"

definition workspaceEditable :: "zod_formats \<Rightarrow> Pipeline \<Rightarrow> ActiveRunSummary option option \<Rightarrow> (string, bool) result" where
  "workspaceEditable zf detail executionState =
     bind_res (getPipelineExecutionState zf (pipelineJson detail) executionState) (\<lambda>s. Return (isPipelineEditable s))"

section \<open>The query cache\<close>

type_synonym query_key = "string list"

datatype cached = CachedPipeline Pipeline | CachedList "Pipeline list" | CachedExecution "ActiveRunSummary option"

definition keyAll :: query_key where "keyAll = [''pipelines'']"
definition keyDetails :: query_key where "keyDetails = keyAll @ [''detail'']"
definition keyDetail :: "string \<Rightarrow> query_key" where "keyDetail pipelineId = keyDetails @ [pipelineId]"
definition keyExecutionState :: "string \<Rightarrow> query_key" where "keyExecutionState pipelineId = keyAll @ [''execution-state'', pipelineId]"
definition keyLists :: query_key where "keyLists = keyAll @ [''list'']"
definition keyList :: query_key where "keyList = keyLists"

record 'q query_client =
  qc_getQueryData :: "'q \<Rightarrow> query_key \<Rightarrow> cached option"
  qc_isInvalidated :: "'q \<Rightarrow> query_key \<Rightarrow> bool"
  qc_setQueryData :: "'q \<Rightarrow> query_key \<Rightarrow> cached \<Rightarrow> 'q"
  qc_invalidateQueries :: "'q \<Rightarrow> query_key \<Rightarrow> 'q"
  qc_removeQueries :: "'q \<Rightarrow> query_key \<Rightarrow> 'q"

text \<open>
  The documentation of TanStack Query: data is stored under its key and is fresh afterwards;
  invalidation marks the entries whose key starts with the given one and keeps their data; removal
  drops those entries.
\<close>

definition query_client_laws :: "'q query_client \<Rightarrow> bool" where
  "query_client_laws c \<longleftrightarrow>
     (\<forall>q k v k'. qc_getQueryData c (qc_setQueryData c q k v) k' = (if k' = k then Some v else qc_getQueryData c q k') \<and>
        qc_isInvalidated c (qc_setQueryData c q k v) k' = (k' \<noteq> k \<and> qc_isInvalidated c q k')) \<and>
     (\<forall>q p k. qc_getQueryData c (qc_invalidateQueries c q p) k = qc_getQueryData c q k \<and>
        qc_isInvalidated c (qc_invalidateQueries c q p) k =
          (qc_isInvalidated c q k \<or> prefix p k \<and> qc_getQueryData c q k \<noteq> None)) \<and>
     (\<forall>q p k. qc_getQueryData c (qc_removeQueries c q p) k = (if prefix p k then None else qc_getQueryData c q k) \<and>
        qc_isInvalidated c (qc_removeQueries c q p) k = (\<not> prefix p k \<and> qc_isInvalidated c q k))"

text \<open>\<open>setQueryData\<close> with an updater; nothing is stored when the updater returns \<open>undefined\<close>.\<close>

definition updateList :: "'q query_client \<Rightarrow> (Pipeline list \<Rightarrow> Pipeline list) \<Rightarrow> 'q \<Rightarrow> 'q" where
  "updateList c f q =
     (case qc_getQueryData c q keyList of
        Some (CachedList current) \<Rightarrow> qc_setQueryData c q keyList (CachedList (f current))
      | _ \<Rightarrow> q)"

definition writePipeline :: "'q query_client \<Rightarrow> Pipeline \<Rightarrow> 'q \<Rightarrow> 'q" where
  "writePipeline c pipeline q =
     updateList c (\<lambda>current.
       if js_findIndex (\<lambda>candidate. p_id candidate = p_id pipeline) current = -1 then current @ [pipeline]
       else map (\<lambda>candidate. if p_id candidate = p_id pipeline then pipeline else candidate) current)
       (qc_setQueryData c q (keyDetail (p_id pipeline)) (CachedPipeline pipeline))"

definition removePipelineFromList :: "'q query_client \<Rightarrow> string \<Rightarrow> 'q \<Rightarrow> 'q" where
  "removePipelineFromList c pipelineId = updateList c (filter (\<lambda>p. p_id p \<noteq> pipelineId))"

definition createOnSuccess :: "'q query_client \<Rightarrow> Pipeline \<Rightarrow> 'q \<Rightarrow> 'q" where
  "createOnSuccess c pipeline q = qc_invalidateQueries c (writePipeline c pipeline q) keyLists"

definition updateOnSuccess :: "'q query_client \<Rightarrow> Pipeline \<Rightarrow> 'q \<Rightarrow> 'q" where
  "updateOnSuccess c pipeline q = qc_invalidateQueries c (writePipeline c pipeline q) keyLists"

definition deleteOnSuccess :: "'q query_client \<Rightarrow> string \<Rightarrow> 'q \<Rightarrow> 'q" where
  "deleteOnSuccess c pipelineId q =
     qc_invalidateQueries c (removePipelineFromList c pipelineId (qc_removeQueries c q (keyDetail pipelineId))) keyLists"

text \<open>The action mutations: duplication and changes of state write the detail only.\<close>

definition actionOnSuccess :: "'q query_client \<Rightarrow> Pipeline \<Rightarrow> 'q \<Rightarrow> 'q" where
  "actionOnSuccess c pipeline q =
     qc_invalidateQueries c (qc_setQueryData c q (keyDetail (p_id pipeline)) (CachedPipeline pipeline)) keyLists"

definition invalidatePipeline :: "'q query_client \<Rightarrow> string \<Rightarrow> 'q \<Rightarrow> 'q" where
  "invalidatePipeline c pipelineId q =
     qc_invalidateQueries c (qc_invalidateQueries c q (keyDetail pipelineId)) keyLists"

section \<open>Coherence of the cache\<close>

text \<open>Every entry that is not marked as invalid is what the control plane would answer now.\<close>

definition coherent :: "'q query_client \<Rightarrow> zod_formats \<Rightarrow> string \<Rightarrow> database \<Rightarrow> 'q \<Rightarrow> bool" where
  "coherent c zf user db q \<longleftrightarrow>
     (\<forall>pid p. qc_getQueryData c q (keyDetail pid) = Some (CachedPipeline p) \<and> \<not> qc_isInvalidated c q (keyDetail pid) \<longrightarrow>
        getPipeline zf db user pid = Return (Some p)) \<and>
     (\<forall>ps. qc_getQueryData c q keyList = Some (CachedList ps) \<and> \<not> qc_isInvalidated c q keyList \<longrightarrow>
        listPipelinesByOwner zf db user = Return ps) \<and>
     (\<forall>pid a. qc_getQueryData c q (keyExecutionState pid) = Some (CachedExecution a) \<and>
          \<not> qc_isInvalidated c q (keyExecutionState pid) \<longrightarrow>
        a = getActiveRunForPipeline db pid)"

lemmas key_defs = keyAll_def keyDetails_def keyDetail_def keyExecutionState_def keyLists_def keyList_def

lemma keys_distinct [simp]:
  "keyDetail a \<noteq> keyList" "keyList \<noteq> keyDetail a" "keyExecutionState a \<noteq> keyList" "keyExecutionState a \<noteq> keyDetail b"
  "keyDetail b \<noteq> keyExecutionState a" "keyDetail a = keyDetail b \<longleftrightarrow> a = b"
  by (auto simp: key_defs)

lemma keys_prefix [simp]:
  "prefix keyLists keyList" "\<not> prefix keyLists (keyDetail a)" "\<not> prefix keyLists (keyExecutionState a)"
  "prefix (keyDetail a) (keyDetail b) \<longleftrightarrow> a = b" "\<not> prefix (keyDetail a) (keyExecutionState b)" "\<not> prefix (keyDetail a) keyList"
  by (auto simp: key_defs)

text \<open>What remains of the laws for the entries of interest, after any of the mutations.\<close>

lemma updateList_entries:
  assumes "query_client_laws c" and "k \<noteq> keyList"
  shows "qc_getQueryData c (updateList c f q) k = qc_getQueryData c q k"
    and "qc_isInvalidated c (updateList c f q) k = qc_isInvalidated c q k"
  using assms by (auto simp: updateList_def query_client_laws_def split: option.splits cached.splits)

lemma written_entries:
  assumes "query_client_laws c"
  shows "qc_getQueryData c (updateOnSuccess c p q) (keyDetail pid) =
      (if pid = p_id p then Some (CachedPipeline p) else qc_getQueryData c q (keyDetail pid))"
    and "qc_isInvalidated c (updateOnSuccess c p q) (keyDetail pid) \<longleftrightarrow> pid \<noteq> p_id p \<and> qc_isInvalidated c q (keyDetail pid)"
    and "qc_getQueryData c (updateOnSuccess c p q) (keyExecutionState pid) = qc_getQueryData c q (keyExecutionState pid)"
    and "qc_isInvalidated c (updateOnSuccess c p q) (keyExecutionState pid) = qc_isInvalidated c q (keyExecutionState pid)"
    and "qc_getQueryData c (updateOnSuccess c p q) keyList \<noteq> None \<Longrightarrow> qc_isInvalidated c (updateOnSuccess c p q) keyList"
  using assms updateList_entries [OF assms]
  by (simp_all add: updateOnSuccess_def writePipeline_def) (simp_all add: query_client_laws_def)

lemma deleted_entries:
  assumes "query_client_laws c"
  shows "qc_getQueryData c (deleteOnSuccess c i q) (keyDetail pid) = (if pid = i then None else qc_getQueryData c q (keyDetail pid))"
    and "qc_isInvalidated c (deleteOnSuccess c i q) (keyDetail pid) \<longleftrightarrow> pid \<noteq> i \<and> qc_isInvalidated c q (keyDetail pid)"
    and "qc_getQueryData c (deleteOnSuccess c i q) (keyExecutionState pid) = qc_getQueryData c q (keyExecutionState pid)"
    and "qc_isInvalidated c (deleteOnSuccess c i q) (keyExecutionState pid) = qc_isInvalidated c q (keyExecutionState pid)"
    and "qc_getQueryData c (deleteOnSuccess c i q) keyList \<noteq> None \<Longrightarrow> qc_isInvalidated c (deleteOnSuccess c i q) keyList"
  using assms updateList_entries [OF assms]
  by (simp_all add: deleteOnSuccess_def removePipelineFromList_def) (auto simp: query_client_laws_def)

text \<open>An entry that is kept stays right when the reads of every other pipeline are unchanged.\<close>

lemma coherent_after:
  assumes "coherent c zf user db q" and "sameRuns db db'"
    and "\<And>pid. pid \<noteq> i \<Longrightarrow> getPipeline zf db' user pid = getPipeline zf db user pid"
    and "\<And>pid. qc_getQueryData c q' (keyDetail pid) = (if pid = i then entry else qc_getQueryData c q (keyDetail pid))"
    and "\<And>pid. qc_isInvalidated c q' (keyDetail pid) \<longleftrightarrow> pid \<noteq> i \<and> qc_isInvalidated c q (keyDetail pid)"
    and "\<And>pid. qc_getQueryData c q' (keyExecutionState pid) = qc_getQueryData c q (keyExecutionState pid)"
    and "\<And>pid. qc_isInvalidated c q' (keyExecutionState pid) = qc_isInvalidated c q (keyExecutionState pid)"
    and "qc_getQueryData c q' keyList \<noteq> None \<Longrightarrow> qc_isInvalidated c q' keyList"
    and "\<And>p. entry = Some (CachedPipeline p) \<Longrightarrow> getPipeline zf db' user i = Return (Some p)"
  shows "coherent c zf user db' q'"
  using assms(1,3-9) activeRun_sameRuns [OF assms(2)] unfolding coherent_def by (auto split: if_splits)

section \<open>Requests of the workspace\<close>

lemma clientCreate_Return:
  assumes "getApiSession (wx_session x) = Some user" and "wx_formats x = zf"
    and "clientCreate zf (webFetch x) r db = (db', Return p)"
  obtains db1 where "createPipeline zf (wx_gen x) (wx_dbNow x) user r db = Return (db1, p)" "db' = claimPipelineUploads user p db1"
proof -
  have "pipelineCreateRequestSchema_ok zf r"
    using assms(3) by (auto simp: clientCreate_def withParsed_def split: if_splits)
  from clientCreate_outcome [OF assms(1,2) this, of db] assms(3) that show ?thesis
    by (auto split: sum.splits repository_error.splits)
qed

lemma clientUpdate_Return:
  assumes "getApiSession (wx_session x) = Some user" and "wx_formats x = zf"
    and "clientUpdate zf (webFetch x) pid u db = (db', Return p)"
  obtains db1 where "updatePipeline zf (wx_gen x) (wx_dbNow x) (wx_now x) user pid u db = Return (db1, Some p)"
    "db' = claimPipelineUploads user p db1"
proof -
  have "uuid_format zf pid" "pipelineUpdateRequestSchema_ok zf u"
    using assms(3) by (auto simp: clientUpdate_def withParsed_def split: if_splits)
  from clientUpdate_outcome [OF assms(1,2) this, of db] assms(3) that show ?thesis
    by (auto split: sum.splits option.splits repository_error.splits)
qed

lemma clientDelete_Return:
  assumes "getApiSession (wx_session x) = Some user" and "wx_formats x = zf"
    and "clientDelete zf (webFetch x) pid db = (db', Return ())"
  shows "deletePipeline user pid db = Return (db', True)"
proof -
  have "uuid_format zf pid" using assms(3) by (auto simp: clientDelete_def withParsed_def split: if_splits)
  from clientDelete_outcome [OF assms(1,2) this, of db] assms(3) show ?thesis
    by (auto split: sum.splits bool.splits repository_error.splits)
qed

lemma claim_sameRuns: "sameRuns db (claimPipelineUploads user p db)"
  by (subst claimPipelineUploads_rows(2)) (simp add: sameRuns_def)

lemma claim_read: "getPipeline zf (claimPipelineUploads user p db) o' q = getPipeline zf db o' q"
  by (rule getPipeline_tables) (simp_all add: claim_tables)

lemma created_reads:
  assumes "db_wf db" and "createPipeline zf gen now owner r db = Return (db', p)"
  shows "getPipeline zf db' owner (p_id p) = Return (Some p)"
    and "q \<noteq> p_id p \<Longrightarrow> getPipeline zf db' owner q = getPipeline zf db owner q"
proof -
  note t = createPipeline_tables [OF assms]
  from t(2) obtain row where row: "db_pipelines db' = db_pipelines db @ [row]" "pl_id row = p_id p" "pl_ownerUserId row = owner"
    "hydratePipeline zf (readPipelineGraph db' row) = Return p" by blast
  have "find (andOwnerAndPipelineId owner (p_id p)) (db_pipelines db) = None"
    using t(3) by (force simp: find_None_iff andOwnerAndPipelineId_def)
  with row show "getPipeline zf db' owner (p_id p) = Return (Some p)"
    by (simp add: getPipeline_def find_append andOwnerAndPipelineId_def)
  assume "q \<noteq> p_id p"
  with row show "getPipeline zf db' owner q = getPipeline zf db owner q"
    by (intro getPipeline_agree [OF t(1)]) (auto simp: find_append andOwnerAndPipelineId_def split: option.splits)
qed

lemma clientRun_Return:
  assumes "getApiSession (wx_session x) = Some user" and "wx_formats x = zf" and "uuid_format zf user"
    and "clientRun zf (webFetch x) pid db = (db', Return run)"
  shows "enqueuePipelineRunForOwner zf (wx_gen x) (wx_dbNow x) user pid (wx_now x) db = Return (db', run)"
proof -
  have uuid: "uuid_format zf pid" using assms(4) by (auto simp: clientRun_def withParsed_def split: if_splits)
  let ?dp = "wx_deployment x"
  note out = schedulerEnqueueRun_outcome [OF assms(3) uuid refl, where gen = "wx_gen x" and dbNow = "wx_dbNow x"
      and now = "wx_now x" and db = db and cfg = "dp_scheduler ?dp" and token = "dp_internalToken ?dp"]
  have "received parseActionErrorCode x (pipelineRunResponseSchema zf)
      (actionRUN zf (\<lambda>owner i. schedulerEnqueueRun zf (dp_scheduler ?dp) owner i
          (schedulerService zf (wx_gen x) (wx_dbNow x) (dp_internalToken ?dp) (wx_now x))) (wx_session x) pid db) = (db', Return run)"
    using assms(2,4) uuid by (simp add: clientRun_def client_defs)
  moreover have "re_status (runResponse r) = 200" for r by (simp add: runResponse_def)
  ultimately show ?thesis
    unfolding actionRUN_def
    by (simp add: assms(1) parseDetail [OF uuid] out)
      (auto simp: received_def runResponse_roundtrip webActionErrorResponse_def schedulerConflictResponse_def codeResponse_def
        notFoundResponse_def
        split: if_splits sum.splits action_error.splits)
qed

lemma queued_run_locks:
  assumes "web_inv zf db" and "enqueuePipelineRunForOwner zf gen dbNow user pid now db = Return (db', run)"
  obtains r where "r \<in> set (db_runs db')" "rn_pipelineId r = pid" "activeState (rn_state r)"
proof -
  from assms(1) have "db_wf db" "queue_ok (db_runs db)" by (simp_all add: web_inv_def repository_inv_def)
  then obtain rs e where "db_runs db' = rs @ [newRunRow (cp_runId run) (\<not> cp_queuedBehindActiveRun run)
      \<lparr>rq_pipelineId = pid, rq_scheduledFor = None, rq_triggerId = None\<rparr> now e]"
    using enqueue_Return(2) [OF assms(2)] by (rule createPipelineRun_queue)
  then show ?thesis by (intro that [of "last (db_runs db')"]) (simp_all add: newRunRow_def activeState_def)
qed

lemma locked_deletion:
  assumes "r \<in> set (db_runs db)" and "rn_pipelineId r = pid" and "activeState (rn_state r)"
    and "p \<in> set (db_pipelines db)" and "pl_id p = pid" and "pl_ownerUserId p = owner"
  shows "deletePipeline owner pid db = Throw PipelineDeletionLockedError"
proof -
  obtain row where row: "find (\<lambda>p. pl_id p = pid \<and> pl_ownerUserId p = owner) (db_pipelines db) = Some row"
    using assms(4-6) by (cases "find (\<lambda>p. pl_id p = pid \<and> pl_ownerUserId p = owner) (db_pipelines db)") (auto simp: find_None_iff)
  then have "pl_id row = pid" by (auto simp: find_Some_iff)
  moreover obtain a where a: "find (\<lambda>r. rn_pipelineId r = pid \<and> activeState (rn_state r)) (db_runs db) = Some a"
    using assms(1-3) by (cases "find (\<lambda>r. rn_pipelineId r = pid \<and> activeState (rn_state r)) (db_runs db)") (auto simp: find_None_iff)
  moreover from a have "activeState (rn_state a)" by (auto simp: find_Some_iff)
  then obtain s where "toActivePipelineRun a = Return s" by (auto simp: toActivePipelineRun_def activeState_def)
  ultimately show ?thesis
    using row a by (simp add: deletePipeline_def deletionExecutionState_def isPipelineEditable_def throw_if_def)
qed

section \<open>Edits and saves\<close>

lemma editor_edits_keep_graph:
  assumes "(editor_edit catalog)\<^sup>*\<^sup>* e e'" and "ed_graphDraft e \<noteq> None"
  shows "ed_graphDraft e' \<noteq> None"
  using assms
proof (induction rule: rtranclp_induct)
  case (step e' e'')
  from step.hyps(2) step.IH [OF step.prems] show ?case
    by cases (auto simp: updateGraphDraft_def updateTriggerDraft_def saveDraft_def)
qed

lemma saveDraft_request:
  assumes "saveDraft editable e = (e', Some u)"
  shows "ur_name u = Some (js_trim (ed_draftName e))"
    and "ur_triggers u = Some (writablePipelineTriggersFromDraft (ed_triggerDraft e))" and "ur_state u = None"
    and "ed_graphDraft e = Some d \<Longrightarrow> ur_steps u = Some (derivePipelineBuilderSteps d) \<and>
      ur_edges u = Some (derivePipelineBuilderEdges (derivePipelineBuilderSteps d))"
  using assms
  by (auto simp: saveDraft_def createPipelineUpdateRequestFromDraft_def derivePipelineBuilderGraph_def Let_def
      split: if_splits option.splits)

lemma update_none_unchanged:
  "updatePipeline zf gen dbNow now owner pid u db = Return (db', None) \<Longrightarrow> db' = db"
  by (auto simp: updatePipeline_def updatePipelineInTransaction_def bind_res_Return_iff bind_res_pair_Return_iff Let_def
      split: option.splits if_splits)

lemma read_id: "getPipeline zf db owner pid = Return (Some p) \<Longrightarrow> p_id p = pid"
  using hydratePipeline_Return(1)
  by (fastforce simp: getPipeline_def bind_res_Return_iff readPipelineGraph_def dest!: find_owner_mem split: option.splits)

section \<open>Properties\<close>


text \<open>
  The lock that the editor does not see. A run that was started in the browser leaves the
  cached execution state valid, so that a pipeline that was idle before stays editable; but from then
  on every update and every deletion is refused because the pipeline is locked.
\<close>

theorem started_runs_leave_the_editor_unlocked:
  assumes "query_client_laws c" and "web_inv zf db" and "getApiSession (wx_session x) = Some user" and "wx_formats x = zf"
    and "uuid_format zf user" and "clientRun zf (webFetch x) pid db = (db', Return run)"
    and "qc_getQueryData c q (keyExecutionState pid) = Some (CachedExecution None)"
    and "\<not> qc_isInvalidated c q (keyExecutionState pid)" and "pipelineSchema_ok zf p"
    and "getApiSession (wx_session y) = Some user" and "wx_formats y = zf" and "pipelineUpdateRequestSchema_ok zf u"
  shows "qc_getQueryData c (invalidatePipeline c pid q) (keyExecutionState pid) = Some (CachedExecution None) \<and>
    \<not> qc_isInvalidated c (invalidatePipeline c pid q) (keyExecutionState pid) \<and>
    workspaceEditable zf p (Some None) = Return True \<and> getActiveRunForPipeline db' pid \<noteq> None \<and>
    clientUpdate zf (webFetch y) pid u db' = (db', Throw (PipelineApiError ''pipeline_locked'' (Some 409))) \<and>
    clientDelete zf (webFetch y) pid db' = (db', Throw (PipelineApiError ''pipeline_locked'' (Some 409)))"
proof -
  have ret: "enqueuePipelineRunForOwner zf (wx_gen x) (wx_dbNow x) user pid (wx_now x) db = Return (db', run)"
    by (rule clientRun_Return [OF assms(3-6)])
  have uuid: "uuid_format zf pid" using assms(6) by (auto simp: clientRun_def withParsed_def split: if_splits)
  obtain r where r: "r \<in> set (db_runs db')" "rn_pipelineId r = pid" "activeState (rn_state r)"
    by (rule queued_run_locks [OF assms(2) ret])
  from enqueue_Return(1) [OF ret] obtain row where row: "row \<in> set (db_pipelines db')" "pl_id row = pid" "pl_ownerUserId row = user"
    using createPipelineRun_tables [OF enqueue_Return(2) [OF ret]] by auto
  have "updatePipeline zf (wx_gen y) (wx_dbNow y) (wx_now y) user pid u db' =
      Throw (TransitionRejected (PipelineStateTransitionError ''Pipeline configuration is locked while a run is queued or active.''))"
    using running_pipelines_cannot_be_updated [OF r, of zf "wx_gen y" "wx_dbNow y" "wx_now y" user u] row assms(5,12) uuid by auto
  then have "clientUpdate zf (webFetch y) pid u db' = (db', Throw (PipelineApiError ''pipeline_locked'' (Some 409)))"
    by (simp add: clientUpdate_outcome [OF assms(10,11) uuid assms(12)])
  moreover have "clientDelete zf (webFetch y) pid db' = (db', Throw (PipelineApiError ''pipeline_locked'' (Some 409)))"
    by (simp add: clientDelete_outcome [OF assms(10,11) uuid] locked_deletion [OF r row])
  moreover have "getActiveRunForPipeline db' pid \<noteq> None"
    using r by (auto simp: getActiveRunForPipeline_def find_None_iff)
  moreover have "workspaceEditable zf p (Some None) = Return True"
    using assms(9) by (simp add: workspaceEditable_def getPipelineExecutionState_def parsePipeline_def isPipelineEditable_def)
  ultimately show ?thesis
    using assms(1,7,8) by (simp add: invalidatePipeline_def query_client_laws_def)
qed


text \<open>
  Saving without an edit keeps the definition. For an executable pipeline whose components
  the catalog knows, an unedited save that is accepted keeps the steps with their configurations and
  secret references, the connections and the state, trims the name and sends the stored schedules.
\<close>

theorem unedited_saves_keep_the_pipeline:
  assumes "db_wf db" and "getApiSession (wx_session x) = Some user" and "wx_formats x = zf"
    and "getPipeline zf db user pid = Return (Some p)" and "valid_graph (p_steps p) (p_edges p)"
    and "executable_pipeline \<lparr>ti_steps = p_steps p, ti_edges = p_edges p\<rparr> cs" and "resolves_faithfully resolve"
    and "capabilitiesReady resolve p (openEditor ids p) = Some e" and "ed_graphDraft e \<noteq> None"
    and "saveDraft editable e = (e', Some u)" and "clientUpdate zf (webFetch x) pid u db = (db', Return p')"
  shows "set (p_steps p') = set (p_steps p) \<and> stepRelation (p_edges p') = stepRelation (p_edges p) \<and>
    p_name p' = js_trim (p_name p) \<and> p_state p' = p_state p \<and>
    ur_triggers u = Some (writablePipelineTriggersFromDraft (createPipelineTriggerDraft ids (p_triggers p))) \<and>
    getPipeline zf db' user pid = Return (Some p')"
proof -
  from assms(8,9) obtain d where d: "createPipelineBuilderDraftFromPipeline p resolve = Some (Some d)"
    and e: "e = (openEditor ids p)\<lparr>ed_graphDraft := Some d\<rparr>"
    by (auto simp: capabilitiesReady_def)
  have same: "set (derivePipelineBuilderSteps d) = set (p_steps p)"
    "stepRelation (derivePipelineBuilderEdges (derivePipelineBuilderSteps d)) = stepRelation (p_edges p)"
    using resuming_terminates_and_keeps_chains [OF assms(5,7), of cs d] assms(6) d by blast+
  obtain db1 where ret: "updatePipeline zf (wx_gen x) (wx_dbNow x) (wx_now x) user pid u db = Return (db1, Some p')"
    and db': "db' = claimPipelineUploads user p' db1"
    by (rule clientUpdate_Return [OF assms(2,3,11)])
  note t = updatePipeline_tables [OF ret] and u = saveDraft_request [OF assms(10)]
  from t(2) assms(4) have p': "p_steps p' = cr_steps (mergeUpdate p u)" "p_edges p' = cr_edges (mergeUpdate p u)"
    "p_name p' = cr_name (mergeUpdate p u)" "p_state p' = p_state p"
    using u(3) by auto
  show ?thesis
    using same u(1,2) u(4) [of d] p' t(3) by (simp add: e mergeUpdate_def openEditor_def db' claim_read)
qed

section \<open>Witnesses\<close>

lemma sampleSaved_resumed:
  "createPipelineBuilderDraftFromPipeline sampleSaved sampleResolver =
     Some (Some (sampleDraft\<lparr>bd_dirty := False, bd_name := ''Load''\<rparr>))"
  by code_simp

text \<open>A client that satisfies the documentation: the data and the marks as functions of the key.\<close>

definition sampleClient :: "((query_key \<Rightarrow> cached option) \<times> (query_key \<Rightarrow> bool)) query_client" where
  "sampleClient =
     \<lparr>qc_getQueryData = (\<lambda>q. fst q), qc_isInvalidated = (\<lambda>q. snd q),
      qc_setQueryData = (\<lambda>q k v. ((fst q)(k := Some v), (snd q)(k := False))),
      qc_invalidateQueries = (\<lambda>q p. (fst q, \<lambda>k. snd q k \<or> prefix p k \<and> fst q k \<noteq> None)),
      qc_removeQueries = (\<lambda>q p. (\<lambda>k. if prefix p k then None else fst q k, \<lambda>k. \<not> prefix p k \<and> snd q k))\<rparr>"

lemma sampleClient_laws: "query_client_laws sampleClient"
  by (simp add: query_client_laws_def sampleClient_def)

definition emptyListCached :: "(query_key \<Rightarrow> cached option) \<times> (query_key \<Rightarrow> bool)" where
  "emptyListCached = ((\<lambda>_. None)(keyList := Some (CachedList [])), \<lambda>_. False)"


definition renamedEditor :: editor where
  "renamedEditor = (openEditor js_decimal sampleSaved)\<lparr>ed_draftName := ''Renamed'',
     ed_graphDraft := Some (sampleDraft\<lparr>bd_dirty := False, bd_name := ''Load''\<rparr>)\<rparr>"


end
