(* ===== verification/Accounts.thy ===== *)
theory Accounts
  imports Web_Correctness
begin

text \<open>
  \<open>apps/web/src/auth/admin-credentials.ts\<close>, \<open>admin.ts\<close>, \<open>initial-setup.ts\<close>,
  \<open>api-token.ts\<close> and the routes under \<open>routes/api/tokens\<close>: the first administrator with its
  published password, the setup that replaces it, the reset of a password, and API tokens. The
  tables are those of \<open>packages/database/src/schema/users.ts\<close>, less the columns that no operation
  here reads or writes. The password hash of \<open>better-auth\<close> and SHA-256 are parameters, and so are
  the random bytes that passwords and tokens are made of.
\<close>

section \<open>Tables\<close>

record account_row =
  ac_id :: string
  ac_accountId :: string
  ac_providerId :: string
  ac_userId :: string
  ac_password :: "string option"
  ac_createdAt :: time
  ac_updatedAt :: time

record session_row =
  ss_id :: string
  ss_token :: string
  ss_userId :: string
  ss_expiresAt :: time

record api_token_row =
  at_id :: string
  at_ownerUserId :: string
  at_name :: string
  at_tokenHash :: string
  at_createdAt :: time
  at_revokedAt :: "time option"

record auth_db =
  ad_users :: "user_row list"
  ad_accounts :: "account_row list"
  ad_sessions :: "session_row list"
  ad_tokens :: "api_token_row list"
  ad_uuids :: nat

definition insertUsers :: "user_row list \<Rightarrow> auth_db \<Rightarrow> (db_error, auth_db) result" where
  "insertUsers rows ad =
     bind_res (insert_unique ''users_pkey'' us_id rows (ad_users ad)) (\<lambda>_.
     bind_res (insert_unique ''users_email_unique'' us_email rows (ad_users ad)) (\<lambda>_.
     bind_res (insert_unique ''users_username_unique'' us_username rows (ad_users ad)) (\<lambda>table.
     Return (ad\<lparr>ad_users := table\<rparr>))))"

definition updateUsers :: "(user_row \<Rightarrow> bool) \<Rightarrow> (user_row \<Rightarrow> user_row) \<Rightarrow> auth_db \<Rightarrow> (db_error, auth_db) result" where
  "updateUsers P f ad =
     (let table = update_where P f (ad_users ad)
      in bind_res (throw_if (\<not> distinct (map us_email table)) (UniqueViolation ''users_email_unique'')) (\<lambda>_.
         Return (ad\<lparr>ad_users := table\<rparr>)))"

definition insertAccounts :: "account_row list \<Rightarrow> auth_db \<Rightarrow> (db_error, auth_db) result" where
  "insertAccounts rows ad =
     bind_res (insert_unique ''accounts_pkey'' ac_id rows (ad_accounts ad)) (\<lambda>table.
     bind_res (references ''accounts_user_id'' ac_userId rows (map us_id (ad_users ad))) (\<lambda>_.
     Return (ad\<lparr>ad_accounts := table\<rparr>)))"

definition insertTokens :: "api_token_row list \<Rightarrow> auth_db \<Rightarrow> (db_error, auth_db) result" where
  "insertTokens rows ad =
     bind_res (insert_unique ''api_tokens_pkey'' at_id rows (ad_tokens ad)) (\<lambda>_.
     bind_res (insert_unique ''api_tokens_token_hash_unique'' at_tokenHash rows (ad_tokens ad)) (\<lambda>table.
     bind_res (references ''api_tokens_owner_user_id'' at_ownerUserId rows (map us_id (ad_users ad))) (\<lambda>_.
     Return (ad\<lparr>ad_tokens := table\<rparr>))))"

section \<open>Credentials of the first administrator\<close>

definition DEFAULT_ADMIN_EMAIL :: string where
  "DEFAULT_ADMIN_EMAIL = ''admin@admin.com''"

definition DEFAULT_ADMIN_USERNAME :: string where
  "DEFAULT_ADMIN_USERNAME = ''admin''"

definition DEFAULT_ADMIN_PASSWORD :: string where
  "DEFAULT_ADMIN_PASSWORD = ''changeme''"

definition MINIMUM_ADMIN_PASSWORD_LENGTH :: nat where
  "MINIMUM_ADMIN_PASSWORD_LENGTH = 12"

text \<open>\<open>^[^\s@]+@[^\s@]+\.[^\s@]+$\<close>: one at sign, and a dot inside of what follows it.\<close>

definition isValidAdminEmail :: "string \<Rightarrow> bool" where
  "isValidAdminEmail value =
     (case js_split CHR ''@'' value of
        [name, domain] \<Rightarrow>
          name \<noteq> [] \<and> list_all (\<lambda>c. \<not> js_space c) value \<and> CHR ''.'' \<in> set (butlast (tl domain))
      | _ \<Rightarrow> False)"

datatype AdminSetupRejection = AlreadyCompleted | EmailInUse | InvalidEmail | ReusedDefaultPassword | WeakPassword

datatype auth_error =
    AdminIdentityError string
  | AdminSetupError AdminSetupRejection
  | AuthDatabaseError db_error
  | AuthError string

record AdminIdentity =
  ai_email :: string
  ai_username :: string

record AdminCredentialResult =
  ar_created :: bool
  ar_temporaryPassword :: "string option"

definition js_or :: "string option \<Rightarrow> string \<Rightarrow> string" where
  "js_or v d = (case v of None \<Rightarrow> d | Some s \<Rightarrow> if s = [] then d else s)"

definition parseAdminIdentity :: "string option \<Rightarrow> string option \<Rightarrow> (auth_error, AdminIdentity) result" where
  "parseAdminIdentity valueEmail valueUsername =
     (let email = js_toLowerCase (js_or (map_option js_trim valueEmail) DEFAULT_ADMIN_EMAIL);
          username = js_or (map_option js_trim valueUsername) DEFAULT_ADMIN_USERNAME
      in bind_res (throw_if (\<not> isValidAdminEmail email)
           (AdminIdentityError ''PANTAETL_ADMIN_EMAIL must be a valid email address.'')) (\<lambda>_.
         bind_res (throw_if (length username < 3)
           (AdminIdentityError ''PANTAETL_ADMIN_USERNAME must contain at least three characters.'')) (\<lambda>_.
         Return \<lparr>ai_email = email, ai_username = username\<rparr>)))"

definition credentialAccount :: "string \<Rightarrow> string \<Rightarrow> string \<Rightarrow> time \<Rightarrow> account_row" where
  "credentialAccount i userId password dbNow =
     \<lparr>ac_id = i, ac_accountId = userId, ac_providerId = ''credential'', ac_userId = userId, ac_password = Some password,
      ac_createdAt = dbNow, ac_updatedAt = dbNow\<rparr>"

text \<open>The transaction of \<open>ensureFirstAdmin\<close>; between the check for accounts and it, others may act.\<close>

definition seedAdmin ::
  "(nat \<Rightarrow> string) \<Rightarrow> time \<Rightarrow> AdminIdentity \<Rightarrow> string \<Rightarrow> string \<Rightarrow> auth_db \<Rightarrow>
   (auth_error, auth_db \<times> AdminCredentialResult) result" where
  "seedAdmin gen dbNow identity initialPassword password ad =
     (let user =
        \<lparr>us_id = gen (ad_uuids ad), us_email = ai_email identity, us_username = ai_username identity,
         us_passwordHash = None, us_emailVerified = True, us_isAdmin = True, us_requiresPasswordChange = True,
         us_createdAt = dbNow, us_updatedAt = dbNow\<rparr>
      in case bind_res (insertUsers [user] (ad\<lparr>ad_uuids := ad_uuids ad + 1\<rparr>)) (\<lambda>ad.
              insertAccounts [credentialAccount (gen (ad_uuids ad)) (us_id user) password dbNow]
                (ad\<lparr>ad_uuids := ad_uuids ad + 1\<rparr>)) of
           Inr ad \<Rightarrow> Return (ad, \<lparr>ar_created = True, ar_temporaryPassword = Some initialPassword\<rparr>)
         | Inl (UniqueViolation _) \<Rightarrow> Return (ad, \<lparr>ar_created = False, ar_temporaryPassword = None\<rparr>)
         | Inl error \<Rightarrow> Throw (AuthDatabaseError error))"

definition ensureFirstAdmin ::
  "(string \<Rightarrow> string) \<Rightarrow> (nat \<Rightarrow> string) \<Rightarrow> time \<Rightarrow> AdminIdentity \<Rightarrow> string \<Rightarrow> auth_db \<Rightarrow>
   (auth_error, auth_db \<times> AdminCredentialResult) result" where
  "ensureFirstAdmin hashPassword gen dbNow identity initialPassword ad =
     (if ad_users ad \<noteq> [] then Return (ad, \<lparr>ar_created = False, ar_temporaryPassword = None\<rparr>)
      else seedAdmin gen dbNow identity initialPassword (hashPassword initialPassword) ad)"

text \<open>Replacing the password of a user's credential, or adding one.\<close>

definition replaceCredential ::
  "(nat \<Rightarrow> string) \<Rightarrow> time \<Rightarrow> time \<Rightarrow> string \<Rightarrow> string \<Rightarrow> auth_db \<Rightarrow> (db_error, auth_db) result" where
  "replaceCredential gen dbNow now userId password ad =
     (let credential = (\<lambda>a. ac_userId a = userId \<and> ac_providerId a = ''credential'')
      in if list_ex credential (ad_accounts ad)
         then Return (ad\<lparr>ad_accounts := update_where credential
           (\<lambda>a. a\<lparr>ac_password := Some password, ac_updatedAt := now\<rparr>) (ad_accounts ad)\<rparr>)
         else insertAccounts [credentialAccount (gen (ad_uuids ad)) userId password dbNow]
           (ad\<lparr>ad_uuids := ad_uuids ad + 1\<rparr>))"

definition resetAdminPassword ::
  "(string \<Rightarrow> string) \<Rightarrow> (nat \<Rightarrow> string) \<Rightarrow> time \<Rightarrow> time \<Rightarrow> string \<Rightarrow> string \<Rightarrow> auth_db \<Rightarrow>
   (auth_error, auth_db \<times> string option) result" where
  "resetAdminPassword hashPassword gen dbNow now temporaryPassword email ad =
     bind_res (parseAdminIdentity (Some email) (Some ''admin'')) (\<lambda>identity.
     case find (\<lambda>u. us_email u = ai_email identity \<and> us_isAdmin u) (ad_users ad) of
       None \<Rightarrow> Return (ad, None)
     | Some user \<Rightarrow>
         bind_res (map_err AuthDatabaseError
           (bind_res (replaceCredential gen dbNow now (us_id user) (hashPassword temporaryPassword) ad) (\<lambda>ad.
            bind_res (updateUsers (\<lambda>u. us_id u = us_id user)
              (\<lambda>u. u\<lparr>us_requiresPasswordChange := True, us_updatedAt := now\<rparr>) ad) (\<lambda>ad.
            Return (ad\<lparr>ad_sessions := delete_where (\<lambda>s. ss_userId s = us_id user) (ad_sessions ad)\<rparr>))))) (\<lambda>ad.
         Return (ad, Some temporaryPassword)))"

definition completeInitialAdminSetup ::
  "(string \<Rightarrow> string) \<Rightarrow> (nat \<Rightarrow> string) \<Rightarrow> time \<Rightarrow> time \<Rightarrow> string \<Rightarrow> string \<Rightarrow> string \<Rightarrow> auth_db \<Rightarrow>
   (auth_error, auth_db) result" where
  "completeInitialAdminSetup hashPassword gen dbNow now inputEmail inputPassword userId ad =
     (let email = js_toLowerCase (js_trim inputEmail) in
      bind_res (throw_if (\<not> isValidAdminEmail email) (AdminSetupError InvalidEmail)) (\<lambda>_.
      bind_res (throw_if (inputPassword = DEFAULT_ADMIN_PASSWORD) (AdminSetupError ReusedDefaultPassword)) (\<lambda>_.
      bind_res (throw_if (length inputPassword < MINIMUM_ADMIN_PASSWORD_LENGTH) (AdminSetupError WeakPassword)) (\<lambda>_.
      bind_res (throw_if (find (\<lambda>u. us_id u = userId \<and> us_requiresPasswordChange u) (ad_users ad) = None)
        (AdminSetupError AlreadyCompleted)) (\<lambda>_.
      bind_res (case find (\<lambda>u. us_email u = email) (ad_users ad) of
          None \<Rightarrow> Return ()
        | Some conflicting \<Rightarrow> throw_if (us_id conflicting \<noteq> userId) (AdminSetupError EmailInUse)) (\<lambda>_.
      map_err AuthDatabaseError
        (bind_res (replaceCredential gen dbNow now userId (hashPassword inputPassword) ad) (\<lambda>ad.
         updateUsers (\<lambda>u. us_id u = userId)
           (\<lambda>u. u\<lparr>us_email := email, us_requiresPasswordChange := False, us_updatedAt := now\<rparr>) ad))))))))"

datatype AdminSetupOutcome = SetupOk | SetupRejected AdminSetupRejection | SetupUnauthenticated

text \<open>The server function of the setup page: the session's own account, and only while it has to change.\<close>

definition completeAdminSetup ::
  "(string \<Rightarrow> string) \<Rightarrow> (nat \<Rightarrow> string) \<Rightarrow> time \<Rightarrow> time \<Rightarrow> SessionUser option \<Rightarrow> string \<Rightarrow> string \<Rightarrow> auth_db \<Rightarrow>
   auth_db \<times> (auth_error, AdminSetupOutcome) result" where
  "completeAdminSetup hashPassword gen dbNow now session email password ad =
     (case session of
        None \<Rightarrow> (ad, Return SetupUnauthenticated)
      | Some user \<Rightarrow>
          if \<not> se_requiresPasswordChange user then (ad, Return SetupUnauthenticated)
          else (case completeInitialAdminSetup hashPassword gen dbNow now email password (se_id user) ad of
              Inr ad \<Rightarrow> (ad, Return SetupOk)
            | Inl (AdminSetupError reason) \<Rightarrow> (ad, Return (SetupRejected reason))
            | Inl error \<Rightarrow> (ad, Throw error)))"

datatype route_guard = Admitted | RedirectLogin string | RedirectWelcome | RedirectHome

definition requireSession :: "string \<Rightarrow> SessionUser option \<Rightarrow> route_guard" where
  "requireSession href session =
     (case session of
        None \<Rightarrow> RedirectLogin href
      | Some user \<Rightarrow> if se_requiresPasswordChange user then RedirectWelcome else Admitted)"

definition requireInitialSetup :: "string \<Rightarrow> SessionUser option \<Rightarrow> route_guard" where
  "requireInitialSetup href session =
     (case session of
        None \<Rightarrow> RedirectLogin href
      | Some user \<Rightarrow> if \<not> se_requiresPasswordChange user then RedirectHome else Admitted)"

section \<open>API tokens\<close>

definition API_TOKEN_PREFIX :: string where
  "API_TOKEN_PREFIX = ''pantaetl_''"

definition API_TOKEN_SECRET_LENGTH :: nat where
  "API_TOKEN_SECRET_LENGTH = 43"

definition MAX_API_TOKEN_NAME_LENGTH :: nat where
  "MAX_API_TOKEN_NAME_LENGTH = 128"

record ApiTokenIdentity =
  ti_email :: string
  ti_id :: string
  ti_isAdmin :: bool
  ti_tokenId :: string
  ti_username :: string

record CreatedApiToken =
  ct_createdAt :: time
  ct_id :: string
  ct_name :: string
  ct_token :: string

record ApiTokenMetadata =
  tm_createdAt :: time
  tm_id :: string
  tm_name :: string
  tm_revokedAt :: "time option"

definition generateApiToken :: "string \<Rightarrow> string" where
  "generateApiToken randomSecret = API_TOKEN_PREFIX @ randomSecret"

definition parseApiTokenName :: "json option \<Rightarrow> (auth_error, string) result" where
  "parseApiTokenName value =
     (case value of
        Some (JStr s) \<Rightarrow>
          (let name = js_trim s
           in if length name = 0 \<or> length name > MAX_API_TOKEN_NAME_LENGTH
              then Throw (AuthError ''API token names must be between 1 and 128 characters.'') else Return name)
      | _ \<Rightarrow> Throw (AuthError ''An API token name is required.''))"

definition createApiToken ::
  "(string \<Rightarrow> string) \<Rightarrow> (nat \<Rightarrow> string) \<Rightarrow> time \<Rightarrow> string \<Rightarrow> string \<Rightarrow> string \<Rightarrow> auth_db \<Rightarrow>
   (auth_error, auth_db \<times> CreatedApiToken) result" where
  "createApiToken hashApiToken gen dbNow randomSecret name ownerUserId ad =
     (let token = generateApiToken randomSecret;
          row = \<lparr>at_id = gen (ad_uuids ad), at_ownerUserId = ownerUserId, at_name = name,
            at_tokenHash = hashApiToken token, at_createdAt = dbNow, at_revokedAt = None\<rparr>
      in bind_res (map_err AuthDatabaseError (insertTokens [row] (ad\<lparr>ad_uuids := ad_uuids ad + 1\<rparr>))) (\<lambda>ad.
         Return (ad, \<lparr>ct_createdAt = at_createdAt row, ct_id = at_id row, ct_name = at_name row, ct_token = token\<rparr>)))"

definition listApiTokens :: "string \<Rightarrow> auth_db \<Rightarrow> ApiTokenMetadata list" where
  "listApiTokens ownerUserId ad =
     map (\<lambda>t. \<lparr>tm_createdAt = at_createdAt t, tm_id = at_id t, tm_name = at_name t, tm_revokedAt = at_revokedAt t\<rparr>)
       (sort_key at_createdAt (filter (\<lambda>t. at_ownerUserId t = ownerUserId) (ad_tokens ad)))"

definition revokeApiToken :: "time \<Rightarrow> string \<Rightarrow> string \<Rightarrow> auth_db \<Rightarrow> auth_db \<times> bool" where
  "revokeApiToken now ownerUserId tokenId ad =
     (let revocable = (\<lambda>t. at_id t = tokenId \<and> at_ownerUserId t = ownerUserId \<and> at_revokedAt t = None)
      in (ad\<lparr>ad_tokens := update_where revocable (\<lambda>t. t\<lparr>at_revokedAt := Some now\<rparr>) (ad_tokens ad)\<rparr>,
          length (filter revocable (ad_tokens ad)) = 1))"

text \<open>\<open>^Bearer ([A-Za-z0-9_-]+)$\<close> in any capitalisation, then the prefix and the length.\<close>

definition tokenChar :: "char \<Rightarrow> bool" where
  "tokenChar c \<longleftrightarrow> is_upper c \<or> is_lower c \<or> is_digit c \<or> c = CHR ''_'' \<or> c = CHR ''-''"

definition extractBearerToken :: "string option \<Rightarrow> string option" where
  "extractBearerToken authorization =
     (case authorization of
        None \<Rightarrow> None
      | Some h \<Rightarrow>
          (let scheme = take 7 h; token = drop 7 h
           in if map (\<lambda>c. if is_upper c then char_of (code c + 32) else c) scheme \<noteq> ''bearer '' \<or> token = [] \<or>
                 \<not> list_all tokenChar token then None
              else if \<not> js_startsWith token API_TOKEN_PREFIX \<or>
                 length token \<noteq> length API_TOKEN_PREFIX + API_TOKEN_SECRET_LENGTH then None
              else Some token))"

definition authenticateApiToken :: "(string \<Rightarrow> string) \<Rightarrow> auth_db \<Rightarrow> string option \<Rightarrow> ApiTokenIdentity option" where
  "authenticateApiToken hashApiToken ad authorization =
     (case extractBearerToken authorization of
        None \<Rightarrow> None
      | Some token \<Rightarrow>
          (case concat (map (\<lambda>t. map (\<lambda>u.
               \<lparr>ti_email = us_email u, ti_id = us_id u, ti_isAdmin = us_isAdmin u, ti_tokenId = at_id t,
                ti_username = us_username u\<rparr>) (filter (\<lambda>u. us_id u = at_ownerUserId t) (ad_users ad)))
             (filter (\<lambda>t. at_tokenHash t = hashApiToken token \<and> at_revokedAt t = None) (ad_tokens ad))) of
             [] \<Rightarrow> None
           | identity # _ \<Rightarrow> Some identity))"

section \<open>Routes\<close>

definition tokenMetadataJson :: "ApiTokenMetadata \<Rightarrow> json" where
  "tokenMetadataJson t = JObj
     [(''createdAt'', JStr (toISOString (tm_createdAt t))), (''id'', JStr (tm_id t)), (''name'', JStr (tm_name t)),
      (''revokedAt'', case tm_revokedAt t of None \<Rightarrow> JNull | Some d \<Rightarrow> JStr (toISOString d))]"

definition tokensGET :: "SessionUser option \<Rightarrow> auth_db \<Rightarrow> response" where
  "tokensGET session ad =
     (case getApiSession session of
        None \<Rightarrow> unauthenticatedResponse
      | Some userId \<Rightarrow> \<lparr>re_status = 200,
          re_body = Some (JObj [(''tokens'', JArr (map tokenMetadataJson (listApiTokens userId ad)))])\<rparr>)"

definition tokensPOST ::
  "(string \<Rightarrow> string) \<Rightarrow> (nat \<Rightarrow> string) \<Rightarrow> time \<Rightarrow> string \<Rightarrow> SessionUser option \<Rightarrow> request_body \<Rightarrow> auth_db \<Rightarrow>
   auth_db \<times> (auth_error, response) result" where
  "tokensPOST hashApiToken gen dbNow randomSecret session body ad =
     (case getApiSession session of
        None \<Rightarrow> (ad, Return unauthenticatedResponse)
      | Some userId \<Rightarrow>
     (case parseApiTokenName (js_optional_property (Some (readJsonObject body)) ''name'') of
        Inl _ \<Rightarrow> (ad, Return (codeResponse ''invalid_api_token_name'' 400))
      | Inr name \<Rightarrow>
     (case createApiToken hashApiToken gen dbNow randomSecret name userId ad of
        Inl error \<Rightarrow> (ad, Throw error)
      | Inr (ad, created) \<Rightarrow> (ad, Return \<lparr>re_status = 201, re_body = Some (JObj [(''token'', JObj
          [(''createdAt'', JStr (toISOString (ct_createdAt created))), (''id'', JStr (ct_id created)),
           (''name'', JStr (ct_name created)), (''token'', JStr (ct_token created))])])\<rparr>))))"

definition tokenDELETE :: "time \<Rightarrow> SessionUser option \<Rightarrow> string \<Rightarrow> auth_db \<Rightarrow> auth_db \<times> response" where
  "tokenDELETE now session tokenId ad =
     (case getApiSession session of
        None \<Rightarrow> (ad, unauthenticatedResponse)
      | Some userId \<Rightarrow> (fst (revokeApiToken now userId tokenId ad), \<lparr>re_status = 204, re_body = None\<rparr>))"

definition authenticationGET :: "(string \<Rightarrow> string) \<Rightarrow> string option \<Rightarrow> auth_db \<Rightarrow> response" where
  "authenticationGET hashApiToken authorization ad =
     (case authenticateApiToken hashApiToken ad authorization of
        None \<Rightarrow> unauthenticatedResponse
      | Some identity \<Rightarrow> \<lparr>re_status = 200, re_body = Some (JObj
          [(''email'', JStr (ti_email identity)), (''id'', JStr (ti_id identity)), (''isAdmin'', JBool (ti_isAdmin identity)),
           (''username'', JStr (ti_username identity))])\<rparr>)"

section \<open>The accounts as a machine\<close>

text \<open>A call of the password hash draws a salt; \<open>hash n p\<close> is the hash of \<open>p\<close> with the salt \<open>n\<close>.\<close>

datatype auth_event =
    SeedAdmin nat time AdminIdentity string
  | ResetAdmin nat time time string string
  | CompleteSetup nat time time "SessionUser option" string string
  | CreateToken time string "SessionUser option" request_body
  | RevokeToken time "SessionUser option" string

fun auth_step ::
  "(nat \<Rightarrow> string \<Rightarrow> string) \<Rightarrow> (string \<Rightarrow> string) \<Rightarrow> (nat \<Rightarrow> string) \<Rightarrow> auth_db \<Rightarrow> auth_event \<Rightarrow> (auth_error, auth_db) result" where
  "auth_step hash sha gen ad (SeedAdmin n dbNow identity password) =
     bind_res (ensureFirstAdmin (hash n) gen dbNow identity password ad) (\<lambda>(ad, r). Return ad)"
| "auth_step hash sha gen ad (ResetAdmin n dbNow now temporaryPassword email) =
     bind_res (resetAdminPassword (hash n) gen dbNow now temporaryPassword email ad) (\<lambda>(ad, r). Return ad)"
| "auth_step hash sha gen ad (CompleteSetup n dbNow now session email password) =
     Return (fst (completeAdminSetup (hash n) gen dbNow now session email password ad))"
| "auth_step hash sha gen ad (CreateToken dbNow randomSecret session body) =
     Return (fst (tokensPOST sha gen dbNow randomSecret session body ad))"
| "auth_step hash sha gen ad (RevokeToken now session tokenId) =
     Return (fst (tokenDELETE now session tokenId ad))"

definition emptyAuth :: auth_db where
  "emptyAuth = \<lparr>ad_users = [], ad_accounts = [], ad_sessions = [], ad_tokens = [], ad_uuids = 0\<rparr>"

text \<open>
  The keys of the tables, and the rule of the first run: an account whose password is the published
  one belongs to a user who has to change it.
\<close>

definition auth_keys :: "auth_db \<Rightarrow> bool" where
  "auth_keys ad \<longleftrightarrow>
     distinct (map us_id (ad_users ad)) \<and> distinct (map us_email (ad_users ad)) \<and>
     distinct (map ac_id (ad_accounts ad)) \<and> list_all (\<lambda>a. ac_providerId a = ''credential'') (ad_accounts ad) \<and>
     (\<forall>a\<in>set (ad_accounts ad). ac_userId a \<in> us_id ` set (ad_users ad)) \<and>
     distinct (map at_id (ad_tokens ad)) \<and> distinct (map at_tokenHash (ad_tokens ad)) \<and>
     (\<forall>t\<in>set (ad_tokens ad). at_ownerUserId t \<in> us_id ` set (ad_users ad))"

definition opensWith :: "(string \<Rightarrow> string \<Rightarrow> bool) \<Rightarrow> account_row \<Rightarrow> string \<Rightarrow> bool" where
  "opensWith verify a password \<longleftrightarrow> (\<exists>h. ac_password a = Some h \<and> verify h password)"

definition restricted :: "(string \<Rightarrow> string \<Rightarrow> bool) \<Rightarrow> auth_db \<Rightarrow> bool" where
  "restricted verify ad \<longleftrightarrow>
     (\<forall>a\<in>set (ad_accounts ad). \<forall>u\<in>set (ad_users ad).
        us_id u = ac_userId a \<and> opensWith verify a DEFAULT_ADMIN_PASSWORD \<longrightarrow> us_requiresPasswordChange u)"

text \<open>What a password hash promises: a hash verifies exactly the password it was made of.\<close>

definition password_hash :: "(nat \<Rightarrow> string \<Rightarrow> string) \<Rightarrow> (string \<Rightarrow> string \<Rightarrow> bool) \<Rightarrow> bool" where
  "password_hash hash verify \<longleftrightarrow> (\<forall>n p q. verify (hash n p) q \<longleftrightarrow> p = q)"

section \<open>Effects on the tables\<close>

lemma update_where_keeps_key: "(\<And>x. k (f x) = k x) \<Longrightarrow> map k (update_where P f xs) = map k xs"
  by (induction xs) (auto simp: update_where_def)

lemma set_update_where: "y \<in> set (update_where P f xs) \<longleftrightarrow> (\<exists>x\<in>set xs. y = (if P x then f x else x))"
  by (auto simp: update_where_def)

lemma replaceCredential_Return:
  assumes "auth_keys ad" and "userId \<in> us_id ` set (ad_users ad)"
    and "replaceCredential gen dbNow now userId pw ad = Return ad'"
  shows "auth_keys ad'" and "ad_users ad' = ad_users ad" and "ad_sessions ad' = ad_sessions ad" and "ad_tokens ad' = ad_tokens ad"
    and "\<forall>a\<in>set (ad_accounts ad'). if ac_userId a = userId then ac_password a = Some pw else a \<in> set (ad_accounts ad)"
    and "\<forall>a\<in>set (ad_accounts ad). ac_userId a \<noteq> userId \<longrightarrow> a \<in> set (ad_accounts ad')"
    and "\<exists>a\<in>set (ad_accounts ad'). ac_userId a = userId"
proof -
  let ?c = "\<lambda>a. ac_userId a = userId \<and> ac_providerId a = ''credential''"
  let ?f = "\<lambda>a. a\<lparr>ac_password := Some pw, ac_updatedAt := now\<rparr>"
  have cred: "a \<in> set (ad_accounts ad) \<Longrightarrow> ac_providerId a = ''credential''" for a
    using assms(1) by (auto simp: auth_keys_def list_all_iff)
  have "auth_keys ad' \<and> ad_users ad' = ad_users ad \<and> ad_sessions ad' = ad_sessions ad \<and> ad_tokens ad' = ad_tokens ad \<and>
    (\<forall>a\<in>set (ad_accounts ad'). if ac_userId a = userId then ac_password a = Some pw else a \<in> set (ad_accounts ad)) \<and>
    (\<forall>a\<in>set (ad_accounts ad). ac_userId a \<noteq> userId \<longrightarrow> a \<in> set (ad_accounts ad')) \<and>
    (\<exists>a\<in>set (ad_accounts ad'). ac_userId a = userId)"
  proof (cases "list_ex ?c (ad_accounts ad)")
    case True
    then have ad': "ad' = ad\<lparr>ad_accounts := update_where ?c ?f (ad_accounts ad)\<rparr>"
      using assms(3) by (simp add: replaceCredential_def)
    have "map ac_userId (ad_accounts ad') = map ac_userId (ad_accounts ad)"
      unfolding ad' by (simp add: update_where_keeps_key)
    then have owners: "ac_userId ` set (ad_accounts ad') = ac_userId ` set (ad_accounts ad)"
      by (simp only: list.set_map [symmetric])
    have "userId \<in> ac_userId ` set (ad_accounts ad')" unfolding owners using True by (auto simp: list_ex_iff)
    then have some: "\<exists>a\<in>set (ad_accounts ad'). ac_userId a = userId" by blast
    note owners moreover have "map ac_id (ad_accounts ad') = map ac_id (ad_accounts ad)"
      unfolding ad' by (simp add: update_where_keeps_key)
    moreover have "list_all (\<lambda>a. ac_providerId a = ''credential'') (ad_accounts ad')"
      unfolding ad' list_all_iff using cred by (auto simp: set_update_where)
    ultimately have "auth_keys ad'"
      using assms(1) unfolding auth_keys_def image_subset_iff [symmetric] by (simp add: ad')
    moreover have accs: "ad_accounts ad' = map (\<lambda>a. if ac_userId a = userId then ?f a else a) (ad_accounts ad)"
      unfolding ad' update_where_def using cred by (simp cong: map_cong)
    have "\<forall>a\<in>set (ad_accounts ad'). if ac_userId a = userId then ac_password a = Some pw else a \<in> set (ad_accounts ad)"
      unfolding accs by auto
    moreover have "\<forall>a\<in>set (ad_accounts ad). ac_userId a \<noteq> userId \<longrightarrow> a \<in> set (ad_accounts ad')"
      unfolding accs by (auto intro: rev_image_eqI)
    moreover have "ad_users ad' = ad_users ad" "ad_sessions ad' = ad_sessions ad" "ad_tokens ad' = ad_tokens ad"
      by (simp_all add: ad')
    ultimately show ?thesis using some by blast
  next
    case False
    with assms(3) show ?thesis
      using assms(1,2) cred
      by (auto simp: replaceCredential_def insertAccounts_def bind_res_Return_iff insert_unique_Return references_Return
          auth_keys_def credentialAccount_def list_ex_iff)
  qed
  then show "auth_keys ad'" "ad_users ad' = ad_users ad" "ad_sessions ad' = ad_sessions ad" "ad_tokens ad' = ad_tokens ad"
    "\<forall>a\<in>set (ad_accounts ad'). if ac_userId a = userId then ac_password a = Some pw else a \<in> set (ad_accounts ad)"
    "\<forall>a\<in>set (ad_accounts ad). ac_userId a \<noteq> userId \<longrightarrow> a \<in> set (ad_accounts ad')"
    "\<exists>a\<in>set (ad_accounts ad'). ac_userId a = userId"
    by blast+
qed

lemma updateUsers_Return:
  "updateUsers P f ad = Return ad' \<longleftrightarrow>
     distinct (map us_email (update_where P f (ad_users ad))) \<and> ad' = ad\<lparr>ad_users := update_where P f (ad_users ad)\<rparr>"
  by (auto simp: updateUsers_def Let_def bind_res_Return_iff throw_if_iff)

lemma updateUsers_keys:
  assumes "auth_keys ad" and "updateUsers P f ad = Return ad'" and "\<And>u. us_id (f u) = us_id u"
  shows "auth_keys ad'"
proof -
  have "map us_id (ad_users ad') = map us_id (ad_users ad)" and "distinct (map us_email (ad_users ad'))"
    and rest: "ad_accounts ad' = ad_accounts ad" "ad_tokens ad' = ad_tokens ad"
    using assms(2,3) by (auto simp: updateUsers_Return update_where_keeps_key)
  moreover from this(1) have "us_id ` set (ad_users ad') = us_id ` set (ad_users ad)" by (metis list.set_map)
  ultimately show ?thesis using assms(1) by (simp add: auth_keys_def)
qed

lemma seedAdmin_Return:
  assumes "seedAdmin gen dbNow identity initial pw ad = Return (ad', r)"
  obtains (kept) "ad' = ad" "\<not> ar_created r"
  | (created) user account where "ar_created r" "ad_users ad' = ad_users ad @ [user]" "ad_accounts ad' = ad_accounts ad @ [account]"
    "ad_tokens ad' = ad_tokens ad" "ad_sessions ad' = ad_sessions ad"
    "us_id user \<notin> us_id ` set (ad_users ad)" "us_email user \<notin> us_email ` set (ad_users ad)" "us_requiresPasswordChange user"
    "ac_userId account = us_id user" "ac_providerId account = ''credential''" "ac_password account = Some pw"
    "ac_id account \<notin> ac_id ` set (ad_accounts ad)" "us_email user = ai_email identity" "us_isAdmin user"
    "us_username user = ai_username identity"
proof -
  let ?user = "\<lparr>us_id = gen (ad_uuids ad), us_email = ai_email identity, us_username = ai_username identity,
         us_passwordHash = None, us_emailVerified = True, us_isAdmin = True, us_requiresPasswordChange = True,
         us_createdAt = dbNow, us_updatedAt = dbNow\<rparr>"
  let ?attempt = "bind_res (insertUsers [?user] (ad\<lparr>ad_uuids := ad_uuids ad + 1\<rparr>)) (\<lambda>ad.
              insertAccounts [credentialAccount (gen (ad_uuids ad)) (us_id ?user) pw dbNow]
                (ad\<lparr>ad_uuids := ad_uuids ad + 1\<rparr>))"
  show thesis
  proof (cases ?attempt)
    case (Inl e)
    with assms have "ad' = ad" "\<not> ar_created r"
      by (auto simp: seedAdmin_def Let_def split: db_error.splits)
    then show thesis by (rule kept)
  next
    case (Inr x)
    with assms have "ad' = x" "ar_created r" by (auto simp: seedAdmin_def Let_def)
    with Inr show thesis
      by (intro created [of ?user "credentialAccount (gen (Suc (ad_uuids ad))) (us_id ?user) pw dbNow"])
        (auto simp: insertUsers_def insertAccounts_def bind_res_Return_iff insert_unique_Return references_Return
          credentialAccount_def)
  qed
qed

section \<open>The rule of the first run\<close>

definition auth_inv :: "(string \<Rightarrow> string \<Rightarrow> bool) \<Rightarrow> auth_db \<Rightarrow> bool" where
  "auth_inv verify ad \<longleftrightarrow> auth_keys ad \<and> restricted verify ad"

text \<open>All the rule needs of the hash: no other password passes for the published one.\<close>

definition detects_default :: "(nat \<Rightarrow> string \<Rightarrow> string) \<Rightarrow> (string \<Rightarrow> string \<Rightarrow> bool) \<Rightarrow> bool" where
  "detects_default hash verify \<longleftrightarrow> (\<forall>n p. verify (hash n p) DEFAULT_ADMIN_PASSWORD \<longrightarrow> p = DEFAULT_ADMIN_PASSWORD)"

lemma password_hash_detects: "password_hash hash verify \<Longrightarrow> detects_default hash verify"
  by (simp add: password_hash_def detects_default_def)

lemma seedAdmin_inv:
  assumes "auth_inv verify ad" and "seedAdmin gen dbNow identity initial pw ad = Return (ad', r)"
  shows "auth_inv verify ad'"
  using assms(2)
proof (cases rule: seedAdmin_Return)
  case kept
  with assms(1) show ?thesis by simp
next
  case (created user account)
  have "auth_keys ad'" using assms(1) created by (auto simp: auth_inv_def auth_keys_def)
  moreover have "ac_userId a \<noteq> us_id user" if "a \<in> set (ad_accounts ad)" for a
  proof -
    have "ac_userId a \<in> us_id ` set (ad_users ad)" using assms(1) that by (simp add: auth_inv_def auth_keys_def)
    with created(6) show ?thesis by (elim contrapos_nn) simp
  qed
  moreover have "us_id u \<noteq> us_id user" if "u \<in> set (ad_users ad)" for u
    using created(6) that by (metis imageI)
  ultimately show ?thesis
    using assms(1) created unfolding auth_inv_def restricted_def by auto
qed

text \<open>Changing a user's flag and password together.\<close>

lemma replaced_restricted:
  assumes "auth_keys ad" and "restricted verify ad" and "userId \<in> us_id ` set (ad_users ad)"
    and "replaceCredential gen dbNow now userId pw ad = Return ad1"
    and "updateUsers (\<lambda>u. us_id u = userId) f ad1 = Return ad'"
    and "\<And>u. us_id (f u) = us_id u" and "(\<forall>u. us_requiresPasswordChange (f u)) \<or> \<not> verify pw DEFAULT_ADMIN_PASSWORD"
  shows "auth_inv verify ad'"
proof -
  note r = replaceCredential_Return [OF assms(1,3,4)]
  have "auth_keys ad'" by (rule updateUsers_keys [OF r(1) assms(5,6)])
  moreover have "restricted verify ad'"
    unfolding restricted_def
  proof (intro ballI impI)
    fix a v assume a: "a \<in> set (ad_accounts ad')" and v: "v \<in> set (ad_users ad')"
      and o: "us_id v = ac_userId a \<and> opensWith verify a DEFAULT_ADMIN_PASSWORD"
    have a1: "a \<in> set (ad_accounts ad1)" using a assms(5) by (simp add: updateUsers_Return)
    from v assms(5) r(2) obtain u where u: "u \<in> set (ad_users ad)" "v = (if us_id u = userId then f u else u)"
      by (auto simp: updateUsers_Return set_update_where)
    show "us_requiresPasswordChange v"
    proof (cases "us_id u = userId")
      case True
      with u(2) assms(6) o have "ac_userId a = userId" by simp
      with r(5) a1 have "ac_password a = Some pw" by auto
      with o have "verify pw DEFAULT_ADMIN_PASSWORD" by (simp add: opensWith_def)
      with assms(7) u(2) True show ?thesis by simp
    next
      case False
      with u(2) o have "v = u" "ac_userId a \<noteq> userId" by auto
      with r(5) a1 have "a \<in> set (ad_accounts ad)" by auto
      with assms(2) u(1) o \<open>v = u\<close> show ?thesis by (auto simp: restricted_def)
    qed
  qed
  ultimately show ?thesis by (simp add: auth_inv_def)
qed

lemma resetAdminPassword_inv:
  assumes "auth_inv verify ad" and "resetAdminPassword h gen dbNow now temporary email ad = Return (ad', r)"
  shows "auth_inv verify ad'"
proof (cases r)
  case None
  with assms show ?thesis by (auto simp: resetAdminPassword_def bind_res_Return_iff split: option.splits)
next
  case (Some p)
  with assms(2) obtain user ad1 ad2 P where user: "find P (ad_users ad) = Some user"
    and r: "replaceCredential gen dbNow now (us_id user) (h temporary) ad = Return ad1"
    and u: "updateUsers (\<lambda>u. us_id u = us_id user) (\<lambda>u. u\<lparr>us_requiresPasswordChange := True, us_updatedAt := now\<rparr>) ad1 = Return ad2"
    and ad': "ad' = ad2\<lparr>ad_sessions := delete_where (\<lambda>s. ss_userId s = us_id user) (ad_sessions ad2)\<rparr>"
    by (auto simp: resetAdminPassword_def bind_res_Return_iff split: option.splits)
  have "us_id user \<in> us_id ` set (ad_users ad)" using user by (auto simp: find_Some_iff)
  then have "auth_inv verify ad2"
    using assms(1) by (intro replaced_restricted [OF _ _ _ r u]) (simp_all add: auth_inv_def)
  then show ?thesis by (simp add: ad' auth_inv_def auth_keys_def restricted_def)
qed

lemma completeSetup_Return:
  assumes "completeInitialAdminSetup h gen dbNow now email password userId ad = Return ad'"
  obtains user ad1 where
    "isValidAdminEmail (js_toLowerCase (js_trim email))" "password \<noteq> DEFAULT_ADMIN_PASSWORD"
    "MINIMUM_ADMIN_PASSWORD_LENGTH \<le> length password"
    "find (\<lambda>u. us_id u = userId \<and> us_requiresPasswordChange u) (ad_users ad) = Some user"
    "replaceCredential gen dbNow now userId (h password) ad = Return ad1"
    "updateUsers (\<lambda>u. us_id u = userId) (\<lambda>u. u\<lparr>us_email := js_toLowerCase (js_trim email),
        us_requiresPasswordChange := False, us_updatedAt := now\<rparr>) ad1 = Return ad'"
  using assms
  by (auto simp: completeInitialAdminSetup_def Let_def bind_res_Return_iff throw_if_iff not_less)

lemma completeSetup_inv:
  assumes "auth_inv verify ad" and "detects_default hash verify"
    and "completeInitialAdminSetup (hash n) gen dbNow now email password userId ad = Return ad'"
  shows "auth_inv verify ad'"
  using assms(3)
proof (rule completeSetup_Return)
  fix user ad1
  assume pw: "password \<noteq> DEFAULT_ADMIN_PASSWORD"
    and user: "find (\<lambda>u. us_id u = userId \<and> us_requiresPasswordChange u) (ad_users ad) = Some user"
    and r: "replaceCredential gen dbNow now userId (hash n password) ad = Return ad1"
    and u: "updateUsers (\<lambda>u. us_id u = userId) (\<lambda>u. u\<lparr>us_email := js_toLowerCase (js_trim email),
        us_requiresPasswordChange := False, us_updatedAt := now\<rparr>) ad1 = Return ad'"
  have "userId \<in> us_id ` set (ad_users ad)" using user by (auto simp: find_Some_iff)
  moreover have "\<not> verify (hash n password) DEFAULT_ADMIN_PASSWORD" using assms(2) pw by (auto simp: detects_default_def)
  ultimately show ?thesis
    using assms(1) by (intro replaced_restricted [OF _ _ _ r u]) (simp_all add: auth_inv_def)
qed

lemma createApiToken_Return:
  assumes "createApiToken sha gen dbNow secret name owner ad = Return (ad', c)"
  obtains row where "ad' = ad\<lparr>ad_tokens := ad_tokens ad @ [row], ad_uuids := ad_uuids ad + 1\<rparr>"
    "at_id row = ct_id c" "at_ownerUserId row = owner" "at_name row = name" "at_tokenHash row = sha (ct_token c)"
    "at_revokedAt row = None" "ct_token c = generateApiToken secret"
    "at_id row \<notin> at_id ` set (ad_tokens ad)" "at_tokenHash row \<notin> at_tokenHash ` set (ad_tokens ad)"
    "owner \<in> us_id ` set (ad_users ad)"
proof (rule that)
  let ?row = "\<lparr>at_id = gen (ad_uuids ad), at_ownerUserId = owner, at_name = name,
      at_tokenHash = sha (generateApiToken secret), at_createdAt = dbNow, at_revokedAt = None\<rparr>"
  have c: "c = \<lparr>ct_createdAt = dbNow, ct_id = gen (ad_uuids ad), ct_name = name, ct_token = generateApiToken secret\<rparr>"
    and i: "insertTokens [?row] (ad\<lparr>ad_uuids := ad_uuids ad + 1\<rparr>) = Return ad'"
    using assms by (auto simp: createApiToken_def Let_def bind_res_Return_iff)
  then show "ad' = ad\<lparr>ad_tokens := ad_tokens ad @ [?row], ad_uuids := ad_uuids ad + 1\<rparr>"
    "at_id ?row \<notin> at_id ` set (ad_tokens ad)" "at_tokenHash ?row \<notin> at_tokenHash ` set (ad_tokens ad)"
    "owner \<in> us_id ` set (ad_users ad)"
    by (auto simp: insertTokens_def bind_res_Return_iff insert_unique_Return references_Return)
  show "at_id ?row = ct_id c" "at_ownerUserId ?row = owner" "at_name ?row = name" "at_tokenHash ?row = sha (ct_token c)"
    "at_revokedAt ?row = None" "ct_token c = generateApiToken secret"
    by (simp_all add: c)
qed

lemma createApiToken_inv:
  assumes "auth_inv verify ad" and "createApiToken sha gen dbNow secret name owner ad = Return (ad', c)"
  shows "auth_inv verify ad'"
  using assms(2)
  by (rule createApiToken_Return) (use assms(1) in \<open>auto simp: auth_inv_def auth_keys_def restricted_def\<close>)

lemma revokeApiToken_inv: "auth_inv verify ad \<Longrightarrow> auth_inv verify (fst (revokeApiToken now owner i ad))"
  by (auto simp: auth_inv_def auth_keys_def restricted_def revokeApiToken_def Let_def update_where_keeps_key set_update_where)

lemma auth_step_inv:
  assumes "detects_default hash verify" and "auth_inv verify ad" and "auth_step hash sha gen ad e = Return ad'"
  shows "auth_inv verify ad'"
proof (cases e)
  case (SeedAdmin n dbNow identity password)
  with assms(2,3) show ?thesis
    by (auto simp: bind_res_pair_Return_iff ensureFirstAdmin_def intro: seedAdmin_inv split: if_splits)
next
  case (ResetAdmin n dbNow now temporary email)
  with assms(2,3) show ?thesis by (auto simp: bind_res_pair_Return_iff intro: resetAdminPassword_inv)
next
  case (CompleteSetup n dbNow now session email password)
  with assms show ?thesis
    by (auto simp: completeAdminSetup_def intro: completeSetup_inv split: option.splits sum.splits auth_error.splits if_splits)
next
  case (CreateToken dbNow secret session body)
  with assms(2,3) show ?thesis
    by (auto simp: tokensPOST_def intro: createApiToken_inv split: option.splits sum.splits)
next
  case (RevokeToken now session i)
  with assms(2,3) show ?thesis by (auto simp: tokenDELETE_def revokeApiToken_inv split: option.splits)
qed

interpretation auth: invariant_machine "auth_step hash sha gen" "\<lambda>ad. detects_default hash verify \<longrightarrow> auth_inv verify ad"
  for hash sha gen verify
  by unfold_locales (auto intro: auth_step_inv)

lemma run_keys:
  assumes "auth_keys ad"
  shows "auth_keys (run_steps (auth_step hash sha gen) ad events)"
proof -
  have "auth_inv (\<lambda>_ _. False) ad" using assms by (simp add: auth_inv_def restricted_def opensWith_def)
  then have "auth_inv (\<lambda>_ _. False) (run_steps (auth_step hash sha gen) ad events)"
    using auth.run_inv [of hash "\<lambda>_ _. False" ad sha gen events] by (simp add: detects_default_def)
  then show ?thesis by (simp add: auth_inv_def)
qed

lemma emptyAuth_inv: "auth_inv verify emptyAuth"
  by (simp add: auth_inv_def auth_keys_def restricted_def emptyAuth_def)

section \<open>Tokens\<close>

lemma extract_issued:
  assumes "list_all tokenChar secret" and "length secret = API_TOKEN_SECRET_LENGTH"
  shows "extractBearerToken (Some (''Bearer '' @ generateApiToken secret)) = Some (generateApiToken secret)"
proof -
  have scheme: "map (\<lambda>c. if is_upper c then char_of (code c + 32) else c) ''Bearer '' = ''bearer ''" by code_simp
  have chars: "list_all tokenChar API_TOKEN_PREFIX" "API_TOKEN_PREFIX \<noteq> []" by code_simp+
  have t: "take 7 (''Bearer '' @ x) = ''Bearer ''" "drop 7 (''Bearer '' @ x) = x" for x :: string by simp_all
  show ?thesis
    unfolding extractBearerToken_def option.case t Let_def scheme generateApiToken_def
    using assms chars by (simp add: js_startsWith_def)
qed

lemma filter_unique:
  assumes "distinct (map k xs)" and "x \<in> set xs"
  shows "filter (\<lambda>y. k y = k x) xs = [x]"
  using assms by (induction xs) (auto simp: filter_empty_conv image_iff dest: sym)

text \<open>Only the row with the digest of the token decides.\<close>

lemma authenticate_row:
  assumes "auth_keys ad" and "extractBearerToken header = Some token" and "t \<in> set (ad_tokens ad)"
    and "at_tokenHash t = sha token"
  shows "authenticateApiToken sha ad header =
    (if at_revokedAt t = None
     then map_option (\<lambda>u. \<lparr>ti_email = us_email u, ti_id = us_id u, ti_isAdmin = us_isAdmin u, ti_tokenId = at_id t,
       ti_username = us_username u\<rparr>) (find (\<lambda>u. us_id u = at_ownerUserId t) (ad_users ad))
     else None)"
proof -
  have "filter (\<lambda>y. at_tokenHash y = sha token \<and> at_revokedAt y = None) (ad_tokens ad) =
      filter (\<lambda>y. at_revokedAt y = None) (filter (\<lambda>y. at_tokenHash y = at_tokenHash t) (ad_tokens ad))"
    by (simp add: assms(4) conj_commute)
  also have "filter (\<lambda>y. at_tokenHash y = at_tokenHash t) (ad_tokens ad) = [t]"
    using assms(1,3) by (intro filter_unique) (simp_all add: auth_keys_def)
  finally have rows: "filter (\<lambda>y. at_tokenHash y = sha token \<and> at_revokedAt y = None) (ad_tokens ad) =
      (if at_revokedAt t = None then [t] else [])" by simp
  have first: "(case map f (filter P us) of [] \<Rightarrow> None | x # _ \<Rightarrow> Some x) = map_option f (find P us)" for f P and us :: "user_row list"
    by (induction us) auto
  show ?thesis by (simp add: authenticateApiToken_def assms(2) rows first)
qed

lemma authenticate_unknown:
  assumes "extractBearerToken header = Some token" and "\<forall>t\<in>set (ad_tokens ad). at_tokenHash t = sha token \<longrightarrow> at_revokedAt t \<noteq> None"
  shows "authenticateApiToken sha ad header = None"
proof -
  have "filter (\<lambda>t. at_tokenHash t = sha token \<and> at_revokedAt t = None) (ad_tokens ad) = []"
    using assms(2) by (auto simp: filter_empty_conv)
  then show ?thesis by (simp add: authenticateApiToken_def assms(1))
qed

definition revokedDigest :: "string \<Rightarrow> auth_db \<Rightarrow> bool" where
  "revokedDigest d ad \<longleftrightarrow> (\<exists>t\<in>set (ad_tokens ad). at_tokenHash t = d \<and> at_revokedAt t \<noteq> None)"

lemma replaceCredential_tokens: "replaceCredential gen dbNow now i pw ad = Return ad' \<Longrightarrow> ad_tokens ad' = ad_tokens ad"
  by (auto simp: replaceCredential_def insertAccounts_def Let_def bind_res_Return_iff split: if_splits)

lemma updateUsers_tokens: "updateUsers P f ad = Return ad' \<Longrightarrow> ad_tokens ad' = ad_tokens ad"
  by (auto simp: updateUsers_Return)

lemma admin_tokens:
  "seedAdmin gen dbNow identity initial pw ad = Return (ad', r) \<Longrightarrow> ad_tokens ad' = ad_tokens ad"
  "resetAdminPassword h gen dbNow now temporary email ad = Return (ad', r') \<Longrightarrow> ad_tokens ad' = ad_tokens ad"
  "completeInitialAdminSetup h gen dbNow now email password userId ad = Return ad' \<Longrightarrow> ad_tokens ad' = ad_tokens ad"
  by (erule seedAdmin_Return, simp, simp,
      auto simp: resetAdminPassword_def bind_res_Return_iff split: option.splits
        dest!: replaceCredential_tokens updateUsers_tokens elim!: completeSetup_Return)

lemma revokedDigest_step:
  assumes "revokedDigest d ad" and "auth_step hash sha gen ad e = Return ad'"
  shows "revokedDigest d ad'"
proof (cases e)
  case (SeedAdmin n dbNow identity password)
  with assms show ?thesis
    by (auto simp: bind_res_pair_Return_iff ensureFirstAdmin_def revokedDigest_def split: if_splits dest!: admin_tokens(1))
next
  case (ResetAdmin n dbNow now temporary email)
  with assms show ?thesis by (auto simp: bind_res_pair_Return_iff revokedDigest_def dest!: admin_tokens(2))
next
  case (CompleteSetup n dbNow now session email password)
  with assms show ?thesis
    by (auto simp: completeAdminSetup_def revokedDigest_def dest!: admin_tokens(3)
        split: option.splits sum.splits auth_error.splits if_splits)
next
  case (CreateToken dbNow secret session body)
  with assms show ?thesis
    by (auto simp: tokensPOST_def revokedDigest_def split: option.splits sum.splits elim!: createApiToken_Return)
next
  case (RevokeToken now session i)
  with assms show ?thesis
    by (auto simp: tokenDELETE_def revokeApiToken_def revokedDigest_def Let_def update_where_def split: option.splits
        intro!: rev_bexI)
qed

interpretation revoked: invariant_machine "auth_step hash sha gen" "revokedDigest d" for hash sha gen d
  by unfold_locales (rule revokedDigest_step)

section \<open>Properties\<close>


text \<open>
  Property C16: completing the setup. It succeeds only for an account that still has to change its
  credentials, with a valid address and a password of at least twelve characters that is not the
  published one. Afterwards the account opens with exactly the chosen password, has the chosen address
  in lower case and is no longer restricted, the accounts of other users are untouched, and a second
  setup of it is rejected as already completed.
\<close>

theorem setup_replaces_credentials:
  assumes "auth_inv verify ad" and "password_hash hash verify"
    and "completeInitialAdminSetup (hash n) gen dbNow now email password userId ad = Return ad'"
  shows "isValidAdminEmail (js_toLowerCase (js_trim email)) \<and> password \<noteq> DEFAULT_ADMIN_PASSWORD \<and> 12 \<le> length password \<and>
    (\<exists>u\<in>set (ad_users ad). us_id u = userId \<and> us_requiresPasswordChange u) \<and>
    (\<forall>v\<in>set (ad_users ad'). us_id v = userId \<longrightarrow>
      \<not> us_requiresPasswordChange v \<and> us_email v = js_toLowerCase (js_trim email)) \<and>
    (\<exists>a\<in>set (ad_accounts ad'). ac_userId a = userId) \<and>
    (\<forall>a\<in>set (ad_accounts ad'). ac_userId a = userId \<longrightarrow> (\<forall>q. opensWith verify a q \<longleftrightarrow> q = password)) \<and>
    (\<forall>a. ac_userId a \<noteq> userId \<longrightarrow> (a \<in> set (ad_accounts ad') \<longleftrightarrow> a \<in> set (ad_accounts ad))) \<and>
    completeInitialAdminSetup (hash m) gen dbNow now email password userId ad' = Throw (AdminSetupError AlreadyCompleted)"
  using assms(3)
proof (rule completeSetup_Return)
  fix user ad1
  let ?email = "js_toLowerCase (js_trim email)"
  let ?f = "\<lambda>u. u\<lparr>us_email := ?email, us_requiresPasswordChange := False, us_updatedAt := now\<rparr>"
  assume valid: "isValidAdminEmail ?email" "password \<noteq> DEFAULT_ADMIN_PASSWORD" "MINIMUM_ADMIN_PASSWORD_LENGTH \<le> length password"
    and user: "find (\<lambda>u. us_id u = userId \<and> us_requiresPasswordChange u) (ad_users ad) = Some user"
    and rep: "replaceCredential gen dbNow now userId (hash n password) ad = Return ad1"
    and upd: "updateUsers (\<lambda>u. us_id u = userId) ?f ad1 = Return ad'"
  have pending: "\<exists>u\<in>set (ad_users ad). us_id u = userId \<and> us_requiresPasswordChange u"
    using user by (auto simp: find_Some_iff)
  then have "userId \<in> us_id ` set (ad_users ad)" by blast
  note r = replaceCredential_Return [OF _ this rep]
  have keys: "auth_keys ad" using assms(1) by (simp add: auth_inv_def)
  have ad': "ad_accounts ad' = ad_accounts ad1" "ad_users ad' = update_where (\<lambda>u. us_id u = userId) ?f (ad_users ad)"
    using upd r(2) [OF keys] by (auto simp: updateUsers_Return)
  have finished: "\<forall>v\<in>set (ad_users ad'). us_id v = userId \<longrightarrow> \<not> us_requiresPasswordChange v \<and> us_email v = ?email"
  proof (intro ballI impI)
    fix v assume "v \<in> set (ad_users ad')" and v: "us_id v = userId"
    then obtain u where "v = (if us_id u = userId then ?f u else u)" by (auto simp: ad'(2) set_update_where)
    with v show "\<not> us_requiresPasswordChange v \<and> us_email v = ?email" by (cases "us_id u = userId") simp_all
  qed
  then have "find (\<lambda>u. us_id u = userId \<and> us_requiresPasswordChange u) (ad_users ad') = None"
    by (auto simp: find_None_iff)
  with valid have again: "completeInitialAdminSetup (hash m) gen dbNow now email password userId ad' =
      Throw (AdminSetupError AlreadyCompleted)"
    by (simp add: completeInitialAdminSetup_def throw_if_def not_less)
  have opens: "\<forall>a\<in>set (ad_accounts ad'). ac_userId a = userId \<longrightarrow> (\<forall>q. opensWith verify a q \<longleftrightarrow> q = password)"
    using r(5) [OF keys] assms(2) unfolding ad' password_hash_def opensWith_def by fastforce
  have others: "\<forall>a. ac_userId a \<noteq> userId \<longrightarrow> (a \<in> set (ad_accounts ad') \<longleftrightarrow> a \<in> set (ad_accounts ad))"
    using r(5,6) [OF keys] unfolding ad' by metis
  show ?thesis
    using valid pending finished r(7) [OF keys] opens others again by (simp add: ad'(1) MINIMUM_ADMIN_PASSWORD_LENGTH_def)
qed


section \<open>Witnesses\<close>

text \<open>A password scheme with the promised behaviour: the hash is the salt and the password.\<close>

definition sampleHash :: "nat \<Rightarrow> string \<Rightarrow> string" where
  "sampleHash n password = replicate n (CHR ''#'') @ ''$'' @ password"

definition sampleVerify :: "string \<Rightarrow> string \<Rightarrow> bool" where
  "sampleVerify h password \<longleftrightarrow> tl (dropWhile (\<lambda>c. c = CHR ''#'') h) = password"

lemma sampleHash_ok: "password_hash sampleHash sampleVerify"
  by (auto simp: password_hash_def sampleHash_def sampleVerify_def dropWhile_append)

definition sampleIdentity :: AdminIdentity where
  "sampleIdentity = \<lparr>ai_email = DEFAULT_ADMIN_EMAIL, ai_username = DEFAULT_ADMIN_USERNAME\<rparr>"

definition sampleAuth :: auth_db where
  "sampleAuth = run_steps (auth_step sampleHash id sampleGen) emptyAuth [SeedAdmin 0 1 sampleIdentity DEFAULT_ADMIN_PASSWORD]"

lemma sampleAuth_inv: "auth_inv sampleVerify sampleAuth"
  unfolding sampleAuth_def
  using auth.run_inv [of sampleHash sampleVerify emptyAuth id sampleGen] emptyAuth_inv password_hash_detects [OF sampleHash_ok]
  by blast

definition sampleAdmin :: user_row where
  "sampleAdmin = \<lparr>us_id = ''g0'', us_email = DEFAULT_ADMIN_EMAIL, us_username = DEFAULT_ADMIN_USERNAME, us_passwordHash = None,
     us_emailVerified = True, us_isAdmin = True, us_requiresPasswordChange = True, us_createdAt = 1, us_updatedAt = 1\<rparr>"

lemma sampleAuth_rows:
  "ad_users sampleAuth = [sampleAdmin]"
  "ad_accounts sampleAuth = [credentialAccount ''g1'' ''g0'' (sampleHash 0 DEFAULT_ADMIN_PASSWORD) 1]"
  by code_simp+


lemma sampleSetup_ok:
  "returnsWith (\<lambda>_. True) (completeInitialAdminSetup (sampleHash 3) sampleGen 5 5 '' Me@Example.org '' ''a longer secret'' ''g0'' sampleAuth)"
  by code_simp

theorem setup_replaces_credentials_witness:
  "\<exists>ad'. completeInitialAdminSetup (sampleHash 3) sampleGen 5 5 '' Me@Example.org '' ''a longer secret'' ''g0'' sampleAuth = Return ad' \<and>
     (\<forall>a\<in>set (ad_accounts ad'). ac_userId a = ''g0'' \<longrightarrow> \<not> opensWith sampleVerify a DEFAULT_ADMIN_PASSWORD)"
proof -
  from returnsWithE [OF sampleSetup_ok] obtain ad' where
    r: "completeInitialAdminSetup (sampleHash 3) sampleGen 5 5 '' Me@Example.org '' ''a longer secret'' ''g0'' sampleAuth = Return ad'" by blast
  from setup_replaces_credentials [OF sampleAuth_inv sampleHash_ok r]
  have "\<forall>a\<in>set (ad_accounts ad'). ac_userId a = ''g0'' \<longrightarrow> (\<forall>q. opensWith sampleVerify a q \<longleftrightarrow> q = ''a longer secret'')" by blast
  then show ?thesis using r by (auto simp: DEFAULT_ADMIN_PASSWORD_def)
qed

definition sampleSecret :: string where
  "sampleSecret = replicate 43 (CHR ''x'')"

lemma sampleToken_ok: "returnsWith (\<lambda>_. True) (createApiToken id sampleGen 6 sampleSecret ''ci'' ''g0'' sampleAuth)"
  by code_simp


end
