(* ===== verification/System_Settings.thy ===== *)
theory System_Settings
  imports Accounts
begin

text \<open>
  \<open>apps/web/src/system/settings.ts\<close> and \<open>health.ts\<close>: the global retention setting that an
  administrator changes, and the summary of the health of the database, the storage and the other
  services. The health endpoints of the scheduler (\<open>apps/scheduler/src/main.ts\<close>) and of the garbage
  collector (\<open>apps/garbage-collector/src/server.ts\<close>) are modelled with it. Whether the database
  answers, whether the storage directory is accessible and what a probe returns are arguments.
\<close>

section \<open>Global settings\<close>

text \<open>The session of a server function: the user of \<open>auth.api.getSession\<close> with its role.\<close>

record RoleSession = SessionUser +
  se_isAdmin :: bool

record GlobalSettingsView =
  gv_canManageGlobalSettings :: bool
  gv_runLogRetentionDays :: int

definition getGlobalSettings :: "RoleSession option \<Rightarrow> database \<Rightarrow> (string, GlobalSettingsView) result" where
  "getGlobalSettings session db =
     (case session of
        None \<Rightarrow> Throw ''An authenticated session is required to read global settings.''
      | Some user \<Rightarrow> bind_res (getRunLogRetentionDays db) (\<lambda>days.
          Return \<lparr>gv_canManageGlobalSettings = se_isAdmin user, gv_runLogRetentionDays = days\<rparr>))"

definition parseRunLogRetentionUpdate :: "json \<Rightarrow> (string, rat) result" where
  "parseRunLogRetentionUpdate v =
     (case v of
        JObj kvs \<Rightarrow>
          (case map_of kvs ''runLogRetentionDays'' of
             Some (JNum days) \<Rightarrow>
               if \<not> js_isInteger days \<or> days < 1 then Throw ''Run and log retention days must be a positive integer.''
               else Return days
           | _ \<Rightarrow> Throw ''Run and log retention days must be a positive integer.'')
      | _ \<Rightarrow> Throw ''Run and log retention must be provided as an object.'')"

definition updateRunLogRetention ::
  "time \<Rightarrow> RoleSession option \<Rightarrow> json \<Rightarrow> database \<Rightarrow> (string, database \<times> GlobalSettingsView) result" where
  "updateRunLogRetention now session input db =
     bind_res (parseRunLogRetentionUpdate input) (\<lambda>days.
     bind_res (throw_if (case session of None \<Rightarrow> True | Some user \<Rightarrow> \<not> se_isAdmin user)
       ''Administrator privileges are required to change global settings.'') (\<lambda>_.
     bind_res (setRunLogRetentionDays now days db) (\<lambda>db.
     Return (db, \<lparr>gv_canManageGlobalSettings = True, gv_runLogRetentionDays = \<lfloor>days\<rfloor>\<rparr>))))"

section \<open>Health endpoints of the services\<close>

datatype HealthStatus = Healthy | Unavailable

text \<open>\<open>SchedulerRuntime.getHealth\<close>: whether \<open>select 1\<close> succeeds.\<close>

definition getHealth :: "bool \<Rightarrow> string" where
  "getHealth databaseAnswers = (if databaseAnswers then ''ok'' else ''unavailable'')"

definition healthJson :: "string \<Rightarrow> string \<Rightarrow> json" where
  "healthJson service status = JObj [(''service'', JStr service), (''status'', JStr status)]"

definition schedulerHealthEndpoint :: "bool \<Rightarrow> response" where
  "schedulerHealthEndpoint databaseAnswers =
     (let status = getHealth databaseAnswers
      in \<lparr>re_status = (if status = ''ok'' then 200 else 503), re_body = Some (healthJson ''scheduler'' status)\<rparr>)"

definition respondToHealthCheck :: "string \<Rightarrow> bool \<Rightarrow> response" where
  "respondToHealthCheck serviceName databaseAnswers =
     (if databaseAnswers then \<lparr>re_status = 200, re_body = Some (healthJson serviceName ''ok'')\<rparr>
      else \<lparr>re_status = 503, re_body = Some (healthJson serviceName ''unavailable'')\<rparr>)"

definition garbageCollectorServer :: "string \<Rightarrow> bool \<Rightarrow> string \<Rightarrow> string \<Rightarrow> response" where
  "garbageCollectorServer serviceName databaseAnswers requestMethod url =
     (if requestMethod = ''GET'' \<and> url = ''/health'' then respondToHealthCheck serviceName databaseAnswers
      else \<lparr>re_status = 404, re_body = Some (JObj [(''error'', JStr ''not_found'')])\<rparr>)"

section \<open>The summary\<close>

record QueueHealth =
  qh_queuedJobs :: "nat option"
  qh_runningJobs :: "nat option"
  qh_status :: HealthStatus

record SystemHealth =
  sh_checkedAt :: time
  sh_database :: HealthStatus
  sh_garbageCollector :: HealthStatus
  sh_queue :: QueueHealth
  sh_scheduler :: HealthStatus
  sh_healthy :: bool
  sh_storage :: HealthStatus
  sh_workers :: HealthStatus

definition checkDatabase :: "bool \<Rightarrow> HealthStatus" where
  "checkDatabase databaseAnswers = (if databaseAnswers then Healthy else Unavailable)"

definition getQueueHealth :: "bool \<Rightarrow> database \<Rightarrow> QueueHealth" where
  "getQueueHealth databaseAnswers db =
     (if databaseAnswers
      then \<lparr>qh_queuedJobs = Some (length (filter (\<lambda>j. jb_state j = JobQueued) (db_jobs db))),
            qh_runningJobs = Some (length (filter (\<lambda>j. jb_state j = JobRunning) (db_jobs db))), qh_status = Healthy\<rparr>
      else \<lparr>qh_queuedJobs = None, qh_runningJobs = None, qh_status = Unavailable\<rparr>)"

definition isHealthyService :: "json \<Rightarrow> string \<Rightarrow> bool" where
  "isHealthyService v expectedService =
     (case v of
        JObj kvs \<Rightarrow> map_of kvs ''service'' = Some (JStr expectedService) \<and> map_of kvs ''status'' = Some (JStr ''ok'')
      | _ \<Rightarrow> False)"

text \<open>A probe returns a response, or nothing when the request fails or takes longer than two seconds.\<close>

definition checkService :: "response option \<Rightarrow> string \<Rightarrow> HealthStatus" where
  "checkService probe expectedService =
     (case probe of
        None \<Rightarrow> Unavailable
      | Some response \<Rightarrow>
          (case re_body response of
             None \<Rightarrow> Unavailable
           | Some payload \<Rightarrow>
               if 200 \<le> re_status response \<and> re_status response < 300 \<and> isHealthyService payload expectedService
               then Healthy else Unavailable))"

definition checkStorage :: "bool \<Rightarrow> HealthStatus" where
  "checkStorage accessible = (if accessible then Healthy else Unavailable)"

record health_probes =
  hp_databaseAnswers :: bool
  hp_scheduler :: "response option"
  hp_worker :: "response option"
  hp_garbageCollector :: "response option"
  hp_storageAccessible :: bool

definition getSystemHealth :: "health_probes \<Rightarrow> time \<Rightarrow> database \<Rightarrow> SystemHealth" where
  "getSystemHealth probes now db =
     (let databaseHealth = checkDatabase (hp_databaseAnswers probes);
          queue = getQueueHealth (hp_databaseAnswers probes) db;
          scheduler = checkService (hp_scheduler probes) ''scheduler'';
          workers = checkService (hp_worker probes) ''worker'';
          garbageCollector = checkService (hp_garbageCollector probes) ''garbage-collector'';
          storage = checkStorage (hp_storageAccessible probes);
          components = [databaseHealth, qh_status queue, scheduler, workers, garbageCollector, storage]
      in \<lparr>sh_checkedAt = now, sh_database = databaseHealth, sh_garbageCollector = garbageCollector, sh_queue = queue,
          sh_scheduler = scheduler, sh_healthy = list_all (\<lambda>c. c = Healthy) components, sh_storage = storage,
          sh_workers = workers\<rparr>)"

text \<open>The route \<open>/api/system/health\<close>: no summary without a usable session.\<close>

definition systemHealthGET :: "SessionUser option \<Rightarrow> health_probes \<Rightarrow> time \<Rightarrow> database \<Rightarrow> SystemHealth option" where
  "systemHealthGET session probes now db =
     (case getApiSession session of None \<Rightarrow> None | Some _ \<Rightarrow> Some (getSystemHealth probes now db))"

section \<open>Lemmas\<close>

lemma parse_iff:
  "parseRunLogRetentionUpdate input = Return days \<longleftrightarrow>
     (\<exists>kvs. input = JObj kvs \<and> map_of kvs ''runLogRetentionDays'' = Some (JNum days)) \<and> js_isInteger days \<and> 1 \<le> days"
  by (cases input) (auto simp: parseRunLogRetentionUpdate_def not_less split: option.splits json.splits)

lemma setRetention_Return:
  assumes "js_isInteger days" and "1 \<le> days"
  obtains db' where "setRunLogRetentionDays now days db = Return db'" "getRunLogRetentionDays db' = Return \<lfloor>days\<rfloor>"
    "db' = db\<lparr>db_settings := db_settings db'\<rparr>"
  using retention_days_roundtrip [of days db now] assms
  by (cases "setRunLogRetentionDays now days db") auto

lemma update_iff:
  "updateRunLogRetention now session input db = Return (db', view) \<longleftrightarrow>
     (\<exists>days user. parseRunLogRetentionUpdate input = Return days \<and> session = Some user \<and> se_isAdmin user \<and>
        setRunLogRetentionDays now days db = Return db' \<and>
        view = \<lparr>gv_canManageGlobalSettings = True, gv_runLogRetentionDays = \<lfloor>days\<rfloor>\<rparr>)"
  by (auto simp: updateRunLogRetention_def bind_res_Return_iff throw_if_iff split: option.splits)

lemma expiry_of_days:
  assumes "1 \<le> days"
  shows "calculateRunLogExpiry t days =
    Return (if \<bar>t + days * 86400000\<bar> \<le> maxDate then Some (t + days * 86400000) else None)"
  using assms by (simp add: calculateRunLogExpiry_def resolveRunLogRetentionDays_def Let_def)

text \<open>The row that a creation adds stays in the table to the end of the transaction.\<close>

lemma created_run_row:
  assumes "createPipelineRun zf gen dbNow request now db = Return (db', run)" and "getRunLogRetentionDays db = Return days"
    and "1 \<le> days"
  shows "\<bar>now + days * 86400000\<bar> \<le> maxDate \<and>
    (\<exists>r\<in>set (db_runs db'). rn_id r = cp_runId run \<and> rn_pipelineId r = rq_pipelineId request \<and>
       rn_expiresAt r = now + days * 86400000)"
proof -
  from assms(1) have "createPipelineRunInTransaction zf gen dbNow request now db = Return (db', run)"
    by (auto simp: createPipelineRun_def bind_res_Return_iff)
  then show ?thesis
  proof (rule createPipelineRun_Return, goal_cases)
    case (1 p days' db1 db2 active e db3 db4 n)
    then have e: "e = now + days * 86400000" "\<bar>now + days * 86400000\<bar> \<le> maxDate"
      using assms(2,3) by (auto simp: expiry_of_days split: if_splits)
    have "db_runs db4 = db_runs db3"
      using insertEventInputs_tables [OF recordOperationalEvent_Return [OF 1(8)]] by auto
    moreover have "db_runs db' = db_runs db4"
      using 1(9) by (auto split: if_splits elim!: createInitialSourceJobs_Return)
    ultimately have "db_runs db' = db_runs db2 @ [newRunRow (gen (db_uuids db2)) (active = None) request now e]"
      using insertRuns_tables [OF 1(7)] by (simp add: advance_uuids_def)
    with 1(10) e show ?case by auto
  qed
qed

lemma services_report:
  "checkService (Some (schedulerHealthEndpoint answers)) ''scheduler'' = (if answers then Healthy else Unavailable)"
  "checkService (Some (garbageCollectorServer ''garbage-collector'' answers ''GET'' ''/health'')) ''garbage-collector'' =
     (if answers then Healthy else Unavailable)"
  by (simp_all add: checkService_def schedulerHealthEndpoint_def garbageCollectorServer_def respondToHealthCheck_def
      isHealthyService_def healthJson_def getHealth_def Let_def)

section \<open>Properties\<close>

text \<open>
  Property C35: the retention setting from the settings page to the runs. An update is accepted exactly
  from an administrator with a positive integer, everything else is refused without a change; after an
  accepted update every session reads the new number of days, nothing but the setting has changed, and
  every run created from then on expires exactly that many days after its creation. If that moment is
  beyond the range of dates, no run can be created any more.
\<close>

theorem retention_setting_end_to_end:
  "(\<exists>db' view. updateRunLogRetention now session input db = Return (db', view)) =
     ((\<exists>user. session = Some user \<and> se_isAdmin user) \<and>
      (\<exists>kvs days. input = JObj kvs \<and> map_of kvs ''runLogRetentionDays'' = Some (JNum days) \<and> js_isInteger days \<and> 1 \<le> days)) \<and>
   (updateRunLogRetention now session input db = Return (db', view) \<longrightarrow>
     1 \<le> gv_runLogRetentionDays view \<and> db' = db\<lparr>db_settings := db_settings db'\<rparr> \<and>
     (\<forall>reader. getGlobalSettings (Some reader) db' =
        Return \<lparr>gv_canManageGlobalSettings = se_isAdmin reader, gv_runLogRetentionDays = gv_runLogRetentionDays view\<rparr>) \<and>
     (\<forall>zf gen dbNow request t db'' run. createPipelineRun zf gen dbNow request t db' = Return (db'', run) \<longrightarrow>
        \<bar>t + gv_runLogRetentionDays view * 86400000\<bar> \<le> maxDate \<and>
        (\<exists>r\<in>set (db_runs db''). rn_id r = cp_runId run \<and> rn_pipelineId r = rq_pipelineId request \<and>
           rn_expiresAt r = t + gv_runLogRetentionDays view * 86400000)))"
proof (intro conjI impI)
  show "(\<exists>db' view. updateRunLogRetention now session input db = Return (db', view)) =
     ((\<exists>user. session = Some user \<and> se_isAdmin user) \<and>
      (\<exists>kvs days. input = JObj kvs \<and> map_of kvs ''runLogRetentionDays'' = Some (JNum days) \<and> js_isInteger days \<and> 1 \<le> days))"
    (is "?accepted = ?wellformed")
  proof
    assume ?wellformed
    then obtain user kvs days where i: "session = Some user" "se_isAdmin user" and days: "js_isInteger days" "1 \<le> days"
      and input: "input = JObj kvs" "map_of kvs ''runLogRetentionDays'' = Some (JNum days)" by blast
    have "parseRunLogRetentionUpdate input = Return days" unfolding parse_iff using days input by blast
    moreover obtain db' where "setRunLogRetentionDays now days db = Return db'" by (rule setRetention_Return [OF days])
    ultimately show ?accepted using i by (simp add: updateRunLogRetention_def throw_if_def)
  qed (auto simp: update_iff parse_iff)
next
  assume "updateRunLogRetention now session input db = Return (db', view)"
  then obtain days where days: "js_isInteger days" "1 \<le> days" "setRunLogRetentionDays now days db = Return db'"
    and view: "gv_runLogRetentionDays view = \<lfloor>days\<rfloor>"
    unfolding update_iff parse_iff by auto
  from setRetention_Return [OF days(1,2), of now db] days(3)
  have get: "getRunLogRetentionDays db' = Return \<lfloor>days\<rfloor>" and same: "db' = db\<lparr>db_settings := db_settings db'\<rparr>" by auto
  have pos: "1 \<le> \<lfloor>days\<rfloor>" using days(2) by (simp add: le_floor_iff)
  then show "1 \<le> gv_runLogRetentionDays view" by (simp add: view)
  show "db' = db\<lparr>db_settings := db_settings db'\<rparr>" by (rule same)
  show "\<forall>reader. getGlobalSettings (Some reader) db' =
      Return \<lparr>gv_canManageGlobalSettings = se_isAdmin reader, gv_runLogRetentionDays = gv_runLogRetentionDays view\<rparr>"
    by (simp add: getGlobalSettings_def get view)
  show "\<forall>zf gen dbNow request t db'' run. createPipelineRun zf gen dbNow request t db' = Return (db'', run) \<longrightarrow>
        \<bar>t + gv_runLogRetentionDays view * 86400000\<bar> \<le> maxDate \<and>
        (\<exists>r\<in>set (db_runs db''). rn_id r = cp_runId run \<and> rn_pipelineId r = rq_pipelineId request \<and>
           rn_expiresAt r = t + gv_runLogRetentionDays view * 86400000)"
    unfolding view using created_run_row [OF _ get pos] by blast
qed

text \<open>
  Property C36: the restriction of the first-run password does not cover the settings. A session of an
  administrator who still has to change the published password is refused by every API route, but the
  server function of the settings page accepts it and changes the retention of the deployment.
\<close>

theorem restricted_administrator_changes_settings:
  assumes "se_requiresPasswordChange user" and "se_isAdmin user" and "js_isInteger days" and "1 \<le> days"
  shows "getApiSession (Some (SessionUser.truncate user)) = None \<and>
    (\<exists>db'. updateRunLogRetention now (Some user) (JObj [(''runLogRetentionDays'', JNum days)]) db =
       Return (db', \<lparr>gv_canManageGlobalSettings = True, gv_runLogRetentionDays = \<lfloor>days\<rfloor>\<rparr>) \<and>
     getRunLogRetentionDays db' = Return \<lfloor>days\<rfloor>)"
proof
  show "getApiSession (Some (SessionUser.truncate user)) = None"
    using assms(1) by (simp add: getApiSession_def SessionUser.truncate_def)
  have parse: "parseRunLogRetentionUpdate (JObj [(''runLogRetentionDays'', JNum days)]) = Return days"
    unfolding parse_iff using assms(3,4) by simp
  from setRetention_Return [OF assms(3,4), of now db] obtain db' where
    "setRunLogRetentionDays now days db = Return db'" "getRunLogRetentionDays db' = Return \<lfloor>days\<rfloor>" by blast
  with parse assms(2) show "\<exists>db'. updateRunLogRetention now (Some user) (JObj [(''runLogRetentionDays'', JNum days)]) db =
       Return (db', \<lparr>gv_canManageGlobalSettings = True, gv_runLogRetentionDays = \<lfloor>days\<rfloor>\<rparr>) \<and>
     getRunLogRetentionDays db' = Return \<lfloor>days\<rfloor>"
    unfolding update_iff by blast
qed

text \<open>
  The health summary and the services agree: with the endpoints of the scheduler and of the collector
  behind the probes, the deployment is reported as healthy exactly when both of them and the web
  application reach the database, a worker identifies itself as ready and the storage is accessible.
\<close>

theorem health_summary_is_exact:
  "sh_healthy (getSystemHealth \<lparr>hp_databaseAnswers = web, hp_scheduler = Some (schedulerHealthEndpoint scheduler),
       hp_worker = worker, hp_garbageCollector = Some (garbageCollectorServer ''garbage-collector'' collector ''GET'' ''/health''),
       hp_storageAccessible = storage\<rparr> now db) \<longleftrightarrow>
     web \<and> scheduler \<and> collector \<and> storage \<and> checkService worker ''worker'' = Healthy"
  by (auto simp: getSystemHealth_def Let_def services_report checkDatabase_def getQueueHealth_def checkStorage_def)

section \<open>Witnesses\<close>

definition sampleAdministrator :: RoleSession where
  "sampleAdministrator = \<lparr>se_id = ''u1'', se_requiresPasswordChange = True, se_isAdmin = True\<rparr>"

theorem retention_setting_end_to_end_witness:
  "\<exists>db' view. updateRunLogRetention 5 (Some sampleAdministrator) (JObj [(''runLogRetentionDays'', JNum 30)]) emptyDb =
     Return (db', view)"
proof -
  from retention_setting_end_to_end [of 5 "Some sampleAdministrator" "JObj [(''runLogRetentionDays'', JNum 30)]" emptyDb]
  show ?thesis by (simp add: sampleAdministrator_def)
qed

theorem restricted_administrator_changes_settings_witness:
  "\<exists>db'. updateRunLogRetention 5 (Some sampleAdministrator) (JObj [(''runLogRetentionDays'', JNum 1)]) emptyDb =
     Return (db', \<lparr>gv_canManageGlobalSettings = True, gv_runLogRetentionDays = \<lfloor>1 :: rat\<rfloor>\<rparr>)"
  using restricted_administrator_changes_settings [of sampleAdministrator 1 5 emptyDb]
  by (auto simp: sampleAdministrator_def)

end
