(* ===== verification/Service_Config.thy ===== *)
theory Service_Config
  imports Web_Routes "HOL-Library.Log_Nat"
begin

text \<open>
  Configuration of the services from their environment: \<open>apps/scheduler/src/config.ts\<close>,
  \<open>apps/garbage-collector/src/config.ts\<close>, \<open>apps/web/src/auth/config.ts\<close>, the scheduler client's
  configuration and the health addresses of the web application, and
  \<open>packages/config/src/storage.ts\<close>. The conversion of text to a number is that of ECMAScript, rounding
  to a double included. The URL parser of the platform, the directory of the module and the working
  directory of a service are arguments.
\<close>

section \<open>Number of a string\<close>

datatype js_number = NaN | PosInfinity | NegInfinity | Finite rat

definition roundHalfEven :: "rat \<Rightarrow> int" where
  "roundHalfEven x =
     (let below = \<lfloor>x\<rfloor>; rest = x - of_int below
      in if rest < 1 / 2 \<or> rest = 1 / 2 \<and> even below then below else below + 1)"

definition pow2 :: "int \<Rightarrow> rat" where
  "pow2 e = (if 0 \<le> e then 2 ^ nat e else 1 / 2 ^ nat (- e))"

text \<open>
  The double nearest to a positive rational: 53 significant bits, no exponent below that of the
  smallest subnormal number, and infinity beyond the largest finite double.
\<close>

definition doubleExponent :: "rat \<Rightarrow> int" where
  "doubleExponent x =
     (let (a, b) = quotient_of x;
          e = int (floorlog 2 (nat a)) - int (floorlog 2 (nat b)) - 53
      in max (- 1074) (if x / pow2 e < 2 ^ 53 then e else e + 1))"

definition roundDouble :: "rat \<Rightarrow> js_number" where
  "roundDouble x =
     (if x = 0 then Finite 0
      else let e = doubleExponent x; r = of_int (roundHalfEven (x / pow2 e)) * pow2 e
           in if 2 ^ 1024 \<le> r then PosInfinity else Finite r)"

fun js_negate :: "js_number \<Rightarrow> js_number" where
  "js_negate NaN = NaN"
| "js_negate PosInfinity = NegInfinity"
| "js_negate NegInfinity = PosInfinity"
| "js_negate (Finite x) = Finite (- x)"

definition takeDigits :: "string \<Rightarrow> string \<times> string" where
  "takeDigits s = (takeWhile is_digit s, dropWhile is_digit s)"

text \<open>The exponent part: nothing, or \<open>e\<close> with an optional sign and at least one digit.\<close>

definition readExponent :: "string \<Rightarrow> int option" where
  "readExponent s =
     (case s of
        [] \<Rightarrow> Some 0
      | c # r \<Rightarrow>
          if c \<noteq> CHR ''e'' \<and> c \<noteq> CHR ''E'' then None
          else let negative = (case r of d # _ \<Rightarrow> d = CHR ''-'' | [] \<Rightarrow> False);
                   digits = (case r of d # r' \<Rightarrow> if d = CHR ''-'' \<or> d = CHR ''+'' then r' else r | [] \<Rightarrow> [])
               in if digits = [] \<or> \<not> list_all is_digit digits then None
                  else Some (if negative then - int (js_digits_value digits) else int (js_digits_value digits)))"

definition pow10 :: "int \<Rightarrow> rat" where
  "pow10 e = (if 0 \<le> e then 10 ^ nat e else 1 / 10 ^ nat (- e))"

definition readUnsignedDecimal :: "string \<Rightarrow> js_number" where
  "readUnsignedDecimal s =
     (if s = ''Infinity'' then PosInfinity
      else let (whole, r) = takeDigits s;
               (fraction, rest) = (case r of c # r' \<Rightarrow> if c = CHR ''.'' then takeDigits r' else ([], r) | [] \<Rightarrow> ([], []))
           in if whole = [] \<and> fraction = [] then NaN
              else (case readExponent rest of
                      None \<Rightarrow> NaN
                    | Some e \<Rightarrow> roundDouble (of_nat (js_digits_value (whole @ fraction)) * pow10 (e - int (length fraction)))))"

definition radixDigit :: "char \<Rightarrow> nat option" where
  "radixDigit c =
     (if is_digit c then Some (code c - 48) else if is_lower c then Some (code c - 87)
      else if is_upper c then Some (code c - 55) else None)"

definition readRadix :: "nat \<Rightarrow> string \<Rightarrow> js_number" where
  "readRadix radix digits =
     (if digits = [] \<or> \<not> list_all (\<lambda>c. case radixDigit c of None \<Rightarrow> False | Some d \<Rightarrow> d < radix) digits then NaN
      else roundDouble (of_nat (foldl (\<lambda>n c. radix * n + the (radixDigit c)) 0 digits)))"

definition js_Number :: "string \<Rightarrow> js_number" where
  "js_Number text =
     (let s = js_trim text in
      if s = [] then Finite 0
      else if js_startsWith s ''0x'' \<or> js_startsWith s ''0X'' then readRadix 16 (drop 2 s)
      else if js_startsWith s ''0o'' \<or> js_startsWith s ''0O'' then readRadix 8 (drop 2 s)
      else if js_startsWith s ''0b'' \<or> js_startsWith s ''0B'' then readRadix 2 (drop 2 s)
      else if hd s = CHR ''-'' then js_negate (readUnsignedDecimal (tl s))
      else if hd s = CHR ''+'' then readUnsignedDecimal (tl s)
      else readUnsignedDecimal s)"

section \<open>Settings\<close>

type_synonym environment = "string \<Rightarrow> string option"

definition integerBetween :: "js_number \<Rightarrow> int \<Rightarrow> int option \<Rightarrow> int option" where
  "integerBetween v lowest highest =
     (case v of
        Finite x \<Rightarrow>
          if \<not> js_isInteger x \<or> x < of_int lowest \<or> (case highest of None \<Rightarrow> False | Some h \<Rightarrow> of_int h < x) then None
          else Some \<lfloor>x\<rfloor>
      | _ \<Rightarrow> None)"

definition readPort :: "string option \<Rightarrow> int \<Rightarrow> (string, int) result" where
  "readPort v fallback =
     (case integerBetween (case v of None \<Rightarrow> Finite (of_int fallback) | Some text \<Rightarrow> js_Number text) 1 (Some 65535) of
        None \<Rightarrow> Throw ''PORT must be an integer between 1 and 65535.''
      | Some port \<Rightarrow> Return port)"

definition readPositiveInteger :: "string option \<Rightarrow> int \<Rightarrow> string \<Rightarrow> (string, int) result" where
  "readPositiveInteger v fallback name =
     (case integerBetween (case v of None \<Rightarrow> Finite (of_int fallback) | Some text \<Rightarrow> js_Number text) 1 None of
        None \<Rightarrow> Throw (name @ '' must be a positive integer.'')
      | Some n \<Rightarrow> Return n)"

definition readDatabaseUrl :: "string option \<Rightarrow> (string, string) result" where
  "readDatabaseUrl v =
     (case map_option js_trim v of
        None \<Rightarrow> Throw ''DATABASE_URL is required.''
      | Some databaseUrl \<Rightarrow> if databaseUrl = [] then Throw ''DATABASE_URL is required.'' else Return databaseUrl)"

text \<open>The garbage collector checks the trimmed text but keeps the text as it is.\<close>

definition readCollectorDatabaseUrl :: "string option \<Rightarrow> (string, string) result" where
  "readCollectorDatabaseUrl v =
     (case v of
        None \<Rightarrow> Throw ''DATABASE_URL is required.''
      | Some url \<Rightarrow> if length (js_trim url) = 0 then Throw ''DATABASE_URL is required.'' else Return url)"

definition readInternalToken :: "string option \<Rightarrow> (string, string) result" where
  "readInternalToken v =
     (case map_option js_trim v of
        None \<Rightarrow> Throw ''SCHEDULER_INTERNAL_TOKEN must contain at least 32 characters.''
      | Some token \<Rightarrow> if length token < 32 then Throw ''SCHEDULER_INTERNAL_TOKEN must contain at least 32 characters.''
          else Return token)"

section \<open>The storage root\<close>

definition PRODUCTION_STORAGE_ROOT :: path where
  "PRODUCTION_STORAGE_ROOT = [''var'', ''lib'', ''pantaetl'', ''storage'']"

definition DEVELOPMENT_STORAGE_DIRECTORY :: string where
  "DEVELOPMENT_STORAGE_DIRECTORY = ''storage''"

definition WORKSPACE_MARKER :: string where
  "WORKSPACE_MARKER = ''pnpm-workspace.yaml''"

datatype RuntimeEnvironment = Development | Production

definition resolveRuntimeEnvironment :: "environment \<Rightarrow> RuntimeEnvironment" where
  "resolveRuntimeEnvironment env =
     (if map_option (\<lambda>v. js_toLowerCase (js_trim v)) (env ''PANTAETL_ENV'') = Some ''development''
      then Development else Production)"

text \<open>Where a service runs: its working directory, the module's directory and the existing files.\<close>

record host =
  ho_cwd :: path
  ho_moduleDirectory :: path
  ho_exists :: "path \<Rightarrow> bool"

function workspaceRootFrom :: "host \<Rightarrow> path \<Rightarrow> path" where
  "workspaceRootFrom h directory =
     (if ho_exists h (directory @ [WORKSPACE_MARKER]) then directory
      else let parent = butlast directory
           in if parent = directory then ho_cwd h else workspaceRootFrom h parent)"
  by pat_completeness auto

termination
  by (relation "measure (\<lambda>(h, directory). length directory)") (auto simp: butlast_conv_take)

declare workspaceRootFrom.simps [simp del]

definition workspaceRoot :: "host \<Rightarrow> path" where
  "workspaceRoot h = workspaceRootFrom h (ho_moduleDirectory h)"

definition resolveStorageRoot :: "host \<Rightarrow> environment \<Rightarrow> path" where
  "resolveStorageRoot h env =
     (case map_option js_trim (env ''STORAGE_ROOT'') of
        Some (c # configured) \<Rightarrow> node_resolve (ho_cwd h) (c # configured)
      | _ \<Rightarrow>
          if resolveRuntimeEnvironment env = Development then workspaceRoot h @ [DEVELOPMENT_STORAGE_DIRECTORY]
          else PRODUCTION_STORAGE_ROOT)"

section \<open>Configurations\<close>

record CollectorConfig =
  gc_cleanupBatchSize :: int
  gc_cleanupIntervalMilliseconds :: js_number
  gc_databaseUrl :: string
  gc_host :: string
  gc_port :: int
  gc_serviceName :: string
  gc_storageRoot :: path

definition loadCollectorConfig :: "host \<Rightarrow> environment \<Rightarrow> string \<Rightarrow> int \<Rightarrow> (string, CollectorConfig) result" where
  "loadCollectorConfig h env serviceName defaultPort =
     bind_res (readPositiveInteger (env ''GC_INTERVAL_SECONDS'') 60 ''GC_INTERVAL_SECONDS'') (\<lambda>cleanupIntervalSeconds.
     bind_res (readPositiveInteger (env ''GC_BATCH_SIZE'') 100 ''GC_BATCH_SIZE'') (\<lambda>cleanupBatchSize.
     bind_res (readCollectorDatabaseUrl (env ''DATABASE_URL'')) (\<lambda>databaseUrl.
     bind_res (readPort (env ''PORT'') defaultPort) (\<lambda>port.
     Return \<lparr>gc_cleanupBatchSize = cleanupBatchSize,
       gc_cleanupIntervalMilliseconds = roundDouble (of_int cleanupIntervalSeconds * 1000),
       gc_databaseUrl = databaseUrl, gc_host = (case env ''HOST'' of None \<Rightarrow> ''127.0.0.1'' | Some x \<Rightarrow> x),
       gc_port = port, gc_serviceName = serviceName, gc_storageRoot = resolveStorageRoot h env\<rparr>))))"

record SchedulerConfig =
  sv_databaseUrl :: string
  sv_host :: string
  sv_internalToken :: string
  sv_port :: int
  sv_serviceName :: string

definition loadSchedulerConfig :: "environment \<Rightarrow> string \<Rightarrow> int \<Rightarrow> (string, SchedulerConfig) result" where
  "loadSchedulerConfig env serviceName defaultPort =
     bind_res (readDatabaseUrl (env ''DATABASE_URL'')) (\<lambda>databaseUrl.
     bind_res (readInternalToken (env ''SCHEDULER_INTERNAL_TOKEN'')) (\<lambda>internalToken.
     bind_res (readPort (env ''PORT'') defaultPort) (\<lambda>port.
     Return \<lparr>sv_databaseUrl = databaseUrl, sv_host = (case env ''HOST'' of None \<Rightarrow> ''127.0.0.1'' | Some x \<Rightarrow> x),
       sv_internalToken = internalToken, sv_port = port, sv_serviceName = serviceName\<rparr>)))"

record AuthConfig =
  au_databaseUrl :: string
  au_secret :: string
  au_trustedOrigins :: "string list"

definition loadAuthConfig :: "environment \<Rightarrow> (string, AuthConfig) result" where
  "loadAuthConfig env =
     (let databaseUrl = map_option js_trim (env ''DATABASE_URL'');
          secret = map_option js_trim (env ''BETTER_AUTH_SECRET'');
          origins = (case env ''BETTER_AUTH_TRUSTED_ORIGINS'' of None \<Rightarrow> []
            | Some v \<Rightarrow> filter (\<lambda>origin. length origin > 0) (map js_trim (js_split (CHR '','') v)))
      in (case databaseUrl of
            None \<Rightarrow> Throw ''DATABASE_URL is required for authentication.''
          | Some url \<Rightarrow>
              if length url = 0 then Throw ''DATABASE_URL is required for authentication.''
              else (case secret of
                      None \<Rightarrow> Throw ''BETTER_AUTH_SECRET must contain at least 32 characters.''
                    | Some s \<Rightarrow>
                        if length s < 32 then Throw ''BETTER_AUTH_SECRET must contain at least 32 characters.''
                        else Return \<lparr>au_databaseUrl = url, au_secret = s, au_trustedOrigins = origins\<rparr>)))"

text \<open>The parts of a parsed URL that the code looks at.\<close>

record parsed_url =
  pu_protocol :: string
  pu_username :: string
  pu_password :: string
  pu_pathname :: string
  pu_search :: string
  pu_hash :: string
  pu_text :: string

definition readServiceUrl ::
  "(string \<Rightarrow> parsed_url option) \<Rightarrow> string option \<Rightarrow> string \<Rightarrow> string \<Rightarrow> string \<Rightarrow> string \<Rightarrow> (string, string) result" where
  "readServiceUrl parseUrl v fallback pathname invalid refused =
     (case parseUrl (case map_option js_trim v of None \<Rightarrow> fallback | Some t \<Rightarrow> if t = [] then fallback else t) of
        None \<Rightarrow> Throw invalid
      | Some url \<Rightarrow>
          if (pu_protocol url \<noteq> ''http:'' \<and> pu_protocol url \<noteq> ''https:'') \<or> length (pu_username url) > 0 \<or>
             length (pu_password url) > 0 \<or> pu_pathname url \<noteq> pathname \<or> length (pu_search url) > 0 \<or>
             length (pu_hash url) > 0
          then Throw refused else Return (pu_text url))"

definition readSchedulerRunUrl :: "(string \<Rightarrow> parsed_url option) \<Rightarrow> string option \<Rightarrow> (string, string) result" where
  "readSchedulerRunUrl parseUrl v =
     readServiceUrl parseUrl v ''http://127.0.0.1:3010/internal/pipeline-runs'' ''/internal/pipeline-runs''
       ''SCHEDULER_RUN_URL must be a valid internal scheduler URL.''
       ''SCHEDULER_RUN_URL must be a credential-free HTTP URL ending in /internal/pipeline-runs.''"

definition loadPipelineSchedulerConfig ::
  "(string \<Rightarrow> parsed_url option) \<Rightarrow> environment \<Rightarrow> (string, PipelineSchedulerConfig \<times> string) result" where
  "loadPipelineSchedulerConfig parseUrl env =
     bind_res (readInternalToken (env ''SCHEDULER_INTERNAL_TOKEN'')) (\<lambda>internalToken.
     bind_res (readSchedulerRunUrl parseUrl (env ''SCHEDULER_RUN_URL'')) (\<lambda>runUrl.
     Return (\<lparr>sc_internalToken = internalToken\<rparr>, runUrl)))"

definition readHealthUrl ::
  "(string \<Rightarrow> parsed_url option) \<Rightarrow> string option \<Rightarrow> string \<Rightarrow> string \<Rightarrow> (string, string) result" where
  "readHealthUrl parseUrl v variableName fallback =
     readServiceUrl parseUrl v fallback ''/health'' (variableName @ '' must be a valid HTTP health URL.'')
       (variableName @ '' must be a credential-free HTTP health URL ending in /health.'')"

record SystemHealthConfig =
  hc_garbageCollectorHealthUrl :: string
  hc_schedulerHealthUrl :: string
  hc_storageRoot :: path
  hc_workerHealthUrl :: string

definition loadSystemHealthConfig ::
  "(string \<Rightarrow> parsed_url option) \<Rightarrow> host \<Rightarrow> environment \<Rightarrow> (string, SystemHealthConfig) result" where
  "loadSystemHealthConfig parseUrl h env =
     bind_res (readHealthUrl parseUrl (env ''GARBAGE_COLLECTOR_HEALTH_URL'') ''GARBAGE_COLLECTOR_HEALTH_URL''
       ''http://127.0.0.1:3011/health'') (\<lambda>garbageCollectorHealthUrl.
     bind_res (readHealthUrl parseUrl (env ''SCHEDULER_HEALTH_URL'') ''SCHEDULER_HEALTH_URL''
       ''http://127.0.0.1:3010/health'') (\<lambda>schedulerHealthUrl.
     bind_res (readHealthUrl parseUrl (env ''WORKER_HEALTH_URL'') ''WORKER_HEALTH_URL''
       ''http://127.0.0.1:3020/health'') (\<lambda>workerHealthUrl.
     Return \<lparr>hc_garbageCollectorHealthUrl = garbageCollectorHealthUrl, hc_schedulerHealthUrl = schedulerHealthUrl,
       hc_storageRoot = resolveStorageRoot h env, hc_workerHealthUrl = workerHealthUrl\<rparr>)))"

text \<open>
  The delay of a Node timer: a delay below one millisecond or above the range of a 32-bit signed
  integer becomes one millisecond.
\<close>

definition timerDelay :: "js_number \<Rightarrow> int" where
  "timerDelay delay = (case delay of Finite x \<Rightarrow> if 1 \<le> x \<and> x \<le> 2147483647 then \<lfloor>x\<rfloor> else 1 | _ \<Rightarrow> 1)"

section \<open>Lemmas\<close>

lemma pow2_nonpos: "e \<le> 0 \<Longrightarrow> x / pow2 e = x * 2 ^ nat (- e)"
  by (cases "e = 0") (simp_all add: pow2_def)

lemma pow2_pos: "0 < pow2 e"
  by (simp add: pow2_def)

lemma roundHalfEven_int [simp]: "roundHalfEven (of_int n) = n"
  by (simp add: roundHalfEven_def)

lemma quotient_of_nat: "quotient_of (of_nat n) = (int n, 1)"
  using quotient_of_int [of "int n"] by (simp add: of_nat_of_int_iff)

text \<open>A natural number has the exponent that its number of bits requires.\<close>

lemma doubleExponent_nat:
  assumes "0 < n"
  shows "doubleExponent (of_nat n) = int (floorlog 2 n) - 53"
proof -
  let ?l = "floorlog 2 n"
  have low: "2 ^ (?l - 1) \<le> n" using floorlog_bounds [of n 2] assms by simp
  have pos: "0 < ?l" using assms by (subst compute_floorlog) simp
  have one: "floorlog 2 (Suc 0) = 1" by (simp add: compute_floorlog)
  have "\<not> (of_nat n :: rat) / pow2 (int ?l - 1 - 53) < 2 ^ 53"
  proof (cases "?l \<le> 54")
    case True
    then have "(2::rat) ^ 53 = 2 ^ (?l - 1) * 2 ^ (54 - ?l)" using pos by (simp add: power_add [symmetric])
    also have "\<dots> \<le> of_nat n * 2 ^ (54 - ?l)"
      using low by (intro mult_right_mono) (metis of_nat_le_iff of_nat_numeral of_nat_power, simp)
    finally show ?thesis using True by (simp add: pow2_nonpos nat_diff_distrib)
  next
    case False
    then have "?l - 1 = 53 + (?l - 54)" by simp
    then have "(2::rat) ^ 53 * 2 ^ (?l - 54) = 2 ^ (?l - 1)" by (simp only: power_add)
    also have "\<dots> \<le> of_nat n" using low by (metis of_nat_le_iff of_nat_numeral of_nat_power)
    finally show ?thesis using False by (simp add: pow2_def not_less pos_le_divide_eq nat_diff_distrib)
  qed
  with pos one show ?thesis by (simp add: doubleExponent_def quotient_of_nat)
qed

lemma roundDouble_exact:
  assumes "n < 2 ^ 53"
  shows "roundDouble (of_nat n) = Finite (of_nat n)"
proof (cases "n = 0")
  case False
  let ?e = "doubleExponent (of_nat n)"
  have "?e \<le> 0" using doubleExponent_nat [of n] floorlog_leI [OF assms] False by simp
  then have "(of_nat n :: rat) / pow2 ?e = of_int (int (n * 2 ^ nat (- ?e)))" by (simp add: pow2_nonpos)
  then obtain k :: int where k: "(of_nat n :: rat) / pow2 ?e = of_int k" by blast
  then have "of_int (roundHalfEven (of_nat n / pow2 ?e)) = (of_nat n :: rat) / pow2 ?e"
    by (simp only: k roundHalfEven_int)
  then have "of_int (roundHalfEven (of_nat n / pow2 ?e)) * pow2 ?e = (of_nat n :: rat)"
    using pow2_pos [of ?e] by simp
  moreover have "\<not> (2::rat) ^ 1024 \<le> of_nat n"
  proof -
    have "(of_nat n :: rat) < 2 ^ 53" using assms by (metis of_nat_less_iff of_nat_numeral of_nat_power)
    also have "\<dots> \<le> 2 ^ 1024" by (rule power_increasing) simp_all
    finally show ?thesis by simp
  qed
  ultimately show ?thesis using False by (simp add: roundDouble_def)
qed (simp add: roundDouble_def)

lemma floor_le_roundHalfEven: "\<lfloor>x\<rfloor> \<le> roundHalfEven x"
  by (simp add: roundHalfEven_def Let_def)

text \<open>A larger natural number keeps at least half of its value.\<close>

lemma roundDouble_large:
  assumes "2 ^ 53 \<le> n"
  shows "roundDouble (of_nat n) = PosInfinity \<or> (\<exists>r. roundDouble (of_nat n) = Finite r \<and> of_nat n \<le> 2 * r)"
proof -
  let ?l = "floorlog 2 n" let ?e = "doubleExponent (of_nat n)"
  let ?r = "of_int (roundHalfEven (of_nat n / pow2 ?e)) * pow2 ?e :: rat"
  have n: "0 < n" using assms by (rule less_le_trans [rotated]) simp
  have "53 < ?l"
  proof (rule ccontr)
    assume "\<not> 53 < ?l"
    then have "(2::nat) ^ ?l \<le> 2 ^ 53" by (intro power_increasing) simp_all
    with floorlog_bounds [of n 2] n assms show False by simp
  qed
  then have e: "pow2 ?e = 2 ^ (?l - 53)" using n by (simp add: doubleExponent_nat pow2_def nat_diff_distrib)
  have "(2::rat) * 2 ^ (?l - 53) \<le> 2 ^ (?l - 1)"
    using \<open>53 < ?l\<close> by (simp add: power_Suc [symmetric] del: power_Suc)
  also have "\<dots> \<le> of_nat n" using floorlog_bounds [of n 2] n by (metis of_nat_le_iff of_nat_numeral of_nat_power one_less_numeral_iff semiring_norm(76))
  finally have half: "2 * pow2 ?e \<le> (of_nat n :: rat)" by (simp add: e)
  have "(of_nat n :: rat) / pow2 ?e < of_int \<lfloor>(of_nat n :: rat) / pow2 ?e\<rfloor> + 1" by linarith
  also have "\<dots> \<le> of_int (roundHalfEven (of_nat n / pow2 ?e)) + 1" using floor_le_roundHalfEven by simp
  finally have "(of_nat n :: rat) < ?r + pow2 ?e"
    using pow2_pos [of ?e] by (simp add: pos_divide_less_eq distrib_right)
  with half have "of_nat n \<le> 2 * ?r" by linarith
  then show ?thesis using n by (auto simp: roundDouble_def Let_def)
qed

text \<open>The decimal form of a number below 2 to the 53 is read back exactly.\<close>

lemma digit_first: "is_digit c \<Longrightarrow> c \<noteq> CHR ''-'' \<and> c \<noteq> CHR ''+'' \<and> \<not> js_space c"
  by (auto simp: is_digit_def js_space_def code_def)

lemma trim_digits: "list_all is_digit s \<Longrightarrow> js_trim s = s"
proof -
  have d: "dropWhile js_space s = s" if "list_all is_digit s" for s
    using that by (cases s) (auto dest: digit_first)
  assume "list_all is_digit s"
  then show ?thesis using d [of "rev s"] by (simp add: js_trim_def d)
qed

lemma no_radix_prefix:
  assumes "list_all is_digit s" and "\<not> is_digit c"
  shows "\<not> js_startsWith s [d, c]"
proof
  assume "js_startsWith s [d, c]"
  then have "take (length [d, c]) s = [d, c]" by (simp only: js_startsWith_def)
  then have "c \<in> set (take (length [d, c]) s)" by (simp only:) simp
  then have "c \<in> set s" by (rule in_set_takeD)
  with assms show False by (auto simp: list_all_iff)
qed

lemma Number_decimal:
  assumes "n < 2 ^ 53"
  shows "js_Number (js_decimal n) = Finite (of_nat n)"
proof -
  let ?s = "js_decimal n"
  have ds: "list_all is_digit ?s" by (rule decimal_digits)
  have ne: "?s \<noteq> []" by (subst js_decimal.simps) simp
  then obtain c r where s: "?s = c # r" by (cases ?s) auto
  have letters: "\<not> is_digit (CHR ''x'')" "\<not> is_digit (CHR ''X'')" "\<not> is_digit (CHR ''o'')" "\<not> is_digit (CHR ''O'')"
    "\<not> is_digit (CHR ''b'')" "\<not> is_digit (CHR ''B'')" "\<not> is_digit (CHR ''I'')" by (simp_all add: is_digit_def code_def)
  have inf: "?s \<noteq> ''Infinity''" using ds letters(7) by auto
  have td: "takeDigits ?s = (?s, [])" using ds by (simp add: takeDigits_def list_all_iff)
  have "readUnsignedDecimal ?s = Finite (of_nat n)"
    using inf ne assms by (simp add: readUnsignedDecimal_def td readExponent_def decimal_value pow10_def roundDouble_exact)
  moreover have "hd ?s \<noteq> CHR ''-''" "hd ?s \<noteq> CHR ''+''" using ds s digit_first by auto
  ultimately show ?thesis
    using ne by (simp add: js_Number_def Let_def trim_digits [OF ds] no_radix_prefix [OF ds] letters)
qed

lemma js_isInteger_iff: "js_isInteger x \<longleftrightarrow> (\<exists>n. x = of_int n)"
  by (auto simp: js_isInteger_def intro: exI [of _ "\<lfloor>x\<rfloor>"] dest: sym)

lemma integerBetween_Some:
  "integerBetween v lo hi = Some n \<longleftrightarrow> v = Finite (of_int n) \<and> lo \<le> n \<and> (case hi of None \<Rightarrow> True | Some h \<Rightarrow> n \<le> h)"
proof (cases v)
  case (Finite x)
  show ?thesis
  proof (cases "js_isInteger x")
    case True
    then obtain m where "x = of_int m" by (auto simp: js_isInteger_iff)
    with Finite show ?thesis by (auto simp: integerBetween_def split: option.splits)
  qed (use Finite in \<open>auto simp: integerBetween_def\<close>)
qed (simp_all add: integerBetween_def)

lemma readPort_iff:
  "readPort v fallback = Return p \<longleftrightarrow>
     (case v of None \<Rightarrow> Finite (of_int fallback) | Some text \<Rightarrow> js_Number text) = Finite (of_int p) \<and> 1 \<le> p \<and> p \<le> 65535"
  unfolding readPort_def case_invalid_date integerBetween_Some by simp

lemma readPositiveInteger_iff:
  "readPositiveInteger v fallback name = Return n \<longleftrightarrow>
     (case v of None \<Rightarrow> Finite (of_int fallback) | Some text \<Rightarrow> js_Number text) = Finite (of_int n) \<and> 1 \<le> n"
  unfolding readPositiveInteger_def case_invalid_date integerBetween_Some by simp

text \<open>
  The search for the workspace root ends at the nearest directory above the module that holds the
  marker, wherever the service was started, or else in the working directory.
\<close>

definition marked :: "host \<Rightarrow> path \<Rightarrow> bool" where
  "marked h directory \<longleftrightarrow> ho_exists h (directory @ [WORKSPACE_MARKER])"

lemma workspaceRoot_nearest:
  "(\<exists>k\<le>length directory. workspaceRootFrom h directory = take k directory \<and> marked h (take k directory) \<and>
      (\<forall>j. k < j \<and> j \<le> length directory \<longrightarrow> \<not> marked h (take j directory))) \<or>
   (\<forall>j\<le>length directory. \<not> marked h (take j directory)) \<and> workspaceRootFrom h directory = ho_cwd h"
proof (induction directory rule: rev_induct)
  case Nil
  show ?case by (subst (1 2) workspaceRootFrom.simps) (simp add: marked_def)
next
  case (snoc d ds)
  show ?case
  proof (cases "marked h (ds @ [d])")
    case True
    then have "workspaceRootFrom h (ds @ [d]) = ds @ [d]" by (subst workspaceRootFrom.simps) (simp add: marked_def)
    with True show ?thesis by (intro disjI1 exI [of _ "length (ds @ [d])"]) auto
  next
    case False
    then have up: "workspaceRootFrom h (ds @ [d]) = workspaceRootFrom h ds"
      by (subst workspaceRootFrom.simps) (simp add: marked_def Let_def)
    have le: "j \<le> length (ds @ [d]) \<longleftrightarrow> j \<le> length ds \<or> j = length (ds @ [d])" for j by auto
    have tk: "j \<le> length ds \<Longrightarrow> take j (ds @ [d]) = take j ds" for j by simp
    from snoc.IH show ?thesis
    proof (elim disjE exE conjE)
      fix k assume "k \<le> length ds" "workspaceRootFrom h ds = take k ds" "marked h (take k ds)"
        "\<forall>j. k < j \<and> j \<le> length ds \<longrightarrow> \<not> marked h (take j ds)"
      with up False show ?thesis unfolding le by (intro disjI1 exI [of _ k]) (auto simp: tk)
    next
      assume "\<forall>j\<le>length ds. \<not> marked h (take j ds)" "workspaceRootFrom h ds = ho_cwd h"
      with up False show ?thesis unfolding le by (intro disjI2) (auto simp: tk)
    qed
  qed
qed

lemma workspaceRootFrom_cong:
  assumes "ho_exists h = ho_exists h'" and "k \<le> length directory" and "marked h (take k directory)"
  shows "workspaceRootFrom h directory = workspaceRootFrom h' directory"
  using assms(2,3)
proof (induction directory rule: rev_induct)
  case Nil
  then show ?case using assms(1) by (subst (1 2) workspaceRootFrom.simps) (simp add: marked_def)
next
  case (snoc d ds)
  show ?case
  proof (cases "marked h (ds @ [d])")
    case True
    with assms(1) show ?thesis by (subst (1 2) workspaceRootFrom.simps) (simp add: marked_def)
  next
    case False
    with snoc.prems have "k \<le> length ds" by (cases "k = length (ds @ [d])") auto
    with snoc.IH snoc.prems have "workspaceRootFrom h ds = workspaceRootFrom h' ds" by simp
    with False assms(1) show ?thesis by (subst (1 2) workspaceRootFrom.simps) (simp add: marked_def Let_def)
  qed
qed

text \<open>
  A storage setting that does not depend on where a service is started: an absolute path, or none at
  all in production or in an installation whose workspace marker is found.
\<close>

definition portableStorage :: "host \<Rightarrow> environment \<Rightarrow> bool" where
  "portableStorage h env \<longleftrightarrow>
     (case map_option js_trim (env ''STORAGE_ROOT'') of
        Some (c # v) \<Rightarrow> js_startsWith (c # v) ''/''
      | _ \<Rightarrow> resolveRuntimeEnvironment env = Production \<or>
          (\<exists>k\<le>length (ho_moduleDirectory h). marked h (take k (ho_moduleDirectory h))))"

lemma resolveStorageRoot_portable:
  assumes "ho_exists h = ho_exists h'" and "ho_moduleDirectory h = ho_moduleDirectory h'" and "portableStorage h env"
  shows "resolveStorageRoot h env = resolveStorageRoot h' env"
  using assms workspaceRootFrom_cong [OF assms(1)]
  by (auto simp: portableStorage_def resolveStorageRoot_def node_resolve_def workspaceRoot_def
      split: option.splits list.splits)

lemma resolveStorageRoot_relative:
  assumes "map_option js_trim (env ''STORAGE_ROOT'') = Some (js_join ''/'' ss)" and "ss \<noteq> []"
    and "\<forall>s\<in>set ss. clean_segment s"
  shows "resolveStorageRoot h env = ho_cwd h @ ss"
proof -
  obtain c v where cv: "js_join ''/'' ss = c # v"
    using assms(2,3) by (cases ss rule: remdups_adj.cases) (auto simp: clean_segment_def neq_Nil_conv)
  with assms(1) obtain z where z: "env ''STORAGE_ROOT'' = Some z" "js_trim z = c # v" by auto
  from resolve_clean [OF assms(2,3), of "ho_cwd h"] show ?thesis
    unfolding cv by (simp add: resolveStorageRoot_def z)
qed

section \<open>Properties\<close>

text \<open>
  Ports. An accepted port is an integer from 1 to 65535, the text of every such port is
  accepted and read as that port, and the default applies exactly when the variable is missing.
\<close>

theorem port_settings:
  "(readPort v fallback = Return p \<longrightarrow> 1 \<le> p \<and> p \<le> 65535) \<and>
   (1 \<le> p \<and> p \<le> 65535 \<longrightarrow> readPort (Some (js_decimal (nat p))) fallback = Return p) \<and>
   (1 \<le> p \<and> p \<le> 65535 \<longrightarrow> readPort None p = Return p)"
proof (intro conjI impI)
  assume p: "1 \<le> p \<and> p \<le> 65535"
  then have "nat p < 2 ^ 53" by (simp add: nat_less_iff)
  from Number_decimal [OF this] p show "readPort (Some (js_decimal (nat p))) fallback = Return p"
    by (simp add: readPort_iff of_nat_nat)
qed (simp_all add: readPort_iff)

text \<open>
  The interval of the collector. With an accepted number of seconds the passes are that
  many seconds apart only up to 2147483 seconds; every larger number, although accepted, exceeds the
  range of a timer and makes the collector run every millisecond.
\<close>

theorem collector_interval_bounds:
  assumes "loadCollectorConfig h env serviceName defaultPort = Return c"
  shows "\<exists>s. readPositiveInteger (env ''GC_INTERVAL_SECONDS'') 60 ''GC_INTERVAL_SECONDS'' = Return s \<and> 1 \<le> s \<and>
    timerDelay (gc_cleanupIntervalMilliseconds c) = (if s \<le> 2147483 then s * 1000 else 1)"
proof -
  from assms obtain s where s: "readPositiveInteger (env ''GC_INTERVAL_SECONDS'') 60 ''GC_INTERVAL_SECONDS'' = Return s"
    and c: "gc_cleanupIntervalMilliseconds c = roundDouble (of_int s * 1000)"
    by (auto simp: loadCollectorConfig_def bind_res_Return_iff)
  have pos: "1 \<le> s" using s by (simp add: readPositiveInteger_iff)
  then have n: "(of_int s * 1000 :: rat) = of_nat (nat s * 1000)" by simp
  have "timerDelay (roundDouble (of_nat (nat s * 1000))) = (if s \<le> 2147483 then s * 1000 else 1)"
  proof (cases "nat s * 1000 < 2 ^ 53")
    case True
    have "\<lfloor>(of_int s * 1000 :: rat)\<rfloor> = s * 1000" by (metis floor_of_int of_int_mult of_int_numeral)
    with roundDouble_exact [OF True] pos show ?thesis by (auto simp: timerDelay_def)
  next
    case False
    then have large: "2 ^ 53 \<le> nat s * 1000" by simp
    then have s': "9007199254740 < s" by simp
    from roundDouble_large [OF large] show ?thesis
    proof
      assume "\<exists>r. roundDouble (of_nat (nat s * 1000)) = Finite r \<and> of_nat (nat s * 1000) \<le> 2 * r"
      then obtain r where r: "roundDouble (of_nat (nat s * 1000)) = Finite r" "of_nat (nat s * 1000) \<le> 2 * r" by blast
      have "(9007199254740000 :: rat) < of_nat (nat s * 1000)" using s' by simp
      with r(2) have "\<not> r \<le> 2147483647" by simp
      with r(1) s' show ?thesis by (simp add: timerDelay_def)
    qed (use s' in \<open>simp add: timerDelay_def\<close>)
  qed
  then have "timerDelay (gc_cleanupIntervalMilliseconds c) = (if s \<le> 2147483 then s * 1000 else 1)" by (simp only: c n)
  with s pos show ?thesis by blast
qed


section \<open>Witnesses\<close>

definition sampleEnvironment :: environment where
  "sampleEnvironment = map_of
     [(''STORAGE_ROOT'', ''/data''), (''DATABASE_URL'', ''postgres://db''), (''GC_INTERVAL_SECONDS'', ''3000000''),
      (''SCHEDULER_INTERNAL_TOKEN'', ''0123456789abcdef0123456789abcdef'')]"

definition sampleHost :: "string \<Rightarrow> host" where
  "sampleHost cwd = \<lparr>ho_cwd = [''srv'', cwd], ho_moduleDirectory = [''srv'', ''packages'', ''config''],
     ho_exists = (\<lambda>p. p = [''srv'', WORKSPACE_MARKER])\<rparr>"

definition sampleParseUrl :: "string \<Rightarrow> parsed_url option" where
  "sampleParseUrl text = Some \<lparr>pu_protocol = ''http:'', pu_username = [], pu_password = [],
     pu_pathname = (if js_endsWith text ''/health'' then ''/health'' else ''/internal/pipeline-runs''),
     pu_search = [], pu_hash = [], pu_text = text\<rparr>"

lemma sample_interval: "js_Number ''3000000'' = Finite 3000000"
proof -
  have "''3000000'' = js_decimal 3000000" by (simp add: js_decimal.simps) code_simp
  with Number_decimal [of 3000000] show ?thesis by simp
qed

lemma sample_settings:
  "readInternalToken (sampleEnvironment ''SCHEDULER_INTERNAL_TOKEN'') = Return ''0123456789abcdef0123456789abcdef''"
  "readDatabaseUrl (sampleEnvironment ''DATABASE_URL'') = Return ''postgres://db''"
  "readCollectorDatabaseUrl (sampleEnvironment ''DATABASE_URL'') = Return ''postgres://db''"
  "map_option js_trim (sampleEnvironment ''STORAGE_ROOT'') = Some ''/data''"
  by code_simp+

lemma sample_env:
  "sampleEnvironment ''GC_INTERVAL_SECONDS'' = Some ''3000000''" "sampleEnvironment ''GC_BATCH_SIZE'' = None"
  "sampleEnvironment ''PORT'' = None" "sampleEnvironment ''SCHEDULER_RUN_URL'' = None"
  "sampleEnvironment ''GARBAGE_COLLECTOR_HEALTH_URL'' = None" "sampleEnvironment ''SCHEDULER_HEALTH_URL'' = None"
  "sampleEnvironment ''WORKER_HEALTH_URL'' = None"
  by (simp_all add: sampleEnvironment_def)

lemma sample_numbers:
  "readPositiveInteger (sampleEnvironment ''GC_INTERVAL_SECONDS'') 60 name = Return 3000000"
  "readPositiveInteger (sampleEnvironment ''GC_BATCH_SIZE'') 100 name = Return 100"
  "readPort (sampleEnvironment ''PORT'') 3010 = Return 3010" "readPort (sampleEnvironment ''PORT'') 3011 = Return 3011"
  by (simp_all add: sample_env readPositiveInteger_iff readPort_iff sample_interval)

lemma sample_urls:
  "readSchedulerRunUrl sampleParseUrl None = Return ''http://127.0.0.1:3010/internal/pipeline-runs''"
  "readHealthUrl sampleParseUrl None ''GARBAGE_COLLECTOR_HEALTH_URL'' ''http://127.0.0.1:3011/health'' = Return ''http://127.0.0.1:3011/health''"
  "readHealthUrl sampleParseUrl None ''SCHEDULER_HEALTH_URL'' ''http://127.0.0.1:3010/health'' = Return ''http://127.0.0.1:3010/health''"
  "readHealthUrl sampleParseUrl None ''WORKER_HEALTH_URL'' ''http://127.0.0.1:3020/health'' = Return ''http://127.0.0.1:3020/health''"
  by code_simp+

lemma sample_loaded:
  "\<exists>s. loadSchedulerConfig sampleEnvironment ''scheduler'' 3010 = Return s"
  "\<exists>c. loadPipelineSchedulerConfig sampleParseUrl sampleEnvironment = Return c"
  "\<exists>c. loadCollectorConfig h sampleEnvironment ''garbage-collector'' 3011 = Return c"
  "\<exists>c. loadSystemHealthConfig sampleParseUrl h sampleEnvironment = Return c"
  by (simp_all add: loadSchedulerConfig_def loadPipelineSchedulerConfig_def loadCollectorConfig_def loadSystemHealthConfig_def
      sample_settings sample_numbers sample_env(4-7) sample_urls)

theorem port_settings_witness:
  "readPort (Some (js_decimal (nat 8080))) 3010 = Return 8080"
  using port_settings [of None 3010 8080] by simp

theorem collector_interval_bounds_witness:
  "\<exists>c. loadCollectorConfig (sampleHost ''a'') sampleEnvironment ''garbage-collector'' 3011 = Return c \<and>
     timerDelay (gc_cleanupIntervalMilliseconds c) = 1"
proof -
  obtain c where c: "loadCollectorConfig (sampleHost ''a'') sampleEnvironment ''garbage-collector'' 3011 = Return c"
    using sample_loaded(3) by blast
  with collector_interval_bounds [OF c] show ?thesis by (simp add: sample_numbers(1))
qed


end
