(* ===== verification/Migration_History.thy ===== *)
theory Migration_History
  imports Prelude
begin

text \<open>
  \<open>packages/database/scripts/adopt-migration-history.mjs\<close>: the script that runs before every
  migration and gives a development database that was built without a migration journal the journal
  entries it lacks. Each known migration has a fingerprint of schema objects; a migration whose
  fingerprint is complete is recorded as applied, an older one without any of its objects is applied,
  and an incomplete one stops the script. The files of the migrations, SHA-256 and the execution of a
  statement by PostgreSQL are arguments; what the script prints is left out.
\<close>

section \<open>Fingerprints and the catalog\<close>

record schema_catalog =
  cg_columns :: "string list"
  cg_constraints :: "string list"
  cg_enums :: "string list"
  cg_indexes :: "string list"
  cg_nullableColumns :: "string list"
  cg_tables :: "string list"

text \<open>A kind of object that a fingerprint leaves out is the empty list.\<close>

definition migrationFingerprints :: "(string, schema_catalog) js_map" where
  "migrationFingerprints = [
     (''0000_elite_shape'',
      \<lparr>cg_columns = [],
       cg_constraints = [
           ''artifacts_pipeline_id_pipelines_id_fk'', ''artifacts_run_id_runs_id_fk'',
           ''jobs_component_id_pipeline_components_id_fk'', ''jobs_pipeline_id_pipelines_id_fk'',
           ''jobs_run_id_runs_id_fk'', ''jobs_run_step_id_run_steps_id_fk'',
           ''pipeline_components_pipeline_id_pipelines_id_fk'',
           ''pipeline_edges_from_component_foreign_key'', ''pipeline_edges_pipeline_id_pipelines_id_fk'',
           ''pipeline_edges_to_component_foreign_key'', ''pipeline_triggers_pipeline_id_pipelines_id_fk'',
           ''pipelines_owner_user_id_users_id_fk'', ''run_steps_component_id_pipeline_components_id_fk'',
           ''run_steps_run_id_runs_id_fk'', ''runs_cancellation_requested_by_user_id_users_id_fk''],
       cg_enums = [
           ''artifact_storage_kind'', ''component_kind'', ''job_state'', ''pipeline_state'', ''run_state'',
           ''run_step_state'', ''trigger_type''],
       cg_indexes = [
           ''artifacts_run_id_index'', ''jobs_run_id_index'', ''pipeline_components_pipeline_id_index'',
           ''pipeline_triggers_pipeline_id_index'', ''pipelines_owner_user_id_index'',
           ''run_steps_run_id_index'', ''runs_pipeline_id_created_at_index'', ''users_email_unique'',
           ''users_username_unique''],
       cg_nullableColumns = [],
       cg_tables = [
           ''artifacts'', ''jobs'', ''pipeline_components'', ''pipeline_edges'', ''pipeline_triggers'',
           ''pipelines'', ''run_steps'', ''runs'', ''settings'', ''users'']\<rparr>),
     (''0001_fantastic_king_cobra'',
      \<lparr>cg_columns = [
           ''jobs.attempt'', ''jobs.available_at'', ''jobs.claimed_at'', ''jobs.heartbeat_at'',
           ''jobs.worker_id''],
       cg_constraints = [],
       cg_enums = [],
       cg_indexes = [
           ''jobs_eligible_work_index''],
       cg_nullableColumns = [],
       cg_tables = []\<rparr>),
     (''0002_clever_miek'',
      \<lparr>cg_columns = [
           ''artifacts.expires_at'', ''runs.expires_at''],
       cg_constraints = [
           ''datasets_pipeline_id_pipelines_id_fk'', ''datasets_run_id_runs_id_fk'',
           ''datasets_run_step_id_run_steps_id_fk'', ''run_logs_run_id_runs_id_fk'',
           ''source_checkpoints_pipeline_id_pipelines_id_fk'',
           ''source_checkpoints_source_component_foreign_key''],
       cg_enums = [],
       cg_indexes = [
           ''artifacts_expiry_index'', ''datasets_expiry_index'', ''datasets_run_id_index'',
           ''run_logs_expiry_index'', ''run_logs_run_id_index''],
       cg_nullableColumns = [],
       cg_tables = [
           ''datasets'', ''run_logs'', ''source_checkpoints'']\<rparr>),
     (''0003_dashing_black_cat'',
      \<lparr>cg_columns = [],
       cg_constraints = [
           ''connection_secrets_owner_user_id_users_id_fk''],
       cg_enums = [],
       cg_indexes = [
           ''connection_secrets_owner_user_id_index''],
       cg_nullableColumns = [],
       cg_tables = [
           ''connection_secrets'']\<rparr>),
     (''0004_misty_sersi'',
      \<lparr>cg_columns = [],
       cg_constraints = [
           ''uploads_owner_user_id_users_id_fk''],
       cg_enums = [],
       cg_indexes = [
           ''uploads_expiry_index'', ''uploads_owner_user_id_index''],
       cg_nullableColumns = [],
       cg_tables = [
           ''uploads'']\<rparr>),
     (''0005_odd_mentor'',
      \<lparr>cg_columns = [
           ''pipeline_triggers.last_claimed_at'', ''pipeline_triggers.next_run_at''],
       cg_constraints = [
           ''pipeline_triggers_schedule_fields_check''],
       cg_enums = [],
       cg_indexes = [
           ''pipeline_triggers_due_schedule_index''],
       cg_nullableColumns = [],
       cg_tables = []\<rparr>),
     (''0006_uneven_tyger_tiger'',
      \<lparr>cg_columns = [
           ''runs.is_active'', ''runs.scheduled_for'', ''runs.trigger_id''],
       cg_constraints = [
           ''runs_trigger_id_pipeline_triggers_id_fk''],
       cg_enums = [],
       cg_indexes = [
           ''runs_one_active_pipeline_index''],
       cg_nullableColumns = [],
       cg_tables = []\<rparr>),
     (''0007_soft_shriek'',
      \<lparr>cg_columns = [
           ''users.email_verified''],
       cg_constraints = [
           ''accounts_user_id_users_id_fk'', ''sessions_user_id_users_id_fk''],
       cg_enums = [],
       cg_indexes = [
           ''accounts_user_id_index'', ''sessions_token_unique'', ''sessions_user_id_index'',
           ''verifications_identifier_index''],
       cg_nullableColumns = [
           ''users.password_hash''],
       cg_tables = [
           ''accounts'', ''sessions'', ''verifications'']\<rparr>)]"

datatype MigrationState = MigrationAbsent | MigrationPartial | MigrationPresent

definition migrationState :: "schema_catalog \<Rightarrow> schema_catalog \<Rightarrow> MigrationState" where
  "migrationState catalog fingerprint =
     (let checks =
        [(cg_columns catalog, cg_columns fingerprint), (cg_constraints catalog, cg_constraints fingerprint),
         (cg_enums catalog, cg_enums fingerprint), (cg_indexes catalog, cg_indexes fingerprint),
         (cg_nullableColumns catalog, cg_nullableColumns fingerprint), (cg_tables catalog, cg_tables fingerprint)];
        requiredValues = concat (map snd checks);
        presentValues = concat (map (\<lambda>(available, values). filter (\<lambda>v. v \<in> set available) values) checks)
      in if length presentValues = 0 then MigrationAbsent
         else if length presentValues = length requiredValues then MigrationPresent else MigrationPartial)"

section \<open>Migrations and their journal\<close>

record migration =
  mg_createdAt :: int
  mg_contents :: string
  mg_hash :: string
  mg_index :: int
  mg_tag :: string

record journal_entry =
  je_idx :: int
  je_tag :: string
  je_when :: int

definition readMigrations ::
  "(string \<Rightarrow> string) \<Rightarrow> (string \<Rightarrow> string option) \<Rightarrow> journal_entry list \<Rightarrow> (string, migration list) result" where
  "readMigrations sha256 readFile entries =
     map_res (\<lambda>entry.
       (case readFile (je_tag entry @ ''.sql'') of
          None \<Rightarrow> Throw ''ENOENT: no such file or directory''
        | Some contents \<Rightarrow> Return \<lparr>mg_createdAt = je_when entry, mg_contents = contents, mg_hash = sha256 contents,
            mg_index = je_idx entry, mg_tag = je_tag entry\<rparr>)) entries"

text \<open>The database: its catalog, and the journal as rows of hash and time once its table exists.\<close>

record history_db =
  hd_catalog :: schema_catalog
  hd_migrationTable :: bool
  hd_journal :: "(string \<times> int) list"

definition ensureMigrationTable :: "history_db \<Rightarrow> history_db" where
  "ensureMigrationTable db = db\<lparr>hd_migrationTable := True\<rparr>"

definition recordMigration :: "migration \<Rightarrow> history_db \<Rightarrow> (string, history_db) result" where
  "recordMigration m db =
     (if hd_migrationTable db then Return (db\<lparr>hd_journal := hd_journal db @ [(mg_hash m, mg_createdAt m)]\<rparr>)
      else Throw ''relation drizzle.__drizzle_migrations does not exist'')"

text \<open>\<open>s.split(sep)\<close> for a separator of several characters.\<close>

fun js_splitAt :: "string \<Rightarrow> string \<Rightarrow> string \<Rightarrow> string list" where
  "js_splitAt sep word [] = [rev word]"
| "js_splitAt sep word (c # s) =
     (if js_startsWith (c # s) sep then rev word # js_splitAt sep [] (drop (length sep - 1) s)
      else js_splitAt sep (c # word) s)"

definition statementBreakpoint :: string where
  "statementBreakpoint = ''--> statement-breakpoint''"

type_synonym executor = "string \<Rightarrow> schema_catalog \<Rightarrow> (string, schema_catalog) result"

definition runStatements :: "executor \<Rightarrow> string \<Rightarrow> schema_catalog \<Rightarrow> (string, schema_catalog) result" where
  "runStatements unsafe contents =
     for_each (\<lambda>statement catalog. if js_trim statement \<noteq> [] then unsafe statement catalog else Return catalog)
       (js_splitAt statementBreakpoint [] contents)"

definition applyHistoricalMigration :: "executor \<Rightarrow> migration \<Rightarrow> history_db \<Rightarrow> (string, history_db) result" where
  "applyHistoricalMigration unsafe m db =
     bind_res (runStatements unsafe (mg_contents m) (hd_catalog db)) (\<lambda>catalog.
     recordMigration m (db\<lparr>hd_catalog := catalog\<rparr>))"

section \<open>Adoption\<close>

text \<open>\<open>Math.max(...values)\<close>, which is minus infinity without a value.\<close>

definition js_max :: "int list \<Rightarrow> int option" where
  "js_max vs = (case vs of [] \<Rightarrow> None | v # rest \<Rightarrow> Some (fold max rest v))"

text \<open>A loop whose statements commit one by one: a failure keeps what was committed before it.\<close>

fun commit_each :: "('a \<Rightarrow> 's \<Rightarrow> ('e, 's) result) \<Rightarrow> 'a list \<Rightarrow> 's \<Rightarrow> 's \<times> ('e, unit) result" where
  "commit_each f [] s = (s, Return ())"
| "commit_each f (x # xs) s = (case f x s of Inl e \<Rightarrow> (s, Throw e) | Inr s' \<Rightarrow> commit_each f xs s')"

definition cannotAdopt :: "string \<Rightarrow> string" where
  "cannotAdopt tag = ''Cannot adopt migration '' @ tag @
     '': its schema fingerprint is incomplete. Repair the database before applying migrations.''"

definition recordedButMissing :: "string \<Rightarrow> string" where
  "recordedButMissing tag = ''Migration '' @ tag @
     '' is recorded but its schema fingerprint is missing. Repair the database before applying migrations.''"

definition fingerprintOf :: "migration \<Rightarrow> schema_catalog option" where
  "fingerprintOf m = map_get migrationFingerprints (mg_tag m)"

definition stateOf :: "schema_catalog \<Rightarrow> migration \<Rightarrow> MigrationState" where
  "stateOf catalog m = (case fingerprintOf m of None \<Rightarrow> MigrationAbsent | Some f \<Rightarrow> migrationState catalog f)"

definition classifyMigrations ::
  "schema_catalog \<Rightarrow> string list \<Rightarrow> migration list \<Rightarrow> (string, migration list \<times> migration list) result" where
  "classifyMigrations catalog recordedHashes migrations =
     for_each (\<lambda>m (presentMigrations, absentMigrations).
       let state = stateOf catalog m in
       if state = MigrationPartial then Throw (cannotAdopt (mg_tag m))
       else if mg_hash m \<in> set recordedHashes \<and> state \<noteq> MigrationPresent then Throw (recordedButMissing (mg_tag m))
       else if state = MigrationPresent then Return (presentMigrations @ [m], absentMigrations)
       else Return (presentMigrations, absentMigrations @ [m])) migrations ([], [])"

definition adoptMigrationHistory ::
  "executor \<Rightarrow> string option \<Rightarrow> (string, migration list) result \<Rightarrow> history_db \<Rightarrow> history_db \<times> (string, unit) result" where
  "adoptMigrationHistory unsafe DATABASE_URL journal db =
     (if (case DATABASE_URL of None \<Rightarrow> True | Some url \<Rightarrow> js_trim url = [])
      then (db, Throw ''DATABASE_URL is required to prepare database migration history.'')
      else
        let existingMigrations = (if hd_migrationTable db then map fst (hd_journal db) else []) in
        (case bind_res journal (\<lambda>all.
              let migrations = filter (\<lambda>m. map_has migrationFingerprints (mg_tag m)) all in
              bind_res (classifyMigrations (hd_catalog db) existingMigrations migrations) (\<lambda>classified.
              Return (migrations, classified))) of
           Inl error \<Rightarrow> (db, Throw error)
         | Inr (migrations, presentMigrations, absentMigrations) \<Rightarrow>
             if length existingMigrations = 0 \<and> length presentMigrations = 0 then (db, Return ())
             else
               let adoptedMigrations = filter (\<lambda>m. mg_hash m \<notin> set existingMigrations) presentMigrations;
                   recordedIndexes = map mg_index (filter (\<lambda>m. mg_hash m \<in> set existingMigrations \<or>
                     m \<in> set adoptedMigrations) migrations);
                   missingHistoricalMigrations = filter (\<lambda>m.
                     (case js_max recordedIndexes of None \<Rightarrow> False | Some highest \<Rightarrow> mg_index m < highest)) absentMigrations
               in if length adoptedMigrations = 0 \<and> length missingHistoricalMigrations = 0 then (db, Return ())
                  else
                    let db = (if \<not> hd_migrationTable db then ensureMigrationTable db else db) in
                    (case commit_each recordMigration adoptedMigrations db of
                       (db, Inl error) \<Rightarrow> (db, Throw error)
                     | (db, Inr _) \<Rightarrow> commit_each (applyHistoricalMigration unsafe) missingHistoricalMigrations db)))"

section \<open>What a run does\<close>

text \<open>
  The known migrations, those already recorded, and the two groups that a run adds to the journal.
\<close>

definition knownMigrations :: "migration list \<Rightarrow> migration list" where
  "knownMigrations = filter (\<lambda>m. map_has migrationFingerprints (mg_tag m))"

definition recorded :: "history_db \<Rightarrow> string set" where
  "recorded db = fst ` set (hd_journal db)"

definition consistent_history :: "history_db \<Rightarrow> migration list \<Rightarrow> bool" where
  "consistent_history db known \<longleftrightarrow> (\<forall>m\<in>set known. stateOf (hd_catalog db) m \<noteq> MigrationPartial \<and>
     (mg_hash m \<in> recorded db \<longrightarrow> stateOf (hd_catalog db) m = MigrationPresent))"

definition adoptable :: "history_db \<Rightarrow> migration list \<Rightarrow> migration list" where
  "adoptable db known = filter (\<lambda>m. stateOf (hd_catalog db) m = MigrationPresent \<and> mg_hash m \<notin> recorded db) known"

definition overdue :: "history_db \<Rightarrow> migration list \<Rightarrow> migration list" where
  "overdue db known = filter (\<lambda>m. stateOf (hd_catalog db) m = MigrationAbsent \<and>
     (\<exists>n\<in>set known. stateOf (hd_catalog db) n = MigrationPresent \<and> mg_index m < mg_index n)) known"

definition journalRow :: "migration \<Rightarrow> string \<times> int" where
  "journalRow m = (mg_hash m, mg_createdAt m)"

lemma recorded_append [simp]:
  "recorded (db\<lparr>hd_journal := hd_journal db @ map journalRow ms\<rparr>) = recorded db \<union> mg_hash ` set ms"
  by (auto simp: recorded_def journalRow_def image_image image_Un)

lemma js_max_less:
  "(case js_max vs of None \<Rightarrow> False | Some highest \<Rightarrow> i < highest) \<longleftrightarrow> (\<exists>v\<in>set vs. i < v)"
proof (cases vs)
  case (Cons v rest)
  have "fold max rest v = Max (set (v # rest))" by (rule Max.set_eq_fold [symmetric])
  with Cons show ?thesis by (simp add: js_max_def Max_gr_iff)
qed (simp add: js_max_def)

lemma classify_loop:
  "for_each (\<lambda>m (p, a).
       let state = stateOf c m in
       if state = MigrationPartial then Throw (cannotAdopt (mg_tag m))
       else if mg_hash m \<in> set R \<and> state \<noteq> MigrationPresent then Throw (recordedButMissing (mg_tag m))
       else if state = MigrationPresent then Return (p @ [m], a)
       else Return (p, a @ [m])) ms (p0, a0) = r \<Longrightarrow>
   if \<forall>m\<in>set ms. stateOf c m \<noteq> MigrationPartial \<and> (mg_hash m \<in> set R \<longrightarrow> stateOf c m = MigrationPresent)
   then r = Return (p0 @ filter (\<lambda>m. stateOf c m = MigrationPresent) ms,
      a0 @ filter (\<lambda>m. stateOf c m = MigrationAbsent) ms)
   else \<exists>e. r = Throw e"
proof (induction ms arbitrary: p0 a0)
  case (Cons m ms)
  show ?case
  proof (cases "stateOf c m")
    case MigrationAbsent
    with Cons.prems show ?thesis
      using Cons.IH [of p0 "a0 @ [m]"] by (cases "mg_hash m \<in> set R") (auto simp: bind_res_def split: if_splits)
  next
    case MigrationPartial
    with Cons.prems show ?thesis by (auto simp: bind_res_def)
  next
    case MigrationPresent
    with Cons.prems show ?thesis
      using Cons.IH [of "p0 @ [m]" a0] by (auto simp: bind_res_def split: if_splits)
  qed
qed auto

lemma classify_result:
  assumes "set R = recorded db"
  shows "if consistent_history db ms
    then classifyMigrations (hd_catalog db) R ms =
      Return (filter (\<lambda>m. stateOf (hd_catalog db) m = MigrationPresent) ms,
              filter (\<lambda>m. stateOf (hd_catalog db) m = MigrationAbsent) ms)
    else \<exists>e. classifyMigrations (hd_catalog db) R ms = Throw e"
  using classify_loop [of "hd_catalog db" R ms "[]" "[]", OF refl]
  unfolding classifyMigrations_def consistent_history_def assms by simp

lemma record_each:
  "hd_migrationTable db \<Longrightarrow>
   commit_each recordMigration ms db = (db\<lparr>hd_journal := hd_journal db @ map journalRow ms\<rparr>, Return ())"
  by (induction ms arbitrary: db) (simp_all add: recordMigration_def journalRow_def)

lemma applyHistorical_Return:
  "applyHistoricalMigration unsafe m db = Return db' \<longleftrightarrow> hd_migrationTable db \<and>
     (\<exists>c. runStatements unsafe (mg_contents m) (hd_catalog db) = Return c \<and>
       db' = db\<lparr>hd_catalog := c, hd_journal := hd_journal db @ [journalRow m]\<rparr>)"
  by (auto simp: applyHistoricalMigration_def recordMigration_def bind_res_Return_iff journalRow_def)

lemma apply_each:
  assumes "commit_each (applyHistoricalMigration unsafe) ms db = (db', Return ())"
  shows "hd_journal db' = hd_journal db @ map journalRow ms \<and>
    for_each (\<lambda>m. runStatements unsafe (mg_contents m)) ms (hd_catalog db) = Return (hd_catalog db') \<and>
    (hd_migrationTable db \<longrightarrow> hd_migrationTable db')"
  using assms
proof (induction ms arbitrary: db)
  case (Cons m ms)
  from Cons.prems obtain db1 where "applyHistoricalMigration unsafe m db = Return db1"
    and rest: "commit_each (applyHistoricalMigration unsafe) ms db1 = (db', Return ())"
    by (auto split: sum.splits)
  then obtain c where c: "runStatements unsafe (mg_contents m) (hd_catalog db) = Return c" and table: "hd_migrationTable db"
    and db1: "db1 = db\<lparr>hd_catalog := c, hd_journal := hd_journal db @ [journalRow m]\<rparr>"
    by (auto simp: applyHistorical_Return)
  from Cons.IH [OF rest] c table show ?case by (simp add: bind_res_def db1)
qed simp

text \<open>The whole script, once its two early returns are seen to be runs with nothing to do.\<close>

lemma adopt_result:
  assumes "hd_migrationTable db \<or> hd_journal db = []" and "js_trim url \<noteq> []"
  shows "if consistent_history db (knownMigrations all)
    then adoptMigrationHistory unsafe (Some url) (Return all) db =
      (if adoptable db (knownMigrations all) = [] \<and> overdue db (knownMigrations all) = [] then (db, Return ())
       else commit_each (applyHistoricalMigration unsafe) (overdue db (knownMigrations all))
         (db\<lparr>hd_migrationTable := True, hd_journal := hd_journal db @ map journalRow (adoptable db (knownMigrations all))\<rparr>))
    else \<exists>e. adoptMigrationHistory unsafe (Some url) (Return all) db = (db, Throw e)"
proof -
  define known where "known = knownMigrations all"
  define R where "R = (if hd_migrationTable db then map fst (hd_journal db) else [])"
  let ?P = "filter (\<lambda>m. stateOf (hd_catalog db) m = MigrationPresent) known"
  let ?A = "filter (\<lambda>m. stateOf (hd_catalog db) m = MigrationAbsent) known"
  have R: "set R = recorded db" using assms(1) by (auto simp: R_def recorded_def)
  note c = classify_result [OF R, of known]
  have adopt: "filter (\<lambda>m. mg_hash m \<notin> set R) ?P = adoptable db known"
    by (simp add: adoptable_def R conj_commute)
  have idx: "filter (\<lambda>m. mg_hash m \<in> set R \<or> m \<in> set (adoptable db known)) known = ?P"
    if "consistent_history db known"
    using that by (intro filter_cong) (auto simp: R adoptable_def consistent_history_def)
  have missing: "filter (\<lambda>m. case js_max (map mg_index ?P) of None \<Rightarrow> False | Some highest \<Rightarrow> mg_index m < highest) ?A
      = overdue db known"
    by (auto simp: js_max_less overdue_def conj_commute intro!: filter_cong)
  have none: "adoptable db known = []" "overdue db known = []" if "?P = []"
    using that by (auto simp: adoptable_def overdue_def filter_empty_conv)
  have table: "(if \<not> hd_migrationTable db then ensureMigrationTable db else db) = db\<lparr>hd_migrationTable := True\<rparr>"
    by (simp add: ensureMigrationTable_def)
  have url: "(case Some url of None \<Rightarrow> True | Some url \<Rightarrow> js_trim url = []) = False" using assms(2) by simp
  show ?thesis
  proof (cases "consistent_history db known")
    case True
    with c have cls: "classifyMigrations (hd_catalog db) R known = Return (?P, ?A)" by simp
    have "adoptMigrationHistory unsafe (Some url) (Return all) db =
      (if length R = 0 \<and> length ?P = 0 then (db, Return ())
       else if length (adoptable db known) = 0 \<and> length (overdue db known) = 0 then (db, Return ())
       else commit_each (applyHistoricalMigration unsafe) (overdue db known)
         (db\<lparr>hd_migrationTable := True, hd_journal := hd_journal db @ map journalRow (adoptable db known)\<rparr>))"
      unfolding adoptMigrationHistory_def Let_def R_def [symmetric] knownMigrations_def [symmetric] url if_False
      unfolding known_def [symmetric] bind_res_def sum.case cls prod.case adopt idx [OF True] missing table
      by (simp add: record_each)
    with True none show ?thesis unfolding known_def [symmetric] by auto
  next
    case False
    with c obtain e where cls: "classifyMigrations (hd_catalog db) R known = Throw e" by auto
    have "adoptMigrationHistory unsafe (Some url) (Return all) db = (db, Throw e)"
      unfolding adoptMigrationHistory_def Let_def R_def [symmetric] knownMigrations_def [symmetric] url if_False
      unfolding known_def [symmetric] bind_res_def sum.case cls prod.case ..
    with False show ?thesis unfolding known_def by auto
  qed
qed

text \<open>The migrations that a run adds are new to the journal, and those below a recorded one are recorded.\<close>

lemma recorded_after:
  assumes "hd_journal db' = hd_journal db @ map journalRow (adoptable db known @ overdue db known)"
  shows "recorded db' = recorded db \<union> mg_hash ` set (adoptable db known) \<union> mg_hash ` set (overdue db known)"
  unfolding recorded_def assms by (auto simp: journalRow_def image_image image_Un)

lemma recorded_after_iff:
  assumes "consistent_history db known" and "distinct (map mg_hash known)" and "m \<in> set known"
    and "hd_journal db' = hd_journal db @ map journalRow (adoptable db known @ overdue db known)"
  shows "mg_hash m \<in> recorded db' \<longleftrightarrow> stateOf (hd_catalog db) m = MigrationPresent \<or> m \<in> set (overdue db known)"
proof -
  have same: "m = n" if "n \<in> set known" "mg_hash m = mg_hash n" for n
    using assms(2,3) that by (auto simp: distinct_map inj_on_def)
  have "mg_hash m \<in> mg_hash ` set (overdue db known) \<longleftrightarrow> m \<in> set (overdue db known)"
    using same by (auto simp: overdue_def)
  moreover have "mg_hash m \<in> mg_hash ` set (adoptable db known) \<longleftrightarrow>
      stateOf (hd_catalog db) m = MigrationPresent \<and> mg_hash m \<notin> recorded db"
    using same assms(3) by (auto simp: adoptable_def)
  ultimately show ?thesis
    unfolding recorded_after [OF assms(4)] using assms(1,3) by (auto simp: consistent_history_def)
qed

lemma no_gaps:
  assumes "consistent_history db known"
    and "hd_journal db' = hd_journal db @ map journalRow (adoptable db known @ overdue db known)"
    and "distinct (map mg_hash known)" and "distinct (map mg_index known)"
  shows "\<forall>m\<in>set known. \<forall>n\<in>set known. mg_hash n \<in> recorded db' \<and> mg_index m \<le> mg_index n \<longrightarrow> mg_hash m \<in> recorded db'"
proof (intro ballI impI)
  fix m n assume mn: "m \<in> set known" "n \<in> set known" and n: "mg_hash n \<in> recorded db' \<and> mg_index m \<le> mg_index n"
  note r = recorded_after_iff [OF assms(1,3) _ assms(2)]
  from n r [OF mn(2)] obtain k where k: "k \<in> set known" "stateOf (hd_catalog db) k = MigrationPresent" "mg_index m \<le> mg_index k"
    using mn(2) by (auto simp: overdue_def intro: less_imp_le dest: order.strict_trans1)
  show "mg_hash m \<in> recorded db'"
  proof (cases "stateOf (hd_catalog db) m")
    case MigrationAbsent
    with k(2) have "m \<noteq> k" by auto
    with assms(4) mn(1) k(1) have "mg_index m \<noteq> mg_index k" by (auto simp: distinct_map inj_on_def)
    with k MigrationAbsent mn(1) have "m \<in> set (overdue db known)" by (auto simp: overdue_def)
    with r [OF mn(1)] show ?thesis by simp
  qed (use assms(1) mn(1) r [OF mn(1)] in \<open>auto simp: consistent_history_def\<close>)
qed

lemma journal_distinct:
  assumes "consistent_history db known"
    and "hd_journal db' = hd_journal db @ map journalRow (adoptable db known @ overdue db known)"
    and "distinct (map mg_hash known)" and "distinct (map fst (hd_journal db))"
  shows "distinct (map fst (hd_journal db'))"
proof -
  let ?new = "adoptable db known @ overdue db known"
  have "distinct known" using assms(3) by (simp add: distinct_map)
  then have "distinct ?new" by (auto simp: adoptable_def overdue_def)
  moreover have "set ?new \<subseteq> set known" by (auto simp: adoptable_def overdue_def)
  ultimately have "distinct (map mg_hash ?new)"
    using assms(3) by (metis distinct_map inj_on_subset)
  moreover have "mg_hash m \<notin> recorded db" if "m \<in> set ?new" for m
    using that assms(1) by (auto simp: adoptable_def overdue_def consistent_history_def)
  then have "recorded db \<inter> set (map mg_hash ?new) = {}" by auto
  then have "set (map fst (hd_journal db)) \<inter> set (map mg_hash ?new) = {}" by (simp only: recorded_def set_map)
  moreover have "map fst (hd_journal db') = map fst (hd_journal db) @ map mg_hash ?new"
    unfolding assms(2) by (simp add: journalRow_def comp_def)
  ultimately show ?thesis using assms(4) by (simp only: distinct_append)
qed

text \<open>
  What is expected of the statements of a migration: applied where none of its objects exists, they
  create all of them and none of another known migration.
\<close>

definition faithful_sql :: "executor \<Rightarrow> migration list \<Rightarrow> bool" where
  "faithful_sql unsafe known \<longleftrightarrow> (\<forall>m\<in>set known. \<forall>c c'. stateOf c m = MigrationAbsent \<and>
     runStatements unsafe (mg_contents m) c = Return c' \<longrightarrow>
     (\<forall>n\<in>set known. stateOf c' n = (if n = m then MigrationPresent else stateOf c n)))"

lemma states_after:
  assumes "faithful_sql unsafe known"
    and "for_each (\<lambda>m. runStatements unsafe (mg_contents m)) ms c = Return c'"
    and "set ms \<subseteq> set known" and "distinct ms" and "\<forall>m\<in>set ms. stateOf c m = MigrationAbsent"
  shows "\<forall>n\<in>set known. stateOf c' n = (if n \<in> set ms then MigrationPresent else stateOf c n)"
  using assms(2-)
proof (induction ms arbitrary: c)
  case (Cons m ms)
  from Cons.prems(1) obtain c1 where c1: "runStatements unsafe (mg_contents m) c = Return c1"
    and rest: "for_each (\<lambda>m. runStatements unsafe (mg_contents m)) ms c1 = Return c'"
    by (auto simp: bind_res_Return_iff)
  have m: "\<forall>n\<in>set known. stateOf c1 n = (if n = m then MigrationPresent else stateOf c n)"
    using assms(1) Cons.prems(2,4) c1 unfolding faithful_sql_def by (meson list.set_intros(1) subsetD)
  with Cons.prems(2-4) have "\<forall>n\<in>set ms. stateOf c1 n = MigrationAbsent" by auto
  from Cons.IH [OF rest _ _ this] Cons.prems(2,3) m show ?case by auto
qed simp

lemma nothing_overdue:
  assumes "\<forall>n\<in>set known. stateOf (hd_catalog db') n =
      (if n \<in> set (overdue db known) then MigrationPresent else stateOf (hd_catalog db) n)"
  shows "overdue db' known = []"
proof -
  have False if "m \<in> set (overdue db' known)" for m
  proof -
    from that assms obtain n where m: "m \<in> set known" "stateOf (hd_catalog db) m = MigrationAbsent" "m \<notin> set (overdue db known)"
      and n: "n \<in> set known" "mg_index m < mg_index n"
        "stateOf (hd_catalog db) n = MigrationPresent \<or> n \<in> set (overdue db known)"
      by (auto simp: overdue_def [of db'] split: if_splits)
    then have "m \<in> set (overdue db known)" by (auto simp: overdue_def dest: order.strict_trans)
    with m(3) show False ..
  qed
  then show ?thesis by (metis ex_in_conv set_empty)
qed

section \<open>Properties\<close>


text \<open>
  Property C39: the script can run before every migration. Given that the statements of a migration
  create exactly the objects of its fingerprint, a run that returns leaves a consistent history in
  which exactly the migrations that are there are recorded up to the last of them, and another run
  returns without a change.
\<close>

theorem adoption_is_idempotent:
  assumes "hd_migrationTable db \<or> hd_journal db = []" and "js_trim url \<noteq> []"
    and "known = knownMigrations all" and "distinct (map mg_hash known)"
    and "faithful_sql unsafe known"
    and "adoptMigrationHistory unsafe (Some url) (Return all) db = (db', Return ())"
  shows "consistent_history db' known \<and>
    (\<forall>m\<in>set known. mg_hash m \<in> recorded db' \<longleftrightarrow> stateOf (hd_catalog db') m = MigrationPresent) \<and>
    adoptMigrationHistory unsafe (Some url) (Return all) db' = (db', Return ())"
proof -
  have ok: "consistent_history db known"
    using adopt_result [OF assms(1,2), of all unsafe] assms(3,6) by (auto split: if_splits)
  have run: "(if adoptable db known = [] \<and> overdue db known = [] then (db, Return ())
       else commit_each (applyHistoricalMigration unsafe) (overdue db known)
         (db\<lparr>hd_migrationTable := True, hd_journal := hd_journal db @ map journalRow (adoptable db known)\<rparr>)) = (db', Return ())"
    using adopt_result [OF assms(1,2), of all unsafe] ok assms(6) unfolding assms(3) by (simp split del: if_split)
  then have journal: "hd_journal db' = hd_journal db @ map journalRow (adoptable db known @ overdue db known)"
    and sql: "for_each (\<lambda>m. runStatements unsafe (mg_contents m)) (overdue db known) (hd_catalog db) = Return (hd_catalog db')"
    and table: "hd_migrationTable db' \<or> hd_journal db' = []"
    using assms(1) by (auto split: if_splits dest: apply_each)
  have "distinct (overdue db known)" using assms(4) by (simp add: overdue_def distinct_map)
  then have states: "\<forall>n\<in>set known. stateOf (hd_catalog db') n =
      (if n \<in> set (overdue db known) then MigrationPresent else stateOf (hd_catalog db) n)"
    by (intro states_after [OF assms(5) sql]) (auto simp: overdue_def)
  have recorded: "\<forall>m\<in>set known. mg_hash m \<in> recorded db' \<longleftrightarrow> stateOf (hd_catalog db') m = MigrationPresent"
    using states recorded_after_iff [OF ok assms(4) _ journal] by auto
  have ok': "consistent_history db' known"
    using ok states recorded by (auto simp: consistent_history_def)
  have "adoptable db' known = []" using recorded by (auto simp: adoptable_def filter_empty_conv)
  moreover have "overdue db' known = []" using states by (rule nothing_overdue)
  ultimately have "adoptMigrationHistory unsafe (Some url) (Return all) db' = (db', Return ())"
    using adopt_result [OF table assms(2), of all unsafe] ok' assms(3) by simp
  with ok' recorded show ?thesis by blast
qed

section \<open>Witnesses\<close>

text \<open>
  A database that has the objects of the fourth migration but not those of the third, and a
  PostgreSQL for which a statement names the one object that it creates.
\<close>

definition sampleExecutor :: executor where
  "sampleExecutor statement catalog =
     (case js_split (CHR '' '') (js_trim statement) of
        [kind, name] \<Rightarrow>
          Return (if kind = ''TABLE'' then catalog\<lparr>cg_tables := name # cg_tables catalog\<rparr>
             else if kind = ''INDEX'' then catalog\<lparr>cg_indexes := name # cg_indexes catalog\<rparr>
             else catalog\<lparr>cg_constraints := name # cg_constraints catalog\<rparr>)
      | _ \<Rightarrow> Throw ''syntax error'')"

definition sampleSecrets :: migration where
  "sampleSecrets = \<lparr>mg_createdAt = 3,
     mg_contents = ''TABLE connection_secrets'' @ statementBreakpoint @ ''CONSTRAINT connection_secrets_owner_user_id_users_id_fk'' @
       statementBreakpoint @ ''INDEX connection_secrets_owner_user_id_index'',
     mg_hash = ''h3'', mg_index = 3, mg_tag = ''0003_dashing_black_cat''\<rparr>"

definition sampleUploads :: migration where
  "sampleUploads = \<lparr>mg_createdAt = 4, mg_contents = ''TABLE uploads'' @ statementBreakpoint @
       ''CONSTRAINT uploads_owner_user_id_users_id_fk'' @ statementBreakpoint @ ''INDEX uploads_expiry_index'' @
       statementBreakpoint @ ''INDEX uploads_owner_user_id_index'',
     mg_hash = ''h4'', mg_index = 4, mg_tag = ''0004_misty_sersi''\<rparr>"

definition sampleLegacyDb :: history_db where
  "sampleLegacyDb = \<lparr>hd_catalog = \<lparr>cg_columns = [], cg_constraints = [''uploads_owner_user_id_users_id_fk''], cg_enums = [],
      cg_indexes = [''uploads_expiry_index'', ''uploads_owner_user_id_index''], cg_nullableColumns = [],
      cg_tables = [''uploads'']\<rparr>, hd_migrationTable = False, hd_journal = []\<rparr>"

definition sampleAdopted :: "history_db \<times> (string, unit) result" where
  "sampleAdopted = adoptMigrationHistory sampleExecutor (Some ''postgres://db'') (Return [sampleSecrets, sampleUploads]) sampleLegacyDb"

lemma sampleAdopted_journal:
  "hd_journal (fst sampleAdopted) = [(''h4'', 4), (''h3'', 3)] \<and> snd sampleAdopted = Return ()"
  by code_simp

lemma sample_known:
  "knownMigrations [sampleSecrets, sampleUploads] = [sampleSecrets, sampleUploads]"
  by code_simp

lemma sample_url: "js_trim ''postgres://db'' \<noteq> []"
  by code_simp

lemma sample_keys: "mg_hash sampleSecrets \<noteq> mg_hash sampleUploads" "mg_index sampleSecrets \<noteq> mg_index sampleUploads"
  by (simp_all add: sampleSecrets_def sampleUploads_def)

lemma sample_fingerprints:
  "fingerprintOf sampleSecrets = Some \<lparr>cg_columns = [], cg_constraints = [''connection_secrets_owner_user_id_users_id_fk''],
     cg_enums = [], cg_indexes = [''connection_secrets_owner_user_id_index''], cg_nullableColumns = [],
     cg_tables = [''connection_secrets'']\<rparr>"
  "fingerprintOf sampleUploads = Some \<lparr>cg_columns = [], cg_constraints = [''uploads_owner_user_id_users_id_fk''],
     cg_enums = [], cg_indexes = [''uploads_expiry_index'', ''uploads_owner_user_id_index''], cg_nullableColumns = [],
     cg_tables = [''uploads'']\<rparr>"
  by code_simp+

lemma sample_statements:
  "js_splitAt statementBreakpoint [] (mg_contents sampleSecrets) = [''TABLE connection_secrets'',
     ''CONSTRAINT connection_secrets_owner_user_id_users_id_fk'', ''INDEX connection_secrets_owner_user_id_index'']"
  "js_splitAt statementBreakpoint [] (mg_contents sampleUploads) = [''TABLE uploads'',
     ''CONSTRAINT uploads_owner_user_id_users_id_fk'', ''INDEX uploads_expiry_index'', ''INDEX uploads_owner_user_id_index'']"
  by code_simp+

lemma sample_words:
  "js_split (CHR '' '') (js_trim ''TABLE connection_secrets'') = [''TABLE'', ''connection_secrets'']"
  "js_split (CHR '' '') (js_trim ''CONSTRAINT connection_secrets_owner_user_id_users_id_fk'') =
     [''CONSTRAINT'', ''connection_secrets_owner_user_id_users_id_fk'']"
  "js_split (CHR '' '') (js_trim ''INDEX connection_secrets_owner_user_id_index'') =
     [''INDEX'', ''connection_secrets_owner_user_id_index'']"
  "js_split (CHR '' '') (js_trim ''TABLE uploads'') = [''TABLE'', ''uploads'']"
  "js_split (CHR '' '') (js_trim ''CONSTRAINT uploads_owner_user_id_users_id_fk'') =
     [''CONSTRAINT'', ''uploads_owner_user_id_users_id_fk'']"
  "js_split (CHR '' '') (js_trim ''INDEX uploads_expiry_index'') = [''INDEX'', ''uploads_expiry_index'']"
  "js_split (CHR '' '') (js_trim ''INDEX uploads_owner_user_id_index'') = [''INDEX'', ''uploads_owner_user_id_index'']"
  by code_simp+

lemma sampleExecutor_words:
  "js_split (CHR '' '') (js_trim s) = [kind, name] \<Longrightarrow>
   (if js_trim s \<noteq> [] then sampleExecutor s c else Return c) =
     Return (if kind = ''TABLE'' then c\<lparr>cg_tables := name # cg_tables c\<rparr>
        else if kind = ''INDEX'' then c\<lparr>cg_indexes := name # cg_indexes c\<rparr>
        else c\<lparr>cg_constraints := name # cg_constraints c\<rparr>)"
  by (cases "js_trim s = []") (simp_all add: sampleExecutor_def)

lemma sample_applied:
  "runStatements sampleExecutor (mg_contents sampleSecrets) c = Return (c\<lparr>cg_tables := ''connection_secrets'' # cg_tables c,
     cg_constraints := ''connection_secrets_owner_user_id_users_id_fk'' # cg_constraints c,
     cg_indexes := ''connection_secrets_owner_user_id_index'' # cg_indexes c\<rparr>)"
  "runStatements sampleExecutor (mg_contents sampleUploads) c = Return (c\<lparr>cg_tables := ''uploads'' # cg_tables c,
     cg_constraints := ''uploads_owner_user_id_users_id_fk'' # cg_constraints c,
     cg_indexes := ''uploads_owner_user_id_index'' # ''uploads_expiry_index'' # cg_indexes c\<rparr>)"
  unfolding runStatements_def sample_statements
  by (simp_all only: for_each.simps sampleExecutor_words [OF sample_words(1)] sampleExecutor_words [OF sample_words(2)]
      sampleExecutor_words [OF sample_words(3)] sampleExecutor_words [OF sample_words(4)]
      sampleExecutor_words [OF sample_words(5)] sampleExecutor_words [OF sample_words(6)]
      sampleExecutor_words [OF sample_words(7)] bind_res_simps) simp_all

lemma sample_faithful: "faithful_sql sampleExecutor [sampleSecrets, sampleUploads]"
proof -
  have "sampleSecrets \<noteq> sampleUploads" by (simp add: sampleSecrets_def sampleUploads_def)
  then show ?thesis
    unfolding faithful_sql_def
    by (simp add: sample_applied stateOf_def sample_fingerprints migrationState_def split: if_splits)
qed

lemma sample_run:
  "hd_migrationTable sampleLegacyDb \<or> hd_journal sampleLegacyDb = []"
  "adoptMigrationHistory sampleExecutor (Some ''postgres://db'') (Return [sampleSecrets, sampleUploads]) sampleLegacyDb =
     (fst sampleAdopted, Return ())"
  using sampleAdopted_journal by (simp_all add: sampleLegacyDb_def) (simp add: sampleAdopted_def sampleLegacyDb_def prod_eq_iff)

lemma sample_distinct:
  "distinct (map mg_hash [sampleSecrets, sampleUploads])" "distinct (map mg_index [sampleSecrets, sampleUploads])"
  by (simp_all add: sample_keys)


theorem adoption_is_idempotent_witness:
  "adoptMigrationHistory sampleExecutor (Some ''postgres://db'') (Return [sampleSecrets, sampleUploads]) (fst sampleAdopted) =
     (fst sampleAdopted, Return ())"
  using adoption_is_idempotent [OF sample_run(1) sample_url sample_known [symmetric] sample_distinct(1) sample_faithful sample_run(2)]
  by blast

end
