(* ===== verification/Spec2Isabelle.thy ===== *)
theory Spec2Isabelle
  imports Job_Queue Pipeline_Workspace System_Settings Service_Config Migration_History
begin

text \<open>
  PantaETL: a verification development of the control plane (the TypeScript code below \<open>apps\<close> and
  \<open>packages\<close>).

  \<^bold>\<open>The program.\<close> Users build pipelines of steps (Sources, Transforms, Exports) in the browser. The web
  application checks their requests against the contracts and stores pipelines with the repository of
  \<open>packages/database\<close>. A pipeline that passes the executable check can be enabled; a manual run goes
  through the internal endpoint of the scheduler, which queues it behind the active run of the
  pipeline, creates the jobs of its Sources and promotes the backlog when a run has ended. Workers
  claim jobs. The garbage collector deletes expired uploads, artifacts, datasets, logs and runs. All
  of them share one PostgreSQL database and one directory of internal storage.

  \<^bold>\<open>Conventions.\<close> A function of the sources is a definition of the same name; a field of an interface
  or a column of a table is a record field with a prefix (\<open>ps_\<close> for a pipeline step, \<open>rn_\<close> for a run);
  a suffix tells apart functions that several modules declare (\<open>webActionErrorResponse\<close>,
  \<open>parseActionErrorCode\<close>). What throws returns \<open>('e, 'a) result\<close>: \<open>Throw\<close> an error that carries the
  class and the message of the source, or \<open>Return\<close> a value. A transaction is a function on the record
  \<open>database\<close>: it returns the new database or an error, and an error leaves the old one in place, which
  is the rollback. Functions whose effects survive their error return the database beside the result
  (the HTTP handlers, the cleanup passes). Tables are lists of rows in the order of insertion; inserts
  and deletes check primary keys, unique indexes, foreign keys with their delete rules and checks.

  \<^bold>\<open>Theories, in the order of dependency.\<close>
  \<^item> \<open>Prelude\<close>: results, loops that may throw, JavaScript \<open>Map\<close> and \<open>Set\<close>, strings, ordering, the
    generic lemmas and the locales \<open>keyed_index\<close>, \<open>invariant_machine\<close>, \<open>isolated_machine\<close> and
    \<open>fifo_machine\<close>.
  \<^item> \<open>Contracts\<close>: \<open>packages/contracts/src\<close>, the types of pipelines, components, runs and jobs, the
    validators and the catalog filter. \<open>Wire_Format\<close>: their JSON documents, reading and writing, with
    \<open>additionalProperties: false\<close>, optional properties and the validators applied to what was read.
  \<^item> \<open>State_Machine\<close>, \<open>Compatibility\<close>, \<open>Topology\<close>, \<open>Executable_Validation\<close>, \<open>Portability\<close>: the
    modules of \<open>packages/pipeline/src\<close> with these names.
  \<^item> \<open>Graph_Validation\<close>: the graph check of \<open>packages/database/src/pipelines/create.ts\<close>.
    \<open>Linear_Chain\<close>: what both graph checks establish together.
  \<^item> \<open>Database\<close>: the schema of \<open>packages/database/src/schema\<close>, inserts, updates and deletes.
    \<open>Pipeline_Repository\<close> and \<open>Repository_Correctness\<close>: \<open>packages/database/src/pipelines\<close> (create,
    read, hydration, update, delete, duplicate). \<open>Pipeline_Actions\<close>: \<open>actions.ts\<close> of the same
    directory and the internal endpoint \<open>apps/scheduler/src/internal-run-route.ts\<close>.
  \<^item> \<open>Observability\<close>: \<open>observability.ts\<close>, \<open>run-log-retention.ts\<close>. \<open>Retention\<close>: \<open>retention.ts\<close>.
    \<open>Job_Queue\<close>: \<open>queue.ts\<close>, with claims of concurrent workers as interleaved steps.
  \<^item> \<open>Run_Queue\<close>, \<open>Queue_Correctness\<close>, \<open>Queue_Refinement\<close>: \<open>apps/scheduler/src/run-queue.ts\<close>, its
    invariant and its refinement of the execution state machine. \<open>Schedule_Claims\<close>:
    \<open>schedule-claims.ts\<close>. \<open>Scheduler_Correctness\<close>, \<open>Scheduler_Properties\<close>: the scheduler as a machine.
  \<^item> \<open>Storage\<close>: path resolution below the storage root. \<open>Garbage_Collector\<close>:
    \<open>apps/garbage-collector/src\<close> (cleanup passes, file deletion, repeating runtime). \<open>Uploads\<close>:
    \<open>apps/web/src/uploads\<close>, storing imports, the upload route and the claims of saved pipelines.
  \<^item> \<open>Web_Routes\<close>, \<open>Web_Correctness\<close>: the handlers of \<open>apps/web/src/pipelines\<close> and
    \<open>apps/web/src/pipeline-api\<close> with sessions, request bodies, status codes and the scheduler client.
    \<open>Web_Client\<close>: \<open>apps/web/src/data/pipelines\<close>, the clients that run in the browser, composed with
    the routes through \<open>webFetch\<close>.
  \<^item> \<open>Accounts\<close>: \<open>apps/web/src/auth\<close>, the first administrator, the first-run setup, route guards and
    API tokens. \<open>System_Settings\<close>: \<open>apps/web/src/system\<close>, global settings and the health summary.
  \<^item> \<open>Pipeline_Builder\<close>, \<open>Trigger_Draft\<close>: the state of the builder in
    \<open>apps/web/src/components/pipeline\<close>, the wizard with its saves and the editor of triggers.
    \<open>Builder_Catalog\<close>: the route and the client of the component catalog, the upload client, the
    file field and the write-only secret fields of the builder. \<open>Pipeline_Workspace\<close>: the editor of
    a stored pipeline and what the mutations do to the cached queries.
  \<^item> \<open>Service_Config\<close>: the configuration loaders of the services and
    \<open>packages/config/src/storage.ts\<close>. \<open>Migration_History\<close>:
    \<open>packages/database/scripts/adopt-migration-history.mjs\<close>.

  \<^bold>\<open>What the theorems show.\<close> (1) Invariants: over every sequence of requests, scheduler passes and
  reports of workers, the constraints of the schema, the validity of stored graphs and the queue
  discipline hold; owners never see an effect of other users. (2) The two graph checks decide exactly
  the declarative properties \<open>valid_graph\<close> and \<open>executable_pipeline\<close>, and together mean one linear
  chain. (3) Refinement: run creation and promotion implement the abstract execution state machine,
  whose runs complete in the order of arrival; the browser client implements the repository. (4)
  Progress: creation of runs, promotion and cleanup passes succeed whenever the database holds what
  they need. (5) Round trips of documents, updates, portable definitions, drafts and imports. (6)
  Errors: every refusal of the operations, and behaviour that contradicts the intention of the code
  (schedules that never become due, runs that cannot be deleted, pipelines that cannot be saved
  once they have run, edits that a finished upload undoes). (7) Operation: services that read one environment agree on token and
  storage, the retention setting reaches the runs, and adopting a migration history closes its gaps
  and is idempotent.

  \<^bold>\<open>Interfaces.\<close> \<open>invariant_machine\<close> and its extensions carry everything that follows from one step:
  they are interpreted on the execution state machine (\<open>exec\<close>), the repository (\<open>repo\<close>), the scheduler
  (\<open>scheduler\<close>, \<open>dormancy\<close>), the web application (\<open>web\<close>) and the accounts (\<open>auth\<close>, \<open>revoked\<close>).
  \<open>expiring_table\<close> is the contract between the queries of \<open>retention.ts\<close> and the cleanup passes, with
  the four tables as its interpretations. \<open>keyed_index\<close> is the contract of JavaScript maps.

  \<^bold>\<open>Parameters and what is assumed of them.\<close> The formats of zod (\<open>uuid\<close>, \<open>date-time\<close>) are a record of
  predicates without assumptions. \<open>gen_random_uuid()\<close> and \<open>crypto.randomUUID()\<close> are a function of a
  counter, injective where a theorem says so. The next occurrence of cron-parser is a function; the
  clocks (\<open>new Date()\<close>, \<open>now()\<close>) are arguments. better-auth supplies the session of a request and the
  password hash (a hash verifies exactly its own password); SHA-256 is a function, the parser of URLs too. The
  statements of a migration are executed by an argument. The client of TanStack Query is a record of
  functions with its documented laws (\<open>query_client_laws\<close>). The file system is
  a finite map with a set of denied paths; its directories have no symbolic links. PostgreSQL executes
  transactions one after the other; row locks matter in \<open>Job_Queue\<close> and are modelled there. Queries
  joined by \<open>Promise.all\<close> run in the order of the list. Workers are the environment: they may report
  any state of a run at any time.

  \<^bold>\<open>Data.\<close> JavaScript numbers are integers where the contracts require integers, within the safe range
  where the code checks it; \<open>Service_Config\<close> models the conversion of text to a double. Dates are
  milliseconds. Strings are lists of 8-bit characters, and \<open>trim\<close> and \<open>toLowerCase\<close> act on ASCII.
  Objects with dynamic keys are association lists in insertion order, and their keys are own
  properties. The segments of a URL are decoded; response headers are left out.

  \<^bold>\<open>Termination and fuel.\<close> Loops over finite data are \<open>fun\<close> or \<open>function\<close> with a measure: the worklist
  \<open>visitGraph\<close> (steps not yet seen), the chain walk (a visited set) and the search for the workspace
  root (the length of the path). \<open>orderLoop\<close>, which runs forever on cyclic graphs, is a
  \<open>partial_function\<close>, and it is proved to return for every graph that passed the write check. The
  repeating collector is a list of passes.

  \<^bold>\<open>Not modelled.\<close> Rendering (React components, \<open>packages/ui\<close>, message catalogs, the generated route
  tree), the OpenAPI document, connection handling
  (\<open>packages/database/src/client.ts\<close>), process wiring (starting and stopping servers, logging),
  \<open>scripts/development.mjs\<close> and the Python workers. They are I/O, static text or third-party code.
\<close>

section \<open>Properties across components\<close>

text \<open>
  Property C7: a graph that passes both the check on write and the check on enabling is one linear
  chain. Its steps can be listed so that the edges are exactly the pairs of neighbours, the first
  step is the only Source, the last one is the only Export, and neighbours exchange a data family
  according to the catalog.
\<close>

theorem enabled_pipelines_are_linear_chains:
  assumes "graph_ids_ok (cr_steps r)"
    and "validatePipelineGraph r = Return ()"
    and "checkPipelineExecutable \<lparr>ti_steps = cr_steps r, ti_edges = cr_edges r\<rparr> cs = Executable"
  shows "\<exists>chain. chain \<noteq> [] \<and> distinct chain \<and> set chain = ps_id ` set (cr_steps r) \<and>
    stepRelation (cr_edges r) = set (zip chain (tl chain)) \<and>
    kindIds Source (cr_steps r) = {hd chain} \<and> kindIds Export (cr_steps r) = {last chain} \<and>
    successively (compatibleSteps \<lparr>ti_steps = cr_steps r, ti_edges = cr_edges r\<rparr> cs) chain"
proof (rule executable_valid_chain)
  show v: "valid_graph (cr_steps r) (cr_edges r)"
    using assms(2) by (simp add: valid_graph_of_check [OF assms(1)])
  then have "distinct (map ps_id (ti_steps \<lparr>ti_steps = cr_steps r, ti_edges = cr_edges r\<rparr>))"
    by (simp add: valid_graph_def)
  from executable_of_check [OF this assms(3)]
  show "executable_pipeline \<lparr>ti_steps = cr_steps r, ti_edges = cr_edges r\<rparr> cs" .
qed

theorem enabled_pipelines_are_linear_chains_witness:
  "\<exists>chain. chain \<noteq> [] \<and> distinct chain \<and> set chain = ps_id ` {sampleSourceStep, sampleExportStep} \<and>
    stepRelation [sampleEdge] = set (zip chain (tl chain)) \<and>
    kindIds Source [sampleSourceStep, sampleExportStep] = {hd chain} \<and>
    kindIds Export [sampleSourceStep, sampleExportStep] = {last chain}"
proof -
  let ?r = "\<lparr>cr_contractVersion = ''v1'', cr_edges = [sampleEdge], cr_name = ''Load'',
      cr_steps = [sampleSourceStep, sampleExportStep], cr_triggers = []\<rparr>"
  have "graph_ids_ok (cr_steps ?r)" by (simp add: graph_ids_ok_def sample_defs)
  moreover have "validatePipelineGraph ?r = Return ()" by code_simp
  moreover have "checkPipelineExecutable \<lparr>ti_steps = cr_steps ?r, ti_edges = cr_edges ?r\<rparr>
      sampleCatalog = Executable"
    by (simp add: executable_iff_no_violations sample_executable)
  ultimately show ?thesis using enabled_pipelines_are_linear_chains [of ?r sampleCatalog] by auto
qed

end
